(* ===== verification/Prelude.thy ===== *)
theory Prelude
  imports Main "HOL-Library.Word" "HOL-Library.Sublist"
begin

text \<open>
  Shared vocabulary of the development: the machine integer types of the Rust code, the
  text helpers behind \<open>format!\<close> and \<open>str::contains\<close>, and the command type that every
  operation of the SDK with a \<open>Result\<close> and a side effect is written in. \<open>bindE\<close> is the
  question-mark operator: an error ends the rest of the function, the state reached so far stays.
\<close>

section \<open>Collections of rewrite rules\<close>

named_theorems cmd_simps "evaluation rules of the command combinators"
named_theorems def_simps "defining equations unfolded when an operation is evaluated"

section \<open>Machine integers\<close>

type_synonym u8 = "8 word"
type_synonym u32 = "32 word"
type_synonym u64 = "64 word"

text \<open>\<open>u64::saturating_sub\<close> and \<open>u64::saturating_mul\<close>.\<close>

definition saturating_sub :: "'a::len word \<Rightarrow> 'a word \<Rightarrow> 'a word" where
  "saturating_sub a b = (if b \<le> a then a - b else 0)"

definition saturating_mul :: "'a::len word \<Rightarrow> 'a word \<Rightarrow> 'a word" where
  "saturating_mul a b = (if unat a * unat b < 2 ^ LENGTH('a) then a * b else - 1)"

lemma unat_saturating_sub: "unat (saturating_sub a b) = unat a - unat b"
  by (auto simp: saturating_sub_def unat_sub word_le_nat_alt)

lemma unat_saturating_mul:
  "unat (saturating_mul a (b :: 'a::len word)) = min (unat a * unat b) (2 ^ LENGTH('a) - 1)"
proof (cases "unat a * unat b < 2 ^ LENGTH('a)")
  case True
  then have "unat (a * b) = unat a * unat b"
    by (simp add: unat_word_ariths)
  with True show ?thesis by (simp add: saturating_mul_def)
next
  case False
  then show ?thesis by (simp add: saturating_mul_def unsigned_minus_1_eq_mask mask_eq_exp_minus_1)
qed

lemma unat_mult_word_exact:
  "unat (a * b :: 'a::len word) = unat a * unat b \<longleftrightarrow> unat a * unat b < 2 ^ LENGTH('a)"
proof
  assume "unat (a * b) = unat a * unat b"
  with unsigned_less [of "a * b", where ?'a = nat] show "unat a * unat b < 2 ^ LENGTH('a)" by simp
next
  assume "unat a * unat b < 2 ^ LENGTH('a)"
  then show "unat (a * b) = unat a * unat b" by (simp add: unat_word_ariths)
qed

lemma unat_Suc_word:
  "unat (a :: 'a::len word) < 2 ^ LENGTH('a) - 1 \<Longrightarrow> unat (a + 1) = Suc (unat a)"
  by (simp add: unat_word_ariths)

section \<open>Text\<close>

text \<open>\<open>str::contains\<close> and the decimal text of an unsigned number, as \<open>format!\<close> prints it.\<close>

definition str_contains :: "string \<Rightarrow> string \<Rightarrow> bool" where
  "str_contains hay needle = sublist needle hay"

definition digit_char :: "nat \<Rightarrow> char" where
  "digit_char d = char_of (48 + d)"

fun show_nat :: "nat \<Rightarrow> string" where
  "show_nat n = (if n < 10 then [digit_char n] else show_nat (n div 10) @ [digit_char (n mod 10)])"

declare show_nat.simps [simp del]

definition show_word :: "'a::len word \<Rightarrow> string" where
  "show_word w = show_nat (unat w)"

fun join_strings :: "string \<Rightarrow> string list \<Rightarrow> string" where
  "join_strings sep [] = []"
| "join_strings sep [x] = x"
| "join_strings sep (x # y # xs) = x @ sep @ join_strings sep (y # xs)"

lemma str_contains_append: "str_contains (xs @ ys @ zs) ys"
  by (auto simp: str_contains_def sublist_def)

section \<open>Commands: a result with an error case, and the state reached\<close>

type_synonym ('s, 'e, 'a) cmd = "'s \<Rightarrow> ('e + 'a) \<times> 's"

definition retE :: "'a \<Rightarrow> ('s, 'e, 'a) cmd" where
  "retE x s = (Inr x, s)"

definition throwE :: "'e \<Rightarrow> ('s, 'e, 'a) cmd" where
  "throwE e s = (Inl e, s)"

definition bindE :: "('s, 'e, 'a) cmd \<Rightarrow> ('a \<Rightarrow> ('s, 'e, 'b) cmd) \<Rightarrow> ('s, 'e, 'b) cmd" where
  "bindE m f s = (case m s of (Inl e, t) \<Rightarrow> (Inl e, t) | (Inr x, t) \<Rightarrow> f x t)"

definition getE :: "('s \<Rightarrow> 'a) \<Rightarrow> ('s, 'e, 'a) cmd" where
  "getE f s = (Inr (f s), s)"

definition modifyE :: "('s \<Rightarrow> 's) \<Rightarrow> ('s, 'e, unit) cmd" where
  "modifyE f s = (Inr (), f s)"

definition liftE :: "('e + 'a) \<Rightarrow> ('s, 'e, 'a) cmd" where
  "liftE r s = (r, s)"

lemma retE_apply [simp, cmd_simps]: "retE x s = (Inr x, s)"
  by (simp add: retE_def)

lemma throwE_apply [simp, cmd_simps]: "throwE e s = (Inl e, s)"
  by (simp add: throwE_def)

lemma getE_apply [simp, cmd_simps]: "getE f s = (Inr (f s), s)"
  by (simp add: getE_def)

lemma modifyE_apply [simp, cmd_simps]: "modifyE f s = (Inr (), f s)"
  by (simp add: modifyE_def)

lemma liftE_apply [simp, cmd_simps]: "liftE r s = (r, s)"
  by (simp add: liftE_def)

lemma bindE_Inr [cmd_simps]: "m s = (Inr x, t) \<Longrightarrow> bindE m f s = f x t"
  by (simp add: bindE_def)

lemma bindE_Inl [cmd_simps]: "m s = (Inl e, t) \<Longrightarrow> bindE m f s = (Inl e, t)"
  by (simp add: bindE_def)

lemma bindE_ret [simp, cmd_simps]: "bindE (retE x) f = f x"
  by (rule ext) (simp add: bindE_def)

lemma bindE_throw [simp, cmd_simps]: "bindE (throwE e) f = throwE e"
  by (rule ext) (simp add: bindE_def)

lemma bindE_get [simp, cmd_simps]: "bindE (getE g) f s = f (g s) s"
  by (simp add: bindE_def)

lemma bindE_modify [simp, cmd_simps]: "bindE (modifyE g) f s = f () (g s)"
  by (simp add: bindE_def)

lemma bindE_assoc: "bindE (bindE m f) g = bindE m (\<lambda>x. bindE (f x) g)"
  by (rule ext) (simp add: bindE_def split: prod.splits sum.splits)

lemma bindE_eq_Inr:
  "bindE m f s = (Inr y, t) \<longleftrightarrow> (\<exists>x u. m s = (Inr x, u) \<and> f x u = (Inr y, t))"
  by (auto simp: bindE_def split: prod.splits sum.splits)

lemma bindE_eq_Inl:
  "bindE m f s = (Inl e, t) \<longleftrightarrow>
     m s = (Inl e, t) \<or> (\<exists>x u. m s = (Inr x, u) \<and> f x u = (Inl e, t))"
  by (auto simp: bindE_def split: prod.splits sum.splits)

lemma map_sum_id_eq [simp]:
  "map_sum id f q = Inl e \<longleftrightarrow> q = Inl e"
  "map_sum id f q = Inr y \<longleftrightarrow> (\<exists>x. q = Inr x \<and> y = f x)"
  by (cases q; auto)+

section \<open>Lists\<close>

lemma find_filter: "find P xs = (case filter P xs of [] \<Rightarrow> None | x # _ \<Rightarrow> Some x)"
  by (induction xs) auto

lemma find_Some_in: "find P xs = Some x \<Longrightarrow> x \<in> set xs \<and> P x"
  by (induction xs) (auto split: if_splits)

end
