(* ===== verification/Float64.thy ===== *)
theory Float64
  imports Prelude "HOL-Library.Log_Nat" Complex_Main
begin

text \<open>
  The IEEE 754 binary64 values the SDK computes with. A finite value is the rational number it
  denotes; \<open>fl\<close> rounds a rational to the nearest number with a 53-bit significand, ties to even,
  which is what one arithmetic operation of Rust's \<open>f64\<close> does to its exact result. The sign of
  zero, overflow and subnormal results do not occur in the quotients computed here (both operands
  are counts below \<open>2 ^ 64\<close>) and are not represented.
\<close>

datatype f64 = Fin rat | PosInf | NegInf | NaN

definition round_half_even :: "rat \<Rightarrow> int" where
  "round_half_even q = (let f = \<lfloor>q\<rfloor>; r = q - of_int f in
     if r < 1 / 2 then f else if 1 / 2 < r then f + 1 else if even f then f else f + 1)"

definition fl :: "rat \<Rightarrow> rat" where
  "fl x = (if x = 0 then 0 else
     (let (n, d) = quotient_of \<bar>x\<bar>;
          e0 = bitlen n - bitlen d - 53;
          e = (if \<bar>x\<bar> / (2 powi e0) < 2 ^ 53 then e0 else e0 + 1)
      in sgn x * of_int (round_half_even (\<bar>x\<bar> / 2 powi e)) * (2 powi e)))"

text \<open>\<open>n as f64 / d as f64\<close>, and the ordered comparison \<open>a > b\<close> (false when either is NaN).\<close>

definition f64_of_nat :: "nat \<Rightarrow> f64" where
  "f64_of_nat n = Fin (fl (of_nat n))"

fun f64_div :: "f64 \<Rightarrow> f64 \<Rightarrow> f64" where
  "f64_div (Fin a) (Fin b) =
     (if b = 0 then (if a = 0 then NaN else if 0 < a then PosInf else NegInf) else Fin (fl (a / b)))"
| "f64_div (Fin a) NaN = NaN"
| "f64_div (Fin a) _ = Fin 0"
| "f64_div PosInf (Fin b) = (if b < 0 then NegInf else PosInf)"
| "f64_div NegInf (Fin b) = (if b < 0 then PosInf else NegInf)"
| "f64_div _ _ = NaN"

fun f64_gt :: "f64 \<Rightarrow> f64 \<Rightarrow> bool" where
  "f64_gt (Fin a) (Fin b) = (b < a)"
| "f64_gt NaN _ = False"
| "f64_gt _ NaN = False"
| "f64_gt PosInf b = (b \<noteq> PosInf)"
| "f64_gt a NegInf = (a \<noteq> NegInf)"
| "f64_gt _ _ = False"

lemma fl_0 [simp]: "fl 0 = 0"
  by (simp add: fl_def)

lemma round_half_even_nonneg: "0 \<le> q \<Longrightarrow> 0 \<le> round_half_even q"
  by (simp add: round_half_even_def Let_def)

lemma round_half_even_ge_1:
  assumes "1 \<le> q"
  shows "1 \<le> round_half_even q"
proof -
  from assms have "1 \<le> \<lfloor>q\<rfloor>" by simp
  then show ?thesis by (simp add: round_half_even_def Let_def)
qed

lemma round_half_even_int [simp]: "round_half_even (of_int k) = k"
  by (simp add: round_half_even_def Let_def)

text \<open>The significand of a positive number has at least 53 bits: it rounds to a positive number.\<close>

lemma fl_scaled_ge:
  assumes q: "quotient_of x = (n, d)" and pos: "0 < x"
  shows "2 ^ 52 \<le> x / 2 powi (bitlen n - bitlen d - 53)"
proof -
  have x: "x = of_int n / of_int d" and d: "0 < d"
    using quotient_of_div [OF q] quotient_of_denom_pos [OF q] by auto
  with pos have n: "0 < n" by (simp add: zero_less_divide_iff)
  define a b where "a = nat (bitlen n - 1)" and "b = nat (bitlen d)"
  have bl: "bitlen n = int a + 1" "bitlen d = int b"
    using bitlen_bounds [OF n] n bitlen_nonneg [of d]
    by (cases "bitlen n \<le> 0"; simp add: a_def b_def)+
  have "2 ^ a \<le> n" using bitlen_bounds [OF n] by (simp add: a_def)
  then have n2: "(2::rat) ^ a \<le> of_int n"
    by (metis of_int_le_iff of_int_numeral of_int_power)
  have "d < 2 ^ b" using bitlen_bounds [OF d] by (simp add: b_def)
  then have d2: "of_int d \<le> (2::rat) ^ b"
    by (metis less_imp_le of_int_le_iff of_int_numeral of_int_power)
  have "(2::rat) ^ a / 2 ^ b \<le> of_int n / of_int d"
    using n2 d2 d n by (intro frac_le) auto
  then have "(2::rat) powi (int a - int b) \<le> x"
    by (simp add: x power_int_diff)
  moreover have "(2::rat) powi (int a - int b) = 2 ^ 52 * 2 powi (bitlen n - bitlen d - 53)"
  proof -
    have "(2::rat) powi (int a - int b) = 2 powi (52 + (bitlen n - bitlen d - 53))"
      by (simp add: bl)
    also have "\<dots> = 2 powi 52 * 2 powi (bitlen n - bitlen d - 53)"
      by (rule power_int_add) simp
    finally show ?thesis by simp
  qed
  ultimately show ?thesis by (simp add: field_simps)
qed

lemma fl_pos: "0 < x \<Longrightarrow> 0 < fl x"
proof -
  assume pos: "0 < x"
  obtain n d where q: "quotient_of x = (n, d)" by (cases "quotient_of x")
  define e0 where "e0 = bitlen n - bitlen d - 53"
  define e where "e = (if x / 2 powi e0 < 2 ^ 53 then e0 else e0 + 1)"
  have "1 \<le> x / 2 powi e"
  proof (cases "x / 2 powi e0 < 2 ^ 53")
    case True
    have "(1::rat) \<le> 2 ^ 52" by simp
    also have "\<dots> \<le> x / 2 powi e0" unfolding e0_def by (rule fl_scaled_ge [OF q pos])
    finally show ?thesis using True by (simp only: e_def if_True)
  next
    case False
    then have "2 \<le> x / 2 powi e0" by simp
    then show ?thesis using False by (simp add: e_def power_int_add field_simps)
  qed
  then have "0 < round_half_even (x / 2 powi e)"
    using round_half_even_ge_1 by fastforce
  then have "0 < of_int (round_half_even (x / 2 powi e)) * (2::rat) powi e" by simp
  moreover have "fl x = of_int (round_half_even (x / 2 powi e)) * 2 powi e"
    using pos q unfolding e_def e0_def by (simp add: fl_def Let_def del: power_numeral)
  ultimately show "0 < fl x" by simp
qed

section \<open>Rounding: the shape of the result, monotonicity, exactness\<close>

lemma fl_scaled_less:
  assumes q: "quotient_of x = (n, d)" and pos: "0 < x"
  shows "x / 2 powi (bitlen n - bitlen d - 53) < 2 ^ 54"
proof -
  have x: "x = of_int n / of_int d" and d: "0 < d"
    using quotient_of_div [OF q] quotient_of_denom_pos [OF q] by auto
  with pos have n: "0 < n" by (simp add: zero_less_divide_iff)
  define a b where "a = nat (bitlen n)" and "b = nat (bitlen d - 1)"
  have bl: "bitlen n = int a" "bitlen d = int b + 1"
    using bitlen_bounds [OF d] d bitlen_nonneg [of n]
    by (cases "bitlen d \<le> 0"; simp add: a_def b_def)+
  have "n < 2 ^ a" using bitlen_bounds [OF n] by (simp add: a_def)
  then have n2: "of_int n < (2::rat) ^ a"
    by (metis of_int_less_iff of_int_numeral of_int_power)
  have "2 ^ b \<le> d" using bitlen_bounds [OF d] by (simp add: b_def)
  then have d2: "(2::rat) ^ b \<le> of_int d"
    by (metis of_int_le_iff of_int_numeral of_int_power)
  have "of_int n / of_int d < (2::rat) ^ a / 2 ^ b"
    using n2 d2 d n by (intro frac_less) auto
  then have "x < (2::rat) powi (int a - int b)"
    by (simp add: x power_int_diff)
  moreover have "(2::rat) powi (int a - int b) = 2 ^ 54 * 2 powi (bitlen n - bitlen d - 53)"
  proof -
    have "(2::rat) powi (int a - int b) = 2 powi (54 + (bitlen n - bitlen d - 53))"
      by (simp add: bl)
    also have "\<dots> = 2 powi 54 * 2 powi (bitlen n - bitlen d - 53)"
      by (rule power_int_add) simp
    finally show ?thesis by simp
  qed
  ultimately show ?thesis by (simp add: field_simps)
qed

lemma fl_form:
  assumes "0 < x"
  obtains e where "2 ^ 52 \<le> x / 2 powi e" "x / 2 powi e < 2 ^ 53"
    and "fl x = of_int (round_half_even (x / 2 powi e)) * 2 powi e"
proof -
  obtain n d where q: "quotient_of x = (n, d)" by (cases "quotient_of x")
  define e0 where "e0 = bitlen n - bitlen d - 53"
  define e where "e = (if x / 2 powi e0 < 2 ^ 53 then e0 else e0 + 1)"
  have fl: "fl x = of_int (round_half_even (x / 2 powi e)) * 2 powi e"
    using assms q unfolding e_def e0_def by (simp add: fl_def Let_def del: power_numeral)
  have b: "2 ^ 52 \<le> x / 2 powi e0" "x / 2 powi e0 < 2 ^ 54"
    using fl_scaled_ge [OF q assms] fl_scaled_less [OF q assms] by (simp_all only: e0_def)
  show ?thesis
  proof (cases "x / 2 powi e0 < 2 ^ 53")
    case True
    with b(1) fl show ?thesis by (intro that [of e]) (simp_all only: e_def if_True)
  next
    case False
    have p: "(2::rat) powi (e0 + 1) = 2 powi e0 * 2" by (simp add: power_int_add)
    have half: "x / 2 powi (e0 + 1) = x / 2 powi e0 / 2" unfolding p by simp
    have "2 ^ 52 \<le> x / 2 powi (e0 + 1)" "x / 2 powi (e0 + 1) < 2 ^ 53"
      unfolding half using False b by simp_all
    with False fl show ?thesis by (intro that [of e]) (simp_all only: e_def if_False)
  qed
qed

lemma round_half_even_mono:
  assumes "p \<le> q"
  shows "round_half_even p \<le> round_half_even q"
proof -
  have f: "\<lfloor>p\<rfloor> \<le> \<lfloor>q\<rfloor>" using assms by (rule floor_mono)
  have up: "round_half_even p \<le> \<lfloor>p\<rfloor> + 1" "\<lfloor>q\<rfloor> \<le> round_half_even q"
    by (simp_all add: round_half_even_def Let_def)
  show ?thesis
  proof (cases "\<lfloor>p\<rfloor> = \<lfloor>q\<rfloor>")
    case True
    with assms show ?thesis by (auto simp: round_half_even_def Let_def)
  next
    case False
    with f up show ?thesis by linarith
  qed
qed

lemma round_half_even_bounds:
  "of_int k \<le> q \<Longrightarrow> k \<le> round_half_even q" "q \<le> of_int k \<Longrightarrow> round_half_even q \<le> k"
  using round_half_even_mono [of "of_int k" q] round_half_even_mono [of q "of_int k"] by simp_all

lemma fl_mono_pos:
  assumes "0 < x" "x \<le> y"
  shows "fl x \<le> fl y"
proof -
  have "0 < y" using assms by simp
  obtain e where e: "2 ^ 52 \<le> x / 2 powi e" "x / 2 powi e < 2 ^ 53"
    "fl x = of_int (round_half_even (x / 2 powi e)) * 2 powi e"
    using fl_form [OF assms(1)] .
  obtain g where g: "2 ^ 52 \<le> y / 2 powi g" "y / 2 powi g < 2 ^ 53"
    "fl y = of_int (round_half_even (y / 2 powi g)) * 2 powi g"
    using fl_form [OF \<open>0 < y\<close>] .
  have "e \<le> g"
  proof (rule ccontr)
    assume "\<not> e \<le> g"
    then have "(2::rat) powi (g + 1) \<le> 2 powi e" by (intro power_int_increasing) simp_all
    then have "2 ^ 53 * 2 powi g \<le> 2 ^ 52 * (2::rat) powi e" by (simp add: power_int_add)
    also have "\<dots> \<le> x" using e(1) by (simp add: field_simps)
    also have "\<dots> \<le> y" by (rule assms(2))
    also have "\<dots> < 2 ^ 53 * 2 powi g" using g(2) by (simp add: field_simps)
    finally show False by simp
  qed
  show ?thesis
  proof (cases "e = g")
    case True
    have "x / 2 powi e \<le> y / 2 powi e" using assms(2) by (simp add: divide_right_mono)
    with True e(3) g(3) round_half_even_mono show ?thesis by simp
  next
    case False
    with \<open>e \<le> g\<close> have lt: "(2::rat) powi (e + 1) \<le> 2 powi g" by (intro power_int_increasing) simp_all
    have "round_half_even (x / 2 powi e) \<le> 2 ^ 53"
      using e(2) by (intro round_half_even_bounds(2)) simp
    then have "of_int (round_half_even (x / 2 powi e)) \<le> (2::rat) ^ 53"
      by (metis of_int_le_iff of_int_numeral of_int_power)
    then have "fl x \<le> 2 ^ 53 * 2 powi e" unfolding e(3) by (intro mult_right_mono) simp_all
    also have "\<dots> = 2 ^ 52 * 2 powi (e + 1)" by (simp add: power_int_add)
    also have "\<dots> \<le> 2 ^ 52 * 2 powi g" using lt by simp
    also have "\<dots> \<le> fl y"
    proof -
      have "2 ^ 52 \<le> round_half_even (y / 2 powi g)"
        using g(1) by (intro round_half_even_bounds(1)) simp
      then have "(2::rat) ^ 52 \<le> of_int (round_half_even (y / 2 powi g))"
        by (metis of_int_le_iff of_int_numeral of_int_power)
      then show ?thesis unfolding g(3) by (intro mult_right_mono) simp_all
    qed
    finally show ?thesis .
  qed
qed

lemma fl_mono_nonneg: "0 \<le> x \<Longrightarrow> x \<le> y \<Longrightarrow> fl x \<le> fl y"
  using fl_mono_pos [of x y] fl_pos [of y] by (cases "x = 0"; cases "y = 0") auto

lemma fl_nonneg: "0 \<le> x \<Longrightarrow> 0 \<le> fl x"
  using fl_mono_nonneg [of 0 x] by simp

text \<open>Whole numbers below \<open>2 ^ 53\<close> are represented exactly.\<close>

lemma fl_exact_nat:
  assumes "n < 2 ^ 53"
  shows "fl (of_nat n) = of_nat n"
proof (cases "n = 0")
  case False
  then have pos: "0 < (of_nat n :: rat)" by simp
  obtain e where e: "2 ^ 52 \<le> of_nat n / (2::rat) powi e"
    "fl (of_nat n) = of_int (round_half_even (of_nat n / 2 powi e)) * 2 powi e"
    using fl_form [OF pos] .
  have "e \<le> 0"
  proof (rule ccontr)
    assume "\<not> e \<le> 0"
    then have "(2::rat) powi 1 \<le> 2 powi e" by (intro power_int_increasing) simp_all
    then have "2 ^ 53 \<le> 2 ^ 52 * (2::rat) powi e" by simp
    also have "\<dots> \<le> of_nat n" using e(1) by (simp add: field_simps)
    also have "(of_nat n :: rat) < 2 ^ 53" using assms by (metis of_nat_less_iff of_nat_numeral of_nat_power)
    finally show False by simp
  qed
  then obtain k where k: "e = - int k" by (metis neg_0_le_iff_le nonneg_int_cases minus_minus)
  have "of_nat n / (2::rat) powi e = of_int (int n * 2 ^ k)"
    by (simp add: k power_int_minus field_simps)
  then have "round_half_even (of_nat n / 2 powi e) = int n * 2 ^ k"
    by (simp only: round_half_even_int)
  with e(2) show ?thesis by (simp add: k power_int_minus)
qed simp

end
