(* ===== verification/Errors.thy ===== *)
theory Errors
  imports Float64
begin

text \<open>
  The error types of \<open>sdk/src/error.rs\<close>: \<open>DurableError\<close> with its constructors, the
  checkpointable \<open>ErrorObject\<close>, the classification predicates, the conversion from an error to
  the object a checkpoint stores, and the text \<open>Display\<close> gives. The lemmas say that the
  predicates separate the constructors, and that a user error survives the conversion unchanged.
\<close>

record aws_error =
  ae_code :: string
  ae_message :: string
  ae_request_id :: "string option"

datatype termination_reason =
    UnhandledError | InvocationError | ExecutionError | CheckpointFailed
  | NonDeterministicExecution | StepInterrupted | CallbackError | SerializationError
  | SizeLimitExceeded | OperationTerminated | RetryScheduled | WaitScheduled
  | CallbackPending | ContextValidationError | LambdaTimeoutApproaching

datatype durable_error =
    Execution string termination_reason
  | Invocation string termination_reason
  | Checkpoint string bool "aws_error option"
  | Callback string "string option"
  | NonDeterministic string "string option"
  | Validation string
  | SerDes string
  | Suspend "f64 option"
  | OrphanedChild string string
  | UserCode string string "string option"
  | SizeLimit string "u64 option" "u64 option"
  | Throttling string "u64 option"
  | ResourceNotFound string "string option"
  | Configuration string

record error_object =
  eo_type :: string
  eo_message :: string
  eo_stack_trace :: "string option"

section \<open>Constructors\<close>

definition error_object_new :: "string \<Rightarrow> string \<Rightarrow> error_object" where
  [def_simps]: "error_object_new ty msg = \<lparr>eo_type = ty, eo_message = msg, eo_stack_trace = None\<rparr>"

definition error_object_with_stack_trace :: "string \<Rightarrow> string \<Rightarrow> string \<Rightarrow> error_object" where
  [def_simps]: "error_object_with_stack_trace ty msg tr =
     \<lparr>eo_type = ty, eo_message = msg, eo_stack_trace = Some tr\<rparr>"

definition err_execution :: "string \<Rightarrow> durable_error" where
  [def_simps]: "err_execution msg = Execution msg ExecutionError"

definition err_invocation :: "string \<Rightarrow> durable_error" where
  [def_simps]: "err_invocation msg = Invocation msg InvocationError"

definition err_checkpoint_retriable :: "string \<Rightarrow> durable_error" where
  [def_simps]: "err_checkpoint_retriable msg = Checkpoint msg True None"

definition err_checkpoint_non_retriable :: "string \<Rightarrow> durable_error" where
  [def_simps]: "err_checkpoint_non_retriable msg = Checkpoint msg False None"

definition err_validation :: "string \<Rightarrow> durable_error" where
  [def_simps]: "err_validation msg = Validation msg"

definition err_suspend :: "durable_error" where
  [def_simps]: "err_suspend = Suspend None"

definition err_suspend_until :: "f64 \<Rightarrow> durable_error" where
  [def_simps]: "err_suspend_until ts = Suspend (Some ts)"

definition err_size_limit_with_details :: "string \<Rightarrow> u64 \<Rightarrow> u64 \<Rightarrow> durable_error" where
  [def_simps]: "err_size_limit_with_details msg actual max_size =
     SizeLimit msg (Some actual) (Some max_size)"

definition err_throttling_with_retry_delay :: "string \<Rightarrow> u64 \<Rightarrow> durable_error" where
  [def_simps]: "err_throttling_with_retry_delay msg ms = Throttling msg (Some ms)"

section \<open>Classification\<close>

fun is_retriable :: "durable_error \<Rightarrow> bool" where
  "is_retriable (Checkpoint _ r _) = r"
| "is_retriable _ = False"

fun is_suspend :: "durable_error \<Rightarrow> bool" where
  "is_suspend (Suspend _) = True"
| "is_suspend _ = False"

fun is_invalid_checkpoint_token :: "durable_error \<Rightarrow> bool" where
  "is_invalid_checkpoint_token (Checkpoint _ _ (Some ae)) =
     (ae_code ae = ''InvalidParameterValueException'' \<and>
      str_contains (ae_message ae) ''Invalid checkpoint token'')"
| "is_invalid_checkpoint_token (Checkpoint msg _ None) =
     str_contains msg ''Invalid checkpoint token''"
| "is_invalid_checkpoint_token _ = False"

fun is_size_limit :: "durable_error \<Rightarrow> bool" where
  "is_size_limit (SizeLimit _ _ _) = True"
| "is_size_limit _ = False"

fun is_throttling :: "durable_error \<Rightarrow> bool" where
  "is_throttling (Throttling _ _) = True"
| "is_throttling _ = False"

fun is_resource_not_found :: "durable_error \<Rightarrow> bool" where
  "is_resource_not_found (ResourceNotFound _ _) = True"
| "is_resource_not_found _ = False"

fun get_retry_after_ms :: "durable_error \<Rightarrow> u64 option" where
  "get_retry_after_ms (Throttling _ ms) = ms"
| "get_retry_after_ms _ = None"

section \<open>Conversions\<close>

text \<open>\<open>impl From<&DurableError> for ErrorObject\<close>.\<close>

fun error_object_from :: "durable_error \<Rightarrow> error_object" where
  "error_object_from (Execution m _) = error_object_new ''ExecutionError'' m"
| "error_object_from (Invocation m _) = error_object_new ''InvocationError'' m"
| "error_object_from (Checkpoint m _ _) = error_object_new ''CheckpointError'' m"
| "error_object_from (Callback m _) = error_object_new ''CallbackError'' m"
| "error_object_from (NonDeterministic m _) = error_object_new ''NonDeterministicExecutionError'' m"
| "error_object_from (Validation m) = error_object_new ''ValidationError'' m"
| "error_object_from (SerDes m) = error_object_new ''SerDesError'' m"
| "error_object_from (Suspend _) = error_object_new ''SuspendExecution'' ''Execution suspended''"
| "error_object_from (OrphanedChild m _) = error_object_new ''OrphanedChildError'' m"
| "error_object_from (UserCode m ty tr) = (error_object_new ty m)\<lparr>eo_stack_trace := tr\<rparr>"
| "error_object_from (SizeLimit m a b) = error_object_new ''SizeLimitExceededError''
     (case (a, b) of
        (Some actual, Some mx) \<Rightarrow>
          m @ '' (actual: '' @ show_word actual @ '' bytes, max: '' @ show_word mx @ '' bytes)''
      | _ \<Rightarrow> m)"
| "error_object_from (Throttling m r) = error_object_new ''ThrottlingError''
     (case r of Some ms \<Rightarrow> m @ '' (retry after: '' @ show_word ms @ ''ms)'' | None \<Rightarrow> m)"
| "error_object_from (ResourceNotFound m r) = error_object_new ''ResourceNotFoundError''
     (case r of Some i \<Rightarrow> m @ '' (resource: '' @ i @ '')'' | None \<Rightarrow> m)"
| "error_object_from (Configuration m) = error_object_new ''ConfigurationError'' m"

text \<open>The \<open>#[error(...)]\<close> attributes: the text of \<open>to_string()\<close>.\<close>

fun display_error :: "durable_error \<Rightarrow> string" where
  "display_error (Execution m _) = ''Execution error: '' @ m"
| "display_error (Invocation m _) = ''Invocation error: '' @ m"
| "display_error (Checkpoint m _ _) = ''Checkpoint error: '' @ m"
| "display_error (Callback m _) = ''Callback error: '' @ m"
| "display_error (NonDeterministic m _) = ''Non-deterministic execution: '' @ m"
| "display_error (Validation m) = ''Validation error: '' @ m"
| "display_error (SerDes m) = ''Serialization error: '' @ m"
| "display_error (Suspend _) = ''Suspend execution''"
| "display_error (OrphanedChild m _) = ''Orphaned child: '' @ m"
| "display_error (UserCode m _ _) = ''User code error: '' @ m"
| "display_error (SizeLimit m _ _) = ''Size limit exceeded: '' @ m"
| "display_error (Throttling m _) = ''Throttling: '' @ m"
| "display_error (ResourceNotFound m _) = ''Resource not found: '' @ m"
| "display_error (Configuration m) = ''Configuration error: '' @ m"

text \<open>\<open>impl From<Box<dyn Error>> for DurableError\<close>: the boxed error is its text.\<close>

definition user_code_error :: "string \<Rightarrow> durable_error" where
  [def_simps]: "user_code_error msg = UserCode msg ''UserCodeError'' None"

text \<open>The error a stored error object is replayed as by the handlers.\<close>

definition replayed_user_error :: "error_object \<Rightarrow> durable_error" where
  [def_simps]: "replayed_user_error e = UserCode (eo_message e) (eo_type e) (eo_stack_trace e)"

section \<open>Facts\<close>

lemma is_suspend_iff: "is_suspend e \<longleftrightarrow> (\<exists>t. e = Suspend t)"
  by (cases e) auto

lemma suspend_not_retriable: "is_suspend e \<Longrightarrow> \<not> is_retriable e \<and> \<not> is_throttling e"
  by (cases e) auto

lemma retriable_is_checkpoint: "is_retriable e \<longleftrightarrow> (\<exists>m a. e = Checkpoint m True a)"
  by (cases e) auto

lemma error_object_from_user_code:
  "replayed_user_error (error_object_from (UserCode m ty tr)) = UserCode m ty tr"
  by (simp add: def_simps)

lemma error_object_from_replayed: "error_object_from (replayed_user_error e) = e"
  by (cases e) (simp add: def_simps)

end
