(* ===== verification/Durations.thy ===== *)
theory Durations
  imports Errors
begin

text \<open>
  \<open>sdk/src/duration.rs\<close> and \<open>sdk/src/termination.rs\<close>: a duration in whole seconds held in a
  \<open>u64\<close>, its unit constructors (whose multiplication wraps in a release build), the validation
  of wait durations, and the time left before the Lambda deadline less the safety margin.
\<close>

datatype duration = Duration (to_seconds: u64)

instantiation duration :: linorder
begin

definition less_eq_duration :: "duration \<Rightarrow> duration \<Rightarrow> bool" where
  "less_eq_duration a b = (to_seconds a \<le> to_seconds b)"

definition less_duration :: "duration \<Rightarrow> duration \<Rightarrow> bool" where
  "less_duration a b = (to_seconds a < to_seconds b)"

instance
  by standard (auto simp: less_eq_duration_def less_duration_def duration.expand)

end

definition from_seconds :: "u64 \<Rightarrow> duration" where
  [def_simps]: "from_seconds s = Duration s"

definition from_minutes :: "u64 \<Rightarrow> duration" where
  [def_simps]: "from_minutes m = Duration (m * 60)"

definition from_hours :: "u64 \<Rightarrow> duration" where
  [def_simps]: "from_hours h = Duration (h * 3600)"

definition from_days :: "u64 \<Rightarrow> duration" where
  [def_simps]: "from_days d = Duration (d * 86400)"

definition from_weeks :: "u64 \<Rightarrow> duration" where
  [def_simps]: "from_weeks w = Duration (w * 604800)"

definition from_months :: "u64 \<Rightarrow> duration" where
  [def_simps]: "from_months m = Duration (m * 2592000)"

definition from_years :: "u64 \<Rightarrow> duration" where
  [def_simps]: "from_years y = Duration (y * 31536000)"

definition validate_for_wait :: "duration \<Rightarrow> durable_error + unit" where
  "validate_for_wait d =
     (if to_seconds d < 1 then Inl (Validation ''Wait duration must be at least 1 second'')
      else Inr ())"

text \<open>\<open>impl From<std::time::Duration> for Duration\<close>: a standard duration is a number of
  nanoseconds here; only its whole seconds are kept.\<close>

definition duration_from_std :: "nat \<Rightarrow> duration" where
  "duration_from_std nanos = Duration (of_nat (nanos div 1000000000))"

definition duration_into_std :: "duration \<Rightarrow> nat" where
  "duration_into_std d = unat (to_seconds d) * 1000000000"

record termination_manager =
  tm_remaining_time_ms :: u64
  tm_safety_margin_ms :: u64

definition DEFAULT_SAFETY_MARGIN_MS :: u64 where
  "DEFAULT_SAFETY_MARGIN_MS = 5000"

text \<open>\<open>from_lambda_context\<close>, over the deadline and the current time in milliseconds; a deadline
  already passed counts as zero.\<close>

definition from_lambda_context :: "nat \<Rightarrow> nat \<Rightarrow> termination_manager" where
  "from_lambda_context deadline_ms now_ms =
     \<lparr>tm_remaining_time_ms = of_nat (deadline_ms - now_ms),
      tm_safety_margin_ms = DEFAULT_SAFETY_MARGIN_MS\<rparr>"

definition remaining_ms :: "termination_manager \<Rightarrow> u64" where
  "remaining_ms tm = saturating_sub (tm_remaining_time_ms tm) (tm_safety_margin_ms tm)"

text \<open>How long \<open>wait_for_timeout\<close> sleeps; \<open>None\<close> is the return without a sleep.\<close>

definition wait_for_timeout :: "termination_manager \<Rightarrow> u64 option" where
  "wait_for_timeout tm = (let effective_ms = remaining_ms tm in
     if effective_ms = 0 then None else Some effective_ms)"

section \<open>Facts\<close>

lemma validate_for_wait_ok: "validate_for_wait d = Inr () \<longleftrightarrow> to_seconds d \<noteq> 0"
  by (auto simp: validate_for_wait_def word_le_nat_alt word_less_nat_alt unat_eq_0)

lemma duration_std_roundtrip: "duration_from_std (duration_into_std d) = d"
  by (cases d) (simp add: duration_from_std_def duration_into_std_def)

lemma remaining_ms_unat:
  "unat (remaining_ms tm) = unat (tm_remaining_time_ms tm) - unat (tm_safety_margin_ms tm)"
  by (simp add: remaining_ms_def unat_saturating_sub)

lemma from_units_exact:
  assumes "k = (60::u64) \<or> k = 3600 \<or> k = 86400 \<or> k = 604800 \<or> k = 2592000 \<or> k = 31536000"
  shows "unat (to_seconds (Duration (n * k))) = unat n * unat k \<longleftrightarrow> unat n * unat k < 2 ^ 64"
  using unat_mult_word_exact [of n k] by simp

text \<open>The timer never runs past the deadline: the sleep plus the margin is the time left.\<close>

lemma wait_for_timeout_before_deadline:
  assumes "deadline_ms - now_ms < 2 ^ 64"
    and "wait_for_timeout (from_lambda_context deadline_ms now_ms) = Some t"
  shows "now_ms + unat t + 5000 = deadline_ms"
proof -
  have t: "unat t = (deadline_ms - now_ms) - 5000" and nz: "unat t \<noteq> 0"
    using assms
    by (auto simp: wait_for_timeout_def Let_def remaining_ms_unat from_lambda_context_def
        DEFAULT_SAFETY_MARGIN_MS_def unat_of_nat unat_eq_0 split: if_splits)
  then show ?thesis by arith
qed

end
