(* ===== verification/Operations.thy ===== *)
theory Operations
  imports Durations
begin

text \<open>
  \<open>sdk/src/operation.rs\<close>: the operation a checkpoint stores, the update a checkpoint sends, the
  enumerations of both, the update constructors and their builder methods. A struct is a record
  whose fields carry the prefix of the struct (\<open>op_\<close>, \<open>up_\<close>, \<open>sd_\<close> and so on).
\<close>

datatype operation_type = ExecutionOp | StepOp | WaitOp | CallbackOp | InvokeOp | ContextOp

datatype operation_status =
  Started | Pending | Ready | Succeeded | Failed | Cancelled | TimedOut | Stopped

datatype operation_action = Start | Succeed | Fail | Cancel | Retry

record step_details =
  sd_result :: "string option"
  sd_attempt :: "u32 option"
  sd_next_attempt_timestamp :: "int option"
  sd_error :: "error_object option"
  sd_payload :: "string option"

record callback_details =
  cd_callback_id :: "string option"
  cd_result :: "string option"
  cd_error :: "error_object option"

record chained_invoke_details =
  ci_result :: "string option"
  ci_error :: "error_object option"

record context_details =
  cx_result :: "string option"
  cx_replay_children :: "bool option"
  cx_error :: "error_object option"

text \<open>\<open>ExecutionDetails\<close> and \<open>WaitDetails\<close> have one field each and are that field: the input
  payload and the scheduled end timestamp. Timestamps are \<open>i64\<close> milliseconds.\<close>

record operation =
  op_id :: string
  op_type :: operation_type
  op_status :: operation_status
  op_result :: "string option"
  op_error :: "error_object option"
  op_parent_id :: "string option"
  op_name :: "string option"
  op_sub_type :: "string option"
  op_start_timestamp :: "int option"
  op_end_timestamp :: "int option"
  op_execution_details :: "string option option"
  op_step_details :: "step_details option"
  op_wait_details :: "int option option"
  op_callback_details :: "callback_details option"
  op_chained_invoke_details :: "chained_invoke_details option"
  op_context_details :: "context_details option"

definition operation_new :: "string \<Rightarrow> operation_type \<Rightarrow> operation" where
  "operation_new i t =
     \<lparr>op_id = i, op_type = t, op_status = Started, op_result = None, op_error = None,
      op_parent_id = None, op_name = None, op_sub_type = None, op_start_timestamp = None,
      op_end_timestamp = None, op_execution_details = None, op_step_details = None,
      op_wait_details = None, op_callback_details = None, op_chained_invoke_details = None,
      op_context_details = None\<rparr>"

definition operation_with_parent_id :: "string \<Rightarrow> operation \<Rightarrow> operation" where
  [def_simps]: "operation_with_parent_id p op = op\<lparr>op_parent_id := Some p\<rparr>"

definition operation_with_name :: "string \<Rightarrow> operation \<Rightarrow> operation" where
  [def_simps]: "operation_with_name n op = op\<lparr>op_name := Some n\<rparr>"

definition operation_with_sub_type :: "string \<Rightarrow> operation \<Rightarrow> operation" where
  [def_simps]: "operation_with_sub_type t op = op\<lparr>op_sub_type := Some t\<rparr>"

section \<open>Status\<close>

definition is_terminal :: "operation_status \<Rightarrow> bool" where
  "is_terminal s = (s \<notin> {Started, Pending, Ready})"

definition status_is_success :: "operation_status \<Rightarrow> bool" where
  "status_is_success s = (s = Succeeded)"

definition status_is_failure :: "operation_status \<Rightarrow> bool" where
  "status_is_failure s = (s \<in> {Failed, Cancelled, TimedOut, Stopped})"

definition status_is_pending :: "operation_status \<Rightarrow> bool" where
  "status_is_pending s = (s = Pending)"

definition status_is_ready :: "operation_status \<Rightarrow> bool" where
  "status_is_ready s = (s = Ready)"

definition status_is_resumable :: "operation_status \<Rightarrow> bool" where
  "status_is_resumable s = (s \<in> {Started, Pending, Ready})"

definition operation_is_completed :: "operation \<Rightarrow> bool" where
  "operation_is_completed op =
     (op_status op \<in> {Succeeded, Failed, Cancelled, TimedOut, Stopped})"

definition operation_is_succeeded :: "operation \<Rightarrow> bool" where
  "operation_is_succeeded op = (op_status op = Succeeded)"

definition operation_is_failed :: "operation \<Rightarrow> bool" where
  "operation_is_failed op = (op_status op \<in> {Failed, Cancelled, TimedOut})"

fun debug_type :: "operation_type \<Rightarrow> string" where
  "debug_type ExecutionOp = ''Execution''"
| "debug_type StepOp = ''Step''"
| "debug_type WaitOp = ''Wait''"
| "debug_type CallbackOp = ''Callback''"
| "debug_type InvokeOp = ''Invoke''"
| "debug_type ContextOp = ''Context''"

fun display_status :: "operation_status \<Rightarrow> string" where
  "display_status Started = ''Started''"
| "display_status Pending = ''Pending''"
| "display_status Ready = ''Ready''"
| "display_status Succeeded = ''Succeeded''"
| "display_status Failed = ''Failed''"
| "display_status Cancelled = ''Cancelled''"
| "display_status TimedOut = ''TimedOut''"
| "display_status Stopped = ''Stopped''"

fun display_action :: "operation_action \<Rightarrow> string" where
  "display_action Start = ''Start''"
| "display_action Succeed = ''Succeed''"
| "display_action Fail = ''Fail''"
| "display_action Cancel = ''Cancel''"
| "display_action Retry = ''Retry''"

section \<open>Reading an operation\<close>

text \<open>\<open>get_result\<close>: the details of the operation's own type first, the legacy field otherwise.\<close>

definition first_some :: "'a option \<Rightarrow> 'a option \<Rightarrow> 'a option" where
  "first_some a b = (case a of Some x \<Rightarrow> Some x | None \<Rightarrow> b)"

definition get_result :: "operation \<Rightarrow> string option" where
  "get_result op = (case op_type op of
       StepOp \<Rightarrow> first_some (Option.bind (op_step_details op) sd_result) (op_result op)
     | CallbackOp \<Rightarrow> first_some (Option.bind (op_callback_details op) cd_result) (op_result op)
     | InvokeOp \<Rightarrow> first_some (Option.bind (op_chained_invoke_details op) ci_result) (op_result op)
     | ContextOp \<Rightarrow> first_some (Option.bind (op_context_details op) cx_result) (op_result op)
     | _ \<Rightarrow> op_result op)"

definition get_retry_payload :: "operation \<Rightarrow> string option" where
  "get_retry_payload op =
     (if op_type op = StepOp then Option.bind (op_step_details op) sd_payload else None)"

definition get_attempt :: "operation \<Rightarrow> u32 option" where
  "get_attempt op =
     (if op_type op = StepOp then Option.bind (op_step_details op) sd_attempt else None)"

section \<open>Updates\<close>

record callback_options =
  cbo_timeout_seconds :: "u64 option"
  cbo_heartbeat_timeout_seconds :: "u64 option"

record chained_invoke_options =
  cio_function_name :: string
  cio_tenant_id :: "string option"

text \<open>\<open>WaitOptions\<close>, \<open>StepOptions\<close> and \<open>ContextOptions\<close> have one field each and are that field.\<close>

record operation_update =
  up_id :: string
  up_action :: operation_action
  up_type :: operation_type
  up_result :: "string option"
  up_error :: "error_object option"
  up_parent_id :: "string option"
  up_name :: "string option"
  up_sub_type :: "string option"
  up_wait_options :: "u64 option"
  up_step_options :: "u64 option option"
  up_callback_options :: "callback_options option"
  up_chained_invoke_options :: "chained_invoke_options option"
  up_context_options :: "bool option option"

definition update_start :: "string \<Rightarrow> operation_type \<Rightarrow> operation_update" where
  [def_simps]: "update_start i t =
     \<lparr>up_id = i, up_action = Start, up_type = t, up_result = None, up_error = None,
      up_parent_id = None, up_name = None, up_sub_type = None, up_wait_options = None,
      up_step_options = None, up_callback_options = None, up_chained_invoke_options = None,
      up_context_options = None\<rparr>"

definition update_start_wait :: "string \<Rightarrow> u64 \<Rightarrow> operation_update" where
  [def_simps]: "update_start_wait i secs =
     \<lparr>up_id = i, up_action = Start, up_type = WaitOp, up_result = None, up_error = None,
      up_parent_id = None, up_name = None, up_sub_type = None, up_wait_options = Some secs,
      up_step_options = None, up_callback_options = None, up_chained_invoke_options = None,
      up_context_options = None\<rparr>"

definition update_succeed :: "string \<Rightarrow> operation_type \<Rightarrow> string option \<Rightarrow> operation_update" where
  [def_simps]: "update_succeed i t r =
     \<lparr>up_id = i, up_action = Succeed, up_type = t, up_result = r, up_error = None,
      up_parent_id = None, up_name = None, up_sub_type = None, up_wait_options = None,
      up_step_options = None, up_callback_options = None, up_chained_invoke_options = None,
      up_context_options = None\<rparr>"

definition update_fail :: "string \<Rightarrow> operation_type \<Rightarrow> error_object \<Rightarrow> operation_update" where
  [def_simps]: "update_fail i t e =
     \<lparr>up_id = i, up_action = Fail, up_type = t, up_result = None, up_error = Some e,
      up_parent_id = None, up_name = None, up_sub_type = None, up_wait_options = None,
      up_step_options = None, up_callback_options = None, up_chained_invoke_options = None,
      up_context_options = None\<rparr>"

definition update_cancel :: "string \<Rightarrow> operation_type \<Rightarrow> operation_update" where
  [def_simps]: "update_cancel i t =
     \<lparr>up_id = i, up_action = Cancel, up_type = t, up_result = None, up_error = None,
      up_parent_id = None, up_name = None, up_sub_type = None, up_wait_options = None,
      up_step_options = None, up_callback_options = None, up_chained_invoke_options = None,
      up_context_options = None\<rparr>"

definition update_retry ::
  "string \<Rightarrow> operation_type \<Rightarrow> string option \<Rightarrow> u64 option \<Rightarrow> operation_update" where
  [def_simps]: "update_retry i t payload delay =
     \<lparr>up_id = i, up_action = Retry, up_type = t, up_result = payload, up_error = None,
      up_parent_id = None, up_name = None, up_sub_type = None, up_wait_options = None,
      up_step_options = Some delay, up_callback_options = None,
      up_chained_invoke_options = None, up_context_options = None\<rparr>"

definition update_retry_with_error ::
  "string \<Rightarrow> operation_type \<Rightarrow> error_object \<Rightarrow> u64 option \<Rightarrow> operation_update" where
  [def_simps]: "update_retry_with_error i t e delay =
     \<lparr>up_id = i, up_action = Retry, up_type = t, up_result = None, up_error = Some e,
      up_parent_id = None, up_name = None, up_sub_type = None, up_wait_options = None,
      up_step_options = Some delay, up_callback_options = None,
      up_chained_invoke_options = None, up_context_options = None\<rparr>"

definition with_parent_id :: "string \<Rightarrow> operation_update \<Rightarrow> operation_update" where
  [def_simps]: "with_parent_id p u = u\<lparr>up_parent_id := Some p\<rparr>"

definition with_name :: "string \<Rightarrow> operation_update \<Rightarrow> operation_update" where
  [def_simps]: "with_name n u = u\<lparr>up_name := Some n\<rparr>"

definition with_sub_type :: "string \<Rightarrow> operation_update \<Rightarrow> operation_update" where
  [def_simps]: "with_sub_type t u = u\<lparr>up_sub_type := Some t\<rparr>"

definition with_wait_options :: "u64 \<Rightarrow> operation_update \<Rightarrow> operation_update" where
  [def_simps]: "with_wait_options secs u = u\<lparr>up_wait_options := Some secs\<rparr>"

definition with_step_options :: "u64 option \<Rightarrow> operation_update \<Rightarrow> operation_update" where
  [def_simps]: "with_step_options delay u = u\<lparr>up_step_options := Some delay\<rparr>"

definition with_callback_options ::
  "u64 option \<Rightarrow> u64 option \<Rightarrow> operation_update \<Rightarrow> operation_update" where
  [def_simps]: "with_callback_options t h u =
     u\<lparr>up_callback_options := Some \<lparr>cbo_timeout_seconds = t, cbo_heartbeat_timeout_seconds = h\<rparr>\<rparr>"

definition with_chained_invoke_options ::
  "string \<Rightarrow> string option \<Rightarrow> operation_update \<Rightarrow> operation_update" where
  [def_simps]: "with_chained_invoke_options f t u =
     u\<lparr>up_chained_invoke_options := Some \<lparr>cio_function_name = f, cio_tenant_id = t\<rparr>\<rparr>"

definition with_context_options :: "bool option \<Rightarrow> operation_update \<Rightarrow> operation_update" where
  [def_simps]: "with_context_options rc u = u\<lparr>up_context_options := Some rc\<rparr>"

section \<open>Facts\<close>

lemma operation_new_sel [simp]:
  "op_id (operation_new i t) = i" "op_type (operation_new i t) = t"
  "op_status (operation_new i t) = Started" "op_result (operation_new i t) = None"
  "op_error (operation_new i t) = None" "op_parent_id (operation_new i t) = None"
  "op_name (operation_new i t) = None" "op_step_details (operation_new i t) = None"
  "op_callback_details (operation_new i t) = None"
  "op_chained_invoke_details (operation_new i t) = None"
  "op_context_details (operation_new i t) = None"
  by (simp_all add: operation_new_def)

lemma is_terminal_simps [simp]:
  "\<not> is_terminal Started" "\<not> is_terminal Pending" "\<not> is_terminal Ready"
  "is_terminal Succeeded" "is_terminal Failed" "is_terminal Cancelled"
  "is_terminal TimedOut" "is_terminal Stopped"
  by (simp_all add: is_terminal_def)

lemma terminal_success_or_failure:
  "is_terminal s \<longleftrightarrow> status_is_success s \<or> status_is_failure s"
  "\<not> (status_is_success s \<and> status_is_failure s)"
  "status_is_resumable s \<longleftrightarrow> \<not> is_terminal s"
  by (cases s; simp add: status_is_success_def status_is_failure_def status_is_resumable_def)+

lemma operation_completed_terminal: "operation_is_completed op \<longleftrightarrow> is_terminal (op_status op)"
  by (cases "op_status op") (simp_all add: operation_is_completed_def)

lemma get_result_no_details:
  "op_step_details op = None \<Longrightarrow> op_callback_details op = None \<Longrightarrow>
   op_chained_invoke_details op = None \<Longrightarrow> op_context_details op = None \<Longrightarrow>
   get_result op = op_result op"
  by (cases "op_type op") (simp_all add: get_result_def first_some_def)

lemma get_result_legacy: "op_type op \<in> {ExecutionOp, WaitOp} \<Longrightarrow> get_result op = op_result op"
  by (auto simp: get_result_def)

end
