(* ===== verification/Serialization.thy ===== *)
theory Serialization
  imports Operations
begin

text \<open>
  \<open>sdk/src/serdes.rs\<close>: the JSON serializer. The JSON text of a value is produced and read by
  the \<open>serde_json\<close> crate and the value's derived implementations, which are not part of the
  repository: a codec holds the two functions. \<open>codec_roundtrip\<close> is what the SDK relies on,
  that reading back the text of a value gives the value.
\<close>

record 'a codec =
  to_json :: "'a \<Rightarrow> string + string"
  from_json :: "string \<Rightarrow> string + 'a"

datatype serdes_error_kind = Serialization_Kind | Deserialization_Kind

record serdes_error =
  se_kind :: serdes_error_kind
  se_message :: string

definition serdes_error_serialization :: "string \<Rightarrow> serdes_error" where
  "serdes_error_serialization m = \<lparr>se_kind = Serialization_Kind, se_message = m\<rparr>"

definition serdes_error_deserialization :: "string \<Rightarrow> serdes_error" where
  "serdes_error_deserialization m = \<lparr>se_kind = Deserialization_Kind, se_message = m\<rparr>"

definition display_serdes_error :: "serdes_error \<Rightarrow> string" where
  "display_serdes_error e = (case se_kind e of
     Serialization_Kind \<Rightarrow> ''Serialization error: '' @ se_message e
   | Deserialization_Kind \<Rightarrow> ''Deserialization error: '' @ se_message e)"

definition json_serialize :: "'a codec \<Rightarrow> 'a \<Rightarrow> serdes_error + string" where
  "json_serialize c v = (case to_json c v of
     Inl m \<Rightarrow> Inl (serdes_error_serialization m) | Inr s \<Rightarrow> Inr s)"

definition json_deserialize :: "'a codec \<Rightarrow> string \<Rightarrow> serdes_error + 'a" where
  "json_deserialize c s = (case from_json c s of
     Inl m \<Rightarrow> Inl (serdes_error_deserialization m) | Inr v \<Rightarrow> Inr v)"

text \<open>\<open>map_err\<close> to \<open>DurableError::SerDes\<close>, with the handler's own prefix.\<close>

definition serialize_or :: "string \<Rightarrow> 'a codec \<Rightarrow> 'a \<Rightarrow> durable_error + string" where
  "serialize_or pre c v = (case json_serialize c v of
     Inl e \<Rightarrow> Inl (SerDes (pre @ display_serdes_error e)) | Inr s \<Rightarrow> Inr s)"

definition deserialize_or :: "string \<Rightarrow> 'a codec \<Rightarrow> string \<Rightarrow> durable_error + 'a" where
  "deserialize_or pre c s = (case json_deserialize c s of
     Inl e \<Rightarrow> Inl (SerDes (pre @ display_serdes_error e)) | Inr v \<Rightarrow> Inr v)"

definition codec_roundtrip :: "'a codec \<Rightarrow> bool" where
  "codec_roundtrip c = (\<forall>v s. to_json c v = Inr s \<longrightarrow> from_json c s = Inr v)"

lemma json_roundtrip:
  "codec_roundtrip c \<Longrightarrow> json_serialize c v = Inr s \<Longrightarrow> json_deserialize c s = Inr v"
  by (auto simp: json_serialize_def json_deserialize_def codec_roundtrip_def split: sum.splits)

lemma serialize_or_roundtrip:
  "codec_roundtrip c \<Longrightarrow> serialize_or p c v = Inr s \<Longrightarrow> deserialize_or q c s = Inr v"
  by (auto simp: serialize_or_def deserialize_or_def dest: json_roundtrip split: sum.splits)

lemma serialize_or_Inl: "serialize_or p c v = Inl e \<Longrightarrow> \<exists>m. e = SerDes m"
  by (auto simp: serialize_or_def split: sum.splits)

lemma deserialize_or_Inl: "deserialize_or p c v = Inl e \<Longrightarrow> \<exists>m. e = SerDes m"
  by (auto simp: deserialize_or_def split: sum.splits)

text \<open>A codec for unit values, whose JSON text is \<open>null\<close>, and one for text without quoting, used
  where a concrete codec is needed.\<close>

definition unit_codec :: "unit codec" where
  "unit_codec = \<lparr>to_json = (\<lambda>_. Inr ''null''),
     from_json = (\<lambda>s. if s = ''null'' then Inr () else Inl ''expected unit'')\<rparr>"

definition text_codec :: "string codec" where
  "text_codec = \<lparr>to_json = Inr, from_json = Inr\<rparr>"

lemma unit_codec_roundtrip: "codec_roundtrip unit_codec"
  by (simp add: codec_roundtrip_def unit_codec_def)

lemma text_codec_roundtrip: "codec_roundtrip text_codec"
  by (simp add: codec_roundtrip_def text_codec_def)

end
