(* ===== verification/Checkpoint_Results.thy ===== *)
theory Checkpoint_Results
  imports Serialization
begin

text \<open>
  \<open>sdk/src/state/checkpoint_result.rs\<close>, \<open>replay_status.rs\<close> and \<open>handlers/replay.rs\<close>: what a
  handler learns about its operation before it runs. A \<open>CheckpointedResult\<close> wraps an optional
  operation and is that option here. \<open>check_replay\<close> decides between replaying a stored result,
  replaying a stored failure, and executing.
\<close>

type_synonym checkpointed_result = "operation option"

definition is_existent :: "checkpointed_result \<Rightarrow> bool" where
  "is_existent r = (r \<noteq> None)"

definition has_status :: "operation_status \<Rightarrow> checkpointed_result \<Rightarrow> bool" where
  "has_status st r = (case r of Some op \<Rightarrow> op_status op = st | None \<Rightarrow> False)"

definition cr_is_succeeded :: "checkpointed_result \<Rightarrow> bool" where
  "cr_is_succeeded r = has_status Succeeded r"

definition cr_is_failed :: "checkpointed_result \<Rightarrow> bool" where
  "cr_is_failed r = has_status Failed r"

definition cr_is_cancelled :: "checkpointed_result \<Rightarrow> bool" where
  "cr_is_cancelled r = has_status Cancelled r"

definition cr_is_timed_out :: "checkpointed_result \<Rightarrow> bool" where
  "cr_is_timed_out r = has_status TimedOut r"

definition cr_is_stopped :: "checkpointed_result \<Rightarrow> bool" where
  "cr_is_stopped r = has_status Stopped r"

definition cr_is_pending :: "checkpointed_result \<Rightarrow> bool" where
  "cr_is_pending r = has_status Pending r"

definition cr_is_ready :: "checkpointed_result \<Rightarrow> bool" where
  "cr_is_ready r = has_status Ready r"

definition cr_is_terminal :: "checkpointed_result \<Rightarrow> bool" where
  "cr_is_terminal r = (case r of Some op \<Rightarrow> is_terminal (op_status op) | None \<Rightarrow> False)"

definition cr_status :: "checkpointed_result \<Rightarrow> operation_status option" where
  "cr_status r = map_option op_status r"

definition cr_operation_type :: "checkpointed_result \<Rightarrow> operation_type option" where
  "cr_operation_type r = map_option op_type r"

definition cr_result :: "checkpointed_result \<Rightarrow> string option" where
  "cr_result r = Option.bind r get_result"

definition cr_error :: "checkpointed_result \<Rightarrow> error_object option" where
  "cr_error r = Option.bind r op_error"

definition cr_retry_payload :: "checkpointed_result \<Rightarrow> string option" where
  "cr_retry_payload r = Option.bind r get_retry_payload"

definition cr_attempt :: "checkpointed_result \<Rightarrow> u32 option" where
  "cr_attempt r = Option.bind r get_attempt"

definition cr_callback_id :: "checkpointed_result \<Rightarrow> string option" where
  "cr_callback_id r = Option.bind (Option.bind r op_callback_details) cd_callback_id"

lemmas cr_defs =
  is_existent_def has_status_def cr_is_succeeded_def cr_is_failed_def cr_is_cancelled_def
  cr_is_timed_out_def cr_is_stopped_def cr_is_pending_def cr_is_ready_def cr_is_terminal_def
  cr_status_def cr_operation_type_def cr_result_def cr_error_def cr_retry_payload_def
  cr_attempt_def cr_callback_id_def

lemma cr_None [simp]:
  "\<not> is_existent None" "\<not> cr_is_succeeded None" "\<not> cr_is_failed None" "\<not> cr_is_cancelled None"
  "\<not> cr_is_timed_out None" "\<not> cr_is_stopped None" "\<not> cr_is_pending None" "\<not> cr_is_ready None"
  "\<not> cr_is_terminal None" "cr_operation_type None = None" "cr_result None = None"
  "cr_attempt None = None" "cr_retry_payload None = None" "cr_callback_id None = None"
  by (simp_all add: cr_defs)

lemma cr_Some [simp]:
  "is_existent (Some op)" "cr_operation_type (Some op) = Some (op_type op)"
  "cr_is_succeeded (Some op) \<longleftrightarrow> op_status op = Succeeded"
  "cr_is_failed (Some op) \<longleftrightarrow> op_status op = Failed"
  "cr_is_cancelled (Some op) \<longleftrightarrow> op_status op = Cancelled"
  "cr_is_timed_out (Some op) \<longleftrightarrow> op_status op = TimedOut"
  "cr_is_stopped (Some op) \<longleftrightarrow> op_status op = Stopped"
  "cr_is_pending (Some op) \<longleftrightarrow> op_status op = Pending"
  "cr_is_ready (Some op) \<longleftrightarrow> op_status op = Ready"
  "cr_is_terminal (Some op) \<longleftrightarrow> is_terminal (op_status op)"
  "cr_status (Some op) = Some (op_status op)" "cr_result (Some op) = get_result op"
  "cr_error (Some op) = op_error op" "cr_attempt (Some op) = get_attempt op"
  "cr_retry_payload (Some op) = get_retry_payload op"
  "cr_callback_id (Some op) = Option.bind (op_callback_details op) cd_callback_id"
  by (simp_all add: cr_defs)

section \<open>Replay status\<close>

datatype replay_status = ReplayMode | NewMode

definition replay_status_is_replay :: "replay_status \<Rightarrow> bool" where
  "replay_status_is_replay s = (s = ReplayMode)"

definition replay_status_is_new :: "replay_status \<Rightarrow> bool" where
  "replay_status_is_new s = (s = NewMode)"

definition replay_status_from_u8 :: "u8 \<Rightarrow> replay_status" where
  "replay_status_from_u8 v = (if v = 0 then ReplayMode else NewMode)"

fun replay_status_to_u8 :: "replay_status \<Rightarrow> u8" where
  "replay_status_to_u8 ReplayMode = 0"
| "replay_status_to_u8 NewMode = 1"

lemma replay_status_u8_roundtrip: "replay_status_from_u8 (replay_status_to_u8 s) = s"
  by (cases s) (simp_all add: replay_status_from_u8_def)

section \<open>The replay decision\<close>

datatype 'a replay_result = Replayed 'a | NotFound | InProgress

text \<open>The two messages every handler builds with \<open>format!\<close>.\<close>

definition non_deterministic_error :: "operation_type \<Rightarrow> operation_type \<Rightarrow> string \<Rightarrow> durable_error" where
  "non_deterministic_error expected found i = NonDeterministic
     (''Expected '' @ debug_type expected @ '' operation but found '' @ debug_type found @
      '' at operation_id '' @ i) (Some i)"

definition status_text :: "checkpointed_result \<Rightarrow> string" where
  "status_text r = (case cr_status r of Some st \<Rightarrow> display_status st | None \<Rightarrow> [])"

definition check_replay ::
  "'a codec \<Rightarrow> checkpointed_result \<Rightarrow> operation_type \<Rightarrow> string \<Rightarrow> durable_error + 'a replay_result"
where
  "check_replay c r expected i =
     (if \<not> is_existent r then Inr NotFound
      else case cr_operation_type r of
        Some ty \<Rightarrow>
          if ty \<noteq> expected then Inl (non_deterministic_error expected ty i)
          else
            (case (if cr_is_succeeded r then cr_result r else None) of
               Some s \<Rightarrow> map_sum id Replayed
                 (deserialize_or ''Failed to deserialize checkpointed result: '' c s)
             | None \<Rightarrow>
                 if cr_is_failed r then
                   (case cr_error r of
                      Some e \<Rightarrow> Inl (replayed_user_error e)
                    | None \<Rightarrow> Inl (err_execution ''Operation failed with unknown error''))
                 else if cr_is_terminal r then
                   Inl (Execution (''Operation was '' @ status_text r) StepInterrupted)
                 else Inr InProgress)
      | None \<Rightarrow> Inr InProgress)"

definition check_replay_status ::
  "checkpointed_result \<Rightarrow> operation_type \<Rightarrow> string \<Rightarrow> durable_error + bool" where
  "check_replay_status r expected i =
     (if \<not> is_existent r then Inr False
      else case cr_operation_type r of
        Some ty \<Rightarrow>
          if ty \<noteq> expected then Inl (non_deterministic_error expected ty i)
          else if cr_is_succeeded r then Inr True
          else if cr_is_failed r then
            (case cr_error r of
               Some e \<Rightarrow> Inl (replayed_user_error e)
             | None \<Rightarrow> Inl (err_execution ''Operation failed with unknown error''))
          else if cr_is_terminal r then
            Inl (Execution (''Operation was '' @ status_text r) StepInterrupted)
          else Inr False
      | None \<Rightarrow> Inr False)"

end
