(* ===== verification/Service.thy ===== *)
theory Service
  imports Checkpoint_Results
begin

text \<open>
  The interface to the durable execution service: the \<open>DurableServiceClient\<close> trait of
  \<open>sdk/src/client.rs\<close> with its response types, the throttling retry loop that both the batcher and
  the execution state run around a call, and the mock client of \<open>testing/src/mock_client.rs\<close>.
  A client is two functions over a world \<open>'w\<close> that stands for everything outside the process; the
  timer and the send side of the checkpoint queue are the other two effects the SDK has.
\<close>

record new_execution_state =
  nes_operations :: "operation list"
  nes_next_marker :: "string option"

record checkpoint_response =
  rsp_checkpoint_token :: string
  rsp_new_execution_state :: "new_execution_state option"

record get_operations_response =
  gor_operations :: "operation list"
  gor_next_marker :: "string option"

definition checkpoint_response_new :: "string \<Rightarrow> checkpoint_response" where
  "checkpoint_response_new t = \<lparr>rsp_checkpoint_token = t, rsp_new_execution_state = None\<rparr>"

definition find_operation :: "new_execution_state \<Rightarrow> string \<Rightarrow> operation option" where
  "find_operation nes i = find (\<lambda>op. op_id op = i) (nes_operations nes)"

text \<open>\<open>sv_send\<close> is \<open>CheckpointSender::checkpoint\<close>: an update, whether to wait for its batch, and
  the shared checkpoint token, which the batcher replaces.\<close>

record 'w services =
  sv_checkpoint ::
    "string \<Rightarrow> string \<Rightarrow> operation_update list \<Rightarrow> 'w \<Rightarrow> (durable_error + checkpoint_response) \<times> 'w"
  sv_get_operations ::
    "string \<Rightarrow> string \<Rightarrow> 'w \<Rightarrow> (durable_error + get_operations_response) \<times> 'w"
  sv_sleep :: "nat \<Rightarrow> 'w \<Rightarrow> 'w"
  sv_send ::
    "operation_update \<Rightarrow> bool \<Rightarrow> string \<Rightarrow> 'w \<Rightarrow> (durable_error + unit) \<times> string \<times> 'w"

section \<open>Retry on throttling\<close>

definition MAX_RETRIES :: nat where "MAX_RETRIES = 5"
definition INITIAL_DELAY_MS :: nat where "INITIAL_DELAY_MS = 100"
definition MAX_DELAY_MS :: nat where "MAX_DELAY_MS = 10000"
definition BACKOFF_MULTIPLIER :: nat where "BACKOFF_MULTIPLIER = 2"

lemmas retry_consts =
  MAX_RETRIES_def INITIAL_DELAY_MS_def MAX_DELAY_MS_def BACKOFF_MULTIPLIER_def

definition actual_delay :: "durable_error \<Rightarrow> nat \<Rightarrow> nat" where
  "actual_delay e delay_ms =
     (case get_retry_after_ms e of Some ms \<Rightarrow> unat ms | None \<Rightarrow> delay_ms)"

function throttle_retry ::
  "('w \<Rightarrow> (durable_error + 'a) \<times> 'w) \<Rightarrow> (nat \<Rightarrow> 'w \<Rightarrow> 'w) \<Rightarrow> nat \<Rightarrow> nat \<Rightarrow> 'w \<Rightarrow> (durable_error + 'a) \<times> 'w"
where
  "throttle_retry call sleep attempt delay_ms w =
     (case call w of
        (Inr r, w1) \<Rightarrow> (Inr r, w1)
      | (Inl e, w1) \<Rightarrow>
          if is_throttling e then
            (if attempt + 1 > MAX_RETRIES then (Inl e, w1)
             else throttle_retry call sleep (attempt + 1)
                    (min (delay_ms * BACKOFF_MULTIPLIER) MAX_DELAY_MS)
                    (sleep (actual_delay e delay_ms) w1))
          else (Inl e, w1))"
  by pat_completeness auto
termination
  by (relation "measure (\<lambda>(c, s, attempt, d, w). Suc MAX_RETRIES - attempt)") auto

declare throttle_retry.simps [simp del]

lemma throttle_retry_ok:
  "call w = (Inr r, w1) \<Longrightarrow> throttle_retry call sleep attempt d w = (Inr r, w1)"
  by (subst throttle_retry.simps) simp

lemma throttle_retry_other_error:
  "call w = (Inl e, w1) \<Longrightarrow> \<not> is_throttling e \<Longrightarrow>
   throttle_retry call sleep attempt d w = (Inl e, w1)"
  by (subst throttle_retry.simps) simp

lemma throttle_retry_exhausted:
  "call w = (Inl e, w1) \<Longrightarrow> is_throttling e \<Longrightarrow> MAX_RETRIES \<le> attempt \<Longrightarrow>
   throttle_retry call sleep attempt d w = (Inl e, w1)"
  by (subst throttle_retry.simps) simp

lemma throttle_retry_again:
  "call w = (Inl e, w1) \<Longrightarrow> is_throttling e \<Longrightarrow> attempt < MAX_RETRIES \<Longrightarrow>
   throttle_retry call sleep attempt d w =
     throttle_retry call sleep (Suc attempt) (min (d * BACKOFF_MULTIPLIER) MAX_DELAY_MS)
       (sleep (actual_delay e d) w1)"
  by (subst throttle_retry.simps) simp

lemma throttle_retry_stop:
  assumes "call w = (q, w1)" "\<nexists>e. q = Inl e \<and> is_throttling e \<and> attempt < MAX_RETRIES"
  shows "throttle_retry call sleep attempt d w = (q, w1)"
proof (cases q)
  case (Inl e)
  then have "\<not> is_throttling e \<or> MAX_RETRIES \<le> attempt" using assms(2) by auto
  with assms(1) Inl show ?thesis
    using throttle_retry_other_error [of call w e w1] throttle_retry_exhausted [of call w e w1]
    by (cases "is_throttling e") auto
next
  case (Inr r)
  with assms(1) show ?thesis by (simp add: throttle_retry_ok)
qed

text \<open>Whatever the call and the timer keep true of the world, the loop keeps.\<close>

lemma throttle_retry_invariant:
  assumes "\<And>w r w1. I w \<Longrightarrow> call w = (r, w1) \<Longrightarrow> I w1"
    and "\<And>w ms. I w \<Longrightarrow> I (sleep ms w)"
    and "I w" "throttle_retry call sleep attempt d w = (r, w')"
  shows "I w'"
  using assms
proof (induction call sleep attempt d w rule: throttle_retry.induct)
  case (1 call sleep attempt d w)
  obtain q w1 where c: "call w = (q, w1)" by (cases "call w")
  have w1: "I w1" using 1(2) [OF 1(4) c] .
  show ?case
  proof (cases "\<exists>e. q = Inl e \<and> is_throttling e \<and> attempt < MAX_RETRIES")
    case True
    then obtain e where q: "q = Inl e" and e: "is_throttling e" "attempt < MAX_RETRIES" by auto
    have "throttle_retry call sleep (attempt + 1) (min (d * BACKOFF_MULTIPLIER) MAX_DELAY_MS)
            (sleep (actual_delay e d) w1) = (r, w')"
      using throttle_retry_again [of call w e w1 attempt sleep d] c q e 1(5) by simp
    from 1(1) [OF c [symmetric] q e(1) _ _ _ _ this]
    show ?thesis using e(2) 1(2,3) w1 by fastforce
  next
    case False
    with c have "throttle_retry call sleep attempt d w = (q, w1)" by (rule throttle_retry_stop)
    with 1(5) w1 show ?thesis by simp
  qed
qed

text \<open>The loop makes at least one call and at most one more than the retries left.\<close>

definition counted_call ::
  "('w \<Rightarrow> (durable_error + 'a) \<times> 'w) \<Rightarrow> nat \<times> 'w \<Rightarrow> (durable_error + 'a) \<times> (nat \<times> 'w)" where
  "counted_call call nw = (case nw of (n, w) \<Rightarrow> (case call w of (r, w1) \<Rightarrow> (r, (Suc n, w1))))"

definition counted_sleep :: "(nat \<Rightarrow> 'w \<Rightarrow> 'w) \<Rightarrow> nat \<Rightarrow> nat \<times> 'w \<Rightarrow> nat \<times> 'w" where
  "counted_sleep sleep ms nw = (case nw of (n, w) \<Rightarrow> (n, sleep ms w))"

lemma throttle_retry_calls:
  assumes "throttle_retry (counted_call call) (counted_sleep sleep) attempt d (n, w) = (r, (n', w'))"
    and "attempt \<le> MAX_RETRIES"
  shows "n < n' \<and> n' \<le> n + (Suc MAX_RETRIES - attempt)"
  using assms
proof (induction "Suc MAX_RETRIES - attempt" arbitrary: attempt d n w)
  case 0
  then show ?case by simp
next
  case (Suc k)
  obtain q w1 where c: "call w = (q, w1)" by (cases "call w")
  then have cc: "counted_call call (n, w) = (q, (Suc n, w1))" by (simp add: counted_call_def)
  show ?case
  proof (cases "\<exists>e. q = Inl e \<and> is_throttling e \<and> attempt < MAX_RETRIES")
    case True
    then obtain e where q: "q = Inl e" and e: "is_throttling e" "attempt < MAX_RETRIES" by auto
    have "throttle_retry (counted_call call) (counted_sleep sleep) (Suc attempt)
        (min (d * BACKOFF_MULTIPLIER) MAX_DELAY_MS) (Suc n, sleep (actual_delay e d) w1) =
        (r, (n', w'))"
      using throttle_retry_again [of "counted_call call" "(n, w)" e "(Suc n, w1)" attempt
          "counted_sleep sleep" d] cc q e Suc.prems(1)
      by (simp add: counted_sleep_def)
    moreover have "k = Suc MAX_RETRIES - Suc attempt" using Suc.hyps(2) by simp
    ultimately have "Suc n < n' \<and> n' \<le> Suc n + (Suc MAX_RETRIES - Suc attempt)"
      using Suc.hyps(1) e(2) by fastforce
    then show ?thesis using e(2) by arith
  next
    case False
    with cc have "throttle_retry (counted_call call) (counted_sleep sleep) attempt d (n, w) =
        (q, (Suc n, w1))"
      by (rule throttle_retry_stop)
    with Suc.prems have "n' = Suc n" "attempt \<le> MAX_RETRIES" by auto
    then show ?thesis by arith
  qed
qed

section \<open>The mock client\<close>

record checkpoint_call =
  cc_arn :: string
  cc_token :: string
  cc_operations :: "operation_update list"

record get_operations_call =
  gc_arn :: string
  gc_next_marker :: string

record mock_client =
  mc_checkpoint_responses :: "(durable_error + checkpoint_response) list"
  mc_get_operations_responses :: "(durable_error + get_operations_response) list"
  mc_checkpoint_calls :: "checkpoint_call list"
  mc_get_operations_calls :: "get_operations_call list"

definition mock_new :: mock_client where
  "mock_new = \<lparr>mc_checkpoint_responses = [], mc_get_operations_responses = [],
     mc_checkpoint_calls = [], mc_get_operations_calls = []\<rparr>"

definition with_checkpoint_response ::
  "(durable_error + checkpoint_response) \<Rightarrow> 'z mock_client_scheme \<Rightarrow> 'z mock_client_scheme" where
  "with_checkpoint_response r m =
     m\<lparr>mc_checkpoint_responses := mc_checkpoint_responses m @ [r]\<rparr>"

definition with_checkpoint_responses :: "nat \<Rightarrow> 'z mock_client_scheme \<Rightarrow> 'z mock_client_scheme" where
  "with_checkpoint_responses count m = m\<lparr>mc_checkpoint_responses := mc_checkpoint_responses m @
     map (\<lambda>i. Inr (checkpoint_response_new (''token-'' @ show_nat i))) [0..<count]\<rparr>"

definition with_get_operations_response ::
  "(durable_error + get_operations_response) \<Rightarrow> 'z mock_client_scheme \<Rightarrow> 'z mock_client_scheme" where
  "with_get_operations_response r m =
     m\<lparr>mc_get_operations_responses := mc_get_operations_responses m @ [r]\<rparr>"

definition mock_checkpoint ::
  "string \<Rightarrow> string \<Rightarrow> operation_update list \<Rightarrow> 'z mock_client_scheme \<Rightarrow>
     (durable_error + checkpoint_response) \<times> 'z mock_client_scheme" where
  "mock_checkpoint arn token ops m =
     (let m1 = m\<lparr>mc_checkpoint_calls := mc_checkpoint_calls m @
                 [\<lparr>cc_arn = arn, cc_token = token, cc_operations = ops\<rparr>]\<rparr>
      in case mc_checkpoint_responses m1 of
           r # rs \<Rightarrow> (r, m1\<lparr>mc_checkpoint_responses := rs\<rparr>)
         | [] \<Rightarrow> (Inr (checkpoint_response_new ''mock-token''), m1))"

definition mock_get_operations ::
  "string \<Rightarrow> string \<Rightarrow> 'z mock_client_scheme \<Rightarrow>
     (durable_error + get_operations_response) \<times> 'z mock_client_scheme" where
  "mock_get_operations arn marker m =
     (let m1 = m\<lparr>mc_get_operations_calls := mc_get_operations_calls m @
                 [\<lparr>gc_arn = arn, gc_next_marker = marker\<rparr>]\<rparr>
      in case mc_get_operations_responses m1 of
           r # rs \<Rightarrow> (r, m1\<lparr>mc_get_operations_responses := rs\<rparr>)
         | [] \<Rightarrow> (Inr \<lparr>gor_operations = [], gor_next_marker = None\<rparr>, m1))"

text \<open>The mock client with a timer that records the delays asked for, and no checkpoint queue.\<close>

record mock_world = mock_client +
  mw_sleeps :: "nat list"

definition mock_world_new :: mock_world where
  "mock_world_new = mock_client.extend mock_new \<lparr>mw_sleeps = []\<rparr>"

definition mock_services :: "mock_world services" where
  "mock_services =
     \<lparr>sv_checkpoint = mock_checkpoint, sv_get_operations = mock_get_operations,
      sv_sleep = (\<lambda>ms w. w\<lparr>mw_sleeps := mw_sleeps w @ [ms]\<rparr>),
      sv_send = (\<lambda>u is_sync t w. (Inl (Checkpoint ''Checkpoint queue closed'' False None), t, w))\<rparr>"

lemma mock_services_sel [simp]:
  "sv_checkpoint mock_services = mock_checkpoint"
  "sv_get_operations mock_services = mock_get_operations"
  by (simp_all add: mock_services_def)

section \<open>The delays of the retry loop\<close>

text \<open>The delay before each retry: the service's hint if it gives one, and otherwise the doubled,
  capped default.\<close>

fun backoff_delays :: "nat \<Rightarrow> u64 option list \<Rightarrow> nat list" where
  "backoff_delays d [] = []"
| "backoff_delays d (h # hs) =
     (case h of Some ms \<Rightarrow> unat ms | None \<Rightarrow> d) #
       backoff_delays (min (d * BACKOFF_MULTIPLIER) MAX_DELAY_MS) hs"

lemma throttle_retry_script:
  assumes "length hs + attempt \<le> MAX_RETRIES"
    and "\<forall>e. r = Inl e \<longrightarrow> \<not> is_throttling e"
    and "mc_get_operations_responses w = map (\<lambda>h. Inl (Throttling m h)) hs @ r # rest"
  shows "\<exists>w'. throttle_retry (mock_get_operations arn mk) (sv_sleep mock_services) attempt d w = (r, w') \<and>
           mw_sleeps w' = mw_sleeps w @ backoff_delays d hs \<and>
           mc_get_operations_responses w' = rest \<and>
           length (mc_get_operations_calls w') = length (mc_get_operations_calls w) + Suc (length hs)"
  using assms
proof (induction hs arbitrary: attempt d w)
  case Nil
  then show ?case
    by (cases r)
       (auto simp: mock_get_operations_def throttle_retry_ok throttle_retry_other_error Let_def)
next
  case (Cons h hs)
  define w1 where "w1 = w\<lparr>mc_get_operations_responses := map (\<lambda>h. Inl (Throttling m h)) hs @ r # rest,
    mc_get_operations_calls := mc_get_operations_calls w @ [\<lparr>gc_arn = arn, gc_next_marker = mk\<rparr>]\<rparr>"
  have c: "mock_get_operations arn mk w = (Inl (Throttling m h), w1)"
    using Cons.prems(3) by (simp add: mock_get_operations_def w1_def Let_def)
  let ?w2 = "sv_sleep mock_services (actual_delay (Throttling m h) d) w1"
  have "\<exists>w'. throttle_retry (mock_get_operations arn mk) (sv_sleep mock_services) (Suc attempt)
       (min (d * BACKOFF_MULTIPLIER) MAX_DELAY_MS) ?w2 = (r, w') \<and>
       mw_sleeps w' = mw_sleeps ?w2 @ backoff_delays (min (d * BACKOFF_MULTIPLIER) MAX_DELAY_MS) hs \<and>
       mc_get_operations_responses w' = rest \<and>
       length (mc_get_operations_calls w') = length (mc_get_operations_calls ?w2) + Suc (length hs)"
    using Cons.prems by (intro Cons.IH) (simp_all add: w1_def mock_services_def)
  moreover have "throttle_retry (mock_get_operations arn mk) (sv_sleep mock_services) attempt d w =
      throttle_retry (mock_get_operations arn mk) (sv_sleep mock_services) (Suc attempt)
       (min (d * BACKOFF_MULTIPLIER) MAX_DELAY_MS) ?w2"
    using Cons.prems(1) throttle_retry_again [of "mock_get_operations arn mk" w "Throttling m h" w1
        attempt "sv_sleep mock_services" d] c by simp
  ultimately show ?case
    by (auto simp: w1_def mock_services_def actual_delay_def)
qed

end
