(* ===== verification/Operation_Store.thy ===== *)
theory Operation_Store
  imports Operations "HOL-Library.AList"
begin

text \<open>
  The contract shared by every component that keeps operations by their identifier: the local
  cache of the execution state, the test runner's operation storage and the checkpoint server.
  Storing an operation makes exactly its own identifier answer with it. A \<open>HashMap\<close> is an
  association list with distinct keys, \<open>hm_insert\<close> is \<open>HashMap::insert\<close>, and a
  \<open>HashSet\<close> is a list without repetitions.
\<close>

section \<open>Hash maps and hash sets\<close>

definition hm_insert :: "'k \<Rightarrow> 'v \<Rightarrow> ('k \<times> 'v) list \<Rightarrow> ('k \<times> 'v) list" where
  "hm_insert k v m = AList.update k v m"

definition hm_get :: "('k \<times> 'v) list \<Rightarrow> 'k \<Rightarrow> 'v option" where
  "hm_get m k = map_of m k"

definition hm_wf :: "('k \<times> 'v) list \<Rightarrow> bool" where
  "hm_wf m = distinct (map fst m)"

definition hs_insert :: "'a \<Rightarrow> 'a list \<Rightarrow> 'a list" where
  "hs_insert x xs = List.insert x xs"

lemma hm_get_insert: "hm_get (hm_insert k v m) i = (if i = k then Some v else hm_get m i)"
  by (simp add: hm_get_def hm_insert_def update_conv')

lemma hm_get_Nil [simp]: "hm_get [] i = None"
  by (simp add: hm_get_def)

lemma hm_wf_insert [simp]: "hm_wf m \<Longrightarrow> hm_wf (hm_insert k v m)"
  by (simp add: hm_wf_def hm_insert_def distinct_update)

lemma hm_wf_Nil [simp]: "hm_wf []"
  by (simp add: hm_wf_def)

lemma hm_keys_insert: "fst ` set (hm_insert k v m) = insert k (fst ` set m)"
  by (simp add: hm_insert_def dom_update insert_commute)

lemma hm_length_insert:
  "length (hm_insert k v m) = (if k \<in> fst ` set m then length m else Suc (length m))"
  by (induction m) (auto simp: hm_insert_def)

lemma hm_set_insert: "hm_wf m \<Longrightarrow> set (hm_insert k v m) = {(k, v)} \<union> {p \<in> set m. fst p \<noteq> k}"
proof (induction m)
  case Nil
  then show ?case by (simp add: hm_insert_def)
next
  case (Cons p m)
  then show ?case by (cases p) (force simp: hm_insert_def hm_wf_def)
qed

lemma hm_get_None: "hm_get m k = None \<longleftrightarrow> k \<notin> fst ` set m"
  by (simp add: hm_get_def map_of_eq_None_iff)

lemma hm_get_in: "hm_wf m \<Longrightarrow> hm_get m k = Some v \<longleftrightarrow> (k, v) \<in> set m"
  by (simp add: hm_get_def hm_wf_def)

lemma hs_set_insert [simp]: "set (hs_insert x xs) = insert x (set xs)"
  by (simp add: hs_insert_def)

lemma hs_distinct_insert [simp]: "distinct (hs_insert x xs) = distinct xs"
  by (simp add: hs_insert_def)

section \<open>The contract\<close>

locale op_store =
  fixes lookup :: "'s \<Rightarrow> string \<Rightarrow> operation option"
    and store :: "operation \<Rightarrow> 's \<Rightarrow> 's"
    and wf :: "'s \<Rightarrow> bool"
  assumes lookup_store: "wf s \<Longrightarrow> lookup (store op s) i = (if i = op_id op then Some op else lookup s i)"
    and wf_store: "wf s \<Longrightarrow> wf (store op s)"
begin

lemma store_overwrites: "wf s \<Longrightarrow> lookup (store op s) (op_id op) = Some op"
  by (simp add: lookup_store)

lemma wf_store_all: "wf s \<Longrightarrow> wf (fold store ops s)"
  by (induction ops arbitrary: s) (simp_all add: wf_store)

text \<open>Storing a list of operations leaves, for each identifier, the last one of the list.\<close>

lemma lookup_store_all:
  "wf s \<Longrightarrow> lookup (fold store ops s) i =
     (case find (\<lambda>op. op_id op = i) (rev ops) of Some op \<Rightarrow> Some op | None \<Rightarrow> lookup s i)"
proof (induction ops arbitrary: s rule: rev_induct)
  case Nil
  then show ?case by simp
next
  case (snoc op ops)
  then show ?case by (auto simp: lookup_store wf_store_all)
qed

lemma lookup_store_all_notin:
  "wf s \<Longrightarrow> i \<notin> op_id ` set ops \<Longrightarrow> lookup (fold store ops s) i = lookup s i"
  by (induction ops arbitrary: s) (auto simp: lookup_store wf_store)

lemma lookup_store_all_in:
  assumes "wf s" "i \<in> op_id ` set ops"
  shows "\<exists>op \<in> set ops. op_id op = i \<and> lookup (fold store ops s) i = Some op"
  using assms
proof (induction ops rule: rev_induct)
  case Nil
  then show ?case by simp
next
  case (snoc op ops)
  then show ?case by (cases "i = op_id op") (auto simp: lookup_store wf_store_all)
qed

lemma lookup_store_all_distinct:
  assumes "wf s" "op \<in> set ops" "distinct (map op_id ops)"
  shows "lookup (fold store ops s) (op_id op) = Some op"
proof -
  obtain op' where "op' \<in> set ops" "op_id op' = op_id op"
    "lookup (fold store ops s) (op_id op) = Some op'"
    using lookup_store_all_in [OF assms(1), of "op_id op" ops] assms(2) by blast
  moreover from this assms(2,3) have "op' = op" by (meson distinct_map inj_onD)
  ultimately show ?thesis by simp
qed

end

end
