(* ===== verification/Execution_State.thy ===== *)
theory Execution_State
  imports Service Operation_Store
begin

text \<open>
  \<open>sdk/src/state/execution_state.rs\<close>: the state of one invocation (the local cache of operations,
  the checkpoint token, the replay status, the set of finished parents, the pagination marker) and
  its operations. An operation that talks to the service is a command over an environment: the
  execution state and the outside world of \<^theory_text>\<open>Service\<close>. Locks are taken and released within one
  step, so a step is atomic.
\<close>

datatype checkpointing_mode = Eager | Batched | Optimistic

definition is_eager :: "checkpointing_mode \<Rightarrow> bool" where
  "is_eager m = (m = Eager)"

definition is_batched :: "checkpointing_mode \<Rightarrow> bool" where
  "is_batched m = (m = Batched)"

definition is_optimistic :: "checkpointing_mode \<Rightarrow> bool" where
  "is_optimistic m = (m = Optimistic)"

record exec_state =
  es_arn :: string
  es_token :: string
  es_operations :: "(string \<times> operation) list"
  es_replay_status :: replay_status
  es_replayed :: "string list"
  es_next_marker :: "string option"
  es_parent_done :: "string list"
  es_has_sender :: bool
  es_execution_operation :: "operation option"
  es_checkpointing_mode :: checkpointing_mode

record 'w env =
  env_state :: exec_state
  env_world :: 'w

record initial_execution_state =
  ies_operations :: "operation list"
  ies_next_marker :: "string option"

section \<open>Construction\<close>

definition collect_operations :: "operation list \<Rightarrow> (string \<times> operation) list" where
  "collect_operations ops = fold (\<lambda>op m. hm_insert (op_id op) op m) ops []"

definition with_checkpointing_mode ::
  "string \<Rightarrow> string \<Rightarrow> initial_execution_state \<Rightarrow> checkpointing_mode \<Rightarrow> exec_state" where
  "with_checkpointing_mode arn token init mode =
     (let ops = collect_operations (ies_operations init) in
      \<lparr>es_arn = arn, es_token = token, es_operations = ops,
       es_replay_status = (if ops = [] then NewMode else ReplayMode),
       es_replayed = [], es_next_marker = ies_next_marker init, es_parent_done = [],
       es_has_sender = False,
       es_execution_operation = find (\<lambda>op. op_type op = ExecutionOp) (ies_operations init),
       es_checkpointing_mode = mode\<rparr>)"

definition exec_state_new :: "string \<Rightarrow> string \<Rightarrow> initial_execution_state \<Rightarrow> exec_state" where
  "exec_state_new arn token init = with_checkpointing_mode arn token init Batched"

text \<open>\<open>with_batcher_and_mode\<close> without the batcher half of its result, which is in the theory of the
  batcher.\<close>

definition with_batcher_and_mode ::
  "string \<Rightarrow> string \<Rightarrow> initial_execution_state \<Rightarrow> checkpointing_mode \<Rightarrow> exec_state" where
  "with_batcher_and_mode arn token init mode =
     (with_checkpointing_mode arn token init mode)\<lparr>es_has_sender := True\<rparr>"

section \<open>Reading the state\<close>

definition is_replay :: "exec_state \<Rightarrow> bool" where
  "is_replay s = replay_status_is_replay (es_replay_status s)"

definition is_new :: "exec_state \<Rightarrow> bool" where
  "is_new s = replay_status_is_new (es_replay_status s)"

definition get_original_input_raw :: "exec_state \<Rightarrow> string option" where
  "get_original_input_raw s =
     Option.bind (Option.bind (es_execution_operation s) op_execution_details) id"

definition execution_operation_id :: "exec_state \<Rightarrow> string option" where
  "execution_operation_id s = map_option op_id (es_execution_operation s)"

definition get_checkpoint_result :: "exec_state \<Rightarrow> string \<Rightarrow> checkpointed_result" where
  "get_checkpoint_result s i = hm_get (es_operations s) i"

definition has_more_operations :: "exec_state \<Rightarrow> bool" where
  "has_more_operations s = (es_next_marker s \<noteq> None)"

definition operation_count :: "exec_state \<Rightarrow> nat" where
  "operation_count s = length (es_operations s)"

definition has_operation :: "exec_state \<Rightarrow> string \<Rightarrow> bool" where
  "has_operation s i = (hm_get (es_operations s) i \<noteq> None)"

definition get_operation :: "exec_state \<Rightarrow> string \<Rightarrow> operation option" where
  "get_operation s i = hm_get (es_operations s) i"

definition get_child_operations :: "exec_state \<Rightarrow> string \<Rightarrow> operation list" where
  "get_child_operations s p = filter (\<lambda>op. op_parent_id op = Some p) (map snd (es_operations s))"

definition has_replay_children :: "exec_state \<Rightarrow> string \<Rightarrow> bool" where
  "has_replay_children s i = (case hm_get (es_operations s) i of
     Some op \<Rightarrow>
       if op_type op = ContextOp
       then (case Option.bind (op_context_details op) cx_replay_children of
               Some b \<Rightarrow> b | None \<Rightarrow> False)
       else False
   | None \<Rightarrow> False)"

section \<open>Changing the state\<close>

definition add_operation :: "operation \<Rightarrow> exec_state \<Rightarrow> exec_state" where
  "add_operation op s = s\<lparr>es_operations := hm_insert (op_id op) op (es_operations s)\<rparr>"

definition update_operation :: "string \<Rightarrow> (operation \<Rightarrow> operation) \<Rightarrow> exec_state \<Rightarrow> exec_state" where
  "update_operation i f s = (case hm_get (es_operations s) i of
     Some op \<Rightarrow> s\<lparr>es_operations := hm_insert i (f op) (es_operations s)\<rparr> | None \<Rightarrow> s)"

definition set_checkpoint_token :: "string \<Rightarrow> exec_state \<Rightarrow> exec_state" where
  "set_checkpoint_token t s = s\<lparr>es_token := t\<rparr>"

definition mark_parent_done :: "string \<Rightarrow> exec_state \<Rightarrow> exec_state" where
  "mark_parent_done p s = s\<lparr>es_parent_done := hs_insert p (es_parent_done s)\<rparr>"

definition is_parent_done :: "string \<Rightarrow> exec_state \<Rightarrow> bool" where
  "is_parent_done p s = (p \<in> set (es_parent_done s))"

definition is_orphaned :: "string option \<Rightarrow> exec_state \<Rightarrow> bool" where
  "is_orphaned p s = (case p of Some pid \<Rightarrow> is_parent_done pid s | None \<Rightarrow> False)"

definition track_replay :: "string \<Rightarrow> exec_state \<Rightarrow> exec_state" where
  "track_replay i s =
     (let s1 = s\<lparr>es_replayed := hs_insert i (es_replayed s)\<rparr> in
      if length (es_replayed s1) \<ge> length (es_operations s1) \<and> es_next_marker s1 = None
      then s1\<lparr>es_replay_status := NewMode\<rparr> else s1)"

end
