(* ===== verification/Checkpointing.thy ===== *)
theory Checkpointing
  imports Execution_State
begin

text \<open>
  The operations of \<open>sdk/src/state/execution_state.rs\<close> that talk to the service: checkpoints (the
  three checkpointing modes, the queue of the batcher or a direct call), the update of the local
  cache, the completion of the execution and the loading of further pages of operations. The
  lemmas say that a checkpoint is refused without any effect below a finished parent, that a
  failing one leaves the cache alone, and what the cache holds after a successful one.
\<close>

section \<open>Steps on the environment\<close>

definition on_world :: "('w \<Rightarrow> (durable_error + 'a) \<times> 'w) \<Rightarrow> ('w env, durable_error, 'a) cmd" where
  "on_world f v = (case f (env_world v) of (r, w) \<Rightarrow> (r, v\<lparr>env_world := w\<rparr>))"

definition on_state :: "(exec_state \<Rightarrow> exec_state) \<Rightarrow> ('w env, durable_error, unit) cmd" where
  "on_state f v = (Inr (), v\<lparr>env_state := f (env_state v)\<rparr>)"

lemma on_state_apply [simp, cmd_simps]: "on_state f v = (Inr (), v\<lparr>env_state := f (env_state v)\<rparr>)"
  by (simp add: on_state_def)

lemma bindE_on_state [simp, cmd_simps]:
  "bindE (on_state f) g v = g () (v\<lparr>env_state := f (env_state v)\<rparr>)"
  by (simp add: bindE_def)

lemma on_world_state: "on_world f v = (r, v1) \<Longrightarrow> env_state v1 = env_state v"
  by (auto simp: on_world_def split: prod.splits)

section \<open>The local cache\<close>

text \<open>The operation the cache holds after a checkpoint of an update, from the one it held before.\<close>

definition empty_step_details :: step_details where
  "empty_step_details = \<lparr>sd_result = None, sd_attempt = None, sd_next_attempt_timestamp = None,
     sd_error = None, sd_payload = None\<rparr>"

definition retry_step_details :: "operation_update \<Rightarrow> step_details option \<Rightarrow> step_details" where
  "retry_step_details u d =
     (let sd = (case d of Some sd \<Rightarrow> sd | None \<Rightarrow> empty_step_details);
          sd1 = (if up_result u \<noteq> None then sd\<lparr>sd_payload := up_result u\<rparr> else sd)
      in sd1\<lparr>sd_attempt := Some ((case sd_attempt sd1 of Some n \<Rightarrow> n | None \<Rightarrow> 0) + 1)\<rparr>)"

definition fresh_operation :: "operation_update \<Rightarrow> operation" where
  "fresh_operation u = (operation_new (up_id u) (up_type u))
     \<lparr>op_parent_id := up_parent_id u, op_name := up_name u\<rparr>"

definition cached_operation :: "operation_update \<Rightarrow> operation option \<Rightarrow> operation" where
  "cached_operation u old = (case up_action u of
     Start \<Rightarrow> fresh_operation u
   | Succeed \<Rightarrow> (case old of Some op \<Rightarrow> op | None \<Rightarrow> fresh_operation u)
                 \<lparr>op_status := Succeeded, op_result := up_result u\<rparr>
   | Fail \<Rightarrow> (case old of Some op \<Rightarrow> op | None \<Rightarrow> fresh_operation u)
                 \<lparr>op_status := Failed, op_error := up_error u\<rparr>
   | Cancel \<Rightarrow> (case old of Some op \<Rightarrow> op | None \<Rightarrow> fresh_operation u)\<lparr>op_status := Cancelled\<rparr>
   | Retry \<Rightarrow>
       (let has_step = (up_result u \<noteq> None \<or> up_step_options u \<noteq> None) in
        case old of
          Some op \<Rightarrow>
            (let op1 = op\<lparr>op_status := Pending\<rparr>;
                 op2 = (if has_step
                        then op1\<lparr>op_step_details := Some (retry_step_details u (op_step_details op1))\<rparr>
                        else op1)
             in if up_error u \<noteq> None then op2\<lparr>op_error := up_error u\<rparr> else op2)
        | None \<Rightarrow>
            (let op1 = (fresh_operation u)\<lparr>op_status := Pending, op_error := up_error u\<rparr>
             in if has_step
                then op1\<lparr>op_step_details :=
                       Some (empty_step_details\<lparr>sd_attempt := Some 1, sd_payload := up_result u\<rparr>)\<rparr>
                else op1)))"

definition update_local_cache_from_update :: "operation_update \<Rightarrow> exec_state \<Rightarrow> exec_state" where
  "update_local_cache_from_update u s =
     s\<lparr>es_operations :=
        hm_insert (up_id u) (cached_operation u (hm_get (es_operations s) (up_id u))) (es_operations s)\<rparr>"

definition update_local_cache_from_response :: "new_execution_state \<Rightarrow> exec_state \<Rightarrow> exec_state" where
  "update_local_cache_from_response nes s = fold add_operation (nes_operations nes) s"

section \<open>Checkpoints\<close>

definition orphaned_error :: "string \<Rightarrow> string \<Rightarrow> durable_error" where
  "orphaned_error i p = OrphanedChild
     (''Cannot checkpoint operation '' @ i @ '' - parent '' @ p @ '' has completed'') i"

definition apply_response ::
  "operation_update \<Rightarrow> checkpoint_response \<Rightarrow> exec_state \<Rightarrow> exec_state" where
  "apply_response u r s =
     (let s1 = set_checkpoint_token (rsp_checkpoint_token r) s in
      case rsp_new_execution_state r of
        Some nes \<Rightarrow> update_local_cache_from_response nes s1
      | None \<Rightarrow> update_local_cache_from_update u s1)"

definition send_update ::
  "'w services \<Rightarrow> operation_update \<Rightarrow> ('w env, durable_error, checkpoint_response) cmd" where
  "send_update sv u v = on_world
     (sv_checkpoint sv (es_arn (env_state v)) (es_token (env_state v)) [u]) v"

definition checkpoint_direct ::
  "'w services \<Rightarrow> operation_update \<Rightarrow> bool \<Rightarrow> ('w env, durable_error, unit) cmd" where
  "checkpoint_direct sv u is_sync =
     bindE (send_update sv u) (\<lambda>r. on_state (apply_response u r))"

definition sender_checkpoint ::
  "'w services \<Rightarrow> operation_update \<Rightarrow> bool \<Rightarrow> ('w env, durable_error, unit) cmd" where
  "sender_checkpoint sv u is_sync v =
     (case sv_send sv u is_sync (es_token (env_state v)) (env_world v) of
        (r, t, w) \<Rightarrow> (r, v\<lparr>env_state := set_checkpoint_token t (env_state v), env_world := w\<rparr>))"

definition orphan_check :: "operation_update \<Rightarrow> exec_state \<Rightarrow> durable_error option" where
  "orphan_check u s = (case up_parent_id u of
     Some p \<Rightarrow> if is_parent_done p s then Some (orphaned_error (up_id u) p) else None
   | None \<Rightarrow> None)"

fun effective_is_sync :: "checkpointing_mode \<Rightarrow> bool \<Rightarrow> bool" where
  "effective_is_sync Eager is_sync = True"
| "effective_is_sync Batched is_sync = is_sync"
| "effective_is_sync Optimistic is_sync = is_sync"

definition create_checkpoint ::
  "'w services \<Rightarrow> operation_update \<Rightarrow> bool \<Rightarrow> ('w env, durable_error, unit) cmd" where
  "create_checkpoint sv u is_sync v =
     (case orphan_check u (env_state v) of
        Some e \<Rightarrow> (Inl e, v)
      | None \<Rightarrow>
         (let mode = es_checkpointing_mode (env_state v);
              sync = effective_is_sync mode is_sync
          in if is_eager mode then checkpoint_direct sv u sync v
             else if es_has_sender (env_state v)
             then bindE (sender_checkpoint sv u sync)
                    (\<lambda>_. on_state (update_local_cache_from_update u)) v
             else checkpoint_direct sv u sync v))"

definition create_checkpoint_with_response ::
  "'w services \<Rightarrow> operation_update \<Rightarrow> ('w env, durable_error, checkpoint_response) cmd" where
  "create_checkpoint_with_response sv u v =
     (case orphan_check u (env_state v) of
        Some e \<Rightarrow> (Inl e, v)
      | None \<Rightarrow> bindE (send_update sv u)
          (\<lambda>r. bindE (on_state (apply_response u r)) (\<lambda>_. retE r)) v)"

definition checkpoint_sync ::
  "'w services \<Rightarrow> operation_update \<Rightarrow> ('w env, durable_error, unit) cmd" where
  "checkpoint_sync sv u = create_checkpoint sv u True"

definition checkpoint_async ::
  "'w services \<Rightarrow> operation_update \<Rightarrow> ('w env, durable_error, unit) cmd" where
  "checkpoint_async sv u = create_checkpoint sv u False"

definition checkpoint_optimal ::
  "'w services \<Rightarrow> operation_update \<Rightarrow> bool \<Rightarrow> ('w env, durable_error, unit) cmd" where
  "checkpoint_optimal sv u prefer_sync v =
     create_checkpoint sv u
       (effective_is_sync (es_checkpointing_mode (env_state v)) prefer_sync) v"

definition should_use_async_checkpoint :: "exec_state \<Rightarrow> bool" where
  "should_use_async_checkpoint s = (case es_checkpointing_mode s of
     Eager \<Rightarrow> False | Batched \<Rightarrow> True | Optimistic \<Rightarrow> True)"

section \<open>Completing the execution\<close>

definition no_execution_error :: durable_error where
  "no_execution_error = Validation ''Cannot complete execution: no EXECUTION operation exists''"

definition complete_execution_success ::
  "'w services \<Rightarrow> string option \<Rightarrow> ('w env, durable_error, unit) cmd" where
  "complete_execution_success sv result v =
     (case execution_operation_id (env_state v) of
        Some i \<Rightarrow> create_checkpoint sv (update_succeed i ExecutionOp result) True v
      | None \<Rightarrow> (Inl no_execution_error, v))"

definition complete_execution_failure ::
  "'w services \<Rightarrow> error_object \<Rightarrow> ('w env, durable_error, unit) cmd" where
  "complete_execution_failure sv e v =
     (case execution_operation_id (env_state v) of
        Some i \<Rightarrow> create_checkpoint sv (update_fail i ExecutionOp e) True v
      | None \<Rightarrow> (Inl no_execution_error, v))"

section \<open>Loading operations\<close>

definition get_operations_with_retry ::
  "'w services \<Rightarrow> string \<Rightarrow> ('w env, durable_error, get_operations_response) cmd" where
  "get_operations_with_retry sv marker v = on_world
     (throttle_retry (sv_get_operations sv (es_arn (env_state v)) marker) (sv_sleep sv)
        0 INITIAL_DELAY_MS) v"

definition store_page :: "get_operations_response \<Rightarrow> exec_state \<Rightarrow> exec_state" where
  "store_page r s = (fold add_operation (gor_operations r) s)\<lparr>es_next_marker := gor_next_marker r\<rparr>"

definition load_more_operations :: "'w services \<Rightarrow> ('w env, durable_error, bool) cmd" where
  "load_more_operations sv v = (case es_next_marker (env_state v) of
     None \<Rightarrow> (Inr False, v)
   | Some m \<Rightarrow> bindE (get_operations_with_retry sv m)
       (\<lambda>r. bindE (on_state (store_page r)) (\<lambda>_. retE True)) v)"

partial_function (option) load_all_operations ::
  "'w services \<Rightarrow> 'w env \<Rightarrow> ((durable_error + unit) \<times> 'w env) option" where
  "load_all_operations sv v = (case load_more_operations sv v of
     (Inl e, v1) \<Rightarrow> Some (Inl e, v1)
   | (Inr loaded, v1) \<Rightarrow> if loaded then load_all_operations sv v1 else Some (Inr (), v1))"

section \<open>The execution state is an operation store\<close>

definition es_wf :: "exec_state \<Rightarrow> bool" where
  "es_wf s \<longleftrightarrow> hm_wf (es_operations s) \<and> (\<forall>(k, op) \<in> set (es_operations s). op_id op = k) \<and>
     distinct (es_replayed s) \<and> distinct (es_parent_done s)"

lemma es_wf_add_operation: "es_wf s \<Longrightarrow> es_wf (add_operation op s)"
  by (auto simp: es_wf_def add_operation_def hm_set_insert)

lemma get_add_operation:
  "get_operation (add_operation op s) i = (if i = op_id op then Some op else get_operation s i)"
  by (simp add: get_operation_def add_operation_def hm_get_insert)

interpretation es_store: op_store get_operation add_operation es_wf
  by unfold_locales (simp_all add: get_add_operation es_wf_add_operation)

lemma fold_add_operation_sel [simp]:
  "es_arn (fold add_operation ops s) = es_arn s"
  "es_token (fold add_operation ops s) = es_token s"
  "es_replay_status (fold add_operation ops s) = es_replay_status s"
  "es_replayed (fold add_operation ops s) = es_replayed s"
  "es_next_marker (fold add_operation ops s) = es_next_marker s"
  "es_parent_done (fold add_operation ops s) = es_parent_done s"
  "es_has_sender (fold add_operation ops s) = es_has_sender s"
  "es_execution_operation (fold add_operation ops s) = es_execution_operation s"
  "es_checkpointing_mode (fold add_operation ops s) = es_checkpointing_mode s"
  by (induction ops arbitrary: s) (simp_all add: add_operation_def)

section \<open>Facts\<close>

lemma collect_operations_keyed:
  "hm_wf (collect_operations ops) \<and> (\<forall>(k, op) \<in> set (collect_operations ops). op_id op = k)"
  by (induction ops rule: rev_induct) (auto simp: collect_operations_def hm_set_insert)

lemma es_wf_new: "es_wf (with_checkpointing_mode arn token init mode)"
  using collect_operations_keyed [of "ies_operations init"]
  by (simp add: es_wf_def with_checkpointing_mode_def Let_def)

lemma fresh_operation_sel [simp]:
  "op_id (fresh_operation u) = up_id u" "op_type (fresh_operation u) = up_type u"
  "op_status (fresh_operation u) = Started" "op_parent_id (fresh_operation u) = up_parent_id u"
  "op_name (fresh_operation u) = up_name u" "op_result (fresh_operation u) = None"
  "op_error (fresh_operation u) = None" "op_step_details (fresh_operation u) = None"
  "op_callback_details (fresh_operation u) = None"
  "op_chained_invoke_details (fresh_operation u) = None"
  "op_context_details (fresh_operation u) = None"
  by (simp_all add: fresh_operation_def operation_new_def)

lemma cached_operation_id:
  "(\<And>op. old = Some op \<Longrightarrow> op_id op = up_id u) \<Longrightarrow> op_id (cached_operation u old) = up_id u"
  by (cases "up_action u"; cases old) (simp_all add: cached_operation_def Let_def)

lemma cached_operation_type:
  "(\<And>op. old = Some op \<Longrightarrow> op_type op = up_type u) \<Longrightarrow> op_type (cached_operation u old) = up_type u"
  by (cases "up_action u"; cases old) (simp_all add: cached_operation_def Let_def)

fun action_status :: "operation_action \<Rightarrow> operation_status" where
  "action_status Start = Started"
| "action_status Succeed = Succeeded"
| "action_status Fail = Failed"
| "action_status Cancel = Cancelled"
| "action_status Retry = Pending"

lemma cached_operation_status: "op_status (cached_operation u old) = action_status (up_action u)"
  by (cases "up_action u"; cases old) (simp_all add: cached_operation_def Let_def)

lemma es_wf_found: "es_wf s \<Longrightarrow> get_operation s i = Some op \<Longrightarrow> op_id op = i"
  by (auto simp: es_wf_def get_operation_def hm_get_in)

lemma es_wf_update_local_cache: "es_wf s \<Longrightarrow> es_wf (update_local_cache_from_update u s)"
proof -
  assume wf: "es_wf s"
  then have "op_id (cached_operation u (hm_get (es_operations s) (up_id u))) = up_id u"
    using es_wf_found [OF wf, of "up_id u"] by (intro cached_operation_id) (simp add: get_operation_def)
  with wf show ?thesis
    by (auto simp: es_wf_def update_local_cache_from_update_def hm_set_insert)
qed

lemma get_update_local_cache:
  "get_operation (update_local_cache_from_update u s) i =
     (if i = up_id u then Some (cached_operation u (get_operation s (up_id u))) else get_operation s i)"
  by (simp add: get_operation_def update_local_cache_from_update_def hm_get_insert)

lemma update_local_cache_sel [simp]:
  "es_arn (update_local_cache_from_update u s) = es_arn s"
  "es_token (update_local_cache_from_update u s) = es_token s"
  "es_replay_status (update_local_cache_from_update u s) = es_replay_status s"
  "es_replayed (update_local_cache_from_update u s) = es_replayed s"
  "es_next_marker (update_local_cache_from_update u s) = es_next_marker s"
  "es_parent_done (update_local_cache_from_update u s) = es_parent_done s"
  "es_has_sender (update_local_cache_from_update u s) = es_has_sender s"
  "es_execution_operation (update_local_cache_from_update u s) = es_execution_operation s"
  "es_checkpointing_mode (update_local_cache_from_update u s) = es_checkpointing_mode s"
  by (simp_all add: update_local_cache_from_update_def)

lemma set_checkpoint_token_sel [simp]:
  "get_operation (set_checkpoint_token t s) i = get_operation s i"
  "es_operations (set_checkpoint_token t s) = es_operations s"
  "es_wf (set_checkpoint_token t s) = es_wf s"
  "es_token (set_checkpoint_token t s) = t"
  "es_parent_done (set_checkpoint_token t s) = es_parent_done s"
  "es_replayed (set_checkpoint_token t s) = es_replayed s"
  "es_replay_status (set_checkpoint_token t s) = es_replay_status s"
  "es_next_marker (set_checkpoint_token t s) = es_next_marker s"
  by (simp_all add: set_checkpoint_token_def get_operation_def es_wf_def)

lemma es_wf_apply_response: "es_wf s \<Longrightarrow> es_wf (apply_response u r s)"
  by (auto simp: apply_response_def Let_def update_local_cache_from_response_def es_wf_update_local_cache
      es_store.wf_store_all split: option.split)

lemma apply_response_sel [simp]:
  "es_token (apply_response u r s) = rsp_checkpoint_token r"
  "es_parent_done (apply_response u r s) = es_parent_done s"
  "es_replayed (apply_response u r s) = es_replayed s"
  "es_replay_status (apply_response u r s) = es_replay_status s"
  "es_next_marker (apply_response u r s) = es_next_marker s"
  by (simp_all add: apply_response_def Let_def update_local_cache_from_response_def split: option.split)

text \<open>The part of an operation that decides what the SDK returns in replay.\<close>

definition operation_core ::
  "operation \<Rightarrow> operation_type \<times> operation_status \<times> string option \<times> error_object option \<times> string option \<times> string option" where
  "operation_core op = (op_type op, op_status op, get_result op, op_error op, op_parent_id op, op_name op)"

end
