(* ===== verification/State_Steps.thy ===== *)
theory State_Steps
  imports Checkpointing
begin

text \<open>
  The execution state as a transition system: one step is one operation of
  \<open>sdk/src/state/execution_state.rs\<close>, in any order and with any arguments, or a change of the
  world outside. Two invariants of every reachable state: the maps stay well formed, and a parent
  that was marked done stays done, so that no later checkpoint below it has any effect.
\<close>

inductive state_step :: "'w services \<Rightarrow> 'w env \<Rightarrow> 'w env \<Rightarrow> bool" for sv where
  step_checkpoint: "create_checkpoint sv u is_sync v = (r, v') \<Longrightarrow> state_step sv v v'"
| step_checkpoint_response:
    "create_checkpoint_with_response sv u v = (r, v') \<Longrightarrow> state_step sv v v'"
| step_load_more: "load_more_operations sv v = (r, v') \<Longrightarrow> state_step sv v v'"
| step_add: "state_step sv v (v\<lparr>env_state := add_operation op (env_state v)\<rparr>)"
| step_update:
    "(\<And>op. op_id (f op) = op_id op) \<Longrightarrow>
     state_step sv v (v\<lparr>env_state := update_operation i f (env_state v)\<rparr>)"
| step_token: "state_step sv v (v\<lparr>env_state := set_checkpoint_token t (env_state v)\<rparr>)"
| step_parent_done: "state_step sv v (v\<lparr>env_state := mark_parent_done p (env_state v)\<rparr>)"
| step_track: "state_step sv v (v\<lparr>env_state := track_replay i (env_state v)\<rparr>)"
| step_world: "state_step sv v (v\<lparr>env_world := w\<rparr>)"

inductive state_reach :: "'w services \<Rightarrow> 'w env \<Rightarrow> 'w env \<Rightarrow> bool" for sv where
  reach_refl: "state_reach sv v v"
| reach_step: "state_reach sv v v1 \<Longrightarrow> state_step sv v1 v2 \<Longrightarrow> state_reach sv v v2"

inductive_cases state_reachE: "state_reach sv v v'"

section \<open>What one checkpoint does to the state\<close>

text \<open>The three ways a checkpoint can change the execution state: not at all, by a new token, or by
  a response or an update applied to it.\<close>

definition checkpoint_effect :: "exec_state \<Rightarrow> exec_state \<Rightarrow> bool" where
  "checkpoint_effect s s' \<longleftrightarrow> s' = s \<or> (\<exists>t. s' = set_checkpoint_token t s) \<or>
     (\<exists>u r. s' = apply_response u r s) \<or>
     (\<exists>u t. s' = update_local_cache_from_update u (set_checkpoint_token t s))"

lemma checkpoint_direct_cases:
  assumes "checkpoint_direct sv u b v = (q, v')"
  shows "(\<exists>e. q = Inl e \<and> env_state v' = env_state v) \<or>
         (\<exists>r. q = Inr () \<and> env_state v' = apply_response u r (env_state v))"
  using assms by (auto simp: checkpoint_direct_def send_update_def on_world_def bindE_def
      split: prod.splits sum.splits)

lemma sender_cases:
  assumes "bindE (sender_checkpoint sv u b) (\<lambda>_. on_state (update_local_cache_from_update u)) v = (q, v')"
  shows "\<exists>t. (\<exists>e. q = Inl e \<and> env_state v' = set_checkpoint_token t (env_state v)) \<or>
         (q = Inr () \<and>
          env_state v' = update_local_cache_from_update u (set_checkpoint_token t (env_state v)))"
  using assms by (auto simp: sender_checkpoint_def bindE_def split: prod.splits sum.splits)

lemma create_checkpoint_effect:
  "create_checkpoint sv u b v = (q, v') \<Longrightarrow> checkpoint_effect (env_state v) (env_state v')"
  unfolding create_checkpoint_def Let_def checkpoint_effect_def
  by (auto split: option.splits if_splits dest!: checkpoint_direct_cases sender_cases)

lemma with_response_effect:
  "create_checkpoint_with_response sv u v = (q, v') \<Longrightarrow> checkpoint_effect (env_state v) (env_state v')"
  unfolding create_checkpoint_with_response_def checkpoint_effect_def send_update_def
  by (auto simp: bindE_def on_world_def split: option.splits prod.splits sum.splits) blast

lemma load_more_cases:
  assumes "load_more_operations sv v = (q, v')"
  shows "env_state v' = env_state v \<or> (\<exists>r. env_state v' = store_page r (env_state v))"
  using assms by (auto simp: load_more_operations_def get_operations_with_retry_def on_world_def
      bindE_def split: option.splits prod.splits sum.splits)

lemma checkpoint_effect_wf: "checkpoint_effect s s' \<Longrightarrow> es_wf s \<Longrightarrow> es_wf s'"
  by (auto simp: checkpoint_effect_def es_wf_apply_response es_wf_update_local_cache)

lemma checkpoint_effect_frame:
  "checkpoint_effect s s' \<Longrightarrow> es_parent_done s' = es_parent_done s \<and> es_replayed s' = es_replayed s \<and>
     es_replay_status s' = es_replay_status s \<and> es_next_marker s' = es_next_marker s"
  by (auto simp: checkpoint_effect_def)

lemma es_wf_store_page: "es_wf s \<Longrightarrow> es_wf (store_page r s)"
  using es_store.wf_store_all [of s "gor_operations r"] by (simp add: store_page_def es_wf_def)

lemma es_wf_update_operation:
  "(\<And>op. op_id (f op) = op_id op) \<Longrightarrow> es_wf s \<Longrightarrow> es_wf (update_operation i f s)"
  using es_wf_found [of s i] unfolding get_operation_def
  by (auto simp: update_operation_def es_wf_def hm_set_insert split: option.split)

lemma es_wf_frame:
  "es_wf s \<Longrightarrow> es_wf (mark_parent_done p s)" "es_wf s \<Longrightarrow> es_wf (track_replay i s)"
  by (auto simp: es_wf_def mark_parent_done_def track_replay_def Let_def)

section \<open>Invariants\<close>

lemma state_step_wf: "state_step sv v v' \<Longrightarrow> es_wf (env_state v) \<Longrightarrow> es_wf (env_state v')"
  by (induction rule: state_step.induct)
     (auto dest: create_checkpoint_effect with_response_effect checkpoint_effect_wf
        simp: es_wf_add_operation es_wf_update_operation es_wf_frame es_wf_store_page
        dest!: load_more_cases)

lemma state_step_parent_done:
  "state_step sv v v' \<Longrightarrow> is_parent_done p (env_state v) \<Longrightarrow> is_parent_done p (env_state v')"
  by (induction rule: state_step.induct)
     (auto dest!: create_checkpoint_effect with_response_effect checkpoint_effect_frame load_more_cases
        simp: is_parent_done_def store_page_def add_operation_def update_operation_def
          mark_parent_done_def track_replay_def Let_def split: option.split)

lemma state_reach_wf: "state_reach sv v v' \<Longrightarrow> es_wf (env_state v) \<Longrightarrow> es_wf (env_state v')"
  by (induction rule: state_reach.induct) (auto dest: state_step_wf)

lemma state_reach_parent_done:
  "state_reach sv v v' \<Longrightarrow> is_parent_done p (env_state v) \<Longrightarrow> is_parent_done p (env_state v')"
  by (induction rule: state_reach.induct) (auto dest: state_step_parent_done)

section \<open>Orphans\<close>

lemma orphan_checkpoint:
  assumes "is_parent_done p (env_state v)" "up_parent_id u = Some p"
  shows "create_checkpoint sv u b v = (Inl (orphaned_error (up_id u) p), v)"
    and "create_checkpoint_with_response sv u v = (Inl (orphaned_error (up_id u) p), v)"
  using assms
  by (simp_all add: create_checkpoint_def create_checkpoint_with_response_def orphan_check_def)

text \<open>C7: Once a parent was marked done, every later checkpoint of an operation below it is refused
  with \<open>OrphanedChild\<close>, whatever operations of the execution state ran in between, and the refused
  call changes neither the execution state nor the world.\<close>

theorem orphaned_checkpoint_refused:
  assumes "is_parent_done p (env_state v)" "state_reach sv v v'" "up_parent_id u = Some p"
  shows "create_checkpoint sv u b v' = (Inl (orphaned_error (up_id u) p), v') \<and>
         create_checkpoint_with_response sv u v' = (Inl (orphaned_error (up_id u) p), v')"
  using orphan_checkpoint [OF state_reach_parent_done [OF assms(2,1)] assms(3)] by simp

definition example_env :: "operation list \<Rightarrow> mock_world env" where
  "example_env ops =
     \<lparr>env_state = exec_state_new ''arn'' ''token'' \<lparr>ies_operations = ops, ies_next_marker = None\<rparr>,
      env_world = mock_world_new\<rparr>"

theorem orphaned_checkpoint_refused_witness:
  "fst (create_checkpoint mock_services (with_parent_id ''p'' (update_start ''c'' StepOp)) True
     ((example_env [])\<lparr>env_state :=
        track_replay ''x'' (mark_parent_done ''p'' (env_state (example_env [])))\<rparr>)) =
   Inl (orphaned_error ''c'' ''p'')"
proof -
  let ?v = "(example_env [])\<lparr>env_state := mark_parent_done ''p'' (env_state (example_env []))\<rparr>"
  let ?v' = "?v\<lparr>env_state := track_replay ''x'' (env_state ?v)\<rparr>"
  have "state_reach mock_services ?v ?v'" by (rule reach_step [OF reach_refl step_track])
  from orphaned_checkpoint_refused [of "''p''", OF _ this,
      of "with_parent_id ''p'' (update_start ''c'' StepOp)" True]
  show ?thesis by (simp add: is_parent_done_def mark_parent_done_def def_simps)
qed

section \<open>Failed and successful checkpoints\<close>

text \<open>A checkpoint that returns an error leaves everything the invocation knows as it was: the
  cached operations, the replay tracking, the finished parents and the page marker. Only the token
  may be a new one, when the failure came from the queue shared with the batcher.\<close>

lemma failed_checkpoint_keeps_state:
  assumes "create_checkpoint sv u b v = (Inl e, v')"
  shows "env_state v' = set_checkpoint_token (es_token (env_state v')) (env_state v)"
  using assms unfolding create_checkpoint_def Let_def
  by (auto simp: set_checkpoint_token_def split: option.splits if_splits
      dest!: checkpoint_direct_cases sender_cases)

lemma failed_checkpoint_keeps_state_witness:
  "env_state (snd (create_checkpoint mock_services (update_start ''s'' StepOp) True
     ((example_env [])\<lparr>env_world := with_checkpoint_response (Inl (Configuration ''x'')) mock_world_new\<rparr>)))
   = env_state (example_env [])"
proof -
  let ?w = "with_checkpoint_response (Inl (Configuration ''x'')) mock_world_new"
  let ?w1 = "snd (mock_checkpoint ''arn'' ''token'' [update_start ''s'' StepOp] ?w)"
  have "create_checkpoint mock_services (update_start ''s'' StepOp) True
      ((example_env [])\<lparr>env_world := ?w\<rparr>) =
      (Inl (Configuration ''x''), (example_env [])\<lparr>env_world := ?w1\<rparr>)"
    by (simp add: create_checkpoint_def orphan_check_def def_simps example_env_def exec_state_new_def
        with_checkpointing_mode_def Let_def is_eager_def checkpoint_direct_def send_update_def
        on_world_def bindE_def mock_checkpoint_def with_checkpoint_response_def mock_world_new_def
        mock_new_def mock_client.defs)
  from failed_checkpoint_keeps_state [OF this] this
  show ?thesis by (simp add: set_checkpoint_token_def)
qed

lemma get_apply_response:
  assumes "es_wf s"
  shows "get_operation (apply_response u r s) i =
     (case rsp_new_execution_state r of
        Some nes \<Rightarrow> (case find (\<lambda>op. op_id op = i) (rev (nes_operations nes)) of
            Some op \<Rightarrow> Some op | None \<Rightarrow> get_operation s i)
      | None \<Rightarrow> if i = up_id u then Some (cached_operation u (get_operation s i))
                else get_operation s i)"
  using es_store.lookup_store_all [of "set_checkpoint_token (rsp_checkpoint_token r) s"] assms
  by (auto simp: apply_response_def Let_def update_local_cache_from_response_def
      get_update_local_cache split: option.split)

text \<open>A direct checkpoint that the service accepts (no queue, or eager mode) succeeds, stores the
  new token and brings the cache up to date: with the operations of the response when it carries
  them, the last one for an identifier winning, and otherwise with the update itself, whose
  operation gets the status of its action. No other identifier changes.\<close>

lemma direct_checkpoint_updates_cache:
  assumes "es_wf (env_state v)" "orphan_check u (env_state v) = None"
    and "is_eager (es_checkpointing_mode (env_state v)) \<or> \<not> es_has_sender (env_state v)"
    and "sv_checkpoint sv (es_arn (env_state v)) (es_token (env_state v)) [u] (env_world v) = (Inr r, w)"
  shows "\<exists>s'. create_checkpoint sv u b v = (Inr (), v\<lparr>env_state := s', env_world := w\<rparr>) \<and>
     es_wf s' \<and> es_token s' = rsp_checkpoint_token r \<and>
     (\<forall>i. get_operation s' i =
       (case rsp_new_execution_state r of
          Some nes \<Rightarrow> (case find (\<lambda>op. op_id op = i) (rev (nes_operations nes)) of
              Some op \<Rightarrow> Some op | None \<Rightarrow> get_operation (env_state v) i)
        | None \<Rightarrow> if i = up_id u then Some (cached_operation u (get_operation (env_state v) i))
                  else get_operation (env_state v) i)) \<and>
     op_status (cached_operation u (get_operation (env_state v) (up_id u))) =
       action_status (up_action u)"
proof (intro exI conjI allI)
  show "create_checkpoint sv u b v =
      (Inr (), v\<lparr>env_state := apply_response u r (env_state v), env_world := w\<rparr>)"
    using assms(2,3,4) by (auto simp: create_checkpoint_def Let_def checkpoint_direct_def
        send_update_def on_world_def bindE_def)
qed (use assms(1) in \<open>simp_all add: es_wf_apply_response get_apply_response cached_operation_status\<close>)

lemma direct_checkpoint_updates_cache_witness:
  "\<exists>s'. create_checkpoint mock_services (update_succeed ''s'' StepOp (Some ''1'')) True (example_env []) =
     (Inr (), (example_env [])\<lparr>env_state := s',
        env_world := snd (mock_checkpoint ''arn'' ''token'' [update_succeed ''s'' StepOp (Some ''1'')]
          mock_world_new)\<rparr>) \<and>
     map_option op_status (get_operation s' ''s'') = Some Succeeded"
proof -
  let ?u = "update_succeed ''s'' StepOp (Some ''1'')"
  let ?v = "example_env []"
  have "es_wf (env_state ?v)" by (simp add: example_env_def exec_state_new_def es_wf_new)
  moreover have "orphan_check ?u (env_state ?v) = None" by (simp add: orphan_check_def def_simps)
  moreover have "is_eager (es_checkpointing_mode (env_state ?v)) \<or> \<not> es_has_sender (env_state ?v)"
    by (simp add: example_env_def exec_state_new_def with_checkpointing_mode_def Let_def)
  moreover have "sv_checkpoint mock_services (es_arn (env_state ?v)) (es_token (env_state ?v)) [?u]
      (env_world ?v) = (Inr (checkpoint_response_new ''mock-token''),
        snd (mock_checkpoint ''arn'' ''token'' [?u] mock_world_new))"
    by (simp add: example_env_def exec_state_new_def with_checkpointing_mode_def Let_def
        mock_checkpoint_def mock_world_new_def mock_new_def mock_client.defs)
  ultimately obtain s' where "create_checkpoint mock_services ?u True ?v =
      (Inr (), ?v\<lparr>env_state := s',
        env_world := snd (mock_checkpoint ''arn'' ''token'' [?u] mock_world_new)\<rparr>)"
    "get_operation s' ''s'' = Some (cached_operation ?u (get_operation (env_state ?v) ''s''))"
    "op_status (cached_operation ?u (get_operation (env_state ?v) ''s'')) = Succeeded"
    using direct_checkpoint_updates_cache [of ?v ?u mock_services
        "checkpoint_response_new ''mock-token''" _ True]
    by (auto simp: checkpoint_response_new_def def_simps)
  then show ?thesis by auto
qed

end
