(* ===== verification/Loading.thy ===== *)
theory Loading
  imports State_Steps
begin

text \<open>
  Two loops of \<open>sdk/src/state/execution_state.rs\<close>: \<open>load_all_operations\<close>, which follows the page
  markers of the service until there is none, and \<open>track_replay\<close> over the operations of a replay,
  which decides when the replay is over.
\<close>

section \<open>Loading every page\<close>

lemma load_more_None:
  "es_next_marker (env_state v) = None \<Longrightarrow> load_more_operations sv v = (Inr False, v)"
  by (simp add: load_more_operations_def)

lemma load_all_None:
  "es_next_marker (env_state v) = None \<Longrightarrow> load_all_operations sv v = Some (Inr (), v)"
  by (subst load_all_operations.simps) (simp add: load_more_None)

lemma load_all_True:
  "load_more_operations sv v = (Inr True, v1) \<Longrightarrow>
   load_all_operations sv v = load_all_operations sv v1"
  by (subst load_all_operations.simps) simp

lemma load_all_Inl:
  "load_more_operations sv v = (Inl e, v1) \<Longrightarrow> load_all_operations sv v = Some (Inl e, v1)"
  by (subst load_all_operations.simps) simp

lemma load_more_False:
  "load_more_operations sv v = (Inr False, v1) \<Longrightarrow> es_next_marker (env_state v) = None \<and> v1 = v"
  by (auto simp: load_more_operations_def bindE_def split: option.splits prod.splits sum.splits)

text \<open>If every page with a further marker brings the service closer to its last one, the loop
  returns.\<close>

lemma load_all_returns:
  fixes measure_of :: "'w env \<Rightarrow> nat"
  assumes "\<And>v v'. load_more_operations sv v = (Inr True, v') \<Longrightarrow>
      es_next_marker (env_state v') \<noteq> None \<Longrightarrow> measure_of v' < measure_of v"
  shows "\<exists>q. load_all_operations sv v = Some q"
proof (induction "measure_of v" arbitrary: v rule: less_induct)
  case less
  obtain q v1 where lm: "load_more_operations sv v = (q, v1)" by (cases "load_more_operations sv v")
  show ?case
  proof (cases q)
    case (Inl e)
    with lm show ?thesis by (simp add: load_all_Inl)
  next
    case (Inr loaded)
    show ?thesis
    proof (cases "loaded \<and> es_next_marker (env_state v1) \<noteq> None")
      case True
      with lm Inr have "measure_of v1 < measure_of v" using assms [of v v1] by auto
      from less [OF this] lm Inr True show ?thesis by (simp add: load_all_True)
    next
      case False
      with lm Inr show ?thesis
        by (cases loaded) (auto simp: load_all_True load_all_None dest: load_more_False)
    qed
  qed
qed

text \<open>The mock client answers an exhausted script with a last page, so it has such a measure.\<close>

lemma mock_get_operations_responses:
  "mock_get_operations arn mk w = (q, w1) \<Longrightarrow>
     (mc_get_operations_responses w = [] \<and> mc_get_operations_responses w1 = [] \<and>
      q = Inr \<lparr>gor_operations = [], gor_next_marker = None\<rparr>) \<or>
     mc_get_operations_responses w = q # mc_get_operations_responses w1"
  by (auto simp: mock_get_operations_def Let_def split: list.splits)

lemma throttle_retry_mock_shrinks:
  assumes "throttle_retry (mock_get_operations arn mk) (sv_sleep mock_services) attempt d w = (Inr r, w')"
  shows "gor_next_marker r = None \<or>
         length (mc_get_operations_responses w') < length (mc_get_operations_responses w)"
  using assms
proof (induction "Suc MAX_RETRIES - attempt" arbitrary: attempt d w rule: less_induct)
  case less
  obtain q w1 where c: "mock_get_operations arn mk w = (q, w1)" by (cases "mock_get_operations arn mk w")
  show ?case
  proof (cases "\<exists>e. q = Inl e \<and> is_throttling e \<and> attempt < MAX_RETRIES")
    case True
    then obtain e where e: "q = Inl e" "is_throttling e" "attempt < MAX_RETRIES" by auto
    have "gor_next_marker r = None \<or> length (mc_get_operations_responses w') <
        length (mc_get_operations_responses (sv_sleep mock_services (actual_delay e d) w1))"
      using less.prems throttle_retry_again [of "mock_get_operations arn mk" w e w1] c e
      by (intro less.hyps) auto
    then show ?thesis using mock_get_operations_responses [OF c] e by (auto simp: mock_services_def)
  next
    case False
    with c have "throttle_retry (mock_get_operations arn mk) (sv_sleep mock_services) attempt d w = (q, w1)"
      by (rule throttle_retry_stop)
    with less.prems mock_get_operations_responses [OF c] show ?thesis by auto
  qed
qed

lemma load_more_mock_shrinks:
  assumes "load_more_operations mock_services v = (Inr True, v')" "es_next_marker (env_state v') \<noteq> None"
  shows "length (mc_get_operations_responses (env_world v')) <
         length (mc_get_operations_responses (env_world v))"
  using assms throttle_retry_mock_shrinks
  by (fastforce simp: load_more_operations_def get_operations_with_retry_def on_world_def bindE_def
      store_page_def split: option.splits prod.splits sum.splits)

text \<open>Against the mock client, whatever responses it is scripted with, loading all operations
  returns.\<close>

lemma load_all_operations_returns: "\<exists>q. load_all_operations mock_services v = Some q"
  by (rule load_all_returns [where measure_of =
        "\<lambda>v. length (mc_get_operations_responses (env_world v))", OF load_more_mock_shrinks])

lemma load_more_page:
  assumes "es_next_marker (env_state v) = Some m"
    and "mc_get_operations_responses (env_world v) = Inr p # rest"
  shows "\<exists>w. load_more_operations mock_services v =
       (Inr True, v\<lparr>env_world := w, env_state := store_page p (env_state v)\<rparr>) \<and>
     mc_get_operations_responses w = rest"
  using assms
  by (auto simp: load_more_operations_def get_operations_with_retry_def on_world_def bindE_def
      mock_get_operations_def throttle_retry_ok Let_def
      intro!: exI [of _ "(env_world v)\<lparr>mc_get_operations_calls := mc_get_operations_calls (env_world v) @
        [\<lparr>gc_arn = es_arn (env_state v), gc_next_marker = m\<rparr>], mc_get_operations_responses := rest\<rparr>"])

lemma add_operation_marker:
  "add_operation op (s\<lparr>es_next_marker := mk\<rparr>) = (add_operation op s)\<lparr>es_next_marker := mk\<rparr>"
  by (cases s) (simp add: add_operation_def)

lemma fold_add_operation_marker:
  "fold add_operation ops (s\<lparr>es_next_marker := mk\<rparr>) =
   (fold add_operation ops s)\<lparr>es_next_marker := mk\<rparr>"
  by (induction ops arbitrary: s) (simp_all add: add_operation_marker)

lemma load_all_pages:
  assumes "es_wf (env_state v)" "es_next_marker (env_state v) \<noteq> None"
    and "mc_get_operations_responses (env_world v) = map Inr (ps @ [q]) @ rest"
    and "\<forall>p \<in> set ps. gor_next_marker p \<noteq> None" "gor_next_marker q = None"
  shows "\<exists>v'. load_all_operations mock_services v = Some (Inr (), v') \<and>
     env_state v' =
       (fold add_operation (concat (map gor_operations (ps @ [q]))) (env_state v))
          \<lparr>es_next_marker := None\<rparr> \<and>
     mc_get_operations_responses (env_world v') = rest"
  using assms
proof (induction ps arbitrary: v)
  case Nil
  then obtain m where "es_next_marker (env_state v) = Some m" by auto
  with Nil load_more_page [of v m q rest] obtain w where
    "load_more_operations mock_services v =
       (Inr True, v\<lparr>env_world := w, env_state := store_page q (env_state v)\<rparr>)"
    "mc_get_operations_responses w = rest" by auto
  with Nil show ?case by (simp add: load_all_True load_all_None store_page_def)
next
  case (Cons p ps)
  then obtain m where "es_next_marker (env_state v) = Some m" by auto
  with Cons.prems load_more_page [of v m p "map Inr (ps @ [q]) @ rest"] obtain w where w:
    "load_more_operations mock_services v =
       (Inr True, v\<lparr>env_world := w, env_state := store_page p (env_state v)\<rparr>)"
    "mc_get_operations_responses w = map Inr (ps @ [q]) @ rest" by auto
  let ?v1 = "v\<lparr>env_world := w, env_state := store_page p (env_state v)\<rparr>"
  have "es_wf (env_state ?v1)" using Cons.prems(1) by (simp add: es_wf_store_page)
  with Cons.IH [of ?v1] Cons.prems w show ?case
    by (auto simp: load_all_True store_page_def fold_add_operation_marker)
qed



section \<open>The end of the replay\<close>

lemma es_keys_card:
  "es_wf s \<Longrightarrow> length (es_operations s) = card (fst ` set (es_operations s))"
  by (metis distinct_card es_wf_def hm_wf_def length_map list.set_map)

lemma track_replay_sel [simp]:
  "es_operations (track_replay i s) = es_operations s"
  "es_next_marker (track_replay i s) = es_next_marker s"
  "set (es_replayed (track_replay i s)) = insert i (set (es_replayed s))"
  by (simp_all add: track_replay_def Let_def)

lemma fold_track_replay_sel [simp]:
  "es_operations (fold track_replay is s) = es_operations s"
  "es_next_marker (fold track_replay is s) = es_next_marker s"
  "set (es_replayed (fold track_replay is s)) = set is \<union> set (es_replayed s)"
  by (induction "is" arbitrary: s) auto

lemma track_replay_new:
  assumes "es_wf s" "insert i (set (es_replayed s)) \<subseteq> fst ` set (es_operations s)"
  shows "is_new (track_replay i s) \<longleftrightarrow> is_new s \<or>
     (es_next_marker s = None \<and> insert i (set (es_replayed s)) = fst ` set (es_operations s))"
proof -
  let ?R = "hs_insert i (es_replayed s)"
  have len: "length ?R = card (insert i (set (es_replayed s)))"
    using assms(1) distinct_card [of ?R] by (simp add: es_wf_def)
  have "length (es_operations s) \<le> length ?R \<longleftrightarrow>
      insert i (set (es_replayed s)) = fst ` set (es_operations s)"
    unfolding len es_keys_card [OF assms(1)]
    using card_seteq [OF _ assms(2)] by auto
  then show ?thesis
    by (auto simp: track_replay_def Let_def is_new_def replay_status_is_new_def)
qed

lemma fold_track_replay_wf: "es_wf s \<Longrightarrow> es_wf (fold track_replay is s)"
  by (induction "is" arbitrary: s) (simp_all add: es_wf_frame)

lemma fold_track_replay_new:
  assumes "es_wf s" "set is \<union> set (es_replayed s) \<subseteq> fst ` set (es_operations s)"
  shows "is_new (fold track_replay is s) \<longleftrightarrow> is_new s \<or> (is \<noteq> [] \<and> es_next_marker s = None \<and>
     set is \<union> set (es_replayed s) = fst ` set (es_operations s))"
  using assms(2)
proof (induction "is" rule: rev_induct)
  case Nil
  then show ?case by simp
next
  case (snoc i js)
  let ?s = "fold track_replay js s"
  have "is_new (track_replay i ?s) \<longleftrightarrow> is_new ?s \<or> (es_next_marker s = None \<and>
      insert i (set js \<union> set (es_replayed s)) = fst ` set (es_operations s))"
    using track_replay_new [OF fold_track_replay_wf [OF assms(1)], of i js] snoc.prems by simp
  with snoc show ?case by auto
qed

lemma is_new_not_replay: "is_new s \<longleftrightarrow> \<not> is_replay s"
  by (cases "es_replay_status s")
     (simp_all add: is_new_def is_replay_def replay_status_is_new_def replay_status_is_replay_def)

text \<open>C9: During a replay that tracks operations of the cache, the state switches to new execution
  exactly when every cached operation has been tracked and no page is left to load.\<close>

theorem replay_ends_iff_all_tracked:
  assumes "es_wf s" "is_replay s" "is \<noteq> []"
    and "set is \<union> set (es_replayed s) \<subseteq> fst ` set (es_operations s)"
  shows "is_new (fold track_replay is s) \<longleftrightarrow>
     es_next_marker s = None \<and> set is \<union> set (es_replayed s) = fst ` set (es_operations s)"
  using fold_track_replay_new [OF assms(1,4)] assms(2,3) by (simp add: is_new_not_replay)

theorem replay_ends_iff_all_tracked_witness:
  "is_new (fold track_replay [''a''] (env_state (example_env [operation_new ''a'' StepOp])))"
proof -
  let ?s = "env_state (example_env [operation_new ''a'' StepOp])"
  have s: "es_operations ?s = [(''a'', operation_new ''a'' StepOp)]" "es_next_marker ?s = None"
    "es_replayed ?s = []" "is_replay ?s"
    by (simp_all add: example_env_def exec_state_new_def with_checkpointing_mode_def Let_def
        collect_operations_def hm_insert_def is_replay_def replay_status_is_replay_def)
  have "es_wf ?s" by (simp add: example_env_def exec_state_new_def es_wf_new)
  from replay_ends_iff_all_tracked [OF this s(4), of "[''a'']"] s show ?thesis by simp
qed

text \<open>As long as one cached operation is never tracked, the state stays in replay for ever. The
  EXECUTION operation that every invocation starts with is one: no handler tracks it.\<close>

lemma untracked_operation_keeps_replay:
  assumes "es_wf s" "is_replay s" "has_operation s e" "e \<notin> set (es_replayed s)"
    and "set (es_replayed s) \<subseteq> fst ` set (es_operations s)"
    and "\<forall>i \<in> set is. i \<noteq> e \<and> has_operation s i"
  shows "is_replay (fold track_replay is s)"
proof -
  have sub: "set is \<union> set (es_replayed s) \<subseteq> fst ` set (es_operations s)"
    and "e \<in> fst ` set (es_operations s)" "e \<notin> set is \<union> set (es_replayed s)"
    using assms(3-6) by (auto simp: has_operation_def hm_get_None)
  then show ?thesis
    using fold_track_replay_new [OF assms(1) sub] assms(2) by (auto simp: is_new_not_replay)
qed

lemma untracked_operation_keeps_replay_witness:
  "is_replay (fold track_replay [''a'']
     (env_state (example_env [operation_new ''e'' ExecutionOp, operation_new ''a'' StepOp])))"
proof -
  let ?s = "env_state (example_env [operation_new ''e'' ExecutionOp, operation_new ''a'' StepOp])"
  have s: "es_operations ?s = [(''e'', operation_new ''e'' ExecutionOp), (''a'', operation_new ''a'' StepOp)]"
    "es_replayed ?s = []" "is_replay ?s"
    by (simp_all add: example_env_def exec_state_new_def with_checkpointing_mode_def Let_def
        collect_operations_def hm_insert_def is_replay_def replay_status_is_replay_def)
  have "es_wf ?s" by (simp add: example_env_def exec_state_new_def es_wf_new)
  from untracked_operation_keeps_replay [OF this s(3), of "''e''" "[''a'']"] s show ?thesis
    by (simp add: has_operation_def hm_get_def)
qed

end
