(* ===== verification/Test_Types.thy ===== *)
theory Test_Types
  imports Operations
begin

text \<open>
  The shared types of the testing crate: \<open>testing/src/error.rs\<close> and \<open>testing/src/types.rs\<close>. The error
  of the JSON library is its text. A timestamp is the number of its milliseconds.
\<close>

section \<open>Errors\<close>

datatype waiting_operation_status = WaitingStarted | WaitingSubmitted | WaitingCompleted

fun display_waiting_status :: "waiting_operation_status \<Rightarrow> string" where
  "display_waiting_status WaitingStarted = ''Started''"
| "display_waiting_status WaitingSubmitted = ''Submitted''"
| "display_waiting_status WaitingCompleted = ''Completed''"

datatype test_error =
    TestExecutionFailed durable_error
  | OperationNotFound string
  | OperationTypeMismatch operation_type operation_type
  | NotCallbackOperation
  | FunctionNotRegistered string
  | WaitTimeout string
  | ExecutionCompletedEarly string waiting_operation_status
  | TestSerializationError string
  | AwsSdkError string
  | EnvironmentNotSetUp
  | InvalidConfiguration string
  | ResultNotAvailable string
  | InvalidCheckpointToken string
  | CheckpointServerError string
  | CheckpointCommunicationError string
  | ExecutionNotFound string
  | InvocationNotFound string
  | CallbackAlreadyCompleted string
  | CallbackNotFound string

text \<open>The texts of the \<open>error\<close> attributes; the name of an operation type is its debug text.\<close>

fun display_test_error :: "test_error \<Rightarrow> string" where
  "display_test_error (TestExecutionFailed e) = ''Handler execution failed: '' @ display_error e"
| "display_test_error (OperationNotFound n) = ''Operation not found: '' @ n"
| "display_test_error (OperationTypeMismatch a b) =
     ''Operation type mismatch: expected '' @ debug_type a @ '', found '' @ debug_type b"
| "display_test_error NotCallbackOperation = ''Not a callback operation''"
| "display_test_error (FunctionNotRegistered n) = ''Function not registered: '' @ n"
| "display_test_error (WaitTimeout n) = ''Timeout waiting for operation: '' @ n"
| "display_test_error (ExecutionCompletedEarly n s) =
     ''Execution completed before operation '' @ n @ '' reached state '' @ display_waiting_status s"
| "display_test_error (TestSerializationError m) = ''Serialization error: '' @ m"
| "display_test_error (AwsSdkError m) = ''AWS SDK error: '' @ m"
| "display_test_error EnvironmentNotSetUp =
     ''Test environment not set up. Call setup_test_environment() first.''"
| "display_test_error (InvalidConfiguration m) = ''Invalid configuration: '' @ m"
| "display_test_error (ResultNotAvailable m) = ''Result not available: '' @ m"
| "display_test_error (InvalidCheckpointToken m) = ''Invalid checkpoint token: '' @ m"
| "display_test_error (CheckpointServerError m) = ''Checkpoint server error: '' @ m"
| "display_test_error (CheckpointCommunicationError m) = ''Checkpoint communication error: '' @ m"
| "display_test_error (ExecutionNotFound m) = ''Execution not found: '' @ m"
| "display_test_error (InvocationNotFound m) = ''Invocation not found: '' @ m"
| "display_test_error (CallbackAlreadyCompleted m) = ''Callback already completed: '' @ m"
| "display_test_error (CallbackNotFound m) = ''Callback not found: '' @ m"

definition test_error_is_retriable :: "test_error \<Rightarrow> bool" where
  "test_error_is_retriable e = (case e of
     TestExecutionFailed d \<Rightarrow> is_retriable d | WaitTimeout _ \<Rightarrow> True | _ \<Rightarrow> False)"

section \<open>Results\<close>

datatype execution_status = RunningExecution | SucceededExecution | FailedExecution | CancelledExecution
  | TimedOutExecution

definition execution_status_is_terminal :: "execution_status \<Rightarrow> bool" where
  "execution_status_is_terminal s = (s \<noteq> RunningExecution)"

definition execution_status_is_success :: "execution_status \<Rightarrow> bool" where
  "execution_status_is_success s = (s = SucceededExecution)"

definition execution_status_is_failure :: "execution_status \<Rightarrow> bool" where
  "execution_status_is_failure s = (s \<in> {FailedExecution, CancelledExecution, TimedOutExecution})"

fun display_execution_status :: "execution_status \<Rightarrow> string" where
  "display_execution_status RunningExecution = ''Running''"
| "display_execution_status SucceededExecution = ''Succeeded''"
| "display_execution_status FailedExecution = ''Failed''"
| "display_execution_status CancelledExecution = ''Cancelled''"
| "display_execution_status TimedOutExecution = ''TimedOut''"

record test_result_error =
  tre_error_type :: "string option"
  tre_error_message :: "string option"
  tre_error_data :: "string option"
  tre_stack_trace :: "string list option"

definition test_result_error_new :: "string \<Rightarrow> string \<Rightarrow> test_result_error" where
  "test_result_error_new t m =
     \<lparr>tre_error_type = Some t, tre_error_message = Some m, tre_error_data = None, tre_stack_trace = None\<rparr>"

definition test_result_error_from_message :: "string \<Rightarrow> test_result_error" where
  "test_result_error_from_message m =
     \<lparr>tre_error_type = None, tre_error_message = Some m, tre_error_data = None, tre_stack_trace = None\<rparr>"

definition test_result_error_of :: "error_object \<Rightarrow> test_result_error" where
  "test_result_error_of e = \<lparr>tre_error_type = Some (eo_type e), tre_error_message = Some (eo_message e),
     tre_error_data = None, tre_stack_trace = map_option (\<lambda>s. [s]) (eo_stack_trace e)\<rparr>"

definition display_test_result_error :: "test_result_error \<Rightarrow> string" where
  "display_test_result_error e = (case (tre_error_type e, tre_error_message e) of
     (Some t, Some m) \<Rightarrow> t @ '': '' @ m
   | (None, Some m) \<Rightarrow> m
   | (Some t, None) \<Rightarrow> t
   | (None, None) \<Rightarrow> ''Unknown error'')"

record test_invocation =
  iv_start_timestamp :: "int option"
  iv_end_timestamp :: "int option"
  iv_request_id :: "string option"
  iv_error :: "test_result_error option"

definition invocation_with_start :: "int \<Rightarrow> test_invocation" where
  "invocation_with_start t =
     \<lparr>iv_start_timestamp = Some t, iv_end_timestamp = None, iv_request_id = None, iv_error = None\<rparr>"

definition invocation_with_end :: "int \<Rightarrow> test_invocation \<Rightarrow> test_invocation" where
  "invocation_with_end t i = i\<lparr>iv_end_timestamp := Some t\<rparr>"

definition invocation_with_error :: "test_result_error \<Rightarrow> test_invocation \<Rightarrow> test_invocation" where
  "invocation_with_error e i = i\<lparr>iv_error := Some e\<rparr>"

definition invocation_duration :: "test_invocation \<Rightarrow> int option" where
  "invocation_duration i = (case (iv_start_timestamp i, iv_end_timestamp i) of
     (Some s, Some e) \<Rightarrow> Some (e - s) | _ \<Rightarrow> None)"

end
