(* ===== verification/Event_Processor.thy ===== *)
theory Event_Processor
  imports Test_Types
begin

text \<open>
  The history of an execution on the checkpoint server: \<open>testing/src/checkpoint_server/event_processor.rs\<close>
  and the event types of \<open>nodejs_event_types.rs\<close>. A timestamp is kept as its milliseconds, where the
  code stores its RFC 3339 text. What a command of the server reads from outside (the clock, random
  identifiers, the JSON text of an error, the token codec) is a \<open>host\<close>; one command reads one time.
\<close>

section \<open>The host\<close>

record token_data =
  td_execution_id :: string
  td_token :: string
  td_invocation_id :: string

record host =
  ho_now :: int
  ho_uuid :: "nat \<Rightarrow> string"
  ho_error_json :: "error_object \<Rightarrow> string"
  ho_encode_token :: "token_data \<Rightarrow> string"
  ho_decode_token :: "string \<Rightarrow> test_error + token_data"

section \<open>Legacy events\<close>

datatype event_type = OperationStartedEvent | OperationCompletedEvent | InvocationStartedEvent
  | InvocationCompletedEvent | ExecutionStartedEvent | ExecutionCompletedEvent

datatype json_value = JNull | JString string | JTime int | JError error_object
  | JObject "(string \<times> json_value) list"

record history_event =
  he_id :: u64
  he_event_type :: event_type
  he_timestamp :: int
  he_operation_id :: "string option"
  he_details_type :: string
  he_details :: json_value

section \<open>Node.js events\<close>

datatype nodejs_event_type = ExecutionStarted | ExecutionSucceeded | ExecutionFailed
  | StepStarted | StepSucceeded | StepFailed | WaitStarted | WaitSucceeded | WaitCancelled
  | CallbackStarted | CallbackSucceeded | CallbackFailed | CallbackTimedOut
  | ContextStarted | ContextSucceeded | ContextFailed
  | ChainedInvokeStarted | ChainedInvokeSucceeded | ChainedInvokeFailed | InvocationCompleted

record retry_details =
  rd_current_attempt :: "u32 option"
  rd_next_attempt_delay_seconds :: "u64 option"

text \<open>A payload wrapper is its text, an error wrapper its name and message.\<close>

datatype nodejs_details =
    ExecutionStartedDetails string "u64 option"
  | ExecutionSucceededDetails string
  | ExecutionFailedDetails string
  | StepStartedDetails
  | StepSucceededDetails string retry_details
  | StepFailedDetails string retry_details
  | WaitStartedDetails "string option" "int option"
  | WaitSucceededDetails
  | CallbackStartedDetails string "u64 option" "u64 option" "string option"
  | CallbackSucceededDetails string
  | CallbackFailedDetails string
  | ContextStartedDetails
  | ContextSucceededDetails string
  | ContextFailedDetails string
  | InvocationCompletedDetails int int string "string option" "string option"
  | EmptyDetails

text \<open>A time is the number of its milliseconds; \<open>None\<close> is the empty text.\<close>

record nodejs_event =
  ne_event_type :: nodejs_event_type
  ne_event_id :: u64
  ne_id :: "string option"
  ne_timestamp :: "int option"
  ne_sub_type :: "string option"
  ne_name :: "string option"
  ne_parent_id :: "string option"
  ne_details :: nodejs_details

record event_processor =
  ep_events :: "history_event list"
  ep_event_counter :: u64
  ep_nodejs_events :: "nodejs_event list"
  ep_nodejs_event_counter :: u64

section \<open>Operations\<close>

definition event_processor_new :: event_processor where
  "event_processor_new =
     \<lparr>ep_events = [], ep_event_counter = 0, ep_nodejs_events = [], ep_nodejs_event_counter = 0\<rparr>"

fun event_type_to_sub_type :: "nodejs_event_type \<Rightarrow> string option" where
  "event_type_to_sub_type t =
     (if t \<in> {StepStarted, StepSucceeded, StepFailed} then Some ''Step''
      else if t \<in> {WaitStarted, WaitSucceeded, WaitCancelled} then Some ''Wait''
      else if t \<in> {CallbackStarted, CallbackSucceeded, CallbackFailed, CallbackTimedOut} then Some ''Callback''
      else if t \<in> {ContextStarted, ContextSucceeded, ContextFailed} then Some ''Context''
      else if t \<in> {ChainedInvokeStarted, ChainedInvokeSucceeded, ChainedInvokeFailed} then Some ''ChainedInvoke''
      else None)"

definition create_nodejs_event ::
  "host \<Rightarrow> nodejs_event_type \<Rightarrow> operation option \<Rightarrow> nodejs_details \<Rightarrow> event_processor \<Rightarrow>
   nodejs_event \<times> event_processor"
where
  "create_nodejs_event h t op d p =
     (let n = ep_nodejs_event_counter p + 1;
          e = \<lparr>ne_event_type = t, ne_event_id = n, ne_id = map_option op_id op, ne_timestamp = Some (ho_now h),
               ne_sub_type = event_type_to_sub_type t, ne_name = Option.bind op op_name,
               ne_parent_id = Option.bind op op_parent_id, ne_details = d\<rparr>
      in (e, p\<lparr>ep_nodejs_event_counter := n, ep_nodejs_events := ep_nodejs_events p @ [e]\<rparr>))"

definition create_history_event ::
  "host \<Rightarrow> event_type \<Rightarrow> string option \<Rightarrow> string \<Rightarrow> json_value \<Rightarrow> event_processor \<Rightarrow>
   history_event \<times> event_processor"
where
  "create_history_event h t i dt d p =
     (let n = ep_event_counter p + 1;
          e = \<lparr>he_id = n, he_event_type = t, he_timestamp = ho_now h, he_operation_id = i,
               he_details_type = dt, he_details = d\<rparr>
      in (e, p\<lparr>ep_event_counter := n, ep_events := ep_events p @ [e]\<rparr>))"

definition extract_retry_details :: "operation_update \<Rightarrow> operation \<Rightarrow> retry_details" where
  "extract_retry_details u op =
     \<lparr>rd_current_attempt = map_option (\<lambda>a. a + 1) (Option.bind (op_step_details op) sd_attempt),
      rd_next_attempt_delay_seconds = Option.bind (up_step_options u) id\<rparr>"

definition extract_wait_details :: "host \<Rightarrow> operation_update \<Rightarrow> string option \<times> int option" where
  "extract_wait_details h u =
     (map_option (\<lambda>s. ''PT'' @ show_word s @ ''S'') (up_wait_options u),
      map_option (\<lambda>s. ho_now h + sint s * 1000) (up_wait_options u))"

definition extract_callback_details ::
  "operation_update \<Rightarrow> operation \<Rightarrow> string \<times> u64 option \<times> u64 option \<times> string option" where
  "extract_callback_details u op =
     ((case Option.bind (op_callback_details op) cd_callback_id of Some i \<Rightarrow> i | None \<Rightarrow> op_id op),
      Option.bind (up_callback_options u) cbo_timeout_seconds,
      Option.bind (up_callback_options u) cbo_heartbeat_timeout_seconds,
      up_result u)"

definition result_payload :: "operation_update \<Rightarrow> string" where
  "result_payload u = (case up_result u of Some r \<Rightarrow> r | None \<Rightarrow> [])"

definition error_payload :: "host \<Rightarrow> operation_update \<Rightarrow> string" where
  "error_payload h u = (case up_error u of Some e \<Rightarrow> ho_error_json h e | None \<Rightarrow> [])"

text \<open>The event of an update, \<open>None\<close> for the combinations the code does not map.\<close>

fun nodejs_event_of ::
  "host \<Rightarrow> operation_update \<Rightarrow> operation \<Rightarrow> operation_action \<Rightarrow> operation_type \<Rightarrow>
   (nodejs_event_type \<times> nodejs_details) option"
where
  "nodejs_event_of h u op Start ExecutionOp =
     Some (ExecutionStarted, ExecutionStartedDetails (result_payload u) None)"
| "nodejs_event_of h u op Succeed ExecutionOp =
     Some (ExecutionSucceeded, ExecutionSucceededDetails (result_payload u))"
| "nodejs_event_of h u op Fail ExecutionOp =
     Some (ExecutionFailed, ExecutionFailedDetails (error_payload h u))"
| "nodejs_event_of h u op Start StepOp = Some (StepStarted, StepStartedDetails)"
| "nodejs_event_of h u op Succeed StepOp =
     Some (StepSucceeded, StepSucceededDetails (result_payload u) (extract_retry_details u op))"
| "nodejs_event_of h u op Fail StepOp =
     Some (StepFailed, StepFailedDetails (error_payload h u) (extract_retry_details u op))"
| "nodejs_event_of h u op Retry StepOp =
     Some (StepFailed, StepFailedDetails (error_payload h u) (extract_retry_details u op))"
| "nodejs_event_of h u op Start WaitOp =
     (case extract_wait_details h u of (d, e) \<Rightarrow> Some (WaitStarted, WaitStartedDetails d e))"
| "nodejs_event_of h u op Succeed WaitOp = Some (WaitSucceeded, WaitSucceededDetails)"
| "nodejs_event_of h u op Start CallbackOp =
     (case extract_callback_details u op of (i, t, hb, inp) \<Rightarrow>
        Some (CallbackStarted, CallbackStartedDetails i t hb inp))"
| "nodejs_event_of h u op Start ContextOp = Some (ContextStarted, ContextStartedDetails)"
| "nodejs_event_of h u op Succeed ContextOp =
     Some (ContextSucceeded, ContextSucceededDetails (result_payload u))"
| "nodejs_event_of h u op Fail ContextOp =
     Some (ContextFailed, ContextFailedDetails (error_payload h u))"
| "nodejs_event_of h u op a t = None"

definition ep_process_operation_update ::
  "host \<Rightarrow> operation_update \<Rightarrow> operation \<Rightarrow> event_processor \<Rightarrow> nodejs_event list \<times> event_processor" where
  "ep_process_operation_update h u op p =
     (case nodejs_event_of h u op (up_action u) (up_type u) of
        Some (t, d) \<Rightarrow> (case create_nodejs_event h t (Some op) d p of (e, p1) \<Rightarrow> ([e], p1))
      | None \<Rightarrow> ([], p))"

definition clear_nodejs_events :: "event_processor \<Rightarrow> event_processor" where
  "clear_nodejs_events p = p\<lparr>ep_nodejs_events := [], ep_nodejs_event_counter := 0\<rparr>"

definition event_processor_clear :: "event_processor \<Rightarrow> event_processor" where
  "event_processor_clear p = event_processor_new"

section \<open>Numbered histories\<close>

text \<open>The events are numbered from one in the order in which they happened, and each Node.js event has
  the details and the sub type of its event type.\<close>

definition numbered :: "u64 list \<Rightarrow> u64 \<Rightarrow> bool" where
  "numbered ids n \<longleftrightarrow> ids = map of_nat [1..<Suc (length ids)] \<and> n = of_nat (length ids)"

primrec type_of_details :: "nodejs_details \<Rightarrow> nodejs_event_type option" where
  "type_of_details (ExecutionStartedDetails i t) = Some ExecutionStarted"
| "type_of_details (ExecutionSucceededDetails r) = Some ExecutionSucceeded"
| "type_of_details (ExecutionFailedDetails e) = Some ExecutionFailed"
| "type_of_details StepStartedDetails = Some StepStarted"
| "type_of_details (StepSucceededDetails r d) = Some StepSucceeded"
| "type_of_details (StepFailedDetails e d) = Some StepFailed"
| "type_of_details (WaitStartedDetails d e) = Some WaitStarted"
| "type_of_details WaitSucceededDetails = Some WaitSucceeded"
| "type_of_details (CallbackStartedDetails i t hb inp) = Some CallbackStarted"
| "type_of_details (CallbackSucceededDetails r) = Some CallbackSucceeded"
| "type_of_details (CallbackFailedDetails e) = Some CallbackFailed"
| "type_of_details ContextStartedDetails = Some ContextStarted"
| "type_of_details (ContextSucceededDetails r) = Some ContextSucceeded"
| "type_of_details (ContextFailedDetails e) = Some ContextFailed"
| "type_of_details (InvocationCompletedDetails s e i n m) = Some InvocationCompleted"
| "type_of_details EmptyDetails = None"

definition details_fit :: "nodejs_event_type \<Rightarrow> nodejs_details \<Rightarrow> bool" where
  [simp]: "details_fit t d \<longleftrightarrow> type_of_details d = Some t"

definition history_wf :: "event_processor \<Rightarrow> bool" where
  "history_wf p \<longleftrightarrow> numbered (map he_id (ep_events p)) (ep_event_counter p) \<and>
     numbered (map ne_event_id (ep_nodejs_events p)) (ep_nodejs_event_counter p) \<and>
     (\<forall>e \<in> set (ep_nodejs_events p).
        details_fit (ne_event_type e) (ne_details e) \<and> ne_sub_type e = event_type_to_sub_type (ne_event_type e))"

lemma numbered_Nil [simp]: "numbered [] 0"
  by (simp add: numbered_def)

lemma numbered_snoc: "numbered ids n \<Longrightarrow> numbered (ids @ [n + 1]) (n + 1)"
  by (simp add: numbered_def add.commute)

lemma history_wf_new [simp]: "history_wf event_processor_new"
  by (simp add: history_wf_def event_processor_new_def)

lemma history_wf_history_event: "history_wf p \<Longrightarrow> history_wf (snd (create_history_event h t i dt d p))"
  by (simp add: history_wf_def create_history_event_def Let_def numbered_snoc)

lemma history_wf_nodejs_event:
  "history_wf p \<Longrightarrow> details_fit t d \<Longrightarrow> history_wf (snd (create_nodejs_event h t op d p))"
  by (auto simp: history_wf_def create_nodejs_event_def Let_def numbered_snoc)

lemma nodejs_event_of_fit: "nodejs_event_of h u op a ty = Some (t, d) \<Longrightarrow> details_fit t d"
  by (cases "(h, u, op, a, ty)" rule: nodejs_event_of.cases)
     (auto simp: extract_wait_details_def extract_callback_details_def)

lemma history_wf_process:
  assumes "history_wf p"
  shows "history_wf (snd (ep_process_operation_update h u op p))"
proof (cases "nodejs_event_of h u op (up_action u) (up_type u)")
  case None
  with assms show ?thesis by (simp add: ep_process_operation_update_def)
next
  case (Some td)
  obtain t d where td: "td = (t, d)" by (cases td)
  obtain e p1 where e: "create_nodejs_event h t (Some op) d p = (e, p1)" by fastforce
  from history_wf_nodejs_event [OF assms nodejs_event_of_fit [OF Some [unfolded td]], of h "Some op"] Some td e
  show ?thesis by (simp add: ep_process_operation_update_def)
qed

lemma events_only_grow:
  "ep_nodejs_events (snd (create_history_event h t i dt j p)) = ep_nodejs_events p"
  "ep_nodejs_events (snd (create_nodejs_event h nt op d p)) =
     ep_nodejs_events p @ [fst (create_nodejs_event h nt op d p)]"
  "ep_nodejs_events (snd (ep_process_operation_update h u x p)) =
     ep_nodejs_events p @ fst (ep_process_operation_update h u x p)"
  by (simp_all add: create_history_event_def create_nodejs_event_def ep_process_operation_update_def Let_def
      split: option.split prod.split)

end
