(* ===== verification/Test_Result.thy ===== *)
theory Test_Result
  imports Test_Types Event_Processor
begin

text \<open>
  What a test run returns: \<open>testing/src/test_result.rs\<close>, with its queries and the table it prints. The text of
  a date and of a fraction with two decimals belong to the libraries and are the parameters \<open>date_text\<close>
  and \<open>seconds_text\<close>. Text is the list of its UTF-8 bytes; a slice that cuts a character panics (\<open>None\<close>);
  differences of times are taken to stay within \<open>i64\<close>.
\<close>

section \<open>Results\<close>

record test_history_event =
  the_event_type :: string
  the_timestamp :: "int option"
  the_operation_id :: "string option"
  the_data :: "string option"

definition history_event_new :: "string \<Rightarrow> test_history_event" where
  "history_event_new t = \<lparr>the_event_type = t, the_timestamp = None, the_operation_id = None, the_data = None\<rparr>"

record 'a test_result =
  tr_status :: execution_status
  tr_result :: "'a option"
  tr_error :: "test_result_error option"
  tr_operations :: "operation list"
  tr_invocations :: "test_invocation list"
  tr_history_events :: "test_history_event list"
  tr_nodejs_history_events :: "nodejs_event list"

definition test_result_with_status :: "execution_status \<Rightarrow> operation list \<Rightarrow> 'a test_result" where
  "test_result_with_status s ops = \<lparr>tr_status = s, tr_result = None, tr_error = None, tr_operations = ops,
     tr_invocations = [], tr_history_events = [], tr_nodejs_history_events = []\<rparr>"

definition test_result_success :: "'a \<Rightarrow> operation list \<Rightarrow> 'a test_result" where
  "test_result_success x ops = (test_result_with_status SucceededExecution ops)\<lparr>tr_result := Some x\<rparr>"

definition test_result_failure :: "test_result_error \<Rightarrow> operation list \<Rightarrow> 'a test_result" where
  "test_result_failure e ops = (test_result_with_status FailedExecution ops)\<lparr>tr_error := Some e\<rparr>"

definition add_invocation :: "test_invocation \<Rightarrow> 'a test_result \<Rightarrow> 'a test_result" where
  "add_invocation i r = r\<lparr>tr_invocations := tr_invocations r @ [i]\<rparr>"

definition add_history_event :: "test_history_event \<Rightarrow> 'a test_result \<Rightarrow> 'a test_result" where
  "add_history_event e r = r\<lparr>tr_history_events := tr_history_events r @ [e]\<rparr>"

definition add_nodejs_history_event :: "nodejs_event \<Rightarrow> 'a test_result \<Rightarrow> 'a test_result" where
  "add_nodejs_history_event e r = r\<lparr>tr_nodejs_history_events := tr_nodejs_history_events r @ [e]\<rparr>"

definition tr_get_result :: "'a test_result \<Rightarrow> test_error + 'a" where
  "tr_get_result r = (case tr_status r of
     SucceededExecution \<Rightarrow> (case tr_result r of
         Some x \<Rightarrow> Inr x | None \<Rightarrow> Inl (ResultNotAvailable ''Execution succeeded but result is not set''))
   | FailedExecution \<Rightarrow> Inl (ResultNotAvailable ''Cannot get result from failed execution'')
   | RunningExecution \<Rightarrow> Inl (ResultNotAvailable ''Execution is still running'')
   | CancelledExecution \<Rightarrow> Inl (ResultNotAvailable ''Execution was cancelled'')
   | TimedOutExecution \<Rightarrow> Inl (ResultNotAvailable ''Execution timed out''))"

definition tr_get_error :: "'a test_result \<Rightarrow> string + test_result_error" where
  "tr_get_error r =
     (if tr_status r \<in> {FailedExecution, CancelledExecution, TimedOutExecution}
      then (case tr_error r of Some e \<Rightarrow> Inr e | None \<Rightarrow> Inl ''Execution failed but error details are not available'')
      else if tr_status r = SucceededExecution then Inl ''Cannot get error from successful execution''
      else Inl ''Execution is still running'')"

definition get_operations_by_status :: "operation_status \<Rightarrow> 'a test_result \<Rightarrow> operation list" where
  "get_operations_by_status s r = filter (\<lambda>op. op_status op = s) (tr_operations r)"

definition tr_is_running :: "'a test_result \<Rightarrow> bool" where
  "tr_is_running r = (tr_status r = RunningExecution)"

lemma result_or_error:
  "\<not> (\<exists>x e. tr_get_result r = Inr x \<and> tr_get_error r = Inr e)"
  by (cases "tr_status r") (auto simp: tr_get_result_def tr_get_error_def)

section \<open>Text\<close>

definition is_continuation :: "char \<Rightarrow> bool" where
  "is_continuation c = (0x80 \<le> (of_char c :: nat) \<and> (of_char c :: nat) < 0xC0)"

definition char_count :: "string \<Rightarrow> nat" where
  "char_count s = length (filter (\<lambda>c. \<not> is_continuation c) s)"

definition is_char_boundary :: "string \<Rightarrow> nat \<Rightarrow> bool" where
  "is_char_boundary s n = (n = length s \<or> n < length s \<and> \<not> is_continuation (s ! n))"

definition truncate_string :: "string \<Rightarrow> nat \<Rightarrow> string option" where
  "truncate_string s max_len =
     (if length s \<le> max_len then Some s
      else if max_len < 3 \<or> \<not> is_char_boundary s (max_len - 3) then None
      else Some (take (max_len - 3) s @ ''...''))"

definition show_int :: "int \<Rightarrow> string" where
  "show_int i = (if i < 0 then ''-'' @ show_nat (nat (- i)) else show_nat (nat i))"

definition format_duration :: "(int \<Rightarrow> string) \<Rightarrow> int \<Rightarrow> string" where
  "format_duration seconds_text ms =
     (if ms < 1000 then show_int ms @ ''ms''
      else if ms < 60000 then seconds_text ms @ ''s''
      else if ms < 3600000 then show_int (ms div 60000) @ ''m '' @ show_int (ms mod 60000 div 1000) @ ''s''
      else show_int (ms div 3600000) @ ''h '' @ show_int (ms mod 3600000 div 60000) @ ''m'')"

section \<open>The table\<close>

record print_config =
  show_id :: bool
  show_parent_id :: bool
  show_name :: bool
  show_type :: bool
  show_status :: bool
  show_start_time :: bool
  show_end_time :: bool
  show_duration :: bool
  show_result :: bool

definition print_config_default :: print_config where
  "print_config_default = \<lparr>show_id = False, show_parent_id = False, show_name = True, show_type = True,
     show_status = True, show_start_time = True, show_end_time = True, show_duration = True, show_result = False\<rparr>"

definition print_config_all :: print_config where
  "print_config_all = \<lparr>show_id = True, show_parent_id = True, show_name = True, show_type = True,
     show_status = True, show_start_time = True, show_end_time = True, show_duration = True, show_result = True\<rparr>"

definition print_config_minimal :: print_config where
  "print_config_minimal = \<lparr>show_id = False, show_parent_id = False, show_name = True, show_type = True,
     show_status = True, show_start_time = False, show_end_time = False, show_duration = False, show_result = False\<rparr>"

definition or_dash :: "string option \<Rightarrow> string" where
  "or_dash s = (case s of Some x \<Rightarrow> x | None \<Rightarrow> ''-'')"

definition result_cell :: "operation \<Rightarrow> string option" where
  "result_cell op = (case op_error op of
     Some e \<Rightarrow> Some (''Error: '' @ eo_message e)
   | None \<Rightarrow> (case get_result op of Some r \<Rightarrow> truncate_string r 50 | None \<Rightarrow> Some ''-''))"

definition duration_cell :: "(int \<Rightarrow> string) \<Rightarrow> operation \<Rightarrow> string" where
  "duration_cell seconds_text op = (case (op_start_timestamp op, op_end_timestamp op) of
     (Some s, Some e) \<Rightarrow> format_duration seconds_text (e - s) | _ \<Rightarrow> ''-'')"

text \<open>The columns that are shown: header, cell, and the length of a cell as it counts for the width.\<close>

definition print_columns ::
  "(int \<Rightarrow> string) \<Rightarrow> (int \<Rightarrow> string) \<Rightarrow> print_config \<Rightarrow> (string \<times> (operation \<Rightarrow> string option) \<times> (nat \<Rightarrow> nat)) list" where
  "print_columns date_text seconds_text cfg =
     (if show_id cfg then [(''ID'', \<lambda>op. Some (op_id op), id)] else []) @
     (if show_parent_id cfg then [(''Parent ID'', \<lambda>op. Some (or_dash (op_parent_id op)), id)] else []) @
     (if show_name cfg then [(''Name'', \<lambda>op. Some (or_dash (op_name op)), id)] else []) @
     (if show_type cfg then [(''Type'', \<lambda>op. Some (debug_type (op_type op)), id)] else []) @
     (if show_status cfg then [(''Status'', \<lambda>op. Some (display_status (op_status op)), id)] else []) @
     (if show_start_time cfg
      then [(''Start Time'', \<lambda>op. Some (or_dash (map_option date_text (op_start_timestamp op))), id)] else []) @
     (if show_end_time cfg
      then [(''End Time'', \<lambda>op. Some (or_dash (map_option date_text (op_end_timestamp op))), id)] else []) @
     (if show_duration cfg then [(''Duration'', \<lambda>op. Some (duration_cell seconds_text op), id)] else []) @
     (if show_result cfg then [(''Result/Error'', result_cell, min 50)] else [])"

text \<open>The cells of the rows, \<open>None\<close> when a cell panics, and the width of each column.\<close>

fun all_some :: "'a option list \<Rightarrow> 'a list option" where
  "all_some [] = Some []"
| "all_some (x # xs) = (case x of None \<Rightarrow> None | Some y \<Rightarrow> map_option ((#) y) (all_some xs))"

definition print_cells ::
  "(string \<times> (operation \<Rightarrow> string option) \<times> (nat \<Rightarrow> nat)) list \<Rightarrow> operation list \<Rightarrow> string list list option" where
  "print_cells cols ops = all_some (map (\<lambda>op. all_some (map (\<lambda>(h, cell, m). cell op) cols)) ops)"

definition print_widths ::
  "(string \<times> (operation \<Rightarrow> string option) \<times> (nat \<Rightarrow> nat)) list \<Rightarrow> operation list \<Rightarrow> nat list" where
  "print_widths cols ops =
     map (\<lambda>(h, cell, m). fold (\<lambda>op w. max w (m (case cell op of Some v \<Rightarrow> length v | None \<Rightarrow> 0))) ops (length h)) cols"

definition pad :: "string \<Rightarrow> nat \<Rightarrow> string" where
  "pad s w = s @ replicate (w - char_count s) CHR '' ''"

definition print_row :: "string list \<Rightarrow> nat list \<Rightarrow> string" where
  "print_row row widths = ''| '' @ join_strings '' | '' (map2 pad row widths) @ '' |''"

definition print_separator :: "nat list \<Rightarrow> string" where
  "print_separator widths = ''+-'' @ join_strings ''-+-'' (map (\<lambda>w. replicate w CHR ''-'') widths) @ ''-+''"

definition print_with_config ::
  "(int \<Rightarrow> string) \<Rightarrow> (int \<Rightarrow> string) \<Rightarrow> print_config \<Rightarrow> 'a test_result \<Rightarrow> string list option" where
  "print_with_config date_text seconds_text cfg r =
     (let cols = print_columns date_text seconds_text cfg;
          widths = print_widths cols (tr_operations r)
      in map_option (\<lambda>rows.
           [[], ''=== Execution Result ==='', ''Status: '' @ display_execution_status (tr_status r)] @
           (case tr_error r of Some e \<Rightarrow> [''Error: '' @ display_test_result_error e] | None \<Rightarrow> []) @
           [''Operations: '' @ show_nat (length (tr_operations r)),
            ''Invocations: '' @ show_nat (length (tr_invocations r)), [],
            print_row (map fst cols) widths, print_separator widths] @
           map (\<lambda>row. print_row row widths) rows @ [[]])
         (print_cells cols (tr_operations r)))"

definition print :: "(int \<Rightarrow> string) \<Rightarrow> (int \<Rightarrow> string) \<Rightarrow> 'a test_result \<Rightarrow> string list option" where
  "print date_text seconds_text = print_with_config date_text seconds_text print_config_default"

section \<open>The rows are aligned\<close>

lemma char_count_simps [simp]:
  "char_count [] = 0" "char_count (c # s) = (if is_continuation c then 0 else 1) + char_count s"
  "char_count (s @ t) = char_count s + char_count t"
  by (simp_all add: char_count_def)

lemma char_count_le: "char_count s \<le> length s"
  by (simp add: char_count_def)

lemma char_count_replicate: "\<not> is_continuation c \<Longrightarrow> char_count (replicate n c) = n"
  by (induction n) simp_all

lemma ascii_not_continuation [simp]:
  "\<not> is_continuation CHR '' ''" "\<not> is_continuation CHR ''-''" "\<not> is_continuation CHR ''|''" "\<not> is_continuation CHR ''+''"
  by (simp_all add: is_continuation_def)

lemma char_count_pad: "char_count s \<le> w \<Longrightarrow> char_count (pad s w) = w"
  by (simp add: pad_def char_count_replicate)

lemma char_count_join:
  "char_count (join_strings sep xs) = sum_list (map char_count xs) + (length xs - 1) * char_count sep"
  by (induction sep xs rule: join_strings.induct) simp_all

definition line_length :: "nat list \<Rightarrow> nat" where
  "line_length widths = sum_list widths + (length widths - 1) * 3 + 4"

lemma char_count_row:
  assumes "list_all2 (\<lambda>s w. char_count s \<le> w) row widths"
  shows "char_count (print_row row widths) = line_length widths"
proof -
  have eq: "map char_count (map2 pad row widths) = widths"
    using assms by (induction rule: list_all2_induct) (simp_all add: char_count_pad)
  have len: "length (map2 pad row widths) = length widths"
    using assms by (simp add: list_all2_lengthD)
  show ?thesis unfolding print_row_def char_count_simps char_count_join eq len by (simp add: line_length_def)
qed

lemma char_count_separator: "char_count (print_separator widths) = line_length widths"
proof -
  have eq: "map char_count (map (\<lambda>w. replicate w CHR ''-'') widths) = widths"
    by (induction widths) (simp_all add: char_count_replicate)
  show ?thesis unfolding print_separator_def char_count_simps char_count_join eq by (simp add: line_length_def)
qed

lemma all_some_eq: "all_some xs = Some ys \<longleftrightarrow> xs = map Some ys"
  by (induction xs arbitrary: ys) (auto split: option.splits)

lemma all_some_None: "all_some xs = None \<longleftrightarrow> None \<in> set xs"
  by (induction xs) (auto split: option.splits)

lemma fold_max_ge: "(a :: nat) \<le> fold (\<lambda>x w. max w (f x)) xs a"
proof (induction xs arbitrary: a)
  case (Cons y xs)
  from Cons.IH [of "max a (f y)"] show ?case by simp
qed simp

lemma fold_max_in: "x \<in> set xs \<Longrightarrow> f x \<le> fold (\<lambda>x w. max w (f x)) xs (a :: nat)"
proof (induction xs arbitrary: a)
  case (Cons y xs)
  then show ?case using fold_max_ge [of "max a (f y)" f xs] by auto
qed simp

lemma print_widths_fit:
  assumes "op \<in> set ops" "map (\<lambda>(h, cell, m). cell op) cols = map Some row"
    and "\<And>h cell m v. (h, cell, m) \<in> set cols \<Longrightarrow> cell op = Some v \<Longrightarrow> m (length v) = length v"
  shows "list_all2 (\<lambda>s w. char_count s \<le> w) row (print_widths cols ops)"
  using assms(2,3)
proof (induction cols arbitrary: row)
  case (Cons col cols)
  obtain h cell m where col: "col = (h, cell, m)" by (cases col)
  obtain v row' where row: "row = v # row'" "cell op = Some v" "map (\<lambda>(h, cell, m). cell op) cols = map Some row'"
    using Cons.prems(1) col by (cases row) auto
  have m: "m (length v) = length v" using Cons.prems(2) [of h cell m v] row(2) by (simp add: col)
  have "m (case cell op of Some v \<Rightarrow> length v | None \<Rightarrow> 0) \<le>
      fold (\<lambda>op w. max w (m (case cell op of Some v \<Rightarrow> length v | None \<Rightarrow> 0))) ops (length h)"
    by (rule fold_max_in [OF assms(1)])
  then have "char_count v \<le> fold (\<lambda>op w. max w (m (case cell op of Some v \<Rightarrow> length v | None \<Rightarrow> 0))) ops (length h)"
    using row(2) m char_count_le [of v] by simp
  moreover have "list_all2 (\<lambda>s w. char_count s \<le> w) row' (print_widths cols ops)"
    by (rule Cons.IH [OF row(3)]) (use Cons.prems(2) in auto)
  ultimately show ?case by (simp add: row(1) col print_widths_def)
qed (simp add: print_widths_def)

lemma print_widths_header: "list_all2 (\<lambda>s w. char_count s \<le> w) (map fst cols) (print_widths cols ops)"
proof -
  have "char_count h \<le> fold (\<lambda>op w. max w (f op)) ops (length h)" for h :: string and f :: "operation \<Rightarrow> nat"
    using char_count_le [of h] fold_max_ge [of "length h" f ops] by simp
  then show ?thesis by (auto simp: print_widths_def list_all2_conv_all_nth split: prod.split)
qed

text \<open>Every cell but an error text is at most as long as it counts.\<close>

lemma result_cell_length:
  assumes "result_cell op = Some v" "\<And>e. op_error op = Some e \<Longrightarrow> length (eo_message e) \<le> 43"
  shows "length v \<le> 50"
  using assms by (auto simp: result_cell_def truncate_string_def split: option.splits if_splits)

lemma print_columns_measure:
  assumes "(h, cell, m) \<in> set (print_columns date_text seconds_text cfg)"
  shows "m = id \<or> cell = result_cell \<and> m = min 50"
  using assms by (auto simp: print_columns_def split: if_splits)

lemma print_rows_aligned:
  assumes "\<And>op e. op \<in> set (tr_operations r) \<Longrightarrow> op_error op = Some e \<Longrightarrow> length (eo_message e) \<le> 43"
    and "print_with_config date_text seconds_text cfg r = Some ls"
  shows "\<exists>pre table n. ls = pre @ table @ [[]] \<and> length table = length (tr_operations r) + 2 \<and>
     (\<forall>l \<in> set table. char_count l = n)"
proof -
  let ?cols = "print_columns date_text seconds_text cfg" and ?ops = "tr_operations r"
  let ?ws = "print_widths ?cols ?ops"
  obtain rows where rows: "print_cells ?cols ?ops = Some rows"
    using assms(2) by (auto simp: print_with_config_def Let_def)
  let ?table = "[print_row (map fst ?cols) ?ws, print_separator ?ws] @ map (\<lambda>row. print_row row ?ws) rows"
  have eq: "map (\<lambda>op. all_some (map (\<lambda>(h, cell, m). cell op) ?cols)) ?ops = map Some rows"
    using rows by (simp add: print_cells_def all_some_eq)
  have fit: "list_all2 (\<lambda>s w. char_count s \<le> w) row ?ws" if "row \<in> set rows" for row
  proof -
    from that have "Some row \<in> set (map Some rows)" by simp
    then obtain op where op: "op \<in> set ?ops" "map (\<lambda>(h, cell, m). cell op) ?cols = map Some row"
      unfolding eq [symmetric] by (auto simp: all_some_eq dest: sym)
    show ?thesis
    proof (rule print_widths_fit [OF op])
      fix h cell m v assume col: "(h, cell, m) \<in> set ?cols" "cell op = Some v"
      from print_columns_measure [OF col(1)] show "m (length v) = length v"
        using result_cell_length [of op v] assms(1) [OF op(1)] col(2) by auto
    qed
  qed
  have "length rows = length ?ops" using eq by (metis length_map)
  moreover have "char_count l = line_length ?ws" if "l \<in> set ?table" for l
    using that char_count_row [OF fit] char_count_row [OF print_widths_header] char_count_separator by auto
  moreover have "ls = ([[], ''=== Execution Result ==='', ''Status: '' @ display_execution_status (tr_status r)] @
      (case tr_error r of Some e \<Rightarrow> [''Error: '' @ display_test_result_error e] | None \<Rightarrow> []) @
      [''Operations: '' @ show_nat (length ?ops), ''Invocations: '' @ show_nat (length (tr_invocations r)), []]) @ ?table @ [[]]"
    using assms(2) rows by (simp add: print_with_config_def Let_def)
  ultimately show ?thesis by (intro exI conjI) (assumption, simp, blast)
qed

text \<open>Printing a result can panic, and exactly when the column of results is shown and some operation without
  an error has a result of more than 50 bytes whose 47th byte is the end of a proper part of a character:
  the text is cut there to make room for the dots.\<close>

lemma print_panics_iff:
  "print_with_config date_text seconds_text cfg r = None \<longleftrightarrow>
     show_result cfg \<and> (\<exists>op \<in> set (tr_operations r). op_error op = None \<and>
       (\<exists>s. get_result op = Some s \<and> 50 < length s \<and> is_continuation (s ! 47)))"
proof -
  have "result_cell op = None \<longleftrightarrow> op_error op = None \<and>
      (\<exists>s. get_result op = Some s \<and> 50 < length s \<and> is_continuation (s ! 47))" for op
    by (auto simp: result_cell_def truncate_string_def is_char_boundary_def split: option.split)
  moreover have "None \<in> set (map (\<lambda>(h, cell, m). cell op) (print_columns date_text seconds_text cfg)) \<longleftrightarrow>
      show_result cfg \<and> result_cell op = None" for op
    by (auto simp: print_columns_def)
  ultimately show ?thesis
    by (simp add: print_with_config_def Let_def print_cells_def all_some_None image_iff eq_commute [of None])
qed

end
