(* ===== verification/History_Poller.thy ===== *)
theory History_Poller
  imports Test_Result
begin

text \<open>
  Reading the history of an execution page by page: \<open>testing/src/history_poller.rs\<close>. The client that fetches a
  page and \<open>tokio::time::sleep\<close> act on the world \<open>'w\<close>; durations are numbers of milliseconds.
  A cycle follows the markers until a page has none; this may go on for ever, so \<open>poll_once\<close> is an option.
\<close>

section \<open>State\<close>

record history_page =
  hp_events :: "test_history_event list"
  hp_nodejs_events :: "nodejs_event list"
  hp_operations :: "operation list"
  hp_next_marker :: "string option"
  hp_is_terminal :: bool
  hp_terminal_status :: "execution_status option"
  hp_terminal_result :: "string option"
  hp_terminal_error :: "test_result_error option"

record terminal_state =
  ts_status :: execution_status
  ts_result :: "string option"
  ts_error :: "test_result_error option"

record poll_result =
  pr_operations :: "operation list"
  pr_events :: "test_history_event list"
  pr_nodejs_events :: "nodejs_event list"
  pr_terminal :: "terminal_state option"

text \<open>The client of a poller, and the clock it sleeps by.\<close>

record 'w history_client =
  hc_get_history :: "string \<Rightarrow> string option \<Rightarrow> ('w, test_error, history_page) cmd"
  hc_sleep :: "nat \<Rightarrow> 'w \<Rightarrow> 'w"

record history_poller =
  po_arn :: string
  po_interval :: nat
  po_last_marker :: "string option"
  po_max_retries :: nat

definition history_poller_new :: "string \<Rightarrow> nat \<Rightarrow> history_poller" where
  "history_poller_new arn interval =
     \<lparr>po_arn = arn, po_interval = interval, po_last_marker = None, po_max_retries = 3\<rparr>"

section \<open>One page\<close>

definition retry_delay_ms :: "nat \<Rightarrow> nat" where
  "retry_delay_ms attempts = (attempts ^ 2 - 1) * 150 + 1000"

function retry_loop :: "'w history_client \<Rightarrow> history_poller \<Rightarrow> string option \<Rightarrow> nat \<Rightarrow> ('w, test_error, history_page) cmd" where
  "retry_loop cl p marker attempts w = (case hc_get_history cl (po_arn p) marker w of
     (Inr page, w1) \<Rightarrow> (Inr page, w1)
   | (Inl e, w1) \<Rightarrow>
       (if attempts < po_max_retries p
        then retry_loop cl p marker (attempts + 1) (hc_sleep cl (retry_delay_ms (attempts + 1)) w1)
        else (Inl e, w1)))"
  by pat_completeness auto
termination by (relation "measure (\<lambda>(cl, p, marker, attempts, w). po_max_retries p - attempts)") auto

declare retry_loop.simps [simp del]

definition call_with_retries :: "'w history_client \<Rightarrow> history_poller \<Rightarrow> string option \<Rightarrow> ('w, test_error, history_page) cmd" where
  "call_with_retries cl p marker = retry_loop cl p marker 0"

section \<open>One cycle\<close>

definition terminal_of :: "history_page \<Rightarrow> terminal_state option" where
  "terminal_of page = (if hp_is_terminal page
     then Some \<lparr>ts_status = (case hp_terminal_status page of Some s \<Rightarrow> s | None \<Rightarrow> FailedExecution),
       ts_result = hp_terminal_result page, ts_error = hp_terminal_error page\<rparr>
     else None)"

definition poll_result_empty :: poll_result where
  "poll_result_empty = \<lparr>pr_operations = [], pr_events = [], pr_nodejs_events = [], pr_terminal = None\<rparr>"

definition add_page :: "history_page \<Rightarrow> poll_result \<Rightarrow> poll_result" where
  "add_page page r = \<lparr>pr_operations = pr_operations r @ hp_operations page,
     pr_events = pr_events r @ hp_events page,
     pr_nodejs_events = pr_nodejs_events r @ hp_nodejs_events page,
     pr_terminal = (case pr_terminal r of Some t \<Rightarrow> Some t | None \<Rightarrow> terminal_of page)\<rparr>"

text \<open>The loop over the pages: the collected result and the marker of the last page.\<close>

partial_function (option) poll_pages ::
  "'w history_client \<Rightarrow> history_poller \<Rightarrow> string option \<Rightarrow> poll_result \<Rightarrow> 'w \<Rightarrow>
   ((test_error + poll_result \<times> string option) \<times> 'w) option"
where
  "poll_pages cl p marker r w = (case call_with_retries cl p marker w of
     (Inl e, w1) \<Rightarrow> Some (Inl e, w1)
   | (Inr page, w1) \<Rightarrow> (case hp_next_marker page of
       Some next \<Rightarrow> poll_pages cl p (Some next) (add_page page r) (hc_sleep cl (po_interval p) w1)
     | None \<Rightarrow> Some (Inr (add_page page r, marker), w1)))"

definition poll_once ::
  "'w history_client \<Rightarrow> history_poller \<Rightarrow> 'w \<Rightarrow> ((test_error + poll_result \<times> history_poller) \<times> 'w) option"
where
  "poll_once cl p w = (case poll_pages cl p (po_last_marker p) poll_result_empty w of
     None \<Rightarrow> None
   | Some (Inl e, w1) \<Rightarrow> Some (Inl e, w1)
   | Some (Inr (r, marker), w1) \<Rightarrow> Some (Inr (r, p\<lparr>po_last_marker := marker\<rparr>), w1))"

section \<open>Retries\<close>

lemma retry_loop_Inr:
  "hc_get_history cl (po_arn p) marker w = (Inr page, w1) \<Longrightarrow> retry_loop cl p marker n w = (Inr page, w1)"
  by (subst retry_loop.simps) simp

lemma retry_loop_again:
  assumes "hc_get_history cl (po_arn p) marker w = (Inl e, w1)" "n < po_max_retries p"
  shows "retry_loop cl p marker n w = retry_loop cl p marker (n + 1) (hc_sleep cl (retry_delay_ms (n + 1)) w1)"
  using assms by (subst retry_loop.simps) simp

lemma retry_loop_stop:
  assumes "hc_get_history cl (po_arn p) marker w = (Inl e, w1)" "\<not> n < po_max_retries p"
  shows "retry_loop cl p marker n w = (Inl e, w1)"
  using assms by (subst retry_loop.simps) simp

text \<open>A page comes from one request; what every request and every pause keep, the loop keeps.\<close>

lemma retry_loop_page:
  assumes "retry_loop cl p marker n w = (q, w')"
  shows "\<exists>u. hc_get_history cl (po_arn p) marker u = (q, w')"
  using assms
proof (induction "po_max_retries p - n" arbitrary: n w rule: less_induct)
  case less
  obtain q1 w1 where c: "hc_get_history cl (po_arn p) marker w = (q1, w1)" by (cases "hc_get_history cl (po_arn p) marker w")
  show ?case
  proof (cases "\<exists>e. q1 = Inl e \<and> n < po_max_retries p")
    case True
    then obtain e where e: "q1 = Inl e" "n < po_max_retries p" by blast
    show ?thesis
      by (rule less.hyps [of "n + 1"]) (use less.prems retry_loop_again [of cl p marker w e w1 n] c e in auto)
  next
    case False
    then have "retry_loop cl p marker n w = (q1, w1)"
      using c retry_loop_Inr [of cl p marker w _ w1] retry_loop_stop [of cl p marker w _ w1 n] by (cases q1) auto
    with less.prems c show ?thesis by auto
  qed
qed

lemma retry_loop_invariant:
  assumes get: "\<And>m u. I u \<Longrightarrow> I (snd (hc_get_history cl (po_arn p) m u))" and sleep: "\<And>d u. I u \<Longrightarrow> I (hc_sleep cl d u)"
    and "I w"
  shows "I (snd (retry_loop cl p marker n w))"
  using \<open>I w\<close>
proof (induction "po_max_retries p - n" arbitrary: n w rule: less_induct)
  case less
  obtain q1 w1 where c: "hc_get_history cl (po_arn p) marker w = (q1, w1)" by (cases "hc_get_history cl (po_arn p) marker w")
  have I1: "I w1" using get [OF less.prems, of marker] c by simp
  show ?case
  proof (cases "\<exists>e. q1 = Inl e \<and> n < po_max_retries p")
    case True
    then obtain e where e: "q1 = Inl e" "n < po_max_retries p" by blast
    have "I (snd (retry_loop cl p marker (n + 1) (hc_sleep cl (retry_delay_ms (n + 1)) w1)))"
      by (rule less.hyps [OF _ sleep [OF I1]]) (use e in simp)
    with retry_loop_again [of cl p marker w e w1 n] c e show ?thesis by simp
  next
    case False
    then have "retry_loop cl p marker n w = (q1, w1)"
      using c retry_loop_Inr [of cl p marker w _ w1] retry_loop_stop [of cl p marker w _ w1 n] by (cases q1) auto
    with I1 show ?thesis by simp
  qed
qed

lemma retry_delays: "map retry_delay_ms [1, 2, 3] = [1000, 1450, 2200]"
  by (simp add: retry_delay_ms_def)

section \<open>The pages of a cycle\<close>

text \<open>The markers of the pages from a marker on.\<close>

inductive page_run :: "(string option \<Rightarrow> history_page) \<Rightarrow> string option \<Rightarrow> string option list \<Rightarrow> bool" for pages where
  last: "hp_next_marker (pages m) = None \<Longrightarrow> page_run pages m [m]"
| more: "hp_next_marker (pages m) = Some n \<Longrightarrow> page_run pages (Some n) ms \<Longrightarrow> page_run pages m (m # ms)"

lemma page_run_hd: "page_run pages m ms \<Longrightarrow> ms \<noteq> [] \<and> hd ms = m"
  by (induction rule: page_run.induct) simp_all

definition add_pages :: "(string option \<Rightarrow> history_page) \<Rightarrow> string option list \<Rightarrow> poll_result \<Rightarrow> poll_result" where
  "add_pages pages ms r = fold (\<lambda>m. add_page (pages m)) ms r"

lemma add_pages_sel:
  "pr_operations (add_pages pages ms r) = pr_operations r @ concat (map (\<lambda>m. hp_operations (pages m)) ms)"
  "pr_events (add_pages pages ms r) = pr_events r @ concat (map (\<lambda>m. hp_events (pages m)) ms)"
  "pr_nodejs_events (add_pages pages ms r) = pr_nodejs_events r @ concat (map (\<lambda>m. hp_nodejs_events (pages m)) ms)"
  by (induction ms arbitrary: r) (simp_all add: add_pages_def add_page_def)

text \<open>A client that answers from the history of the world.\<close>

definition serves :: "'w history_client \<Rightarrow> string \<Rightarrow> ('w \<Rightarrow> string option \<Rightarrow> history_page) \<Rightarrow> bool" where
  "serves cl arn hist = ((\<forall>m w. \<exists>w1. hc_get_history cl arn m w = (Inr (hist w m), w1) \<and> hist w1 = hist w) \<and>
     (\<forall>d w. hist (hc_sleep cl d w) = hist w))"

lemma poll_pages_run:
  assumes "page_run h m ms" "serves cl (po_arn p) hist" "hist w = h"
  shows "\<exists>w1. poll_pages cl p m r w = Some (Inr (add_pages h ms r, last ms), w1) \<and> hist w1 = h"
  using assms(1,3)
proof (induction arbitrary: r w rule: page_run.induct)
  case (last m r w)
  obtain w1 where g: "hc_get_history cl (po_arn p) m w = (Inr (hist w m), w1)" "hist w1 = hist w"
    using assms(2) unfolding serves_def by blast
  show ?case
    using last.hyps last.prems retry_loop_Inr [OF g(1), of 0] g(2)
    by (subst poll_pages.simps) (simp add: call_with_retries_def add_pages_def)
next
  case (more m n ms r w)
  obtain w1 where g: "hc_get_history cl (po_arn p) m w = (Inr (hist w m), w1)" "hist w1 = hist w"
    using assms(2) unfolding serves_def by blast
  let ?w2 = "hc_sleep cl (po_interval p) w1"
  have eq: "hist ?w2 = h" using assms(2) g(2) more.prems by (simp add: serves_def)
  obtain w3 where "poll_pages cl p (Some n) (add_page (h m) r) ?w2 =
      Some (Inr (add_pages h ms (add_page (h m) r), last ms), w3)" "hist w3 = h"
    using more.IH [OF eq] by blast
  moreover have "ms \<noteq> []" using page_run_hd [OF more.hyps(2)] by simp
  ultimately show ?case
    using more.hyps(1) more.prems retry_loop_Inr [OF g(1), of 0]
    by (subst poll_pages.simps) (simp add: call_with_retries_def add_pages_def)
qed

lemma poll_once_run:
  assumes "page_run (hist w) (po_last_marker p) ms" "serves cl (po_arn p) hist"
  obtains w1 where "poll_once cl p w =
      Some (Inr (add_pages (hist w) ms poll_result_empty, p\<lparr>po_last_marker := last ms\<rparr>), w1)" "hist w1 = hist w"
proof -
  obtain w1 where "poll_pages cl p (po_last_marker p) poll_result_empty w =
      Some (Inr (add_pages (hist w) ms poll_result_empty, last ms), w1)" "hist w1 = hist w"
    using poll_pages_run [OF assms refl] by blast
  with that show ?thesis by (simp add: poll_once_def)
qed

text \<open>A cycle reads the pages from its marker to the end and keeps the marker of the last page, so that
  the next cycle, whatever the history has become, begins with that page again: its events are collected twice.\<close>

lemma poll_once_repeats_last_page:
  assumes "serves cl (po_arn p) hist"
    and "page_run (hist w) (po_last_marker p) ms" "page_run (hist w2) (last ms) ms2"
  shows "\<exists>r1 p1 w1 r2 p2 w3. poll_once cl p w = Some (Inr (r1, p1), w1) \<and>
     poll_once cl p1 w2 = Some (Inr (r2, p2), w3) \<and>
     pr_nodejs_events r1 = concat (map (\<lambda>m. hp_nodejs_events (hist w m)) (butlast ms)) @ hp_nodejs_events (hist w (last ms)) \<and>
     pr_nodejs_events r2 = hp_nodejs_events (hist w2 (last ms)) @ concat (map (\<lambda>m. hp_nodejs_events (hist w2 m)) (tl ms2)) \<and>
     po_last_marker p2 = last ms2"
proof -
  let ?p1 = "p\<lparr>po_last_marker := last ms\<rparr>"
  obtain w1 where 1: "poll_once cl p w = Some (Inr (add_pages (hist w) ms poll_result_empty, ?p1), w1)"
    by (rule poll_once_run [OF assms(2,1)])
  have "serves cl (po_arn ?p1) hist" "page_run (hist w2) (po_last_marker ?p1) ms2" using assms(1,3) by simp_all
  then obtain w3 where 2: "poll_once cl ?p1 w2 =
      Some (Inr (add_pages (hist w2) ms2 poll_result_empty, ?p1\<lparr>po_last_marker := last ms2\<rparr>), w3)"
    by (metis poll_once_run)
  have "ms = butlast ms @ [last ms]" using page_run_hd [OF assms(2)] by simp
  then have e1: "concat (map f ms) = concat (map f (butlast ms)) @ f (last ms)" for f :: "string option \<Rightarrow> nodejs_event list"
    by (metis (no_types, lifting) concat.simps append_Nil2 concat_append list.simps(8,9) map_append)
  have "ms2 = last ms # tl ms2" using page_run_hd [OF assms(3)] by (cases ms2) simp_all
  then have e2: "concat (map f ms2) = f (last ms) @ concat (map f (tl ms2))" for f :: "string option \<Rightarrow> nodejs_event list"
    by (metis concat.simps(2) list.simps(9))
  show ?thesis
    by (intro exI conjI, rule 1, rule 2) (simp_all add: add_pages_sel poll_result_empty_def e1 e2)
qed

definition one_page :: "u64 list \<Rightarrow> string option \<Rightarrow> history_page" where
  "one_page ids next = \<lparr>hp_events = [],
     hp_nodejs_events = map (\<lambda>i. \<lparr>ne_event_type = StepStarted, ne_event_id = i, ne_id = None, ne_timestamp = None,
       ne_sub_type = None, ne_name = None, ne_parent_id = None, ne_details = EmptyDetails\<rparr>) ids,
     hp_operations = [], hp_next_marker = next, hp_is_terminal = False,
     hp_terminal_status = None, hp_terminal_result = None, hp_terminal_error = None\<rparr>"

definition page_client :: "(string option \<Rightarrow> history_page) history_client" where
  "page_client = \<lparr>hc_get_history = (\<lambda>arn m w. (Inr (w m), w)), hc_sleep = (\<lambda>d w. w)\<rparr>"

lemma poll_once_repeats_last_page_witness:
  "\<exists>r1 p1 w1 r2 p2 w3.
     poll_once page_client (history_poller_new ''arn'' 1000)
       (\<lambda>m. if m = None then one_page [1] (Some ''a'') else one_page [2] None) = Some (Inr (r1, p1), w1) \<and>
     poll_once page_client p1
       (\<lambda>m. if m = None then one_page [1] (Some ''a'') else one_page [2, 3] None) = Some (Inr (r2, p2), w3) \<and>
     map ne_event_id (pr_nodejs_events r1) = [1, 2] \<and> map ne_event_id (pr_nodejs_events r2) = [2, 3] \<and>
     po_last_marker p2 = Some ''a''"
proof -
  let ?w = "\<lambda>m. if m = None then one_page [1] (Some ''a'') else one_page [2] None"
  let ?w2 = "\<lambda>m. if m = None then one_page [1] (Some ''a'') else one_page [2, 3] None"
  have s: "serves page_client (po_arn (history_poller_new ''arn'' 1000)) (\<lambda>w. w)"
    by (simp add: serves_def page_client_def)
  have r: "page_run ?w (po_last_marker (history_poller_new ''arn'' 1000)) [None, Some ''a'']"
    by (rule page_run.intros | simp add: one_page_def history_poller_new_def)+
  have r2: "page_run ?w2 (last [None, Some ''a'']) [Some ''a'']"
    by (rule page_run.intros | simp add: one_page_def)+
  show ?thesis
    using poll_once_repeats_last_page [where p = "history_poller_new ''arn'' 1000" and w = ?w and hist = "\<lambda>w. w", OF s r r2]
    apply (elim exE conjE)
    apply (intro exI conjI, assumption, assumption)
    by (simp_all add: one_page_def)
qed

end
