(* ===== verification/Operation_Storage.thy ===== *)
theory Operation_Storage
  imports Test_Types Operation_Store Prelude
begin

text \<open>
  Two small parts of the test runner: the operation storage of
  \<open>testing/src/checkpoint_server/orchestrator.rs\<close>, a list of operations with an index by identifier and
  one by name, and the first-in-first-out scheduler of \<open>scheduler.rs\<close>.
\<close>

section \<open>Operation storage\<close>

record operation_storage =
  os_operations :: "operation list"
  os_operations_by_id :: "(string \<times> nat) list"
  os_operations_by_name :: "(string \<times> nat list) list"

definition operation_storage_new :: operation_storage where
  "operation_storage_new = \<lparr>os_operations = [], os_operations_by_id = [], os_operations_by_name = []\<rparr>"

definition os_add_operation :: "operation \<Rightarrow> operation_storage \<Rightarrow> operation_storage" where
  "os_add_operation op s =
     (let index = length (os_operations s);
          s1 = s\<lparr>os_operations := os_operations s @ [op],
                 os_operations_by_id := hm_insert (op_id op) index (os_operations_by_id s)\<rparr>
      in case op_name op of
           Some n \<Rightarrow> s1\<lparr>os_operations_by_name := hm_insert n
             ((case hm_get (os_operations_by_name s1) n of Some is \<Rightarrow> is | None \<Rightarrow> []) @ [index])
             (os_operations_by_name s1)\<rparr>
         | None \<Rightarrow> s1)"

definition os_update_operation :: "operation \<Rightarrow> operation_storage \<Rightarrow> operation_storage" where
  "os_update_operation op s = (case hm_get (os_operations_by_id s) (op_id op) of
     Some index \<Rightarrow> s\<lparr>os_operations := (os_operations s)[index := op]\<rparr>
   | None \<Rightarrow> os_add_operation op s)"

definition os_get_by_id :: "operation_storage \<Rightarrow> string \<Rightarrow> operation option" where
  "os_get_by_id s i = Option.bind (hm_get (os_operations_by_id s) i)
     (\<lambda>index. if index < length (os_operations s) then Some (os_operations s ! index) else None)"

definition os_clear :: "operation_storage \<Rightarrow> operation_storage" where
  "os_clear s = operation_storage_new"

definition os_len :: "operation_storage \<Rightarrow> nat" where
  "os_len s = length (os_operations s)"

definition os_is_empty :: "operation_storage \<Rightarrow> bool" where
  "os_is_empty s = (os_operations s = [])"

text \<open>Every identifier points to its own operation.\<close>

definition os_wf :: "operation_storage \<Rightarrow> bool" where
  "os_wf s \<longleftrightarrow> (\<forall>i index. hm_get (os_operations_by_id s) i = Some index \<longrightarrow>
     index < length (os_operations s) \<and> op_id (os_operations s ! index) = i)"

lemma os_wf_new [simp]: "os_wf operation_storage_new"
  by (simp add: os_wf_def operation_storage_new_def)

lemma os_add_sel [simp]:
  "os_operations (os_add_operation op s) = os_operations s @ [op]"
  "os_operations_by_id (os_add_operation op s) = hm_insert (op_id op) (length (os_operations s)) (os_operations_by_id s)"
  by (simp_all add: os_add_operation_def Let_def split: option.split)

lemma os_wfD:
  "os_wf s \<Longrightarrow> hm_get (os_operations_by_id s) i = Some index \<Longrightarrow>
   index < length (os_operations s) \<and> op_id (os_operations s ! index) = i"
  by (simp add: os_wf_def)

lemma os_get:
  assumes "os_wf s"
  shows "os_get_by_id s i = map_option ((!) (os_operations s)) (hm_get (os_operations_by_id s) i)"
  using os_wfD [OF assms] by (cases "hm_get (os_operations_by_id s) i") (auto simp: os_get_by_id_def)

lemma os_wf_add: "os_wf s \<Longrightarrow> os_wf (os_add_operation op s)"
  by (auto simp: os_wf_def hm_get_insert nth_append less_SucI)

lemma os_get_add:
  assumes "os_wf s"
  shows "os_get_by_id (os_add_operation op s) i = (if i = op_id op then Some op else os_get_by_id s i)"
  using os_wfD [OF assms, of i]
  by (cases "hm_get (os_operations_by_id s) i")
     (auto simp: os_get [OF assms] os_get [OF os_wf_add [OF assms]] hm_get_insert nth_append)

lemma os_wf_set:
  assumes "os_wf s" "hm_get (os_operations_by_id s) (op_id op) = Some index"
  shows "os_wf (s\<lparr>os_operations := (os_operations s)[index := op]\<rparr>)"
proof -
  have "j < length (os_operations s) \<and> op_id ((os_operations s)[index := op] ! j) = i"
    if "hm_get (os_operations_by_id s) i = Some j" for i j
    using os_wfD [OF assms(1) that] os_wfD [OF assms] by (cases "j = index") auto
  then show ?thesis by (simp add: os_wf_def)
qed

lemma os_wf_update: "os_wf s \<Longrightarrow> os_wf (os_update_operation op s)"
  by (simp add: os_update_operation_def os_wf_add os_wf_set split: option.split)

lemma os_get_update:
  assumes "os_wf s"
  shows "os_get_by_id (os_update_operation op s) i = (if i = op_id op then Some op else os_get_by_id s i)"
proof (cases "hm_get (os_operations_by_id s) (op_id op)")
  case None
  with os_get_add [OF assms] show ?thesis by (simp add: os_update_operation_def)
next
  case (Some index)
  have "j \<noteq> index" if "hm_get (os_operations_by_id s) i = Some j" "i \<noteq> op_id op" for j
    using os_wfD [OF assms that(1)] os_wfD [OF assms Some] that(2) by auto
  with Some os_wfD [OF assms Some] show ?thesis
    by (cases "hm_get (os_operations_by_id s) i")
       (auto simp: os_update_operation_def os_get [OF assms] os_get [OF os_wf_set [OF assms Some]])
qed

interpretation os_store: op_store os_get_by_id os_update_operation os_wf
  by unfold_locales (simp_all add: os_get_update os_wf_update)

section \<open>The queue scheduler\<close>

text \<open>A scheduled function acts on the world \<open>'w\<close>; its checkpoint update may fail.\<close>

record 'w scheduled_function =
  sf_start_invocation :: "'w \<Rightarrow> 'w"
  sf_on_error :: "test_error \<Rightarrow> 'w \<Rightarrow> 'w"
  sf_timestamp :: "int option"
  sf_update_checkpoint :: "('w, test_error, unit) cmd option"

record 'w queue_scheduler =
  qs_function_queue :: "'w scheduled_function list"
  qs_is_processing :: bool

definition queue_scheduler_new :: "'w queue_scheduler" where
  "queue_scheduler_new = \<lparr>qs_function_queue = [], qs_is_processing = False\<rparr>"

definition schedule_function :: "'w scheduled_function \<Rightarrow> 'w queue_scheduler \<Rightarrow> 'w queue_scheduler" where
  "schedule_function f q = q\<lparr>qs_function_queue := qs_function_queue q @ [f]\<rparr>"

definition has_scheduled_function :: "'w queue_scheduler \<Rightarrow> bool" where
  "has_scheduled_function q = (qs_function_queue q \<noteq> [])"

definition flush_timers :: "'w queue_scheduler \<Rightarrow> 'w queue_scheduler" where
  "flush_timers q = q\<lparr>qs_function_queue := []\<rparr>"

definition run_scheduled :: "'w scheduled_function \<Rightarrow> 'w \<Rightarrow> 'w" where
  "run_scheduled f w = (case sf_update_checkpoint f of
     Some update \<Rightarrow> (case update w of
         (Inl e, w1) \<Rightarrow> sf_on_error f e w1
       | (Inr _, w1) \<Rightarrow> sf_start_invocation f w1)
   | None \<Rightarrow> sf_start_invocation f w)"

definition process_next :: "'w queue_scheduler \<Rightarrow> 'w \<Rightarrow> bool \<times> 'w queue_scheduler \<times> 'w" where
  "process_next q w = (case qs_function_queue q of
     f # fs \<Rightarrow> (True, \<lparr>qs_function_queue = fs, qs_is_processing = False\<rparr>, run_scheduled f w)
   | [] \<Rightarrow> (False, q, w))"

text \<open>Processing until nothing is left runs the functions in the order in which they were scheduled, each once.\<close>

fun process_all :: "nat \<Rightarrow> 'w queue_scheduler \<Rightarrow> 'w \<Rightarrow> 'w queue_scheduler \<times> 'w" where
  "process_all 0 q w = (q, w)"
| "process_all (Suc n) q w = (case process_next q w of
     (again, q1, w1) \<Rightarrow> if again then process_all n q1 w1 else (q1, w1))"

lemma process_all_in_order:
  "length (qs_function_queue q) \<le> n \<Longrightarrow>
   snd (process_all n q w) = fold run_scheduled (qs_function_queue q) w \<and>
   \<not> has_scheduled_function (fst (process_all n q w))"
proof (induction n arbitrary: q w)
  case 0
  then show ?case by (simp add: has_scheduled_function_def)
next
  case (Suc n)
  then show ?case
    by (cases "qs_function_queue q") (auto simp: process_next_def has_scheduled_function_def)
qed

end
