(* ===== verification/Durable_Operation.thy ===== *)
theory Durable_Operation
  imports Test_Types Serialization
begin

text \<open>
  What a test sees of an operation: \<open>testing/src/operation.rs\<close> (a snapshot of an operation, with typed
  details, callbacks and waiting) and \<open>testing/src/operation_handle.rs\<close> (a place that the runner fills while the
  execution goes on). The conversion of milliseconds to a date, which may refuse a number, is the
  parameter \<open>utc\<close>. The values of a watch channel are the list of those a waiting task wakes up to; after
  them the channel is closed or nothing happens any more, in which case the task waits for ever (\<open>None\<close>).
\<close>

section \<open>A snapshot\<close>

record 'w callback_sender =
  cs_send_success :: "string \<Rightarrow> string \<Rightarrow> ('w, test_error, unit) cmd"
  cs_send_failure :: "string \<Rightarrow> test_result_error \<Rightarrow> ('w, test_error, unit) cmd"
  cs_send_heartbeat :: "string \<Rightarrow> ('w, test_error, unit) cmd"

record status_watcher =
  sw_current :: operation_status
  sw_updates :: "operation_status list"
  sw_closed :: bool

record 'w durable_op =
  do_operation :: operation
  do_callback_sender :: "'w callback_sender option"
  do_status_watcher :: "status_watcher option"
  do_all_operations :: "operation list option"

definition durable_op_new :: "operation \<Rightarrow> 'w durable_op" where
  "durable_op_new op = \<lparr>do_operation = op, do_callback_sender = None, do_status_watcher = None, do_all_operations = None\<rparr>"

definition durable_op_with_all ::
  "operation \<Rightarrow> 'w callback_sender option \<Rightarrow> status_watcher option \<Rightarrow> 'w durable_op" where
  "durable_op_with_all op cs sw =
     \<lparr>do_operation = op, do_callback_sender = cs, do_status_watcher = sw, do_all_operations = None\<rparr>"

definition with_operations :: "operation list \<Rightarrow> 'w durable_op \<Rightarrow> 'w durable_op" where
  "with_operations ops d = d\<lparr>do_all_operations := Some ops\<rparr>"

definition get_start_timestamp :: "(int \<Rightarrow> int option) \<Rightarrow> 'w durable_op \<Rightarrow> int option" where
  "get_start_timestamp utc d = Option.bind (op_start_timestamp (do_operation d)) utc"

definition get_end_timestamp :: "(int \<Rightarrow> int option) \<Rightarrow> 'w durable_op \<Rightarrow> int option" where
  "get_end_timestamp utc d = Option.bind (op_end_timestamp (do_operation d)) utc"

definition is_callback :: "'w durable_op \<Rightarrow> bool" where
  "is_callback d = (op_type (do_operation d) = CallbackOp)"

definition child_operations :: "string \<Rightarrow> operation list \<Rightarrow> 'w durable_op list" where
  "child_operations i ops =
     map (\<lambda>op. with_operations ops (durable_op_new op)) (filter (\<lambda>op. op_parent_id op = Some i) ops)"

definition do_get_child_operations :: "'w durable_op \<Rightarrow> 'w durable_op list" where
  "do_get_child_operations d = (case do_all_operations d of
     None \<Rightarrow> [] | Some ops \<Rightarrow> child_operations (op_id (do_operation d)) ops)"

section \<open>Typed details\<close>

record 'a step_view =
  sv_attempt :: "u32 option"
  sv_next_attempt_timestamp :: "int option"
  sv_result :: "'a option"
  sv_error :: "test_result_error option"

record wait_view =
  wv_wait_seconds :: "int option"
  wv_scheduled_end_timestamp :: "int option"

record 'a callback_view =
  cv_callback_id :: "string option"
  cv_result :: "'a option"
  cv_error :: "test_result_error option"

record 'a result_view =
  rv_result :: "'a option"
  rv_error :: "test_result_error option"

definition expect_type :: "operation_type \<Rightarrow> operation \<Rightarrow> test_error + unit" where
  "expect_type t op = (if op_type op = t then Inr () else Inl (OperationTypeMismatch t (op_type op)))"

definition parse_result :: "'a codec \<Rightarrow> string option \<Rightarrow> test_error + 'a option" where
  "parse_result c r = (case r of
     None \<Rightarrow> Inr None
   | Some s \<Rightarrow> (case from_json c s of Inl m \<Rightarrow> Inl (TestSerializationError m) | Inr x \<Rightarrow> Inr (Some x)))"

text \<open>The common part of the four detail methods that read a result: the type, then the text.\<close>

definition read_details :: "operation_type \<Rightarrow> 'a codec \<Rightarrow> string option \<Rightarrow> ('a option \<Rightarrow> 'v) \<Rightarrow> operation \<Rightarrow> test_error + 'v" where
  "read_details t c r f op = (case expect_type t op of
     Inl e \<Rightarrow> Inl e
   | Inr _ \<Rightarrow> (case parse_result c r of Inl e \<Rightarrow> Inl e | Inr x \<Rightarrow> Inr (f x)))"

definition get_step_details :: "(int \<Rightarrow> int option) \<Rightarrow> 'a codec \<Rightarrow> 'w durable_op \<Rightarrow> test_error + 'a step_view" where
  "get_step_details utc c d =
     (let op = do_operation d; sd = op_step_details op in
      read_details StepOp c (Option.bind sd sd_result)
        (\<lambda>x. \<lparr>sv_attempt = Option.bind sd sd_attempt,
             sv_next_attempt_timestamp = Option.bind (Option.bind sd sd_next_attempt_timestamp) utc,
             sv_result = x, sv_error = map_option test_result_error_of (Option.bind sd sd_error)\<rparr>) op)"

text \<open>The seconds of a wait: the saturating difference of two \<open>i64\<close> times, divided towards zero and cast to
  \<open>u64\<close>, which turns a negative number into one near the top of the range.\<close>

definition wait_seconds_of :: "int \<Rightarrow> int \<Rightarrow> int" where
  "wait_seconds_of start end =
     (let ms = min (2 ^ 63 - 1) (max (- (2 ^ 63)) (end - start));
          s = (if ms < 0 then - ((- ms) div 1000) else ms div 1000)
      in s mod 2 ^ 64)"

definition get_wait_details :: "(int \<Rightarrow> int option) \<Rightarrow> 'w durable_op \<Rightarrow> test_error + wait_view" where
  "get_wait_details utc d =
     (let op = do_operation d in
      case expect_type WaitOp op of
        Inl e \<Rightarrow> Inl e
      | Inr _ \<Rightarrow> Inr \<lparr>wv_wait_seconds = (case (op_start_timestamp op, op_wait_details op) of
            (Some start, Some end) \<Rightarrow> map_option (wait_seconds_of start) end | _ \<Rightarrow> None),
          wv_scheduled_end_timestamp = Option.bind (Option.bind (op_wait_details op) id) utc\<rparr>)"

definition get_callback_details :: "'a codec \<Rightarrow> 'w durable_op \<Rightarrow> test_error + 'a callback_view" where
  "get_callback_details c d =
     (let op = do_operation d; cd = op_callback_details op in
      read_details CallbackOp c (Option.bind cd cd_result)
        (\<lambda>x. \<lparr>cv_callback_id = Option.bind cd cd_callback_id, cv_result = x,
             cv_error = map_option test_result_error_of (Option.bind cd cd_error)\<rparr>) op)"

definition get_invoke_details :: "'a codec \<Rightarrow> 'w durable_op \<Rightarrow> test_error + 'a result_view" where
  "get_invoke_details c d =
     (let op = do_operation d; ci = op_chained_invoke_details op in
      read_details InvokeOp c (Option.bind ci ci_result)
        (\<lambda>x. \<lparr>rv_result = x, rv_error = map_option test_result_error_of (Option.bind ci ci_error)\<rparr>) op)"

definition get_context_details :: "'a codec \<Rightarrow> 'w durable_op \<Rightarrow> test_error + 'a result_view" where
  "get_context_details c d =
     (let op = do_operation d; cx = op_context_details op in
      read_details ContextOp c (Option.bind cx cx_result)
        (\<lambda>x. \<lparr>rv_result = x, rv_error = map_option test_result_error_of (Option.bind cx cx_error)\<rparr>) op)"

section \<open>Callbacks\<close>

definition callback_id_of :: "string \<Rightarrow> operation \<Rightarrow> test_error + string" where
  "callback_id_of msg op = (case Option.bind (op_callback_details op) cd_callback_id of
     Some i \<Rightarrow> Inr i | None \<Rightarrow> Inl (ResultNotAvailable msg))"

definition do_get_callback_id :: "'w durable_op \<Rightarrow> test_error + string" where
  "do_get_callback_id d = callback_id_of ''Callback ID not available for this operation'' (do_operation d)"

text \<open>The three methods differ in what they ask the sender; without a sender they do nothing.\<close>

definition with_callback_sender ::
  "('w callback_sender \<Rightarrow> string \<Rightarrow> ('w, test_error, unit) cmd) \<Rightarrow> 'w durable_op \<Rightarrow> ('w, test_error, unit) cmd" where
  "with_callback_sender f d =
     (if \<not> is_callback d then throwE NotCallbackOperation
      else bindE (liftE (do_get_callback_id d)) (\<lambda>i.
        case do_callback_sender d of Some cs \<Rightarrow> f cs i | None \<Rightarrow> retE ()))"

definition do_send_callback_success :: "string \<Rightarrow> 'w durable_op \<Rightarrow> ('w, test_error, unit) cmd" where
  "do_send_callback_success result = with_callback_sender (\<lambda>cs i. cs_send_success cs i result)"

definition do_send_callback_failure :: "test_result_error \<Rightarrow> 'w durable_op \<Rightarrow> ('w, test_error, unit) cmd" where
  "do_send_callback_failure e = with_callback_sender (\<lambda>cs i. cs_send_failure cs i e)"

definition do_send_callback_heartbeat :: "'w durable_op \<Rightarrow> ('w, test_error, unit) cmd" where
  "do_send_callback_heartbeat = with_callback_sender cs_send_heartbeat"

section \<open>Waiting on a snapshot\<close>

definition submitted :: "operation \<Rightarrow> bool" where
  "submitted op = (op_type op = CallbackOp \<longrightarrow> Option.bind (op_callback_details op) cd_callback_id \<noteq> None)"

fun do_status_matches :: "'w durable_op \<Rightarrow> operation_status \<Rightarrow> waiting_operation_status \<Rightarrow> bool" where
  "do_status_matches d s WaitingStarted = True"
| "do_status_matches d s WaitingSubmitted = submitted (do_operation d)"
| "do_status_matches d s WaitingCompleted = is_terminal s"

definition completed_early :: "'w durable_op \<Rightarrow> waiting_operation_status \<Rightarrow> test_error" where
  "completed_early d target = ExecutionCompletedEarly (op_id (do_operation d)) target"

fun watch_loop ::
  "'w durable_op \<Rightarrow> waiting_operation_status \<Rightarrow> operation_status \<Rightarrow> operation_status list \<Rightarrow> bool \<Rightarrow>
   (test_error + unit) option"
where
  "watch_loop d target s [] is_closed =
     (if do_status_matches d s target then Some (Inr ())
      else if is_terminal s \<or> is_closed then Some (Inl (completed_early d target))
      else None)"
| "watch_loop d target s (s1 # updates) is_closed =
     (if do_status_matches d s target then Some (Inr ())
      else if is_terminal s then Some (Inl (completed_early d target))
      else watch_loop d target s1 updates is_closed)"

definition do_wait_for_data :: "waiting_operation_status \<Rightarrow> 'w durable_op \<Rightarrow> (test_error + unit) option" where
  "do_wait_for_data target d =
     (if do_status_matches d (op_status (do_operation d)) target then Some (Inr ())
      else case do_status_watcher d of
             Some w \<Rightarrow> watch_loop d target (sw_current w) (sw_updates w) (sw_closed w)
           | None \<Rightarrow> Some (Inl (completed_early d target)))"

section \<open>Handles\<close>

datatype operation_matcher = ByName string | ByIndex nat | ById string | ByNameAndIndex string nat

definition matcher_description :: "operation_matcher \<Rightarrow> string" where
  "matcher_description m = (case m of
     ByName n \<Rightarrow> ''name='' @ n
   | ByIndex i \<Rightarrow> ''index='' @ show_nat i
   | ById i \<Rightarrow> ''id='' @ i
   | ByNameAndIndex n i \<Rightarrow> ''name='' @ n @ '', index='' @ show_nat i)"

text \<open>The part of a handle that the runner writes, and the whole handle.\<close>

record operation_handle =
  oh_matcher :: operation_matcher
  oh_inner :: "operation option"
  oh_status :: "operation_status option"

record 'w test_handle = operation_handle +
  oh_callback_sender :: "'w callback_sender option"
  oh_all_operations :: "operation list"

definition operation_handle_new :: "operation_matcher \<Rightarrow> operation list \<Rightarrow> 'w test_handle" where
  "operation_handle_new m ops =
     \<lparr>oh_matcher = m, oh_inner = None, oh_status = None, oh_callback_sender = None, oh_all_operations = ops\<rparr>"

definition not_populated :: test_error where
  "not_populated = OperationNotFound ''Operation not yet populated''"

definition get_durable_operation :: "'w test_handle \<Rightarrow> test_error + 'w durable_op" where
  "get_durable_operation h = (case oh_inner h of Some op \<Rightarrow> Inr (durable_op_new op) | None \<Rightarrow> Inl not_populated)"

text \<open>The inspection methods ask the snapshot.\<close>

definition handle_get :: "('w durable_op \<Rightarrow> test_error + 'v) \<Rightarrow> 'w test_handle \<Rightarrow> test_error + 'v" where
  "handle_get f h = (case get_durable_operation h of Inl e \<Rightarrow> Inl e | Inr d \<Rightarrow> f d)"

fun handle_status_matches :: "operation \<Rightarrow> waiting_operation_status \<Rightarrow> bool" where
  "handle_status_matches op WaitingStarted = True"
| "handle_status_matches op WaitingSubmitted = submitted op"
| "handle_status_matches op WaitingCompleted = is_terminal (op_status op)"

definition check_status_reached :: "operation option \<Rightarrow> waiting_operation_status \<Rightarrow> bool" where
  "check_status_reached inner target = (case inner of None \<Rightarrow> False | Some op \<Rightarrow> handle_status_matches op target)"

text \<open>The observed contents of the handle: one when the method is called, one after each change, and one
  when the channel was closed, if it ever is.\<close>

fun handle_wait_loop ::
  "string \<Rightarrow> waiting_operation_status \<Rightarrow> operation option list \<Rightarrow> operation option option \<Rightarrow> (test_error + unit) option"
where
  "handle_wait_loop name target [] is_closed = (case is_closed of
     None \<Rightarrow> None
   | Some inner \<Rightarrow> Some (if check_status_reached inner target then Inr () else Inl (ExecutionCompletedEarly name target)))"
| "handle_wait_loop name target (inner # later) is_closed =
     (if check_status_reached inner target then Some (Inr ()) else handle_wait_loop name target later is_closed)"

definition handle_wait_for_data ::
  "waiting_operation_status \<Rightarrow> 'w test_handle \<Rightarrow> operation option list \<Rightarrow> operation option option \<Rightarrow>
   (test_error + unit) option"
where
  "handle_wait_for_data target h later is_closed =
     handle_wait_loop (matcher_description (oh_matcher h)) target (oh_inner h # later) is_closed"

definition validate_callback_ready :: "'w test_handle \<Rightarrow> test_error + string" where
  "validate_callback_ready h = (case oh_inner h of
     None \<Rightarrow> Inl not_populated
   | Some op \<Rightarrow>
       if op_type op \<noteq> CallbackOp then Inl NotCallbackOperation
       else callback_id_of (''Callback ID not available '' @ [CHR 0xE2, CHR 0x80, CHR 0x94] @ '' operation has not reached Submitted status'') op)"

definition with_handle_sender ::
  "('w callback_sender \<Rightarrow> string \<Rightarrow> ('w, test_error, unit) cmd) \<Rightarrow> 'w test_handle \<Rightarrow> ('w, test_error, unit) cmd" where
  "with_handle_sender f h = bindE (liftE (validate_callback_ready h)) (\<lambda>i.
     case oh_callback_sender h of
       Some cs \<Rightarrow> f cs i
     | None \<Rightarrow> throwE (ResultNotAvailable ''No callback sender configured on this handle''))"

definition handle_send_callback_success :: "string \<Rightarrow> 'w test_handle \<Rightarrow> ('w, test_error, unit) cmd" where
  "handle_send_callback_success result = with_handle_sender (\<lambda>cs i. cs_send_success cs i result)"

definition handle_send_callback_failure :: "test_result_error \<Rightarrow> 'w test_handle \<Rightarrow> ('w, test_error, unit) cmd" where
  "handle_send_callback_failure e = with_handle_sender (\<lambda>cs i. cs_send_failure cs i e)"

definition handle_send_callback_heartbeat :: "'w test_handle \<Rightarrow> ('w, test_error, unit) cmd" where
  "handle_send_callback_heartbeat = with_handle_sender cs_send_heartbeat"

definition handle_get_child_operations :: "'w test_handle \<Rightarrow> test_error + 'w durable_op list" where
  "handle_get_child_operations h = (case oh_inner h of
     None \<Rightarrow> Inl not_populated | Some op \<Rightarrow> Inr (child_operations (op_id op) (oh_all_operations h)))"

section \<open>Properties\<close>

lemma watch_loop_unreached:
  assumes "\<And>s. \<not> do_status_matches d s target"
  shows "watch_loop d target s updates is_closed \<noteq> Some (Inr ())"
  by (induction updates arbitrary: s) (simp_all add: assms)

lemma watch_loop_completed:
  "watch_loop d WaitingCompleted s updates is_closed =
     (if \<exists>x \<in> set (s # updates). is_terminal x then Some (Inr ())
      else if is_closed then Some (Inl (completed_early d WaitingCompleted)) else None)"
  by (induction updates arbitrary: s) auto

lemma handle_wait_loop_spec:
  "handle_wait_loop name target later is_closed =
     (if \<exists>x \<in> set later. check_status_reached x target then Some (Inr ())
      else map_option (\<lambda>x. if check_status_reached x target then Inr () else Inl (ExecutionCompletedEarly name target)) is_closed)"
  by (induction later) (auto split: option.split)

text \<open>The two ways to wait for an operation do not agree. A snapshot of a callback that has no identifier yet
  is never seen as submitted, whatever statuses its channel brings and however it ends, since the
  identifier is looked up in the snapshot; a handle looks at the operation the runner has put there, and
  returns as soon as one observation shows the identifier.\<close>

lemma submitted_seen_by_handle_only:
  assumes "op_type op = CallbackOp" "op_callback_details op = None"
    and "Some (op\<lparr>op_callback_details := Some \<lparr>cd_callback_id = Some i, cd_result = r, cd_error = e\<rparr>\<rparr>) \<in> set later"
  shows "do_wait_for_data WaitingSubmitted (durable_op_with_all op cs w) \<noteq> Some (Inr ()) \<and>
     handle_wait_for_data WaitingSubmitted h later is_closed = Some (Inr ())"
proof
  let ?d = "durable_op_with_all op cs w"
  have no: "\<not> do_status_matches ?d s WaitingSubmitted" for s
    using assms(1,2) by (simp add: durable_op_with_all_def submitted_def)
  show "do_wait_for_data WaitingSubmitted ?d \<noteq> Some (Inr ())"
    using no watch_loop_unreached [OF no] unfolding do_wait_for_data_def by (auto split: option.split)
  show "handle_wait_for_data WaitingSubmitted h later is_closed = Some (Inr ())"
    unfolding handle_wait_for_data_def handle_wait_loop_spec
    using assms(3) by (auto simp: check_status_reached_def submitted_def intro!: bexI [OF _ assms(3)])
qed

lemma submitted_seen_by_handle_only_witness:
  "do_wait_for_data WaitingSubmitted
       (durable_op_with_all (operation_new ''c'' CallbackOp) None
          (Some \<lparr>sw_current = Started, sw_updates = [Started, Succeeded], sw_closed = True\<rparr>)) \<noteq> Some (Inr ()) \<and>
   handle_wait_for_data WaitingSubmitted (operation_handle_new (ById ''c'') [])
     [Some ((operation_new ''c'' CallbackOp)\<lparr>op_callback_details :=
        Some \<lparr>cd_callback_id = Some ''k'', cd_result = None, cd_error = None\<rparr>\<rparr>)] None = Some (Inr ())"
  by (rule submitted_seen_by_handle_only) (simp_all add: operation_new_def)

end
