(* ===== verification/Runner_Storage.thy ===== *)
theory Runner_Storage
  imports Operation_Storage Durable_Operation
begin

text \<open>
  The operations a test runner keeps after a run, and how a test finds one of them: the storage of
  \<open>testing/src/local_runner.rs\<close> and \<open>cloud_runner.rs\<close>, a list with an index by identifier and one by name. Its
  insertion is the one of \<open>Operation_Storage\<close>; here are the lookups, the handle lookup by a matcher, and the
  invariant of the index by name, under which each lookup is a search in the list.
\<close>

section \<open>Lookups\<close>

definition nth_operation :: "operation_storage \<Rightarrow> nat \<Rightarrow> operation option" where
  "nth_operation s index = (if index < length (os_operations s) then Some (os_operations s ! index) else None)"

definition os_get_by_name :: "operation_storage \<Rightarrow> string \<Rightarrow> operation option" where
  "os_get_by_name s n = (case hm_get (os_operations_by_name s) n of
     None \<Rightarrow> None | Some [] \<Rightarrow> None | Some (index # _) \<Rightarrow> nth_operation s index)"

definition os_get_by_name_and_index :: "operation_storage \<Rightarrow> string \<Rightarrow> nat \<Rightarrow> operation option" where
  "os_get_by_name_and_index s n k = (case hm_get (os_operations_by_name s) n of
     None \<Rightarrow> None | Some indices \<Rightarrow> if k < length indices then nth_operation s (indices ! k) else None)"

definition os_get_by_index :: "operation_storage \<Rightarrow> nat \<Rightarrow> operation option" where
  "os_get_by_index s index = nth_operation s index"

definition add_or_update :: "operation \<Rightarrow> operation_storage \<Rightarrow> operation_storage" where
  "add_or_update op s = (case hm_get (os_operations_by_id s) (op_id op) of
     Some index \<Rightarrow> s\<lparr>os_operations := (os_operations s)[index := op]\<rparr>
   | None \<Rightarrow> os_add_operation op s)"

text \<open>The search of a handle in the storage, and what a test gets for an operation.\<close>

definition lookup_operation :: "operation_matcher \<Rightarrow> operation_storage \<Rightarrow> operation option" where
  "lookup_operation m s = (case m of
     ByName n \<Rightarrow> os_get_by_name s n
   | ByIndex i \<Rightarrow> os_get_by_index s i
   | ById i \<Rightarrow> os_get_by_id s i
   | ByNameAndIndex n i \<Rightarrow> os_get_by_name_and_index s n i)"

definition get_durable :: "operation_matcher \<Rightarrow> operation_storage \<Rightarrow> 'w durable_op option" where
  "get_durable m s = map_option (\<lambda>op. with_operations (os_operations s) (durable_op_new op)) (lookup_operation m s)"

definition get_all_durable :: "operation_storage \<Rightarrow> 'w durable_op list" where
  "get_all_durable s = map (\<lambda>op. with_operations (os_operations s) (durable_op_new op)) (os_operations s)"

section \<open>The indices\<close>

text \<open>The positions of the operations of a name, in order.\<close>

definition positions :: "string \<Rightarrow> operation list \<Rightarrow> nat list" where
  "positions n ops = filter (\<lambda>i. op_name (ops ! i) = Some n) [0..<length ops]"

lemma positions_append: "positions n (ops @ [op]) = positions n ops @ (if op_name op = Some n then [length ops] else [])"
proof -
  have "filter (\<lambda>i. op_name ((ops @ [op]) ! i) = Some n) [0..<length ops] = positions n ops"
    unfolding positions_def by (rule filter_cong) (simp_all add: nth_append)
  then show ?thesis by (simp add: positions_def)
qed

lemma positions_set:
  "op_name op = op_name (ops ! i) \<Longrightarrow> positions n (ops[i := op]) = positions n ops"
  unfolding positions_def by (cases "i < length ops"; rule filter_cong) (auto simp: nth_list_update)

lemma map_positions: "map ((!) ops) (positions n ops) = filter (\<lambda>op. op_name op = Some n) ops"
proof (induction ops rule: rev_induct)
  case (snoc op ops)
  have "map ((!) (ops @ [op])) (positions n ops) = map ((!) ops) (positions n ops)"
    by (rule map_cong) (auto simp: positions_def nth_append)
  with snoc show ?case by (simp add: positions_append)
qed (simp add: positions_def)

text \<open>The index by name lists, for every name, the positions of its operations; the index by identifier has
  the position of every operation.\<close>

definition named_index :: "operation_storage \<Rightarrow> bool" where
  "named_index s \<longleftrightarrow>
     (\<forall>n. (case hm_get (os_operations_by_name s) n of None \<Rightarrow> [] | Some indices \<Rightarrow> indices) = positions n (os_operations s))"

definition ids_indexed :: "operation_storage \<Rightarrow> bool" where
  "ids_indexed s \<longleftrightarrow>
     (\<forall>k < length (os_operations s). hm_get (os_operations_by_id s) (op_id (os_operations s ! k)) = Some k)"

lemma ids_indexed_new [simp]: "ids_indexed operation_storage_new"
  by (simp add: ids_indexed_def operation_storage_new_def)

lemma ids_indexed_add:
  assumes "ids_indexed s" "hm_get (os_operations_by_id s) (op_id op) = None"
  shows "ids_indexed (os_add_operation op s)"
  using assms unfolding ids_indexed_def by (auto simp: hm_get_insert nth_append less_Suc_eq)

lemma ids_indexed_add_or_update:
  assumes "ids_indexed s" "os_wf s"
  shows "ids_indexed (add_or_update op s)"
proof (cases "hm_get (os_operations_by_id s) (op_id op)")
  case None
  then show ?thesis by (simp add: add_or_update_def ids_indexed_add assms(1))
next
  case (Some index)
  then have "op_id op = op_id (os_operations s ! index)" "index < length (os_operations s)"
    using os_wfD [OF assms(2)] by simp_all
  with Some assms(1) show ?thesis by (auto simp: add_or_update_def ids_indexed_def nth_list_update)
qed

lemma get_by_id_spec:
  assumes "ids_indexed s" "os_wf s"
  shows "os_get_by_id s i = find (\<lambda>op. op_id op = i) (os_operations s)"
proof (cases "hm_get (os_operations_by_id s) i")
  case None
  then have "op_id op \<noteq> i" if "op \<in> set (os_operations s)" for op
    using that assms(1) unfolding ids_indexed_def by (metis in_set_conv_nth option.distinct(1))
  then have "find (\<lambda>op. op_id op = i) (os_operations s) = None" by (simp add: find_None_iff)
  with None show ?thesis by (simp add: os_get [OF assms(2)])
next
  case (Some index)
  have "j = index" if "j < length (os_operations s)" "op_id (os_operations s ! j) = i" for j
    using assms(1) that Some unfolding ids_indexed_def by fastforce
  then have "find (\<lambda>op. op_id op = i) (os_operations s) = Some (os_operations s ! index)"
    using os_wfD [OF assms(2) Some] unfolding find_Some_iff
    by (intro exI [of _ index]) (metis order.strict_trans nat_neq_iff)
  with Some show ?thesis by (simp add: os_get [OF assms(2)])
qed

lemma named_index_new [simp]: "named_index operation_storage_new"
  by (simp add: named_index_def operation_storage_new_def positions_def)

lemma named_index_add: "named_index s \<Longrightarrow> named_index (os_add_operation op s)"
  unfolding named_index_def
  by (auto simp: os_add_operation_def Let_def positions_append hm_get_insert split: option.split)

lemma named_index_add_or_update:
  assumes "named_index s" "os_wf s"
    and "\<And>old. os_get_by_id s (op_id op) = Some old \<Longrightarrow> op_name op = op_name old"
  shows "named_index (add_or_update op s)"
proof (cases "hm_get (os_operations_by_id s) (op_id op)")
  case None
  then show ?thesis by (simp add: add_or_update_def named_index_add assms(1))
next
  case (Some index)
  then have "op_name op = op_name (os_operations s ! index)"
    using assms(3) [of "os_operations s ! index"] by (simp add: os_get [OF assms(2)])
  with Some assms(1) show ?thesis by (simp add: add_or_update_def named_index_def positions_set)
qed

lemma nth_filter_position:
  assumes "named_index s" "hm_get (os_operations_by_name s) n = Some indices" "k < length indices"
  shows "nth_operation s (indices ! k) = Some (filter (\<lambda>op. op_name op = Some n) (os_operations s) ! k) \<and>
    k < length (filter (\<lambda>op. op_name op = Some n) (os_operations s))"
proof -
  have p: "indices = positions n (os_operations s)"
    using assms(1,2) unfolding named_index_def by (auto dest: spec [of _ n])
  have "set indices \<subseteq> {..<length (os_operations s)}" by (auto simp: p positions_def)
  then have "indices ! k < length (os_operations s)" using assms(3) by (auto dest: nth_mem)
  moreover have "filter (\<lambda>op. op_name op = Some n) (os_operations s) = map ((!) (os_operations s)) indices"
    unfolding p by (rule map_positions [symmetric])
  ultimately show ?thesis using assms(3) by (simp add: nth_operation_def)
qed

lemma named_length:
  assumes "named_index s"
  shows "length (filter (\<lambda>op. op_name op = Some n) (os_operations s)) =
    (case hm_get (os_operations_by_name s) n of None \<Rightarrow> 0 | Some indices \<Rightarrow> length indices)"
proof -
  have "length (filter (\<lambda>op. op_name op = Some n) (os_operations s)) = length (positions n (os_operations s))"
    by (simp flip: map_positions)
  also have "positions n (os_operations s) =
      (case hm_get (os_operations_by_name s) n of None \<Rightarrow> [] | Some indices \<Rightarrow> indices)"
    using assms by (simp add: named_index_def)
  finally show ?thesis by (simp split: option.split)
qed

lemma get_by_name_and_index_spec:
  assumes "named_index s"
  shows "os_get_by_name_and_index s n k =
    (let named = filter (\<lambda>op. op_name op = Some n) (os_operations s) in if k < length named then Some (named ! k) else None)"
proof (cases "hm_get (os_operations_by_name s) n")
  case None
  then show ?thesis by (simp add: os_get_by_name_and_index_def named_length [OF assms])
next
  case (Some indices)
  then show ?thesis using nth_filter_position [OF assms Some, of k]
    by (simp add: os_get_by_name_and_index_def named_length [OF assms])
qed

lemma find_nth_filter: "find P xs = (if filter P xs = [] then None else Some (filter P xs ! 0))"
  by (induction xs) auto

lemma get_by_name_spec:
  assumes "named_index s"
  shows "os_get_by_name s n = find (\<lambda>op. op_name op = Some n) (os_operations s)"
proof -
  have "os_get_by_name s n = os_get_by_name_and_index s n 0"
    by (simp add: os_get_by_name_def os_get_by_name_and_index_def split: option.split list.split)
  also have "\<dots> = find (\<lambda>op. op_name op = Some n) (os_operations s)"
    by (simp add: get_by_name_and_index_spec [OF assms] find_nth_filter Let_def)
  finally show ?thesis .
qed

section \<open>The storage is an operation store\<close>

lemma add_or_update_eq: "add_or_update op s = os_update_operation op s"
  by (simp add: add_or_update_def os_update_operation_def)

interpretation runner_store: op_store os_get_by_id add_or_update os_wf
  unfolding add_or_update_eq by (rule os_store.op_store_axioms)

text \<open>What holds of every storage a runner builds by \<open>add_or_update\<close>.\<close>

definition runner_storage_wf :: "operation_storage \<Rightarrow> bool" where
  "runner_storage_wf s \<longleftrightarrow> os_wf s \<and> ids_indexed s"

lemma runner_storage_wf_new [simp]: "runner_storage_wf operation_storage_new"
  by (simp add: runner_storage_wf_def)

lemma runner_storage_wf_add_or_update: "runner_storage_wf s \<Longrightarrow> runner_storage_wf (add_or_update op s)"
  by (simp add: runner_storage_wf_def runner_store.wf_store ids_indexed_add_or_update)

lemma runner_storage_wf_fold: "runner_storage_wf s \<Longrightarrow> runner_storage_wf (fold add_or_update ops s)"
  by (induction ops arbitrary: s) (simp_all add: runner_storage_wf_add_or_update)

end
