(* ===== verification/Cloud_History.thy ===== *)
theory Cloud_History
  imports History_Poller Runner_Storage
begin

text \<open>
  The history of an execution as the cloud service tells it: \<open>LambdaHistoryApiClient\<close> of
  \<open>testing/src/cloud_runner.rs\<close>, which makes a page of the history from the events of the AWS SDK. An event is
  the record of what its accessors answer; the details of a kind of event are there or not, and so is the payload in them.
\<close>

section \<open>Events of the service\<close>

datatype aws_event_type =
    AwsExecutionStarted | AwsExecutionSucceeded | AwsExecutionFailed | AwsExecutionTimedOut | AwsExecutionStopped
  | AwsStepStarted | AwsStepSucceeded | AwsStepFailed | AwsWaitStarted | AwsWaitSucceeded | AwsWaitCancelled
  | AwsCallbackStarted | AwsCallbackSucceeded | AwsCallbackFailed | AwsCallbackTimedOut
  | AwsContextStarted | AwsContextSucceeded | AwsContextFailed
  | AwsChainedInvokeStarted | AwsChainedInvokeSucceeded | AwsChainedInvokeFailed | AwsChainedInvokeStopped
  | AwsChainedInvokeTimedOut | AwsInvocationCompleted | AwsOtherEvent string

text \<open>The payload of an error: its type and its message.\<close>

type_synonym service_error = "string option \<times> string option"

record aws_event =
  ae_event_type :: "aws_event_type option"
  ae_event_id :: u32
  ae_id :: "string option"
  ae_name :: "string option"
  ae_parent_id :: "string option"
  ae_timestamp :: "int option"
  ae_step_succeeded :: "string option option"
  ae_execution_succeeded :: "string option option"
  ae_context_succeeded :: "string option option"
  ae_callback_succeeded :: "string option option"
  ae_invoke_succeeded :: "string option option"
  ae_step_failed :: "service_error option option"
  ae_execution_failed :: "service_error option option"
  ae_context_failed :: "service_error option option"
  ae_callback_failed :: "service_error option option"
  ae_invoke_failed :: "service_error option option"

fun event_type_to_operation_type :: "aws_event_type \<Rightarrow> operation_type option" where
  "event_type_to_operation_type t =
     (if t \<in> {AwsStepStarted, AwsStepSucceeded, AwsStepFailed} then Some StepOp
      else if t \<in> {AwsWaitStarted, AwsWaitSucceeded, AwsWaitCancelled} then Some WaitOp
      else if t \<in> {AwsCallbackStarted, AwsCallbackSucceeded, AwsCallbackFailed, AwsCallbackTimedOut} then Some CallbackOp
      else if t \<in> {AwsContextStarted, AwsContextSucceeded, AwsContextFailed} then Some ContextOp
      else if t \<in> {AwsChainedInvokeStarted, AwsChainedInvokeSucceeded, AwsChainedInvokeFailed,
                 AwsChainedInvokeStopped, AwsChainedInvokeTimedOut} then Some InvokeOp
      else if t \<in> {AwsExecutionStarted, AwsExecutionSucceeded, AwsExecutionFailed, AwsExecutionTimedOut,
                 AwsExecutionStopped} then Some ExecutionOp
      else None)"

fun event_type_to_status :: "aws_event_type \<Rightarrow> operation_status" where
  "event_type_to_status t =
     (if t \<in> {AwsStepStarted, AwsWaitStarted, AwsCallbackStarted, AwsContextStarted, AwsChainedInvokeStarted,
            AwsExecutionStarted} then Started
      else if t \<in> {AwsStepSucceeded, AwsWaitSucceeded, AwsCallbackSucceeded, AwsContextSucceeded,
            AwsChainedInvokeSucceeded, AwsExecutionSucceeded} then Succeeded
      else if t \<in> {AwsStepFailed, AwsCallbackFailed, AwsContextFailed, AwsChainedInvokeFailed, AwsExecutionFailed}
      then Failed
      else if t \<in> {AwsCallbackTimedOut, AwsChainedInvokeTimedOut, AwsExecutionTimedOut} then TimedOut
      else if t \<in> {AwsWaitCancelled, AwsChainedInvokeStopped, AwsExecutionStopped} then Cancelled
      else Started)"

text \<open>The details that are there first decide.\<close>

fun first_details :: "'a option option list \<Rightarrow> 'a option" where
  "first_details [] = None"
| "first_details (None # ds) = first_details ds"
| "first_details (Some payload # ds) = payload"

definition extract_result :: "aws_event \<Rightarrow> string option" where
  "extract_result e = first_details [ae_step_succeeded e, ae_execution_succeeded e, ae_context_succeeded e,
     ae_callback_succeeded e, ae_invoke_succeeded e]"

definition or_empty :: "string option \<Rightarrow> string" where
  "or_empty s = (case s of Some x \<Rightarrow> x | None \<Rightarrow> [])"

definition extract_error :: "aws_event \<Rightarrow> error_object option" where
  "extract_error e = map_option
     (\<lambda>(t, m). \<lparr>eo_type = or_empty t, eo_message = or_empty m, eo_stack_trace = None\<rparr>)
     (first_details [ae_step_failed e, ae_execution_failed e, ae_context_failed e, ae_callback_failed e, ae_invoke_failed e])"

section \<open>Operations of a page\<close>

text \<open>The kind and the identifier of an event that is about an operation.\<close>

definition event_operation :: "aws_event \<Rightarrow> (aws_event_type \<times> operation_type \<times> string) option" where
  "event_operation e = (case ae_event_type e of
     None \<Rightarrow> None
   | Some t \<Rightarrow> (case event_type_to_operation_type t of
       None \<Rightarrow> None
     | Some ty \<Rightarrow> map_option (\<lambda>i. (t, ty, i)) (ae_id e)))"

definition operation_of_event :: "aws_event \<Rightarrow> aws_event_type \<Rightarrow> operation_type \<Rightarrow> string \<Rightarrow> operation" where
  "operation_of_event e t ty i = (operation_new i ty)\<lparr>op_name := ae_name e, op_status := event_type_to_status t,
     op_parent_id := ae_parent_id e, op_result := extract_result e, op_error := extract_error e\<rparr>"

definition update_from_event :: "aws_event \<Rightarrow> aws_event_type \<Rightarrow> operation \<Rightarrow> operation" where
  "update_from_event e t op = op\<lparr>op_status := event_type_to_status t,
     op_result := (case extract_result e of Some r \<Rightarrow> Some r | None \<Rightarrow> op_result op),
     op_error := (case extract_error e of Some x \<Rightarrow> Some x | None \<Rightarrow> op_error op)\<rparr>"

definition on_event ::
  "aws_event \<Rightarrow> (string \<times> operation) list \<times> string list \<Rightarrow> (string \<times> operation) list \<times> string list" where
  "on_event e st = (case event_operation e of
     None \<Rightarrow> st
   | Some (t, ty, i) \<Rightarrow> (case hm_get (fst st) i of
       Some op \<Rightarrow> (hm_insert i (update_from_event e t op) (fst st), snd st)
     | None \<Rightarrow> (hm_insert i (operation_of_event e t ty i) (fst st), snd st @ [i])))"

text \<open>Taking an entry out of the map is looking it up, since an identifier is in the order once.\<close>

definition events_to_operations :: "aws_event list \<Rightarrow> operation list" where
  "events_to_operations evs = (let (ops, order) = fold on_event evs ([], []) in List.map_filter (hm_get ops) order)"

section \<open>The page\<close>

definition terminal_from_event :: "aws_event \<Rightarrow> history_page \<Rightarrow> history_page" where
  "terminal_from_event e p = (case ae_event_type e of
     Some AwsExecutionSucceeded \<Rightarrow>
       p\<lparr>hp_is_terminal := True, hp_terminal_status := Some SucceededExecution, hp_terminal_result := extract_result e\<rparr>
   | Some AwsExecutionFailed \<Rightarrow>
       p\<lparr>hp_is_terminal := True, hp_terminal_status := Some FailedExecution,
         hp_terminal_error := (case extract_error e of
           Some x \<Rightarrow> Some (test_result_error_new (eo_type x) (eo_message x)) | None \<Rightarrow> hp_terminal_error p)\<rparr>
   | Some AwsExecutionTimedOut \<Rightarrow> p\<lparr>hp_is_terminal := True, hp_terminal_status := Some TimedOutExecution\<rparr>
   | Some AwsExecutionStopped \<Rightarrow> p\<lparr>hp_is_terminal := True, hp_terminal_status := Some CancelledExecution\<rparr>
   | _ \<Rightarrow> p)"

fun sdk_event_type_to_nodejs :: "aws_event_type \<Rightarrow> nodejs_event_type option" where
  "sdk_event_type_to_nodejs AwsExecutionStarted = Some ExecutionStarted"
| "sdk_event_type_to_nodejs AwsExecutionSucceeded = Some ExecutionSucceeded"
| "sdk_event_type_to_nodejs AwsExecutionFailed = Some ExecutionFailed"
| "sdk_event_type_to_nodejs AwsStepStarted = Some StepStarted"
| "sdk_event_type_to_nodejs AwsStepSucceeded = Some StepSucceeded"
| "sdk_event_type_to_nodejs AwsStepFailed = Some StepFailed"
| "sdk_event_type_to_nodejs AwsWaitStarted = Some WaitStarted"
| "sdk_event_type_to_nodejs AwsWaitSucceeded = Some WaitSucceeded"
| "sdk_event_type_to_nodejs AwsWaitCancelled = Some WaitCancelled"
| "sdk_event_type_to_nodejs AwsCallbackStarted = Some CallbackStarted"
| "sdk_event_type_to_nodejs AwsCallbackSucceeded = Some CallbackSucceeded"
| "sdk_event_type_to_nodejs AwsCallbackFailed = Some CallbackFailed"
| "sdk_event_type_to_nodejs AwsCallbackTimedOut = Some CallbackTimedOut"
| "sdk_event_type_to_nodejs AwsContextStarted = Some ContextStarted"
| "sdk_event_type_to_nodejs AwsContextSucceeded = Some ContextSucceeded"
| "sdk_event_type_to_nodejs AwsContextFailed = Some ContextFailed"
| "sdk_event_type_to_nodejs AwsChainedInvokeStarted = Some ChainedInvokeStarted"
| "sdk_event_type_to_nodejs AwsChainedInvokeSucceeded = Some ChainedInvokeSucceeded"
| "sdk_event_type_to_nodejs AwsChainedInvokeFailed = Some ChainedInvokeFailed"
| "sdk_event_type_to_nodejs AwsInvocationCompleted = Some InvocationCompleted"
| "sdk_event_type_to_nodejs _ = None"

fun sdk_event_type_to_sub_type :: "aws_event_type \<Rightarrow> string option" where
  "sdk_event_type_to_sub_type t =
     (if t \<in> {AwsStepStarted, AwsStepSucceeded, AwsStepFailed} then Some ''Step''
      else if t \<in> {AwsWaitStarted, AwsWaitSucceeded, AwsWaitCancelled} then Some ''Wait''
      else if t \<in> {AwsCallbackStarted, AwsCallbackSucceeded, AwsCallbackFailed, AwsCallbackTimedOut} then Some ''Callback''
      else if t \<in> {AwsContextStarted, AwsContextSucceeded, AwsContextFailed} then Some ''Context''
      else if t \<in> {AwsChainedInvokeStarted, AwsChainedInvokeSucceeded, AwsChainedInvokeFailed} then Some ''ChainedInvoke''
      else None)"

definition event_to_nodejs :: "aws_event \<Rightarrow> nodejs_event option" where
  "event_to_nodejs e = (case ae_event_type e of
     None \<Rightarrow> None
   | Some t \<Rightarrow> map_option (\<lambda>nt. \<lparr>ne_event_type = nt, ne_event_id = scast (ae_event_id e), ne_id = ae_id e,
       ne_timestamp = ae_timestamp e, ne_sub_type = sdk_event_type_to_sub_type t, ne_name = ae_name e,
       ne_parent_id = ae_parent_id e, ne_details = EmptyDetails\<rparr>) (sdk_event_type_to_nodejs t))"

definition events_to_nodejs_events :: "aws_event list \<Rightarrow> nodejs_event list" where
  "events_to_nodejs_events evs = List.map_filter event_to_nodejs evs"

definition page_of_events :: "aws_event list \<Rightarrow> string option \<Rightarrow> history_page" where
  "page_of_events evs next = fold terminal_from_event evs
     \<lparr>hp_events = [], hp_nodejs_events = events_to_nodejs_events evs, hp_operations = events_to_operations evs,
      hp_next_marker = next, hp_is_terminal = False, hp_terminal_status = None, hp_terminal_result = None,
      hp_terminal_error = None\<rparr>"

text \<open>The service, for a runner: the requests answer or fail with the text of an error.\<close>

record invoke_output =
  io_function_error :: "string option"
  io_payload :: "string option"
  io_arn :: "string option"

record 'w aws_lambda =
  al_history :: "string \<Rightarrow> string option \<Rightarrow> ('w, string, aws_event list \<times> string option) cmd"
  al_invoke :: "string \<Rightarrow> string option \<Rightarrow> string \<Rightarrow> ('w, string, invoke_output) cmd"
  al_callback_success :: "string \<Rightarrow> string \<Rightarrow> ('w, string, unit) cmd"
  al_callback_failure :: "string \<Rightarrow> string option \<Rightarrow> string option \<Rightarrow> ('w, string, unit) cmd"
  al_callback_heartbeat :: "string \<Rightarrow> ('w, string, unit) cmd"
  al_sleep :: "nat \<Rightarrow> 'w \<Rightarrow> 'w"
  al_now :: "'w \<Rightarrow> nat"

definition aws_request :: "string \<Rightarrow> ('w, string, 'a) cmd \<Rightarrow> ('w, test_error, 'a) cmd" where
  "aws_request what req w = (case req w of
     (Inl m, w1) \<Rightarrow> (Inl (AwsSdkError (what @ '': '' @ m)), w1) | (Inr x, w1) \<Rightarrow> (Inr x, w1))"

definition get_history :: "'w aws_lambda \<Rightarrow> string \<Rightarrow> string option \<Rightarrow> ('w, test_error, history_page) cmd" where
  "get_history lam arn marker = bindE (aws_request ''GetDurableExecutionHistory failed'' (al_history lam arn marker))
     (\<lambda>(evs, next). retE (page_of_events evs next))"

definition lambda_client :: "'w aws_lambda \<Rightarrow> 'w history_client" where
  "lambda_client lam = \<lparr>hc_get_history = get_history lam, hc_sleep = al_sleep lam\<rparr>"

section \<open>The operations of a page\<close>

definition about :: "string \<Rightarrow> aws_event list \<Rightarrow> aws_event list" where
  "about i evs = filter (\<lambda>e. \<exists>t ty. event_operation e = Some (t, ty, i)) evs"

definition event_status :: "aws_event \<Rightarrow> operation_status" where
  "event_status e = (case ae_event_type e of Some t \<Rightarrow> event_type_to_status t | None \<Rightarrow> Started)"

lemma event_operationD: "event_operation e = Some (t, ty, i) \<Longrightarrow> ae_event_type e = Some t \<and> ae_id e = Some i"
  by (auto simp: event_operation_def split: option.splits)

lemma about_append [simp]: "about i (xs @ ys) = about i xs @ about i ys"
  by (simp add: about_def)

text \<open>What the loop over the events of a page keeps: one entry for each identifier of the order, with the status
  of the last event about it and nothing that an event does not carry.\<close>

definition entry_ok :: "aws_event list \<Rightarrow> string \<Rightarrow> operation option \<Rightarrow> bool" where
  "entry_ok evs i x \<longleftrightarrow> map_option op_status x = (if about i evs = [] then None else Some (event_status (last (about i evs)))) \<and>
     (case x of None \<Rightarrow> True | Some op \<Rightarrow> op_id op = i \<and> op_callback_details op = None)"

definition page_inv :: "aws_event list \<Rightarrow> (string \<times> operation) list \<times> string list \<Rightarrow> bool" where
  "page_inv evs st \<longleftrightarrow> distinct (snd st) \<and> (\<forall>i. (hm_get (fst st) i = None) = (i \<notin> set (snd st))) \<and>
     (\<forall>i. entry_ok evs i (hm_get (fst st) i))"

lemma entry_ok_other: "about i [e] = [] \<Longrightarrow> entry_ok (evs @ [e]) i x = entry_ok evs i x"
  by (simp add: entry_ok_def)

lemma page_inv_event:
  assumes "page_inv evs st"
  shows "page_inv (evs @ [e]) (on_event e st)"
proof (cases "event_operation e")
  case None
  then have "about i [e] = []" for i by (simp add: about_def)
  with None assms show ?thesis by (simp add: on_event_def page_inv_def entry_ok_other)
next
  case (Some q)
  obtain t ty j where q: "event_operation e = Some (t, ty, j)" using Some by (cases q) auto
  have other: "about i [e] = []" if "i \<noteq> j" for i using q that by (auto simp: about_def)
  have own: "about j [e] = [e]" using q by (simp add: about_def)
  have st: "event_status e = event_type_to_status t" using event_operationD [OF q] by (simp add: event_status_def)
  have new: "entry_ok (evs @ [e]) j (Some (operation_of_event e t ty j))"
    by (simp add: entry_ok_def own st operation_of_event_def del: event_type_to_status.simps)
  have upd: "entry_ok (evs @ [e]) j (Some (update_from_event e t op))" if "entry_ok evs j (Some op)" for op
    using that by (simp add: entry_ok_def own st update_from_event_def del: event_type_to_status.simps)
  obtain m order where m: "st = (m, order)" by (cases st)
  show ?thesis
  proof (cases "hm_get m j")
    case None
    then have "on_event e st = (hm_insert j (operation_of_event e t ty j) m, order @ [j])"
      using q by (simp add: on_event_def m)
    moreover from None assms have "j \<notin> set order" by (simp add: page_inv_def m)
    ultimately show ?thesis using assms new other
      by (auto simp: page_inv_def hm_get_insert m entry_ok_other)
  next
    case (Some op)
    then have "on_event e st = (hm_insert j (update_from_event e t op) m, order)"
      using q by (simp add: on_event_def m)
    moreover from Some assms have "entry_ok evs j (Some op)" "j \<in> set order"
      unfolding page_inv_def m fst_conv snd_conv by (metis, metis option.distinct(1))
    ultimately show ?thesis using assms upd other
      by (auto simp: page_inv_def hm_get_insert m entry_ok_other)
  qed
qed

lemma page_inv_fold: "page_inv evs st \<Longrightarrow> page_inv (evs @ es) (fold on_event es st)"
proof (induction es arbitrary: evs st)
  case (Cons e es)
  from Cons.IH [OF page_inv_event [OF Cons.prems]] show ?case by simp
qed simp

lemma page_inv_all: "page_inv evs (fold on_event evs ([], []))"
  using page_inv_fold [of "[]" "([], [])" evs] by (simp add: page_inv_def about_def entry_ok_def)

lemma map_filter_get:
  assumes "\<And>i. i \<in> set order \<Longrightarrow> \<exists>x. hm_get m i = Some x \<and> f x = i"
  shows "map f (List.map_filter (hm_get m) order) = order"
  using assms by (induction order) (fastforce simp: map_filter_simps)+

lemma set_map_filter: "y \<in> set (List.map_filter g xs) \<Longrightarrow> \<exists>x \<in> set xs. g x = Some y"
  by (auto simp: map_filter_def)

lemma events_to_operations_spec:
  "distinct (map op_id (events_to_operations evs)) \<and>
   (\<forall>op \<in> set (events_to_operations evs). op_callback_details op = None \<and> about (op_id op) evs \<noteq> [] \<and>
      op_status op = event_status (last (about (op_id op) evs))) \<and>
   (\<forall>i. about i evs \<noteq> [] \<longrightarrow> i \<in> op_id ` set (events_to_operations evs))"
proof -
  obtain m order where f: "fold on_event evs ([], []) = (m, order)" by (cases "fold on_event evs ([], [])")
  have inv: "distinct order" "\<And>i. (hm_get m i = None) = (i \<notin> set order)" "\<And>i. entry_ok evs i (hm_get m i)"
    using page_inv_all [of evs] by (simp_all add: f page_inv_def)
  have eq: "events_to_operations evs = List.map_filter (hm_get m) order" by (simp add: events_to_operations_def f)
  have entry: "op_id op = i \<and> op_callback_details op = None \<and> about i evs \<noteq> [] \<and> op_status op = event_status (last (about i evs))"
    if "hm_get m i = Some op" for i op
    using inv(3) [of i] that by (simp add: entry_ok_def split: if_splits)
  have ids: "map op_id (events_to_operations evs) = order"
    unfolding eq by (rule map_filter_get) (use inv(2) entry in fastforce)
  have "about i evs \<noteq> [] \<longrightarrow> i \<in> set order" for i
    using inv(2,3) [of i] by (auto simp: entry_ok_def)
  moreover have "op_callback_details op = None \<and> about (op_id op) evs \<noteq> [] \<and> op_status op = event_status (last (about (op_id op) evs))"
    if "op \<in> set (events_to_operations evs)" for op
    using set_map_filter [OF that [unfolded eq]] entry by blast
  ultimately show ?thesis using ids inv(1) by (metis list.set_map)
qed

section \<open>The operations of a history\<close>

definition store_page_operations :: "aws_event list \<Rightarrow> operation_storage \<Rightarrow> operation_storage" where
  "store_page_operations evs s = fold add_or_update (events_to_operations evs) s"

lemma status_after_page:
  assumes "os_wf s"
  shows "map_option op_status (os_get_by_id (store_page_operations evs s) i) =
    (if about i evs = [] then map_option op_status (os_get_by_id s i) else Some (event_status (last (about i evs))))"
proof (cases "about i evs = []")
  case True
  then have "i \<notin> op_id ` set (events_to_operations evs)" using events_to_operations_spec [of evs] by auto
  with True show ?thesis
    unfolding store_page_operations_def by (simp add: runner_store.lookup_store_all_notin [OF assms])
next
  case False
  then have "i \<in> op_id ` set (events_to_operations evs)" using events_to_operations_spec [of evs] by auto
  then obtain op where "op \<in> set (events_to_operations evs)" "op_id op = i"
      "os_get_by_id (store_page_operations evs s) i = Some op"
    unfolding store_page_operations_def using runner_store.lookup_store_all_in [OF assms] by blast
  with False events_to_operations_spec [of evs] show ?thesis by auto
qed

text \<open>C33: However a history is cut into pages, the status of an operation in the storage of the runner is the one of the last event about it, and exactly
  the operations with an event are stored.\<close>

theorem stored_status_is_last_event:
  "map_option op_status (os_get_by_id (fold store_page_operations pages operation_storage_new) i) =
     (if about i (concat pages) = [] then None else Some (event_status (last (about i (concat pages)))))"
proof -
  have "os_wf (fold store_page_operations ps operation_storage_new)" for ps
    by (induction ps rule: rev_induct) (simp_all add: store_page_operations_def runner_store.wf_store_all)
  then show ?thesis
    by (induction pages rule: rev_induct)
       (simp_all add: status_after_page, simp_all add: about_def operation_storage_new_def os_get_by_id_def)
qed

end
