(* ===== verification/Callback_Manager.thy ===== *)
theory Callback_Manager
  imports Event_Processor Operation_Store
begin

text \<open>
  The callbacks of an execution on the checkpoint server: \<open>testing/src/checkpoint_server/callback_manager.rs\<close>.
  A callback is registered once and completed at most once, by a success, a failure or a timeout;
  a heartbeat only moves the time from which the timeout counts. Instants and durations are
  milliseconds. The lemmas say that a completion is final.
\<close>

datatype complete_callback_status = CallbackSuccess | CallbackFailure | CallbackTimeout

record callback_state =
  cbs_callback_id :: string
  cbs_timeout :: "int option"
  cbs_registered_at :: int
  cbs_last_heartbeat :: int
  cbs_completion_status :: "complete_callback_status option"
  cbs_result :: "string option"
  cbs_error :: "error_object option"

definition callback_state_new :: "int \<Rightarrow> string \<Rightarrow> int option \<Rightarrow> callback_state" where
  "callback_state_new now i timeout =
     \<lparr>cbs_callback_id = i, cbs_timeout = timeout, cbs_registered_at = now, cbs_last_heartbeat = now,
      cbs_completion_status = None, cbs_result = None, cbs_error = None\<rparr>"

definition callback_is_completed :: "callback_state \<Rightarrow> bool" where
  "callback_is_completed c = (cbs_completion_status c \<noteq> None)"

definition is_timed_out :: "int \<Rightarrow> callback_state \<Rightarrow> bool" where
  "is_timed_out now c = (case cbs_timeout c of
     Some t \<Rightarrow> now - cbs_last_heartbeat c > t | None \<Rightarrow> False)"

record callback_manager =
  cbm_execution_id :: string
  cbm_callbacks :: "(string \<times> callback_state) list"

definition callback_manager_new :: "string \<Rightarrow> callback_manager" where
  "callback_manager_new i = \<lparr>cbm_execution_id = i, cbm_callbacks = []\<rparr>"

definition get_callback_state :: "callback_manager \<Rightarrow> string \<Rightarrow> callback_state option" where
  "get_callback_state m i = hm_get (cbm_callbacks m) i"

definition get_callback_status :: "callback_manager \<Rightarrow> string \<Rightarrow> complete_callback_status option" where
  "get_callback_status m i = Option.bind (get_callback_state m i) cbs_completion_status"

definition register_callback ::
  "int \<Rightarrow> string \<Rightarrow> int option \<Rightarrow> (callback_manager, test_error, unit) cmd" where
  "register_callback now i timeout m =
     (if get_callback_state m i \<noteq> None
      then (Inl (CallbackAlreadyCompleted (''Callback '' @ i @ '' already registered'')), m)
      else (Inr (), m\<lparr>cbm_callbacks := hm_insert i (callback_state_new now i timeout) (cbm_callbacks m)\<rparr>))"

text \<open>The common part of a success, a failure and a heartbeat: the callback must exist and be open.\<close>

definition open_callback ::
  "string \<Rightarrow> (callback_state \<Rightarrow> callback_state) \<Rightarrow> (callback_manager, test_error, unit) cmd" where
  "open_callback i f m = (case get_callback_state m i of
     None \<Rightarrow> (Inl (CallbackNotFound i), m)
   | Some c \<Rightarrow>
       if callback_is_completed c then (Inl (CallbackAlreadyCompleted i), m)
       else (Inr (), m\<lparr>cbm_callbacks := hm_insert i (f c) (cbm_callbacks m)\<rparr>))"

definition send_success :: "string \<Rightarrow> string \<Rightarrow> (callback_manager, test_error, unit) cmd" where
  "send_success i result =
     open_callback i (\<lambda>c. c\<lparr>cbs_completion_status := Some CallbackSuccess, cbs_result := Some result\<rparr>)"

definition send_failure :: "string \<Rightarrow> error_object \<Rightarrow> (callback_manager, test_error, unit) cmd" where
  "send_failure i e =
     open_callback i (\<lambda>c. c\<lparr>cbs_completion_status := Some CallbackFailure, cbs_error := Some e\<rparr>)"

definition send_heartbeat :: "int \<Rightarrow> string \<Rightarrow> (callback_manager, test_error, unit) cmd" where
  "send_heartbeat now i = open_callback i (\<lambda>c. c\<lparr>cbs_last_heartbeat := now\<rparr>)"

definition expired :: "int \<Rightarrow> callback_state \<Rightarrow> bool" where
  "expired now c \<longleftrightarrow> \<not> callback_is_completed c \<and> is_timed_out now c"

definition check_timeouts :: "int \<Rightarrow> callback_manager \<Rightarrow> string list \<times> callback_manager" where
  "check_timeouts now m =
     (map fst (filter (\<lambda>(i, c). expired now c) (cbm_callbacks m)),
      m\<lparr>cbm_callbacks := map (\<lambda>(i, c).
          (i, if expired now c then c\<lparr>cbs_completion_status := Some CallbackTimeout\<rparr> else c)) (cbm_callbacks m)\<rparr>)"

section \<open>Completion is final\<close>

inductive callback_step :: "callback_manager \<Rightarrow> callback_manager \<Rightarrow> bool" where
  step_register: "callback_step m (snd (register_callback now i timeout m))"
| step_success: "callback_step m (snd (send_success i result m))"
| step_failure: "callback_step m (snd (send_failure i e m))"
| step_heartbeat: "callback_step m (snd (send_heartbeat now i m))"
| step_timeouts: "callback_step m (snd (check_timeouts now m))"

text \<open>The outcome of a callback: how it completed and with what.\<close>

definition callback_outcome ::
  "callback_manager \<Rightarrow> string \<Rightarrow> (complete_callback_status \<times> string option \<times> error_object option) option" where
  "callback_outcome m i = Option.bind (get_callback_state m i)
     (\<lambda>c. map_option (\<lambda>s. (s, cbs_result c, cbs_error c)) (cbs_completion_status c))"

lemma hm_get_map: "hm_get (map (\<lambda>(k, v). (k, f v)) m) i = map_option f (hm_get m i)"
  by (induction m) (auto simp: hm_get_def)

lemma open_callback_final:
  "callback_outcome m i = Some r \<Longrightarrow> callback_outcome (snd (open_callback j f m)) i = Some r"
  by (auto simp: callback_outcome_def open_callback_def callback_is_completed_def get_callback_state_def
      hm_get_insert split: option.split)

lemma callback_step_final: "callback_step m m' \<Longrightarrow> callback_outcome m i = Some r \<Longrightarrow> callback_outcome m' i = Some r"
proof (induction rule: callback_step.induct)
  case (step_register m now j timeout)
  then show ?case
    by (auto simp: register_callback_def callback_outcome_def get_callback_state_def hm_get_insert)
next
  case (step_timeouts m now)
  have "get_callback_state (snd (check_timeouts now m)) i =
      map_option (\<lambda>c. if expired now c then c\<lparr>cbs_completion_status := Some CallbackTimeout\<rparr> else c)
        (get_callback_state m i)"
    by (simp add: get_callback_state_def check_timeouts_def flip: hm_get_map)
  with step_timeouts show ?case
    by (cases "get_callback_state m i") (auto simp: callback_outcome_def expired_def callback_is_completed_def)
qed (simp_all add: send_success_def send_failure_def send_heartbeat_def open_callback_final)

lemma callbacks_final:
  "callback_step\<^sup>*\<^sup>* m m' \<Longrightarrow> callback_outcome m i = Some r \<Longrightarrow> callback_outcome m' i = Some r"
  by (induction rule: rtranclp_induct) (simp_all add: callback_step_final)

text \<open>A second answer is refused and changes nothing.\<close>

lemma completed_callback_refuses:
  assumes "callback_outcome m i = Some r"
  shows "send_success i x m = (Inl (CallbackAlreadyCompleted i), m)"
    and "send_failure i e m = (Inl (CallbackAlreadyCompleted i), m)"
    and "send_heartbeat now i m = (Inl (CallbackAlreadyCompleted i), m)"
  using assms
  by (auto simp: callback_outcome_def send_success_def send_failure_def send_heartbeat_def open_callback_def
      callback_is_completed_def bind_eq_Some_conv)

end
