(* ===== verification/Checkpoint_Manager.thy ===== *)
theory Checkpoint_Manager
  imports Callback_Manager Execution_State
begin

text \<open>
  One execution on the checkpoint server: \<open>testing/src/checkpoint_server/checkpoint_manager.rs\<close>. It
  stores the operations in the order in which they were created, applies the updates of a checkpoint
  to them, remembers which have changed since the client was last told, and writes the history.
\<close>

section \<open>State\<close>

record operation_events =
  oe_operation :: operation
  oe_update :: "operation_update option"

record checkpoint_manager =
  cm_execution_id :: string
  cm_operation_data_map :: "(string \<times> operation_events) list"
  cm_operation_order :: "string list"
  cm_callback_manager :: callback_manager
  cm_event_processor :: event_processor
  cm_invocations_map :: "(string \<times> int) list"
  cm_dirty_operation_ids :: "string list"
  cm_is_execution_completed :: bool

definition checkpoint_manager_new :: "string \<Rightarrow> checkpoint_manager" where
  "checkpoint_manager_new i =
     \<lparr>cm_execution_id = i, cm_operation_data_map = [], cm_operation_order = [],
      cm_callback_manager = callback_manager_new i, cm_event_processor = event_processor_new,
      cm_invocations_map = [], cm_dirty_operation_ids = [], cm_is_execution_completed = False\<rparr>"

definition get_operation_data :: "checkpoint_manager \<Rightarrow> string \<Rightarrow> operation_events option" where
  "get_operation_data m i = hm_get (cm_operation_data_map m) i"

definition on_events ::
  "(event_processor \<Rightarrow> 'a \<times> event_processor) \<Rightarrow> checkpoint_manager \<Rightarrow> checkpoint_manager" where
  "on_events f m = m\<lparr>cm_event_processor := snd (f (cm_event_processor m))\<rparr>"

definition mark_dirty :: "string \<Rightarrow> checkpoint_manager \<Rightarrow> checkpoint_manager" where
  "mark_dirty i m = m\<lparr>cm_dirty_operation_ids := hs_insert i (cm_dirty_operation_ids m)\<rparr>"

text \<open>\<open>put_events i e\<close> stores an entry and keeps the order of first insertions.\<close>

definition put_events :: "string \<Rightarrow> operation_events \<Rightarrow> checkpoint_manager \<Rightarrow> checkpoint_manager" where
  "put_events i e m =
     m\<lparr>cm_operation_order := (if get_operation_data m i = None then cm_operation_order m @ [i] else cm_operation_order m),
       cm_operation_data_map := hm_insert i e (cm_operation_data_map m)\<rparr>"

section \<open>Start of an execution and of invocations\<close>

definition initial_operation :: "host \<Rightarrow> string \<Rightarrow> operation" where
  "initial_operation h payload = (operation_new (ho_uuid h 0) ExecutionOp)
     \<lparr>op_result := Some payload, op_start_timestamp := Some (ho_now h)\<rparr>"

definition cm_initialize :: "host \<Rightarrow> string \<Rightarrow> checkpoint_manager \<Rightarrow> operation_events \<times> checkpoint_manager" where
  "cm_initialize h payload m =
     (let op = initial_operation h payload;
          e = \<lparr>oe_operation = op, oe_update = None\<rparr>;
          m1 = m\<lparr>cm_operation_data_map := hm_insert (op_id op) e (cm_operation_data_map m),
                 cm_operation_order := cm_operation_order m @ [op_id op]\<rparr>;
          m2 = mark_dirty (op_id op) m1;
          m3 = on_events (create_history_event h OperationStartedEvent None ''ExecutionStartedDetails''
                 (JObject [(''input_payload'', JString payload)])) m2
      in (e, on_events (create_nodejs_event h ExecutionStarted (Some op) (ExecutionStartedDetails payload None)) m3))"

definition cm_get_state :: "checkpoint_manager \<Rightarrow> operation list" where
  "cm_get_state m = map oe_operation (List.map_filter (get_operation_data m) (cm_operation_order m))"

definition has_dirty_operations :: "checkpoint_manager \<Rightarrow> bool" where
  "has_dirty_operations m = (cm_dirty_operation_ids m \<noteq> [])"

definition get_dirty_operations :: "checkpoint_manager \<Rightarrow> operation list \<times> checkpoint_manager" where
  "get_dirty_operations m =
     (map oe_operation (List.map_filter (get_operation_data m) (cm_dirty_operation_ids m)),
      m\<lparr>cm_dirty_operation_ids := []\<rparr>)"

definition cm_start_invocation ::
  "host \<Rightarrow> string \<Rightarrow> checkpoint_manager \<Rightarrow> operation_events list \<times> checkpoint_manager" where
  "cm_start_invocation h i m =
     (List.map_filter (get_operation_data m) (cm_operation_order m),
      m\<lparr>cm_invocations_map := hm_insert i (ho_now h) (cm_invocations_map m), cm_dirty_operation_ids := []\<rparr>)"

definition cm_complete_invocation ::
  "host \<Rightarrow> string \<Rightarrow> (checkpoint_manager, test_error, int \<times> int) cmd" where
  "cm_complete_invocation h i m = (case hm_get (cm_invocations_map m) i of
     None \<Rightarrow> (Inl (InvocationNotFound i), m)
   | Some start \<Rightarrow>
       (let m1 = m\<lparr>cm_invocations_map := AList.delete i (cm_invocations_map m)\<rparr>;
            m2 = on_events (create_history_event h InvocationCompletedEvent None ''InvocationCompletedDetails''
                   (JObject [(''start_timestamp'', JTime start), (''end_timestamp'', JTime (ho_now h)),
                             (''request_id'', JString i)])) m1;
            m3 = on_events (create_nodejs_event h InvocationCompleted None
                   (InvocationCompletedDetails start (ho_now h) i None None)) m2
        in (Inr (start, ho_now h), m3)))"

section \<open>Updates\<close>

fun status_of_action :: "operation_action \<Rightarrow> operation_status" where
  "status_of_action Start = Started"
| "status_of_action Succeed = Succeeded"
| "status_of_action Fail = Failed"
| "status_of_action Cancel = Cancelled"
| "status_of_action Retry = Pending"

definition ends_operation :: "operation_action \<Rightarrow> bool" where
  "ends_operation a = (a \<in> {Succeed, Fail, Cancel})"

definition next_attempt_timestamp :: "int \<Rightarrow> u64 option \<Rightarrow> int option" where
  "next_attempt_timestamp now d = map_option (\<lambda>s. now + sint s * 1000) d"

definition merge_operation_update :: "int \<Rightarrow> operation_update \<Rightarrow> operation \<Rightarrow> operation" where
  "merge_operation_update now u op =
     (let op1 = op\<lparr>op_status := status_of_action (up_action u)\<rparr>;
          op2 = (if ends_operation (up_action u) then op1\<lparr>op_end_timestamp := Some now\<rparr> else op1);
          op3 = (if up_result u \<noteq> None then op2\<lparr>op_result := up_result u\<rparr> else op2);
          op4 = (if up_error u \<noteq> None then op3\<lparr>op_error := up_error u\<rparr> else op3)
      in if up_action u = Retry \<and> up_type u = StepOp
         then op4\<lparr>op_step_details := Some
                \<lparr>sd_result = None,
                 sd_attempt = Some ((case Option.bind (op_step_details op4) sd_attempt of
                    Some n \<Rightarrow> n | None \<Rightarrow> 0) + 1),
                 sd_next_attempt_timestamp = next_attempt_timestamp now (Option.bind (up_step_options u) id),
                 sd_error = up_error u, sd_payload = up_result u\<rparr>\<rparr>
         else op4)"

definition created_step_details :: "int \<Rightarrow> operation_update \<Rightarrow> step_details option" where
  "created_step_details now u =
     (if up_type u = StepOp
      then (case up_step_options u of
              Some delay \<Rightarrow> Some \<lparr>sd_result = None, sd_attempt = Some 1,
                sd_next_attempt_timestamp = next_attempt_timestamp now delay,
                sd_error = up_error u, sd_payload = up_result u\<rparr>
            | None \<Rightarrow>
                if up_action u = Retry
                then Some \<lparr>sd_result = None, sd_attempt = Some 1, sd_next_attempt_timestamp = None,
                       sd_error = up_error u, sd_payload = up_result u\<rparr>
                else None)
      else None)"

text \<open>\<open>callback_id\<close> is the random identifier drawn for a callback operation.\<close>

definition create_operation_from_update :: "string \<Rightarrow> int \<Rightarrow> operation_update \<Rightarrow> operation" where
  "create_operation_from_update callback_id now u =
     \<lparr>op_id = up_id u, op_type = up_type u, op_status = status_of_action (up_action u),
      op_result = up_result u, op_error = up_error u, op_parent_id = up_parent_id u,
      op_name = up_name u, op_sub_type = up_sub_type u, op_start_timestamp = Some now,
      op_end_timestamp = (if ends_operation (up_action u) then Some now else None),
      op_execution_details = None, op_step_details = created_step_details now u,
      op_wait_details = (if up_type u = WaitOp
        then map_option (\<lambda>s. Some (now + sint s * 1000)) (up_wait_options u) else None),
      op_callback_details = (if up_type u = CallbackOp
        then Some \<lparr>cd_callback_id = Some callback_id, cd_result = None, cd_error = None\<rparr> else None),
      op_chained_invoke_details = None, op_context_details = None\<rparr>"

text \<open>A new callback is registered with its timeout; the refusal of a duplicate is ignored.\<close>

definition register_operation_callback ::
  "host \<Rightarrow> operation_update \<Rightarrow> operation \<Rightarrow> checkpoint_manager \<Rightarrow> checkpoint_manager" where
  "register_operation_callback h u op m =
     (if op_type op = CallbackOp
      then (case Option.bind (op_callback_details op) cd_callback_id of
              Some i \<Rightarrow> m\<lparr>cm_callback_manager := snd (register_callback (ho_now h) i
                  (map_option (\<lambda>s. uint s * 1000) (Option.bind (up_callback_options u) cbo_timeout_seconds))
                  (cm_callback_manager m))\<rparr>
            | None \<Rightarrow> m)
      else m)"

definition completes_execution :: "operation \<Rightarrow> bool" where
  "completes_execution op \<longleftrightarrow> op_type op = ExecutionOp \<and> (op_status op = Succeeded \<or> op_status op = Failed)"

definition complete_if :: "bool \<Rightarrow> checkpoint_manager \<Rightarrow> checkpoint_manager" where
  "complete_if b m = (if b then m\<lparr>cm_is_execution_completed := True\<rparr> else m)"

definition update_event_type :: "operation_action \<Rightarrow> event_type" where
  "update_event_type a = (if a = Start then OperationStartedEvent else OperationCompletedEvent)"

definition cm_process_operation_update ::
  "host \<Rightarrow> string \<Rightarrow> operation_update \<Rightarrow> checkpoint_manager \<Rightarrow> checkpoint_manager" where
  "cm_process_operation_update h callback_id u m =
     (let (op, m1) =
            (case get_operation_data m (up_id u) of
               Some e \<Rightarrow> (merge_operation_update (ho_now h) u (oe_operation e), m)
             | None \<Rightarrow>
                 (let op = create_operation_from_update callback_id (ho_now h) u
                  in (op, register_operation_callback h u op m)));
          m2 = on_events (create_history_event h (update_event_type (up_action u)) (Some (up_id u)) ''OperationDetails''
                 (JObject [(''operation_id'', JString (up_id u)), (''action'', JString (display_action (up_action u)))])) m1;
          m3 = on_events (ep_process_operation_update h u op) m2;
          m4 = complete_if (completes_execution op) m3
      in mark_dirty (up_id u) (put_events (up_id u) \<lparr>oe_operation = op, oe_update = Some u\<rparr> m4))"

text \<open>No update is refused. The n-th update of a checkpoint draws the n-th random identifier.\<close>

definition process_updates ::
  "host \<Rightarrow> operation_update list \<Rightarrow> checkpoint_manager \<Rightarrow> checkpoint_manager" where
  "process_updates h us m =
     fold (\<lambda>(n, u). cm_process_operation_update h (ho_uuid h n) u) (List.enumerate 0 us) m"

definition process_checkpoint ::
  "host \<Rightarrow> operation_update list \<Rightarrow> (checkpoint_manager, test_error, operation list) cmd" where
  "process_checkpoint h us m =
     (case get_dirty_operations (process_updates h us m) of (ops, m1) \<Rightarrow> (Inr ops, m1))"

section \<open>Changes from outside\<close>

definition completed_callback ::
  "host \<Rightarrow> string option \<Rightarrow> error_object option \<Rightarrow> operation \<Rightarrow> operation" where
  "completed_callback h result error op =
     (let op1 = (if error \<noteq> None then op\<lparr>op_status := Failed, op_error := error\<rparr>
                 else op\<lparr>op_status := Succeeded, op_result := result\<rparr>)\<lparr>op_end_timestamp := Some (ho_now h)\<rparr>
      in op1\<lparr>op_callback_details := map_option (\<lambda>d. d\<lparr>cd_result := op_result op1, cd_error := op_error op1\<rparr>)
               (op_callback_details op1)\<rparr>)"

definition has_callback_id :: "string \<Rightarrow> operation \<Rightarrow> bool" where
  "has_callback_id i op \<longleftrightarrow> op_type op = CallbackOp \<and>
     Option.bind (op_callback_details op) cd_callback_id = Some i"

definition complete_callback_operation ::
  "host \<Rightarrow> string \<Rightarrow> string option \<Rightarrow> error_object option \<Rightarrow> checkpoint_manager \<Rightarrow> checkpoint_manager" where
  "complete_callback_operation h callback_id result error m =
     (case find (\<lambda>(i, e). has_callback_id callback_id (oe_operation e)) (cm_operation_data_map m) of
        None \<Rightarrow> m
      | Some (i, e) \<Rightarrow> mark_dirty (op_id (oe_operation e))
          (m\<lparr>cm_operation_data_map := hm_insert i
               (e\<lparr>oe_operation := completed_callback h result error (oe_operation e)\<rparr>) (cm_operation_data_map m)\<rparr>))"

definition update_operation_data ::
  "host \<Rightarrow> string \<Rightarrow> operation \<Rightarrow> checkpoint_manager \<Rightarrow> checkpoint_manager" where
  "update_operation_data h i op m = (case get_operation_data m i of
     Some e \<Rightarrow>
       (let m1 = (if op_type op = WaitOp \<and> op_status op = Succeeded \<and> op_status (oe_operation e) \<noteq> Succeeded
                  then on_events (create_nodejs_event h WaitSucceeded (Some op) WaitSucceededDetails) m else m);
            m2 = m1\<lparr>cm_operation_data_map := hm_insert i (e\<lparr>oe_operation := op\<rparr>) (cm_operation_data_map m1)\<rparr>
        in complete_if (completes_execution op) (mark_dirty i m2))
   | None \<Rightarrow> mark_dirty i (put_events i \<lparr>oe_operation = op, oe_update = None\<rparr> m))"

definition execution_operation_of :: "checkpoint_manager \<Rightarrow> operation option" where
  "execution_operation_of m =
     find (\<lambda>op. op_type op = ExecutionOp) (cm_get_state m)"

definition cm_complete_execution ::
  "host \<Rightarrow> string option \<Rightarrow> error_object option \<Rightarrow> checkpoint_manager \<Rightarrow> checkpoint_manager" where
  "cm_complete_execution h result error m =
     (if cm_is_execution_completed m then m
      else let m1 = m\<lparr>cm_is_execution_completed := True\<rparr> in
        (case execution_operation_of m1 of
           None \<Rightarrow> m1
         | Some op \<Rightarrow>
             (case error of
                Some e \<Rightarrow> on_events (create_nodejs_event h ExecutionFailed (Some (op\<lparr>op_status := Failed\<rparr>))
                  (ExecutionFailedDetails (ho_error_json h e))) m1
              | None \<Rightarrow> on_events (create_nodejs_event h ExecutionSucceeded (Some (op\<lparr>op_status := Succeeded\<rparr>))
                  (ExecutionSucceededDetails (case result of Some r \<Rightarrow> r | None \<Rightarrow> ''null''))) m1)))"

end
