(* ===== verification/Checkpoint_Manager_Facts.thy ===== *)
theory Checkpoint_Manager_Facts
  imports Checkpoint_Manager Checkpointing
begin

text \<open>
  Properties of the checkpoint server's record of one execution: the invariant every operation keeps, the
  state and the changes a client is told, and that a completed execution or callback stays completed.
\<close>

section \<open>Selectors\<close>

lemma on_events_sel [simp]:
  "cm_operation_data_map (on_events f m) = cm_operation_data_map m"
  "cm_operation_order (on_events f m) = cm_operation_order m"
  "cm_callback_manager (on_events f m) = cm_callback_manager m"
  "cm_event_processor (on_events f m) = snd (f (cm_event_processor m))"
  "cm_invocations_map (on_events f m) = cm_invocations_map m"
  "cm_dirty_operation_ids (on_events f m) = cm_dirty_operation_ids m"
  "cm_is_execution_completed (on_events f m) = cm_is_execution_completed m"
  "get_operation_data (on_events f m) i = get_operation_data m i"
  by (simp_all add: on_events_def get_operation_data_def)

lemma mark_dirty_sel [simp]:
  "cm_operation_data_map (mark_dirty i m) = cm_operation_data_map m"
  "cm_operation_order (mark_dirty i m) = cm_operation_order m"
  "cm_callback_manager (mark_dirty i m) = cm_callback_manager m"
  "cm_event_processor (mark_dirty i m) = cm_event_processor m"
  "cm_invocations_map (mark_dirty i m) = cm_invocations_map m"
  "cm_dirty_operation_ids (mark_dirty i m) = hs_insert i (cm_dirty_operation_ids m)"
  "cm_is_execution_completed (mark_dirty i m) = cm_is_execution_completed m"
  "get_operation_data (mark_dirty j m) i = get_operation_data m i"
  by (simp_all add: mark_dirty_def get_operation_data_def)

lemma complete_if_sel [simp]:
  "cm_operation_data_map (complete_if b m) = cm_operation_data_map m"
  "cm_operation_order (complete_if b m) = cm_operation_order m"
  "cm_callback_manager (complete_if b m) = cm_callback_manager m"
  "cm_event_processor (complete_if b m) = cm_event_processor m"
  "cm_invocations_map (complete_if b m) = cm_invocations_map m"
  "cm_dirty_operation_ids (complete_if b m) = cm_dirty_operation_ids m"
  "cm_is_execution_completed (complete_if b m) = (b \<or> cm_is_execution_completed m)"
  "get_operation_data (complete_if b m) i = get_operation_data m i"
  by (simp_all add: complete_if_def get_operation_data_def)

lemma put_events_sel [simp]:
  "cm_operation_data_map (put_events i e m) = hm_insert i e (cm_operation_data_map m)"
  "cm_operation_order (put_events i e m) =
     (if get_operation_data m i = None then cm_operation_order m @ [i] else cm_operation_order m)"
  "cm_callback_manager (put_events i e m) = cm_callback_manager m"
  "cm_event_processor (put_events i e m) = cm_event_processor m"
  "cm_invocations_map (put_events i e m) = cm_invocations_map m"
  "cm_dirty_operation_ids (put_events i e m) = cm_dirty_operation_ids m"
  "cm_is_execution_completed (put_events i e m) = cm_is_execution_completed m"
  "get_operation_data (put_events i e m) j = (if j = i then Some e else get_operation_data m j)"
  by (simp_all add: put_events_def get_operation_data_def hm_get_insert)

lemma register_operation_callback_sel [simp]:
  "cm_operation_data_map (register_operation_callback h u op m) = cm_operation_data_map m"
  "cm_operation_order (register_operation_callback h u op m) = cm_operation_order m"
  "cm_event_processor (register_operation_callback h u op m) = cm_event_processor m"
  "cm_invocations_map (register_operation_callback h u op m) = cm_invocations_map m"
  "cm_dirty_operation_ids (register_operation_callback h u op m) = cm_dirty_operation_ids m"
  "cm_is_execution_completed (register_operation_callback h u op m) = cm_is_execution_completed m"
  "get_operation_data (register_operation_callback h u op m) i = get_operation_data m i"
  by (simp_all add: register_operation_callback_def get_operation_data_def split: option.split)

lemma merge_operation_update_sel [simp]:
  "op_id (merge_operation_update now u op) = op_id op"
  "op_type (merge_operation_update now u op) = op_type op"
  "op_status (merge_operation_update now u op) = status_of_action (up_action u)"
  "op_callback_details (merge_operation_update now u op) = op_callback_details op"
  by (simp_all add: merge_operation_update_def Let_def)

lemma create_operation_sel [simp]:
  "op_id (create_operation_from_update cid now u) = up_id u"
  "op_type (create_operation_from_update cid now u) = up_type u"
  "op_status (create_operation_from_update cid now u) = status_of_action (up_action u)"
  "op_result (create_operation_from_update cid now u) = up_result u"
  "op_error (create_operation_from_update cid now u) = up_error u"
  by (simp_all add: create_operation_from_update_def)

section \<open>The invariant\<close>

text \<open>The order lists each stored operation once, under its own identifier; only stored operations are
  dirty; the history is numbered.\<close>

definition cm_wf :: "checkpoint_manager \<Rightarrow> bool" where
  "cm_wf m \<longleftrightarrow> distinct (cm_operation_order m) \<and>
     (\<forall>i. i \<in> set (cm_operation_order m) \<longleftrightarrow> get_operation_data m i \<noteq> None) \<and>
     (\<forall>i e. get_operation_data m i = Some e \<longrightarrow> op_id (oe_operation e) = i) \<and>
     hm_wf (cm_operation_data_map m) \<and>
     distinct (cm_dirty_operation_ids m) \<and> set (cm_dirty_operation_ids m) \<subseteq> set (cm_operation_order m) \<and>
     history_wf (cm_event_processor m)"

lemma cm_wf_order_mem: "cm_wf m \<Longrightarrow> i \<in> set (cm_operation_order m) \<longleftrightarrow> get_operation_data m i \<noteq> None"
  by (simp add: cm_wf_def)

lemma cm_wf_new [simp]: "cm_wf (checkpoint_manager_new i)"
  by (simp add: cm_wf_def checkpoint_manager_new_def get_operation_data_def)

lemma cm_wf_events:
  "cm_wf m \<Longrightarrow> (\<And>p. history_wf p \<Longrightarrow> history_wf (snd (f p))) \<Longrightarrow> cm_wf (on_events f m)"
  by (simp add: cm_wf_def)

lemma cm_wf_mark_dirty: "cm_wf m \<Longrightarrow> get_operation_data m i \<noteq> None \<Longrightarrow> cm_wf (mark_dirty i m)"
  by (simp add: cm_wf_def)

lemma cm_wf_complete_if: "cm_wf m \<Longrightarrow> cm_wf (complete_if b m)"
  by (auto simp: cm_wf_def)

lemma cm_wf_put_events:
  assumes "cm_wf m" "op_id (oe_operation e) = i"
  shows "cm_wf (put_events i e m)"
  using assms by (auto simp: cm_wf_def)

lemma cm_wf_register: "cm_wf (register_operation_callback h u op m) \<longleftrightarrow> cm_wf m"
  by (simp add: cm_wf_def)

text \<open>The operation an update leaves behind.\<close>

definition updated_operation :: "host \<Rightarrow> string \<Rightarrow> operation_update \<Rightarrow> operation option \<Rightarrow> operation" where
  "updated_operation h cid u old = (case old of
     Some op \<Rightarrow> merge_operation_update (ho_now h) u op
   | None \<Rightarrow> create_operation_from_update cid (ho_now h) u)"

definition cm_operation :: "checkpoint_manager \<Rightarrow> string \<Rightarrow> operation option" where
  "cm_operation m i = map_option oe_operation (get_operation_data m i)"

lemma cm_process_operation_update_eq:
  "cm_process_operation_update h cid u m =
     (let op = updated_operation h cid u (cm_operation m (up_id u));
          m1 = (if get_operation_data m (up_id u) = None then register_operation_callback h u op m else m)
      in mark_dirty (up_id u) (put_events (up_id u) \<lparr>oe_operation = op, oe_update = Some u\<rparr>
           (complete_if (completes_execution op) (on_events (ep_process_operation_update h u op)
              (on_events (create_history_event h (update_event_type (up_action u)) (Some (up_id u)) ''OperationDetails''
                 (JObject [(''operation_id'', JString (up_id u)), (''action'', JString (display_action (up_action u)))]))
               m1)))))"
  by (simp add: cm_process_operation_update_def updated_operation_def cm_operation_def Let_def split: option.split)

lemma updated_operation_sel:
  "(\<And>op. old = Some op \<Longrightarrow> op_id op = up_id u) \<Longrightarrow> op_id (updated_operation h cid u old) = up_id u"
  "(\<And>op. old = Some op \<Longrightarrow> op_type op = up_type u) \<Longrightarrow> op_type (updated_operation h cid u old) = up_type u"
  "op_status (updated_operation h cid u old) = status_of_action (up_action u)"
  by (cases old; simp add: updated_operation_def)+

lemma cm_wf_id: "cm_wf m \<Longrightarrow> cm_operation m i = Some op \<Longrightarrow> op_id op = i"
  by (auto simp: cm_wf_def cm_operation_def)

lemma cm_wf_process_update:
  assumes "cm_wf m"
  shows "cm_wf (cm_process_operation_update h cid u m)"
proof -
  have "op_id (updated_operation h cid u (cm_operation m (up_id u))) = up_id u"
    by (rule updated_operation_sel) (rule cm_wf_id [OF assms])
  with assms show ?thesis
    by (simp add: cm_process_operation_update_eq Let_def cm_wf_mark_dirty cm_wf_put_events
        cm_wf_complete_if cm_wf_events history_wf_process history_wf_history_event cm_wf_register)
qed

lemma cm_wf_process_updates: "cm_wf m \<Longrightarrow> cm_wf (process_updates h us m)"
proof -
  have "cm_wf m \<Longrightarrow> cm_wf (fold (\<lambda>(n, u). cm_process_operation_update h (ho_uuid h n) u) xs m)" for xs
    by (induction xs arbitrary: m) (auto simp: cm_wf_process_update)
  then show "cm_wf m \<Longrightarrow> cm_wf (process_updates h us m)" by (simp add: process_updates_def)
qed

lemma cm_wf_clear_dirty: "cm_wf m \<Longrightarrow> cm_wf (m\<lparr>cm_dirty_operation_ids := []\<rparr>)"
  by (simp add: cm_wf_def get_operation_data_def)

lemma cm_wf_process_checkpoint: "cm_wf m \<Longrightarrow> cm_wf (snd (process_checkpoint h us m))"
  by (simp add: process_checkpoint_def get_dirty_operations_def cm_wf_clear_dirty cm_wf_process_updates)

lemma cm_wf_initialize: "cm_wf (snd (cm_initialize h payload (checkpoint_manager_new i)))"
  by (auto simp: cm_initialize_def Let_def cm_wf_def checkpoint_manager_new_def get_operation_data_def
      hm_get_insert completes_execution_def initial_operation_def
      intro!: history_wf_nodejs_event history_wf_history_event)

lemma cm_wf_start_invocation: "cm_wf m \<Longrightarrow> cm_wf (snd (cm_start_invocation h i m))"
  by (simp add: cm_start_invocation_def cm_wf_def get_operation_data_def)

lemma cm_wf_complete_invocation: "cm_wf m \<Longrightarrow> cm_wf (snd (cm_complete_invocation h i m))"
  by (auto simp: cm_complete_invocation_def Let_def cm_wf_def get_operation_data_def
      intro!: history_wf_nodejs_event history_wf_history_event split: option.split)

lemma cm_wf_update_data:
  assumes "cm_wf m" "op_id op = i"
  shows "cm_wf (update_operation_data h i op m)"
  using assms
  by (auto simp: update_operation_data_def Let_def cm_wf_def get_operation_data_def hm_get_insert
      intro!: history_wf_nodejs_event split: option.split)

text \<open>The whole handlers of the two callback answers: the callback manager first, then the operation.\<close>

definition answer_callback ::
  "host \<Rightarrow> string \<Rightarrow> error_object + string \<Rightarrow> (checkpoint_manager, test_error, unit) cmd" where
  "answer_callback h i r m =
     (case (case r of Inr x \<Rightarrow> send_success i x | Inl e \<Rightarrow> send_failure i e) (cm_callback_manager m) of
        (Inl err, c) \<Rightarrow> (Inl err, m\<lparr>cm_callback_manager := c\<rparr>)
      | (Inr _, c) \<Rightarrow> (Inr (), complete_callback_operation h i
           (case r of Inr x \<Rightarrow> Some x | Inl e \<Rightarrow> None) (case r of Inr x \<Rightarrow> None | Inl e \<Rightarrow> Some e)
           (m\<lparr>cm_callback_manager := c\<rparr>)))"

definition heartbeat_callback :: "host \<Rightarrow> string \<Rightarrow> (checkpoint_manager, test_error, unit) cmd" where
  "heartbeat_callback h i m = (case send_heartbeat (ho_now h) i (cm_callback_manager m) of
     (r, c) \<Rightarrow> (r, m\<lparr>cm_callback_manager := c\<rparr>))"

section \<open>Steps and reachable states\<close>

inductive cm_step :: "checkpoint_manager \<Rightarrow> checkpoint_manager \<Rightarrow> bool" where
  cm_start: "cm_step m (snd (cm_start_invocation h i m))"
| cm_complete: "cm_step m (snd (cm_complete_invocation h i m))"
| cm_checkpoint: "cm_step m (snd (process_checkpoint h us m))"
| cm_answer: "cm_step m (snd (answer_callback h i r m))"
| cm_heartbeat: "cm_step m (snd (heartbeat_callback h i m))"
| cm_data: "op_id op = i \<Longrightarrow> cm_step m (update_operation_data h i op m)"
| cm_end: "cm_step m (cm_complete_execution h result error m)"

definition cm_reachable :: "checkpoint_manager \<Rightarrow> bool" where
  "cm_reachable m \<longleftrightarrow> (\<exists>h payload i. cm_step\<^sup>*\<^sup>* (snd (cm_initialize h payload (checkpoint_manager_new i))) m)"

lemma completed_callback_id [simp]: "op_id (completed_callback h r e op) = op_id op"
  by (simp add: completed_callback_def Let_def)

lemma find_pair_get:
  "hm_wf m \<Longrightarrow> find P m = Some (i, e) \<Longrightarrow> hm_get m i = Some e"
  using find_Some_in [of P m "(i, e)"] by (simp add: hm_get_in)

lemma cm_wf_callback_manager: "cm_wf (m\<lparr>cm_callback_manager := c\<rparr>) \<longleftrightarrow> cm_wf m"
  by (simp add: cm_wf_def get_operation_data_def)

lemma cm_wf_complete_callback:
  assumes "cm_wf m"
  shows "cm_wf (complete_callback_operation h i r e m)"
proof (cases "find (\<lambda>(k, x). has_callback_id i (oe_operation x)) (cm_operation_data_map m)")
  case None
  with assms show ?thesis by (simp add: complete_callback_operation_def)
next
  case (Some kx)
  obtain k x where kx: "kx = (k, x)" by (cases kx)
  have k: "get_operation_data m k = Some x"
    using find_pair_get [of "cm_operation_data_map m"] Some kx assms by (simp add: cm_wf_def get_operation_data_def)
  with assms have "op_id (oe_operation x) = k" by (simp add: cm_wf_def)
  with assms k Some kx show ?thesis
    by (auto simp: complete_callback_operation_def cm_wf_def get_operation_data_def hm_get_insert)
qed

lemma cm_wf_answer: "cm_wf m \<Longrightarrow> cm_wf (snd (answer_callback h i r m))"
  by (simp add: answer_callback_def cm_wf_complete_callback cm_wf_callback_manager split: prod.split sum.split)

lemma cm_wf_complete_execution: "cm_wf m \<Longrightarrow> cm_wf (cm_complete_execution h r e m)"
  by (auto simp: cm_complete_execution_def Let_def cm_wf_def get_operation_data_def
      intro!: history_wf_nodejs_event split: option.split)

lemma cm_wf_step: "cm_step m m' \<Longrightarrow> cm_wf m \<Longrightarrow> cm_wf m'"
  by (induction rule: cm_step.induct)
     (simp_all add: cm_wf_start_invocation cm_wf_complete_invocation cm_wf_process_checkpoint cm_wf_answer
      cm_wf_update_data cm_wf_complete_execution heartbeat_callback_def cm_wf_callback_manager split: prod.split)

text \<open>C3: In every reachable state of an execution on the server the stored operations are listed once each in
  the order of their creation and answer under their own identifier, only stored operations are marked
  as changed, and both histories number their events from one without a gap, each Node.js event with the
  details and the sub type of its event type.\<close>

theorem checkpoint_manager_invariant:
  assumes "cm_reachable m"
  shows "cm_wf m"
proof -
  have "cm_step\<^sup>*\<^sup>* m0 m1 \<Longrightarrow> cm_wf m0 \<Longrightarrow> cm_wf m1" for m0 m1
    by (induction rule: rtranclp_induct) (simp_all add: cm_wf_step)
  with assms cm_wf_initialize show ?thesis by (auto simp: cm_reachable_def)
qed

section \<open>Nothing is forgotten\<close>

text \<open>What an observer has seen stays: the identifiers in their order, the history, the completion of the
  execution and the outcome of a callback.\<close>

definition cm_extends :: "checkpoint_manager \<Rightarrow> checkpoint_manager \<Rightarrow> bool" where
  "cm_extends m m' \<longleftrightarrow> prefix (cm_operation_order m) (cm_operation_order m') \<and>
     prefix (ep_nodejs_events (cm_event_processor m)) (ep_nodejs_events (cm_event_processor m')) \<and>
     (cm_is_execution_completed m \<longrightarrow> cm_is_execution_completed m') \<and>
     (\<forall>i r. callback_outcome (cm_callback_manager m) i = Some r \<longrightarrow>
        callback_outcome (cm_callback_manager m') i = Some r)"

lemma cm_extends_refl [simp]: "cm_extends m m"
  by (simp add: cm_extends_def)

lemma cm_extends_trans: "cm_extends a b \<Longrightarrow> cm_extends b c \<Longrightarrow> cm_extends a c"
  by (auto simp: cm_extends_def intro: prefix_order.trans)

lemma register_final:
  "callback_outcome (cm_callback_manager m) i = Some r \<Longrightarrow>
   callback_outcome (cm_callback_manager (register_operation_callback h u op m)) i = Some r"
  by (auto simp: register_operation_callback_def intro: callback_step_final [OF step_register] split: option.split)

lemma cm_extends_process_update: "cm_extends m (cm_process_operation_update h cid u m)"
  by (simp add: cm_extends_def cm_process_operation_update_eq Let_def events_only_grow register_final)

lemma cm_extends_process_updates: "cm_extends m (process_updates h us m)"
proof -
  have "cm_extends m (fold (\<lambda>(n, u). cm_process_operation_update h (ho_uuid h n) u) xs m)" for xs
  proof (induction xs rule: rev_induct)
    case (snoc x xs)
    then show ?case by (cases x) (auto intro: cm_extends_trans cm_extends_process_update)
  qed simp
  then show ?thesis by (simp add: process_updates_def)
qed

lemma cm_extends_complete_callback: "cm_extends m (complete_callback_operation h i r e m)"
  by (auto simp: complete_callback_operation_def cm_extends_def split: option.split)

lemma cm_extends_answer: "cm_extends m (snd (answer_callback h i r m))"
proof -
  obtain q c where c: "(case r of Inr x \<Rightarrow> send_success i x | Inl e \<Rightarrow> send_failure i e) (cm_callback_manager m) = (q, c)"
    by fastforce
  have step: "callback_step (cm_callback_manager m) c"
    using c callback_step.step_success [of "cm_callback_manager m" i] callback_step.step_failure [of "cm_callback_manager m" i]
    by (auto split: sum.splits) (metis snd_conv)+
  then have "cm_extends m (m\<lparr>cm_callback_manager := c\<rparr>)"
    by (auto simp: cm_extends_def intro: callback_step_final)
  then show ?thesis
    using c cm_extends_trans [OF _ cm_extends_complete_callback] by (auto simp: answer_callback_def split: sum.split)
qed

lemma cm_extends_heartbeat: "cm_extends m (snd (heartbeat_callback h i m))"
proof -
  obtain q c where c: "send_heartbeat (ho_now h) i (cm_callback_manager m) = (q, c)" by fastforce
  then have "callback_step (cm_callback_manager m) c"
    using callback_step.step_heartbeat [of "cm_callback_manager m" "ho_now h" i] by simp
  then show ?thesis
    using c by (auto simp: heartbeat_callback_def cm_extends_def intro: callback_step_final)
qed

lemma cm_extends_step: "cm_step m m' \<Longrightarrow> cm_extends m m'"
proof (induction rule: cm_step.induct)
  case (cm_checkpoint m h us)
  have "cm_extends (process_updates h us m) (snd (process_checkpoint h us m))"
    by (simp add: process_checkpoint_def get_dirty_operations_def cm_extends_def)
  then show ?case by (rule cm_extends_trans [OF cm_extends_process_updates])
next
  case (cm_data op i m h)
  show ?case
    by (simp add: update_operation_data_def Let_def cm_extends_def events_only_grow split: option.split)
next
  case (cm_answer m h i r)
  show ?case by (rule cm_extends_answer)
next
  case (cm_heartbeat m h i)
  show ?case by (rule cm_extends_heartbeat)
qed (auto simp: cm_extends_def cm_start_invocation_def cm_complete_invocation_def
     cm_complete_execution_def Let_def events_only_grow split: option.split)


section \<open>What the client is told\<close>

lemma map_filter_ids:
  "\<forall>i \<in> set is. \<exists>e. f i = Some e \<and> g e = i \<Longrightarrow> map g (List.map_filter f is) = is"
  by (induction "is") (auto simp: List.map_filter_def)

lemma map_filter_mem: "x \<in> set (List.map_filter f is) \<longleftrightarrow> (\<exists>i \<in> set is. f i = Some x)"
  by (force simp: List.map_filter_def)

lemma cm_wf_listed:
  assumes "cm_wf m" "set is \<subseteq> set (cm_operation_order m)"
  shows "map op_id (map oe_operation (List.map_filter (get_operation_data m) is)) = is"
    and "\<And>op. op \<in> set (map oe_operation (List.map_filter (get_operation_data m) is)) \<Longrightarrow>
      cm_operation m (op_id op) = Some op \<and> op_id op \<in> set is"
proof -
  have get: "\<exists>e. get_operation_data m i = Some e \<and> op_id (oe_operation e) = i" if "i \<in> set is" for i
    using assms that by (fastforce simp: cm_wf_def)
  then show "map op_id (map oe_operation (List.map_filter (get_operation_data m) is)) = is"
    using map_filter_ids [of "is" "get_operation_data m" "\<lambda>e. op_id (oe_operation e)"] by (simp add: comp_def)
  show "cm_operation m (op_id op) = Some op \<and> op_id op \<in> set is"
    if "op \<in> set (map oe_operation (List.map_filter (get_operation_data m) is))" for op
  proof -
    from that obtain i e where ie: "i \<in> set is" "get_operation_data m i = Some e" "op = oe_operation e"
      by (auto simp: map_filter_mem)
    from get [OF ie(1)] ie(2,3) have "op_id op = i" by auto
    with ie show ?thesis unfolding cm_operation_def by simp
  qed
qed

lemma cm_get_state_ids: "cm_wf m \<Longrightarrow> map op_id (cm_get_state m) = cm_operation_order m"
  unfolding cm_get_state_def by (rule cm_wf_listed) simp_all

lemma cm_get_state_found: "cm_wf m \<Longrightarrow> op \<in> set (cm_get_state m) \<Longrightarrow> cm_operation m (op_id op) = Some op"
  unfolding cm_get_state_def using cm_wf_listed(2) by blast

lemma cm_get_state_mem:
  assumes "cm_wf m"
  shows "op \<in> set (cm_get_state m) \<longleftrightarrow> cm_operation m (op_id op) = Some op"
proof
  assume op: "cm_operation m (op_id op) = Some op"
  then have "get_operation_data m (op_id op) \<noteq> None" unfolding cm_operation_def by fastforce
  then have "op_id op \<in> set (cm_operation_order m)" using cm_wf_order_mem [OF assms] by blast
  then obtain op' where op': "op' \<in> set (cm_get_state m)" "op_id op' = op_id op"
    unfolding cm_get_state_ids [OF assms, symmetric] by fastforce
  from cm_get_state_found [OF assms op'(1)] op'(2) op have "op' = op" by simp
  with op'(1) show "op \<in> set (cm_get_state m)" by simp
qed (rule cm_get_state_found [OF assms])

text \<open>The specification of a checkpoint: the updates applied, one after the other, to a map of operations.\<close>

definition spec_updates ::
  "host \<Rightarrow> (nat \<times> operation_update) list \<Rightarrow> (string \<Rightarrow> operation option) \<Rightarrow> string \<Rightarrow> operation option" where
  "spec_updates h nus f = fold (\<lambda>(n, u) f. f(up_id u \<mapsto> updated_operation h (ho_uuid h n) u (f (up_id u)))) nus f"

lemma cm_operation_process_update:
  "cm_operation (cm_process_operation_update h cid u m) =
     (cm_operation m)(up_id u \<mapsto> updated_operation h cid u (cm_operation m (up_id u)))"
  by (rule ext) (simp add: cm_operation_def cm_process_operation_update_eq Let_def)

lemma dirty_process_update:
  "cm_dirty_operation_ids (cm_process_operation_update h cid u m) = hs_insert (up_id u) (cm_dirty_operation_ids m)"
  by (simp add: cm_process_operation_update_eq Let_def)

lemma process_updates_spec:
  "cm_operation (process_updates h us m) = spec_updates h (List.enumerate 0 us) (cm_operation m) \<and>
   set (cm_dirty_operation_ids (process_updates h us m)) = set (cm_dirty_operation_ids m) \<union> up_id ` set us"
proof -
  let ?f = "fold (\<lambda>(n, u). cm_process_operation_update h (ho_uuid h n) u)"
  have "cm_operation (?f xs m) = spec_updates h xs (cm_operation m) \<and>
      set (cm_dirty_operation_ids (?f xs m)) = set (cm_dirty_operation_ids m) \<union> up_id ` snd ` set xs" for xs
  proof (induction xs rule: rev_induct)
    case (snoc x xs)
    then show ?case
      by (cases x) (auto simp: spec_updates_def cm_operation_process_update dirty_process_update)
  qed (simp add: spec_updates_def)
  moreover have "snd ` set (List.enumerate 0 us) = set us"
    by (metis map_snd_enumerate set_map)
  ultimately show ?thesis by (simp add: process_updates_def)
qed

lemma process_checkpoint_spec:
  assumes "cm_wf m"
  shows "\<exists>ops m'. process_checkpoint h us m = (Inr ops, m') \<and>
     cm_operation m' = spec_updates h (List.enumerate 0 us) (cm_operation m) \<and>
     distinct (map op_id ops) \<and> op_id ` set ops = set (cm_dirty_operation_ids m) \<union> up_id ` set us \<and>
     (\<forall>op \<in> set ops. cm_operation m' (op_id op) = Some op) \<and> \<not> has_dirty_operations m'"
proof -
  let ?p = "process_updates h us m"
  let ?ops = "map oe_operation (List.map_filter (get_operation_data ?p) (cm_dirty_operation_ids ?p))"
  let ?m = "?p\<lparr>cm_dirty_operation_ids := []\<rparr>"
  have wf: "cm_wf ?p" using assms by (rule cm_wf_process_updates)
  then have d: "distinct (cm_dirty_operation_ids ?p)" "set (cm_dirty_operation_ids ?p) \<subseteq> set (cm_operation_order ?p)"
    by (simp_all add: cm_wf_def)
  have same: "cm_operation ?m = cm_operation ?p"
    by (simp add: cm_operation_def get_operation_data_def fun_eq_iff)
  have ids: "map op_id ?ops = cm_dirty_operation_ids ?p" by (rule cm_wf_listed(1) [OF wf d(2)])
  then have "op_id ` set ?ops = set (cm_dirty_operation_ids ?p)" by (metis set_map)
  moreover have "\<forall>op \<in> set ?ops. cm_operation ?m (op_id op) = Some op"
    using cm_wf_listed(2) [OF wf d(2)] same by simp
  moreover have "process_checkpoint h us m = (Inr ?ops, ?m)"
    by (simp add: process_checkpoint_def get_dirty_operations_def)
  moreover have "distinct (map op_id ?ops)" using ids d(1) by simp
  moreover have "\<not> has_dirty_operations ?m" by (simp add: has_dirty_operations_def)
  ultimately show ?thesis using process_updates_spec [of h us m] same by (intro exI conjI) auto
qed

text \<open>C4: A checkpoint on the server never fails and refines the map in which its updates are applied one after
  the other. The answer lists, once each, the operations of the updates and those changed since the last
  answer, in their new state, and nothing counts as changed afterwards.\<close>

theorem process_checkpoint_refines:
  assumes "cm_wf m"
  shows "\<exists>ops m'. process_checkpoint h us m = (Inr ops, m') \<and>
     cm_operation m' = spec_updates h (List.enumerate 0 us) (cm_operation m) \<and>
     distinct (map op_id ops) \<and> op_id ` set ops = set (cm_dirty_operation_ids m) \<union> up_id ` set us \<and>
     (\<forall>op \<in> set ops. cm_operation m' (op_id op) = Some op) \<and> \<not> has_dirty_operations m'"
  using assms by (rule process_checkpoint_spec)

section \<open>The server stores operations\<close>

lemma cm_operation_update_data:
  "cm_operation (update_operation_data h i op m) j = (if j = i then Some op else cm_operation m j)"
  by (simp add: cm_operation_def update_operation_data_def Let_def get_operation_data_def hm_get_insert
      split: option.split)

interpretation cm_store: op_store cm_operation "\<lambda>op. update_operation_data h (op_id op) op" cm_wf for h
  by unfold_locales (simp_all add: cm_operation_update_data cm_wf_update_data)

section \<open>Client and server agree\<close>

lemma get_result_created:
  "up_action u \<in> {Start, Succeed, Fail, Cancel} \<Longrightarrow> up_step_options u = None \<Longrightarrow> up_type u \<noteq> CallbackOp \<Longrightarrow>
   get_result (create_operation_from_update cid now u) = up_result u"
  by (subst get_result_no_details)
     (auto simp: create_operation_from_update_def created_step_details_def)

lemma cache_agrees:
  assumes "up_type u \<noteq> CallbackOp" "up_step_options u = None"
    and "up_action u \<in> {Start, Cancel} \<longrightarrow> up_result u = None \<and> up_error u = None"
    and "up_action u = Succeed \<longrightarrow> up_error u = None" "up_action u = Fail \<longrightarrow> up_result u = None"
    and "up_action u \<noteq> Retry"
  shows "operation_core (cached_operation u None) = operation_core (updated_operation h cid u None)"
proof -
  have cr: "get_result (updated_operation h cid u None) = up_result u"
    using assms get_result_created [of u cid "ho_now h"]
    by (cases "up_action u") (simp_all add: updated_operation_def)
  have ca: "get_result (cached_operation u None) = up_result u"
    using assms by (subst get_result_no_details; cases "up_action u") (simp_all add: cached_operation_def)
  show ?thesis
    using assms cr ca
    by (cases "up_action u")
       (simp_all add: operation_core_def cached_operation_def updated_operation_def create_operation_from_update_def)
qed

lemma cache_agrees_open:
  assumes "up_action u \<in> {Succeed, Fail, Cancel}" "op_result op = None" "op_error op = None"
    and "up_action u = Cancel \<longrightarrow> up_result u = None \<and> up_error u = None"
    and "up_action u = Succeed \<longrightarrow> up_error u = None" "up_action u = Fail \<longrightarrow> up_result u = None"
  shows "operation_core (cached_operation u (Some op)) = operation_core (updated_operation h cid u (Some op))"
proof -
  have result: "get_result (op\<lparr>op_status := st, op_end_timestamp := e, op_result := r\<rparr>) = get_result (op\<lparr>op_result := r\<rparr>)"
    "get_result (op\<lparr>op_status := st, op_result := r\<rparr>) = get_result (op\<lparr>op_result := r\<rparr>)"
    "get_result (op\<lparr>op_status := st, op_end_timestamp := e, op_error := x\<rparr>) = get_result op"
    "get_result (op\<lparr>op_status := st, op_end_timestamp := e\<rparr>) = get_result op"
    "get_result (op\<lparr>op_status := st, op_error := x\<rparr>) = get_result op"
    "get_result (op\<lparr>op_status := st\<rparr>) = get_result op" for st e r x
    by (simp_all add: get_result_def split: operation_type.split)
  have none: "op\<lparr>op_result := None\<rparr> = op" using assms(2) by (cases op) simp
  consider "up_action u = Succeed" | "up_action u = Fail" | "up_action u = Cancel" using assms(1) by blast
  then show ?thesis
  proof cases
    case 1
    moreover have "get_result (op\<lparr>op_result := None\<rparr>) = get_result op" by (simp only: none)
    ultimately show ?thesis using assms(2,3,5)
      by (simp add: operation_core_def cached_operation_def updated_operation_def merge_operation_update_def Let_def
          ends_operation_def result)
  next
    case 2
    then show ?thesis using assms(2,3,6)
      by (simp add: operation_core_def cached_operation_def updated_operation_def merge_operation_update_def Let_def
          ends_operation_def result)
  next
    case 3
    then show ?thesis using assms(2,3,4)
      by (simp add: operation_core_def cached_operation_def updated_operation_def merge_operation_update_def Let_def
          ends_operation_def result)
  qed
qed


section \<open>Examples\<close>

text \<open>A host whose token text is the three fields, each character escaped and each field terminated.\<close>

fun escape_field :: "string \<Rightarrow> string" where
  "escape_field [] = ''.''"
| "escape_field (x # xs) = CHR ''-'' # x # escape_field xs"

fun read_field :: "string \<Rightarrow> (string \<times> string) option" where
  "read_field (x # y # xs) =
     (if x = CHR ''.'' then Some ([], y # xs)
      else map_option (\<lambda>(f, rest). (y # f, rest)) (read_field xs))"
| "read_field [x] = (if x = CHR ''.'' then Some ([], []) else None)"
| "read_field [] = None"

definition example_encode :: "token_data \<Rightarrow> string" where
  "example_encode d = escape_field (td_execution_id d) @ escape_field (td_token d) @ escape_field (td_invocation_id d)"

definition example_decode :: "string \<Rightarrow> test_error + token_data" where
  "example_decode s = (case read_field s of
     Some (a, s1) \<Rightarrow> (case read_field s1 of
         Some (b, s2) \<Rightarrow> (case read_field s2 of
             Some (c, []) \<Rightarrow> Inr \<lparr>td_execution_id = a, td_token = b, td_invocation_id = c\<rparr>
           | _ \<Rightarrow> Inl (InvalidCheckpointToken ''third field''))
       | None \<Rightarrow> Inl (InvalidCheckpointToken ''second field''))
   | None \<Rightarrow> Inl (InvalidCheckpointToken ''first field''))"

lemma read_escaped: "read_field (escape_field f @ rest) = Some (f, rest)"
proof (induction f)
  case Nil
  show ?case by (cases rest) simp_all
next
  case (Cons x f)
  then show ?case by simp
qed

lemma example_token_roundtrip: "example_decode (example_encode d) = Inr d"
  using read_escaped [of "td_invocation_id d" "[]"] by (simp add: example_decode_def example_encode_def read_escaped)

definition example_host :: host where
  "example_host = \<lparr>ho_now = 0, ho_uuid = (\<lambda>n. CHR ''u'' # show_nat n), ho_error_json = eo_message,
     ho_encode_token = example_encode, ho_decode_token = example_decode\<rparr>"

definition example_manager :: checkpoint_manager where
  "example_manager = snd (cm_initialize example_host ''null'' (checkpoint_manager_new ''e''))"

lemma example_manager_wf: "cm_wf example_manager"
  unfolding example_manager_def by (rule cm_wf_initialize)

theorem checkpoint_manager_invariant_witness:
  "cm_wf (snd (process_checkpoint example_host [update_start ''s'' StepOp] example_manager))"
proof -
  have "cm_step example_manager (snd (process_checkpoint example_host [update_start ''s'' StepOp] example_manager))"
    by (rule cm_checkpoint)
  then show ?thesis
    by (intro checkpoint_manager_invariant) (auto simp: cm_reachable_def example_manager_def intro: r_into_rtranclp)
qed


theorem process_checkpoint_refines_witness:
  "\<exists>ops m'. process_checkpoint example_host [update_start ''s'' StepOp] example_manager = (Inr ops, m') \<and>
     ''s'' \<in> op_id ` set ops \<and> \<not> has_dirty_operations m'"
  using process_checkpoint_refines [OF example_manager_wf, of example_host "[update_start ''s'' StepOp]"]
  by (auto simp: update_start_def)


end
