(* ===== verification/Checkpoint_Server.thy ===== *)
theory Checkpoint_Server
  imports Checkpoint_Manager_Facts
begin

text \<open>
  The checkpoint server of the testing crate: the executions of \<open>execution_manager.rs\<close>, the worker of
  \<open>worker_manager.rs\<close> that answers one command at a time, and its use as a service client of the SDK. Requests
  and answers are values: the JSON text in which they travel between the threads, and its failures, are
  left out, and so is the loss of the worker thread. The token codec of \<open>checkpoint_token.rs\<close> (JSON in
  base64) is part of the host.
\<close>

section \<open>Executions\<close>

type_synonym execution_manager = "(string \<times> checkpoint_manager) list"

record invocation_result =
  ir_checkpoint_token :: string
  ir_execution_id :: string
  ir_invocation_id :: string
  ir_operation_events :: "operation_events list"

definition invocation_token :: "host \<Rightarrow> string \<Rightarrow> string \<Rightarrow> string" where
  "invocation_token h e i =
     ho_encode_token h \<lparr>td_execution_id = e, td_token = ho_uuid h 2, td_invocation_id = i\<rparr>"

definition start_execution ::
  "host \<Rightarrow> string \<Rightarrow> string \<Rightarrow> string option \<Rightarrow> execution_manager \<Rightarrow> invocation_result \<times> execution_manager" where
  "start_execution h e i payload m =
     (case cm_initialize h (case payload of Some p \<Rightarrow> p | None \<Rightarrow> ''{}'') (checkpoint_manager_new e) of
        (ev, cm) \<Rightarrow>
          (\<lparr>ir_checkpoint_token = invocation_token h e i, ir_execution_id = e, ir_invocation_id = i,
            ir_operation_events = [ev]\<rparr>,
           hm_insert e (snd (cm_start_invocation h i cm)) m))"

definition start_execution_from_request ::
  "host \<Rightarrow> string option \<Rightarrow> string \<Rightarrow> execution_manager \<Rightarrow> invocation_result \<times> execution_manager" where
  "start_execution_from_request h payload i m = start_execution h (ho_uuid h 1) i payload m"

definition em_start_invocation ::
  "host \<Rightarrow> string \<Rightarrow> string \<Rightarrow> (execution_manager, test_error, invocation_result) cmd" where
  "em_start_invocation h e i m = (case hm_get m e of
     None \<Rightarrow> (Inl (ExecutionNotFound e), m)
   | Some cm \<Rightarrow>
       if cm_is_execution_completed cm
       then (Inl (ExecutionNotFound (''Execution '' @ e @ '' is already completed'')), m)
       else (case cm_start_invocation h i cm of
          (evs, cm1) \<Rightarrow>
            (Inr \<lparr>ir_checkpoint_token = invocation_token h e i, ir_execution_id = e, ir_invocation_id = i,
                  ir_operation_events = evs\<rparr>,
             hm_insert e cm1 m)))"

definition error_json :: "error_object option \<Rightarrow> json_value" where
  "error_json e = (case e of Some x \<Rightarrow> JError x | None \<Rightarrow> JNull)"

definition em_complete_invocation ::
  "host \<Rightarrow> string \<Rightarrow> string \<Rightarrow> error_object option \<Rightarrow> (execution_manager, test_error, history_event \<times> bool) cmd" where
  "em_complete_invocation h e i error m = (case hm_get m e of
     None \<Rightarrow> (Inl (ExecutionNotFound e), m)
   | Some cm \<Rightarrow> (case cm_complete_invocation h i cm of
       (Inl err, cm1) \<Rightarrow> (Inl err, hm_insert e cm1 m)
     | (Inr (start, finish), cm1) \<Rightarrow>
         (Inr (\<lparr>he_id = ep_event_counter (cm_event_processor cm1) + 1, he_event_type = InvocationCompletedEvent,
                he_timestamp = finish, he_operation_id = None, he_details_type = ''InvocationCompletedDetails'',
                he_details = JObject [(''start_timestamp'', JTime start), (''end_timestamp'', JTime finish),
                  (''error'', error_json error), (''request_id'', JString i)]\<rparr>,
              has_dirty_operations cm1),
          hm_insert e cm1 m)))"

definition execution_of_token :: "host \<Rightarrow> string \<Rightarrow> execution_manager \<Rightarrow> test_error + string option" where
  "execution_of_token h token m = (case ho_decode_token h token of
     Inl e \<Rightarrow> Inl e
   | Inr d \<Rightarrow> Inr (if hm_get m (td_execution_id d) = None then None else Some (td_execution_id d)))"

section \<open>The worker\<close>

datatype api_request =
    StartDurableExecution "string option" string
  | StartInvocation string string
  | CompleteInvocation string string "error_object option"
  | UpdateCheckpointData string string operation
  | PollCheckpointData string
  | GetDurableExecutionState string
  | CheckpointDurableExecutionState string string "operation_update list"
  | SendDurableExecutionCallbackSuccess string string
  | SendDurableExecutionCallbackFailure string error_object
  | SendDurableExecutionCallbackHeartbeat string
  | GetNodeJsHistoryEvents string
  | CompleteExecution string "string option" "error_object option"

datatype api_payload =
    InvocationPayload invocation_result
  | CompletionPayload history_event bool
  | CheckpointPayload checkpoint_response
  | OperationsPayload get_operations_response
  | EventsPayload "nodejs_event list"
  | EmptyPayload

text \<open>An answer is the text of an error or a payload.\<close>

type_synonym worker_answer = "(execution_manager, string, api_payload) cmd"

definition answer_of :: "('a \<Rightarrow> api_payload) \<Rightarrow> test_error + 'a \<Rightarrow> string + api_payload" where
  "answer_of f r = map_sum display_test_error f r"

definition handle_start_execution :: "host \<Rightarrow> string option \<Rightarrow> string \<Rightarrow> worker_answer" where
  "handle_start_execution h payload i m =
     (case start_execution_from_request h payload i m of (r, m1) \<Rightarrow> (Inr (InvocationPayload r), m1))"

definition handle_start_invocation :: "host \<Rightarrow> string \<Rightarrow> string \<Rightarrow> worker_answer" where
  "handle_start_invocation h e i m =
     (case em_start_invocation h e i m of (r, m1) \<Rightarrow> (answer_of InvocationPayload r, m1))"

definition handle_complete_invocation :: "host \<Rightarrow> string \<Rightarrow> string \<Rightarrow> error_object option \<Rightarrow> worker_answer" where
  "handle_complete_invocation h e i error m =
     (case em_complete_invocation h e i error m of
        (r, m1) \<Rightarrow> (answer_of (\<lambda>(ev, dirty). CompletionPayload ev dirty) r, m1))"

definition handle_checkpoint :: "host \<Rightarrow> string \<Rightarrow> operation_update list \<Rightarrow> worker_answer" where
  "handle_checkpoint h token us m = (case execution_of_token h token m of
     Inl err \<Rightarrow> (Inl (''Invalid checkpoint token: '' @ display_test_error err), m)
   | Inr None \<Rightarrow> (Inl ''Execution not found for checkpoint token'', m)
   | Inr (Some e) \<Rightarrow> (case hm_get m e of
       None \<Rightarrow> (Inl ''Execution not found for checkpoint token'', m)
     | Some cm \<Rightarrow> (case process_checkpoint h us cm of
         (Inl err, cm1) \<Rightarrow> (Inl (''Checkpoint processing failed: '' @ display_test_error err), hm_insert e cm1 m)
       | (Inr ops, cm1) \<Rightarrow>
           (Inr (CheckpointPayload \<lparr>rsp_checkpoint_token = token,
              rsp_new_execution_state = Some \<lparr>nes_operations = ops, nes_next_marker = None\<rparr>\<rparr>),
            hm_insert e cm1 m))))"

definition handle_get_state :: "string \<Rightarrow> worker_answer" where
  "handle_get_state e m = (case hm_get m e of
     Some cm \<Rightarrow> (Inr (OperationsPayload \<lparr>gor_operations = cm_get_state cm, gor_next_marker = None\<rparr>), m)
   | None \<Rightarrow> (Inl (''Execution not found: '' @ e), m))"

text \<open>The three callback requests go to the first execution that knows the callback.\<close>

definition handle_callback ::
  "string \<Rightarrow> (checkpoint_manager, test_error, unit) cmd \<Rightarrow> worker_answer" where
  "handle_callback i f m =
     (case find (\<lambda>(e, cm). get_callback_state (cm_callback_manager cm) i \<noteq> None) m of
        None \<Rightarrow> (Inl (''Callback not found: '' @ i), m)
      | Some (e, cm) \<Rightarrow> (case f cm of (r, cm1) \<Rightarrow> (answer_of (\<lambda>_. EmptyPayload) r, hm_insert e cm1 m)))"

definition handle_callback_success :: "host \<Rightarrow> string \<Rightarrow> string \<Rightarrow> worker_answer" where
  "handle_callback_success h i result = handle_callback i (answer_callback h i (Inr result))"

definition handle_callback_failure :: "host \<Rightarrow> string \<Rightarrow> error_object \<Rightarrow> worker_answer" where
  "handle_callback_failure h i e = handle_callback i (answer_callback h i (Inl e))"

definition handle_callback_heartbeat :: "host \<Rightarrow> string \<Rightarrow> worker_answer" where
  "handle_callback_heartbeat h i = handle_callback i (heartbeat_callback h i)"

text \<open>The remaining requests act on the execution they name.\<close>

definition with_execution ::
  "string \<Rightarrow> (checkpoint_manager \<Rightarrow> api_payload \<times> checkpoint_manager) \<Rightarrow> worker_answer" where
  "with_execution e f m = (case hm_get m e of
     None \<Rightarrow> (Inl (''Execution not found: '' @ e), m)
   | Some cm \<Rightarrow> (case f cm of (p, cm1) \<Rightarrow> (Inr p, hm_insert e cm1 m)))"

definition handle_update_checkpoint_data :: "host \<Rightarrow> string \<Rightarrow> string \<Rightarrow> operation \<Rightarrow> worker_answer" where
  "handle_update_checkpoint_data h e i op =
     with_execution e (\<lambda>cm. (EmptyPayload, update_operation_data h i op cm))"

definition handle_get_nodejs_history_events :: "string \<Rightarrow> worker_answer" where
  "handle_get_nodejs_history_events e =
     with_execution e (\<lambda>cm. (EventsPayload (ep_nodejs_events (cm_event_processor cm)), cm))"

definition handle_complete_execution ::
  "host \<Rightarrow> string \<Rightarrow> string option \<Rightarrow> error_object option \<Rightarrow> worker_answer" where
  "handle_complete_execution h e result error =
     with_execution e (\<lambda>cm. (EmptyPayload, cm_complete_execution h result error cm))"

primrec process_command :: "host \<Rightarrow> api_request \<Rightarrow> worker_answer" where
  "process_command h (StartDurableExecution payload i) = handle_start_execution h payload i"
| "process_command h (StartInvocation e i) = handle_start_invocation h e i"
| "process_command h (CompleteInvocation e i error) = handle_complete_invocation h e i error"
| "process_command h (UpdateCheckpointData e i op) = handle_update_checkpoint_data h e i op"
| "process_command h (PollCheckpointData e) = (\<lambda>m. (Inl ''Unsupported API type: PollCheckpointData'', m))"
| "process_command h (GetDurableExecutionState e) = handle_get_state e"
| "process_command h (CheckpointDurableExecutionState arn token us) = handle_checkpoint h token us"
| "process_command h (SendDurableExecutionCallbackSuccess i r) = handle_callback_success h i r"
| "process_command h (SendDurableExecutionCallbackFailure i e) = handle_callback_failure h i e"
| "process_command h (SendDurableExecutionCallbackHeartbeat i) = handle_callback_heartbeat h i"
| "process_command h (GetNodeJsHistoryEvents e) = handle_get_nodejs_history_events e"
| "process_command h (CompleteExecution e r err) = handle_complete_execution h e r err"

section \<open>The client\<close>

text \<open>The server as part of a world: its executions, and the number of the commands so far, which selects the
  host of the next one.\<close>

record server =
  srv_executions :: execution_manager
  srv_commands :: nat

definition send_api_request ::
  "(nat \<Rightarrow> host) \<Rightarrow> api_request \<Rightarrow> server \<Rightarrow> (string + api_payload) \<times> server" where
  "send_api_request hosts req s =
     (case process_command (hosts (srv_commands s)) req (srv_executions s) of
        (r, m) \<Rightarrow> (r, \<lparr>srv_executions = m, srv_commands = Suc (srv_commands s)\<rparr>))"

definition unexpected_response :: durable_error where
  "unexpected_response = err_validation ''Failed to parse response: unexpected payload''"

definition client_checkpoint ::
  "(nat \<Rightarrow> host) \<Rightarrow> string \<Rightarrow> string \<Rightarrow> operation_update list \<Rightarrow> (server, durable_error, checkpoint_response) cmd" where
  "client_checkpoint hosts arn token us s =
     (case send_api_request hosts (CheckpointDurableExecutionState arn token us) s of
        (Inl e, s1) \<Rightarrow> (Inl (err_checkpoint_retriable e), s1)
      | (Inr (CheckpointPayload r), s1) \<Rightarrow> (Inr r, s1)
      | (Inr _, s1) \<Rightarrow> (Inl unexpected_response, s1))"

definition client_get_operations ::
  "(nat \<Rightarrow> host) \<Rightarrow> string \<Rightarrow> string \<Rightarrow> (server, durable_error, get_operations_response) cmd" where
  "client_get_operations hosts arn marker s =
     (case send_api_request hosts (GetDurableExecutionState arn) s of
        (Inl e, s1) \<Rightarrow> (Inl (err_checkpoint_retriable e), s1)
      | (Inr (OperationsPayload r), s1) \<Rightarrow> (Inr r, s1)
      | (Inr _, s1) \<Rightarrow> (Inl unexpected_response, s1))"

definition client_send_callback ::
  "(nat \<Rightarrow> host) \<Rightarrow> api_request \<Rightarrow> (server, durable_error, unit) cmd" where
  "client_send_callback hosts req s = (case send_api_request hosts req s of
     (Inl e, s1) \<Rightarrow> (Inl (err_execution e), s1) | (Inr _, s1) \<Rightarrow> (Inr (), s1))"

definition send_callback_success :: "(nat \<Rightarrow> host) \<Rightarrow> string \<Rightarrow> string \<Rightarrow> (server, durable_error, unit) cmd" where
  "send_callback_success hosts i r = client_send_callback hosts (SendDurableExecutionCallbackSuccess i r)"

definition send_callback_failure :: "(nat \<Rightarrow> host) \<Rightarrow> string \<Rightarrow> error_object \<Rightarrow> (server, durable_error, unit) cmd" where
  "send_callback_failure hosts i e = client_send_callback hosts (SendDurableExecutionCallbackFailure i e)"

definition send_callback_heartbeat :: "(nat \<Rightarrow> host) \<Rightarrow> string \<Rightarrow> (server, durable_error, unit) cmd" where
  "send_callback_heartbeat hosts i = client_send_callback hosts (SendDurableExecutionCallbackHeartbeat i)"

definition get_nodejs_history_events ::
  "(nat \<Rightarrow> host) \<Rightarrow> string \<Rightarrow> (server, durable_error, nodejs_event list) cmd" where
  "get_nodejs_history_events hosts e s =
     (case send_api_request hosts (GetNodeJsHistoryEvents e) s of
        (Inl err, s1) \<Rightarrow> (Inl (err_checkpoint_retriable err), s1)
      | (Inr (EventsPayload evs), s1) \<Rightarrow> (Inr evs, s1)
      | (Inr _, s1) \<Rightarrow> (Inl unexpected_response, s1))"

text \<open>The services of an SDK whose client is the server: the world of the user beside the server. Its
  execution states have no batcher.\<close>

definition on_server :: "(server \<Rightarrow> 'r \<times> server) \<Rightarrow> 'u \<times> server \<Rightarrow> 'r \<times> ('u \<times> server)" where
  "on_server f w = (case f (snd w) of (r, s) \<Rightarrow> (r, (fst w, s)))"

definition server_services :: "(nat \<Rightarrow> host) \<Rightarrow> ('u \<times> server) services" where
  "server_services hosts =
     \<lparr>sv_checkpoint = (\<lambda>arn token us. on_server (client_checkpoint hosts arn token us)),
      sv_get_operations = (\<lambda>arn marker. on_server (client_get_operations hosts arn marker)),
      sv_sleep = (\<lambda>ms w. w),
      sv_send = (\<lambda>u sync token w. (Inl (err_checkpoint_retriable ''no batcher''), token, w))\<rparr>"

end
