(* ===== verification/Context_Ids.thy ===== *)
theory Context_Ids
  imports Operations
begin

text \<open>
  The identifiers of \<open>sdk/src/context.rs\<close>: what an operation is called, how its identifier, parent
  and name are put on an update, the generator that derives identifiers from a base and a counter,
  and the decision of the replay-aware logger. The \<open>blake2\<close> hash is a parameter; the SDK relies on
  it having no collisions on the messages an execution hashes.
\<close>

section \<open>Identifiers\<close>

record operation_identifier =
  oi_operation_id :: string
  oi_parent_id :: "string option"
  oi_name :: "string option"

definition identifier_new :: "string \<Rightarrow> string option \<Rightarrow> string option \<Rightarrow> operation_identifier" where
  "identifier_new i p n = \<lparr>oi_operation_id = i, oi_parent_id = p, oi_name = n\<rparr>"

definition identifier_root :: "string \<Rightarrow> operation_identifier" where
  "identifier_root i = \<lparr>oi_operation_id = i, oi_parent_id = None, oi_name = None\<rparr>"

definition identifier_with_parent :: "string \<Rightarrow> string \<Rightarrow> operation_identifier" where
  "identifier_with_parent i p = \<lparr>oi_operation_id = i, oi_parent_id = Some p, oi_name = None\<rparr>"

definition identifier_with_name :: "string \<Rightarrow> operation_identifier \<Rightarrow> operation_identifier" where
  "identifier_with_name n oi = oi\<lparr>oi_name := Some n\<rparr>"

definition apply_to :: "operation_identifier \<Rightarrow> operation_update \<Rightarrow> operation_update" where
  "apply_to oi update =
     (let update = (case oi_parent_id oi of Some p \<Rightarrow> with_parent_id p update | None \<Rightarrow> update);
          update = (case oi_name oi of Some n \<Rightarrow> with_name n update | None \<Rightarrow> update)
      in update)"

definition display_identifier :: "operation_identifier \<Rightarrow> string" where
  "display_identifier oi = (case oi_name oi of
     Some n \<Rightarrow> n @ ''('' @ oi_operation_id oi @ '')'' | None \<Rightarrow> oi_operation_id oi)"

lemma apply_to_sel [simp]:
  "up_id (apply_to oi u) = up_id u" "up_action (apply_to oi u) = up_action u"
  "up_type (apply_to oi u) = up_type u" "up_result (apply_to oi u) = up_result u"
  "up_error (apply_to oi u) = up_error u" "up_step_options (apply_to oi u) = up_step_options u"
  "up_wait_options (apply_to oi u) = up_wait_options u"
  "up_sub_type (apply_to oi u) = up_sub_type u"
  "up_callback_options (apply_to oi u) = up_callback_options u"
  "up_chained_invoke_options (apply_to oi u) = up_chained_invoke_options u"
  "up_context_options (apply_to oi u) = up_context_options u"
  "up_parent_id (apply_to oi u) = (case oi_parent_id oi of Some p \<Rightarrow> Some p | None \<Rightarrow> up_parent_id u)"
  "up_name (apply_to oi u) = (case oi_name oi of Some n \<Rightarrow> Some n | None \<Rightarrow> up_name u)"
  by (simp_all add: apply_to_def Let_def def_simps split: option.split)

section \<open>The generator\<close>

record id_generator =
  ig_base_id :: string
  ig_step_counter :: u64

definition generator_new :: "string \<Rightarrow> id_generator" where
  "generator_new base = \<lparr>ig_base_id = base, ig_step_counter = 0\<rparr>"

definition generator_with_counter :: "string \<Rightarrow> u64 \<Rightarrow> id_generator" where
  "generator_with_counter base c = \<lparr>ig_base_id = base, ig_step_counter = c\<rparr>"

definition le_bytes_u64 :: "u64 \<Rightarrow> u8 list" where
  "le_bytes_u64 w = map (\<lambda>k. of_nat (unat w div 256 ^ k)) [0..<8]"

definition hex_digit :: "nat \<Rightarrow> char" where
  "hex_digit n = (if n < 10 then char_of (48 + n) else char_of (87 + n))"

fun hex_encode :: "u8 list \<Rightarrow> string" where
  "hex_encode [] = []"
| "hex_encode (b # bs) = hex_digit (unat b div 16) # hex_digit (unat b mod 16) # hex_encode bs"

definition id_message :: "string \<Rightarrow> u64 \<Rightarrow> u8 list" where
  "id_message base counter = map of_char base @ le_bytes_u64 counter"

definition generate_operation_id :: "(u8 list \<Rightarrow> u8 list) \<Rightarrow> string \<Rightarrow> u64 \<Rightarrow> string" where
  "generate_operation_id blake2b base counter = hex_encode (take 16 (blake2b (id_message base counter)))"

definition next_id :: "(u8 list \<Rightarrow> u8 list) \<Rightarrow> id_generator \<Rightarrow> string \<times> id_generator" where
  "next_id blake2b g =
     (generate_operation_id blake2b (ig_base_id g) (ig_step_counter g),
      g\<lparr>ig_step_counter := ig_step_counter g + 1\<rparr>)"

definition create_child :: "string \<Rightarrow> id_generator \<Rightarrow> id_generator" where
  "create_child parent_operation_id g = generator_new parent_operation_id"

definition id_for_counter :: "(u8 list \<Rightarrow> u8 list) \<Rightarrow> id_generator \<Rightarrow> u64 \<Rightarrow> string" where
  "id_for_counter blake2b g counter = generate_operation_id blake2b (ig_base_id g) counter"

definition current_counter :: "id_generator \<Rightarrow> u64" where
  "current_counter g = ig_step_counter g"

definition generator_clone :: "id_generator \<Rightarrow> id_generator" where
  "generator_clone g = \<lparr>ig_base_id = ig_base_id g, ig_step_counter = current_counter g\<rparr>"

lemma next_id_for_counter: "fst (next_id blake2b g) = id_for_counter blake2b g (current_counter g)"
  by (simp add: next_id_def id_for_counter_def current_counter_def)

text \<open>A clone continues from the counter of the original, so both give the same identifiers from then on.\<close>

lemma generator_clone_same: "next_id blake2b (generator_clone g) = next_id blake2b g"
  by (cases g) (simp add: generator_clone_def current_counter_def)

fun next_ids :: "(u8 list \<Rightarrow> u8 list) \<Rightarrow> nat \<Rightarrow> id_generator \<Rightarrow> string list \<times> id_generator" where
  "next_ids blake2b 0 g = ([], g)"
| "next_ids blake2b (Suc n) g =
     (let (i, g1) = next_id blake2b g; (is, g2) = next_ids blake2b n g1 in (i # is, g2))"

section \<open>The replay-aware logger\<close>

datatype replay_logging_config = SuppressAll | AllowAll | ErrorsOnly | WarningsAndErrors

datatype log_level = Debug | Info | Warn | Error

definition should_suppress :: "replay_logging_config \<Rightarrow> bool \<Rightarrow> log_level \<Rightarrow> bool" where
  "should_suppress cfg info_is_replay level =
     (if \<not> info_is_replay then False
      else (case cfg of
          SuppressAll \<Rightarrow> True
        | AllowAll \<Rightarrow> False
        | ErrorsOnly \<Rightarrow> level \<noteq> Error
        | WarningsAndErrors \<Rightarrow> level \<noteq> Error \<and> level \<noteq> Warn))"

section \<open>Messages and their encodings determine their input\<close>

lemma le_bytes_u64_length [simp]: "length (le_bytes_u64 w) = 8"
  by (simp add: le_bytes_u64_def)

lemma le_bytes_sum:
  "n = (\<Sum>k<m. (n div 256 ^ k mod 256) * 256 ^ k) + (n div 256 ^ m) * 256 ^ m" for n :: nat
proof (induction m)
  case (Suc m)
  define q where "q = n div 256 ^ m"
  have next_q: "n div 256 ^ Suc m = q div 256"
    unfolding q_def by (metis div_mult2_eq power_Suc2)
  have "q * 256 ^ m = (q mod 256 + q div 256 * 256) * 256 ^ m" by simp
  then have "q * 256 ^ m = (q mod 256) * 256 ^ m + (q div 256) * 256 ^ Suc m"
    by (simp only: add_mult_distrib power_Suc mult.assoc)
  then have "n div 256 ^ m * 256 ^ m =
      (n div 256 ^ m mod 256) * 256 ^ m + (n div 256 ^ Suc m) * 256 ^ Suc m"
    unfolding next_q by (simp only: q_def)
  with Suc show ?case by simp
qed simp

lemma le_bytes_u64_inj: "le_bytes_u64 a = le_bytes_u64 b \<Longrightarrow> a = b"
proof -
  assume eq: "le_bytes_u64 a = le_bytes_u64 b"
  have byte: "unat a div 256 ^ k mod 256 = unat b div 256 ^ k mod 256" if "k < 8" for k
  proof -
    have "le_bytes_u64 a ! k = le_bytes_u64 b ! k" by (simp add: eq)
    then have "unat (of_nat (unat a div 256 ^ k) :: u8) = unat (of_nat (unat b div 256 ^ k) :: u8)"
      using that by (simp add: le_bytes_u64_def)
    then show ?thesis by (simp add: unat_of_nat)
  qed
  have sum: "unat w = (\<Sum>k<8. (unat w div 256 ^ k mod 256) * 256 ^ k)" for w :: u64
    using le_bytes_sum [of "unat w" 8] unsigned_less [of w, where ?'a = nat] by simp
  have "unat a = (\<Sum>k<8. (unat a div 256 ^ k mod 256) * 256 ^ k)" by (rule sum)
  also have "\<dots> = (\<Sum>k<8. (unat b div 256 ^ k mod 256) * 256 ^ k)"
    by (intro sum.cong) (simp_all add: byte)
  also have "\<dots> = unat b" by (rule sum [symmetric])
  finally show ?thesis by (rule unsigned_word_eqI)
qed

lemma of_char_inj: "(of_char c :: u8) = of_char d \<Longrightarrow> c = d"
proof -
  assume "(of_char c :: u8) = of_char d"
  then have "unat (of_nat (of_char c) :: u8) = unat (of_nat (of_char d) :: u8)"
    by (simp only: of_nat_of_char)
  moreover have "of_char c < (256 :: nat)" "of_char d < (256 :: nat)" by (rule nat_of_char_less_256)+
  ultimately have "(of_char c :: nat) = of_char d" by (simp add: unat_of_nat)
  then show "c = d" by simp
qed

lemma id_message_inj: "id_message a m = id_message b n \<Longrightarrow> a = b \<and> m = n"
  unfolding id_message_def
  by (auto simp: append_eq_append_conv dest: le_bytes_u64_inj
      dest!: map_injective [OF _ inj_onI [of UNIV of_char, OF of_char_inj]])

lemma hex_digit_inj: "a < 16 \<Longrightarrow> b < 16 \<Longrightarrow> hex_digit a = hex_digit b \<Longrightarrow> a = b"
proof -
  assume ab: "a < 16" "b < 16" and eq: "hex_digit a = hex_digit b"
  define f where "f = (\<lambda>n::nat. if n < 10 then 48 + n else 87 + n)"
  have "hex_digit n = char_of (f n)" for n by (simp add: hex_digit_def f_def)
  with eq have "of_char (char_of (f a) :: char) = (of_char (char_of (f b) :: char) :: nat)" by simp
  moreover have "f a < 256" "f b < 256" using ab by (simp_all add: f_def)
  ultimately have "f a = f b" by simp
  with ab show "a = b" by (auto simp: f_def split: if_splits)
qed

lemma hex_encode_length: "length (hex_encode bs) = 2 * length bs"
  by (induction bs) simp_all

lemma byte_halves: "unat (b :: u8) div 16 < 16"
  using unsigned_less [of b, where ?'a = nat] by simp

lemma hex_encode_inj: "hex_encode as = hex_encode bs \<Longrightarrow> as = bs"
proof (induction as arbitrary: bs)
  case Nil
  then show ?case by (cases bs) simp_all
next
  case (Cons a as)
  then obtain b bs' where bs: "bs = b # bs'" by (cases bs) simp_all
  with Cons.prems have "unat a div 16 = unat b div 16" "unat a mod 16 = unat b mod 16"
    "hex_encode as = hex_encode bs'"
    using hex_digit_inj byte_halves by auto
  moreover from this have "a = b" by (metis mult_div_mod_eq unsigned_word_eqI)
  ultimately show ?case using bs Cons.IH by simp
qed

section \<open>Uniqueness\<close>

text \<open>No two of a set of identifiers to be generated collide in the first sixteen bytes of the hash.\<close>

definition collision_free :: "(u8 list \<Rightarrow> u8 list) \<Rightarrow> (string \<times> u64) set \<Rightarrow> bool" where
  "collision_free blake2b S \<longleftrightarrow> inj_on (\<lambda>m. take 16 (blake2b m)) ((\<lambda>(b, c). id_message b c) ` S)"

lemma generate_operation_id_inj:
  assumes "collision_free blake2b S" "(a, m) \<in> S" "(b, n) \<in> S"
    and "generate_operation_id blake2b a m = generate_operation_id blake2b b n"
  shows "a = b \<and> m = n"
proof -
  have "take 16 (blake2b (id_message a m)) = take 16 (blake2b (id_message b n))"
    using assms(4) by (auto simp: generate_operation_id_def dest: hex_encode_inj)
  then have "id_message a m = id_message b n"
    by (rule inj_onD [OF assms(1) [unfolded collision_free_def]])
       (rule image_eqI [OF _ assms(2)] image_eqI [OF _ assms(3)], simp)+
  then show ?thesis by (rule id_message_inj)
qed

text \<open>A hash that keeps short messages as they are has no collisions on them.\<close>

lemma collision_free_short: "(\<And>b c. (b, c) \<in> S \<Longrightarrow> length b \<le> 8) \<Longrightarrow> collision_free (\<lambda>m. m) S"
proof -
  assume "\<And>b c. (b, c) \<in> S \<Longrightarrow> length b \<le> 8"
  then have "take 16 m = m" if "m \<in> (\<lambda>(b, c). id_message b c) ` S" for m
    using that by (fastforce simp: id_message_def)
  then show ?thesis by (simp add: collision_free_def inj_on_def)
qed

text \<open>Identifiers are a function of the base and the counter, and on any set of bases and counters
  on which the hash has no collision they determine both: no two operations share an identifier.\<close>

lemma generate_operation_id_injective:
  assumes "collision_free blake2b S" "(a, m) \<in> S" "(b, n) \<in> S"
  shows "generate_operation_id blake2b a m = generate_operation_id blake2b b n \<longleftrightarrow> a = b \<and> m = n"
  using generate_operation_id_inj [OF assms] by blast

lemma generate_operation_id_injective_witness:
  "generate_operation_id (\<lambda>m. m) ''ab'' 0 \<noteq> generate_operation_id (\<lambda>m. m) ''ab'' 1"
proof -
  have "collision_free (\<lambda>m. m) {(''ab'', 0), (''ab'', 1)}" by (rule collision_free_short) auto
  from generate_operation_id_injective [OF this, of "''ab''" 0 "''ab''" 1] show ?thesis by simp
qed

lemma next_ids_spec:
  "next_ids blake2b n g =
     (map (\<lambda>k. generate_operation_id blake2b (ig_base_id g) (ig_step_counter g + of_nat k)) [0..<n],
      g\<lparr>ig_step_counter := ig_step_counter g + of_nat n\<rparr>)"
proof (induction n arbitrary: g)
  case (Suc n)
  have "map f [0..<Suc n] = f 0 # map (\<lambda>k. f (Suc k)) [0..<n]" for f :: "nat \<Rightarrow> string"
    by (simp add: map_upt_Suc del: upt_Suc)
  with Suc show ?case by (simp add: next_id_def Let_def ac_simps del: upt_Suc)
qed simp

text \<open>C20: A generator hands out, for its n-th call, the identifier of its base and the counter advanced
  n times, so two generators with the same base and counter hand out the same identifiers in the
  same order; up to \<open>2 ^ 64\<close> calls the identifiers are all different.\<close>

theorem next_ids_deterministic_distinct:
  assumes "n \<le> 2 ^ 64" "collision_free blake2b {(ig_base_id g, ig_step_counter g + of_nat k) | k. k < n}"
  shows "fst (next_ids blake2b n g) =
       map (\<lambda>k. generate_operation_id blake2b (ig_base_id g) (ig_step_counter g + of_nat k)) [0..<n] \<and>
     distinct (fst (next_ids blake2b n g))"
proof -
  have "inj_on (\<lambda>k. generate_operation_id blake2b (ig_base_id g) (ig_step_counter g + of_nat k)) (set [0..<n])"
  proof (rule inj_onI)
    fix j k assume jk: "j \<in> set [0..<n]" "k \<in> set [0..<n]"
      and eq: "generate_operation_id blake2b (ig_base_id g) (ig_step_counter g + of_nat j) =
        generate_operation_id blake2b (ig_base_id g) (ig_step_counter g + of_nat k)"
    have "ig_step_counter g + of_nat j = ig_step_counter g + of_nat k"
      using generate_operation_id_inj [OF assms(2) _ _ eq] jk by auto
    then have "unat (of_nat j :: u64) = unat (of_nat k :: u64)" by simp
    moreover have "j < 2 ^ 64" "k < 2 ^ 64" using jk assms(1) by simp_all
    ultimately show "j = k" by (simp add: unat_of_nat)
  qed
  then show ?thesis by (simp add: next_ids_spec distinct_map)
qed

theorem next_ids_deterministic_distinct_witness:
  "distinct (fst (next_ids (\<lambda>m. m) 3 (generator_new ''ab'')))"
  using next_ids_deterministic_distinct [of 3 "\<lambda>m. m" "generator_new ''ab''", OF _ collision_free_short]
  by (auto simp: generator_new_def)

end
