(* ===== verification/Float64_Ops.thy ===== *)
theory Float64_Ops
  imports Float64
begin

text \<open>
  The further operations on \<open>f64\<close> that the retry and wait strategies use: multiplication, addition,
  \<open>min\<close> and \<open>max\<close> (which ignore a NaN operand), \<open>round\<close> (half away from zero) and the saturating
  cast to \<open>u64\<close>. Results beyond the largest finite value are infinite.
\<close>

definition f64_of_rat :: "rat \<Rightarrow> f64" where
  "f64_of_rat x = (let y = fl x in
     if 2 ^ 1024 \<le> y then PosInf else if y \<le> - (2 ^ 1024) then NegInf else Fin y)"

fun f64_neg :: "f64 \<Rightarrow> f64" where
  "f64_neg (Fin a) = Fin (- a)"
| "f64_neg PosInf = NegInf"
| "f64_neg NegInf = PosInf"
| "f64_neg NaN = NaN"

fun f64_mul :: "f64 \<Rightarrow> f64 \<Rightarrow> f64" where
  "f64_mul (Fin a) (Fin b) = f64_of_rat (a * b)"
| "f64_mul NaN b = NaN"
| "f64_mul a NaN = NaN"
| "f64_mul PosInf (Fin b) = (if b = 0 then NaN else if 0 < b then PosInf else NegInf)"
| "f64_mul NegInf (Fin b) = (if b = 0 then NaN else if 0 < b then NegInf else PosInf)"
| "f64_mul (Fin a) PosInf = (if a = 0 then NaN else if 0 < a then PosInf else NegInf)"
| "f64_mul (Fin a) NegInf = (if a = 0 then NaN else if 0 < a then NegInf else PosInf)"
| "f64_mul PosInf PosInf = PosInf"
| "f64_mul NegInf NegInf = PosInf"
| "f64_mul _ _ = NegInf"

fun f64_add :: "f64 \<Rightarrow> f64 \<Rightarrow> f64" where
  "f64_add (Fin a) (Fin b) = f64_of_rat (a + b)"
| "f64_add NaN b = NaN"
| "f64_add a NaN = NaN"
| "f64_add PosInf NegInf = NaN"
| "f64_add NegInf PosInf = NaN"
| "f64_add PosInf b = PosInf"
| "f64_add NegInf b = NegInf"
| "f64_add a PosInf = PosInf"
| "f64_add a NegInf = NegInf"

definition f64_min :: "f64 \<Rightarrow> f64 \<Rightarrow> f64" where
  "f64_min a b = (if a = NaN then b else if b = NaN then a else if f64_gt a b then b else a)"

definition f64_max :: "f64 \<Rightarrow> f64 \<Rightarrow> f64" where
  "f64_max a b = (if a = NaN then b else if b = NaN then a else if f64_gt b a then b else a)"

fun f64_round :: "f64 \<Rightarrow> f64" where
  "f64_round (Fin a) = Fin (if 0 \<le> a then of_int \<lfloor>a + 1 / 2\<rfloor> else of_int \<lceil>a - 1 / 2\<rceil>)"
| "f64_round x = x"

fun f64_to_u64 :: "f64 \<Rightarrow> u64" where
  "f64_to_u64 (Fin a) = (if a < 0 then 0 else if 2 ^ 64 \<le> a then - 1 else of_int \<lfloor>a\<rfloor>)"
| "f64_to_u64 PosInf = - 1"
| "f64_to_u64 NegInf = 0"
| "f64_to_u64 NaN = 0"

section \<open>Bounds\<close>

text \<open>\<open>x\<close> is at most the whole number \<open>m\<close>, or not a number.\<close>

definition f64_le_nat :: "f64 \<Rightarrow> nat \<Rightarrow> bool" where
  "f64_le_nat x m = (case x of Fin a \<Rightarrow> a \<le> of_nat m | PosInf \<Rightarrow> False | NegInf \<Rightarrow> True | NaN \<Rightarrow> False)"

lemma f64_of_nat_exact: "n < 2 ^ 53 \<Longrightarrow> f64_of_nat n = Fin (of_nat n)"
  by (simp add: f64_of_nat_def fl_exact_nat del: of_nat_less_numeral_iff)

lemma f64_min_le: "f64_le_nat (f64_min x (Fin (of_nat m))) m"
  by (cases x) (auto simp: f64_min_def f64_le_nat_def)

lemma f64_max_one_finite:
  assumes "f64_le_nat x m"
  shows "\<exists>a. f64_max x (Fin 1) = Fin a \<and> 1 \<le> a \<and> a \<le> of_nat (max 1 m)"
  using assms by (cases x) (auto simp: f64_max_def f64_le_nat_def max_def not_less)

lemma f64_max_one_not_small: "f64_max x (Fin 1) = Fin a \<Longrightarrow> 1 \<le> a" "f64_max x (Fin 1) \<noteq> NegInf"
  "f64_max x (Fin 1) \<noteq> NaN"
  by (cases x; auto simp: f64_max_def split: if_splits)+

lemma f64_to_u64_unat:
  assumes "0 \<le> a" "a < 2 ^ 64"
  shows "int (unat (f64_to_u64 (Fin a))) = \<lfloor>a\<rfloor>"
proof -
  have "\<lfloor>a\<rfloor> < 2 ^ 64" using assms(2) by (simp add: floor_less_iff)
  moreover have "0 \<le> \<lfloor>a\<rfloor>" using assms(1) by simp
  ultimately show ?thesis using assms
    by (simp add: unsigned_of_int take_bit_int_eq_self)
qed

lemma f64_to_u64_bounds:
  assumes "1 \<le> a" "a \<le> of_nat m" "m < 2 ^ 64"
  shows "1 \<le> unat (f64_to_u64 (Fin a)) \<and> unat (f64_to_u64 (Fin a)) \<le> m"
proof -
  have "(of_nat m :: rat) < 2 ^ 64"
    using assms(3) by (metis of_nat_less_iff of_nat_numeral of_nat_power)
  then have "int (unat (f64_to_u64 (Fin a))) = \<lfloor>a\<rfloor>" using assms by (intro f64_to_u64_unat) auto
  moreover have "1 \<le> \<lfloor>a\<rfloor>" using assms(1) by simp
  moreover have "\<lfloor>a\<rfloor> \<le> int m" using assms(2) by (simp add: floor_le_iff)
  ultimately show ?thesis by linarith
qed

lemma f64_to_u64_max_one: "1 \<le> unat (f64_to_u64 (f64_max x (Fin 1)))"
proof (cases "f64_max x (Fin 1)")
  case (Fin a)
  then have a: "1 \<le> a" by (rule f64_max_one_not_small)
  show ?thesis
  proof (cases "a < 2 ^ 64")
    case True
    have "int (unat (f64_to_u64 (Fin a))) = \<lfloor>a\<rfloor>" using a True by (intro f64_to_u64_unat) auto
    moreover have "1 \<le> \<lfloor>a\<rfloor>" using a by simp
    ultimately have "1 \<le> unat (f64_to_u64 (Fin a))" by linarith
    then show ?thesis by (simp only: Fin)
  qed (use Fin a in \<open>simp add: unsigned_minus_1_eq_mask mask_eq_exp_minus_1\<close>)
qed (simp_all add: f64_max_one_not_small unsigned_minus_1_eq_mask mask_eq_exp_minus_1)

lemma f64_to_u64_of_nat: "n < 2 ^ 53 \<Longrightarrow> f64_to_u64 (Fin (of_nat n)) = of_nat n"
proof -
  assume n: "n < 2 ^ 53"
  then have "(of_nat n :: rat) < 2 ^ 53" by (metis of_nat_less_iff of_nat_numeral of_nat_power)
  then show ?thesis by simp
qed

end
