(* ===== verification/Config_Model.thy ===== *)
theory Config_Model
  imports Durations Float64_Ops
begin

text \<open>
  \<open>sdk/src/config.rs\<close>: jitter, the built-in retry strategies, the wait strategy of polling loops,
  the filter of retryable errors, the completion criteria of concurrent operations and the item
  batcher. Parameters are the \<open>blake2\<close> hash, \<open>f64::powi\<close> (whose precision is unspecified), the
  matching of a compiled regular expression and the length of an item's JSON text.
  The locale \<open>retry_policy\<close> is what the step handler relies on.
\<close>

section \<open>Jitter\<close>

datatype jitter_strategy = NoJitter | FullJitter | HalfJitter

definition le_bytes :: "u32 \<Rightarrow> u8 list" where
  "le_bytes w = map (\<lambda>k. of_nat (unat w div 256 ^ k)) [0, 1, 2, 3]"

definition u64_from_le_bytes :: "u8 list \<Rightarrow> nat" where
  "u64_from_le_bytes bs = (\<Sum>k<8. unat (bs ! k) * 256 ^ k)"

definition deterministic_random_factor :: "(u8 list \<Rightarrow> u8 list) \<Rightarrow> u32 \<Rightarrow> f64" where
  "deterministic_random_factor blake2b attempt =
     (let result = blake2b (map of_char ''jitter'' @ le_bytes attempt);
          bytes = take 8 result
      in f64_div (f64_of_nat (u64_from_le_bytes bytes)) (f64_of_nat (2 ^ 64 - 1)))"

definition jitter_apply :: "(u8 list \<Rightarrow> u8 list) \<Rightarrow> jitter_strategy \<Rightarrow> f64 \<Rightarrow> u32 \<Rightarrow> f64" where
  "jitter_apply blake2b j delay_secs attempt = (case j of
     NoJitter \<Rightarrow> delay_secs
   | FullJitter \<Rightarrow> f64_mul (deterministic_random_factor blake2b attempt) delay_secs
   | HalfJitter \<Rightarrow>
       f64_add (f64_div delay_secs (Fin 2))
         (f64_mul (deterministic_random_factor blake2b attempt) (f64_div delay_secs (Fin 2))))"

section \<open>Retry strategies\<close>

text \<open>The trait object \<open>Box<dyn RetryStrategy>\<close> is its one method.\<close>

type_synonym retry_strategy = "u32 \<Rightarrow> string \<Rightarrow> duration option"

text \<open>\<open>duration.to_seconds() as f64\<close>, and the delay of a number of seconds.\<close>

definition seconds_f64 :: "duration \<Rightarrow> f64" where
  "seconds_f64 d = f64_of_nat (unat (to_seconds d))"

definition final_delay :: "f64 \<Rightarrow> duration" where
  "final_delay jittered = from_seconds (f64_to_u64 (f64_max jittered (Fin 1)))"

record exponential_backoff =
  eb_max_attempts :: u32
  eb_base_delay :: duration
  eb_max_delay :: duration
  eb_multiplier :: f64
  eb_jitter :: jitter_strategy

definition exponential_backoff_new :: "u32 \<Rightarrow> duration \<Rightarrow> exponential_backoff" where
  "exponential_backoff_new n d = \<lparr>eb_max_attempts = n, eb_base_delay = d,
     eb_max_delay = from_hours 1, eb_multiplier = Fin 2, eb_jitter = NoJitter\<rparr>"

definition exponential_backoff_default :: exponential_backoff where
  "exponential_backoff_default = \<lparr>eb_max_attempts = 3, eb_base_delay = from_seconds 1,
     eb_max_delay = from_hours 1, eb_multiplier = Fin 2, eb_jitter = NoJitter\<rparr>"

definition exponential_next_delay ::
  "(u8 list \<Rightarrow> u8 list) \<Rightarrow> (f64 \<Rightarrow> int \<Rightarrow> f64) \<Rightarrow> exponential_backoff \<Rightarrow> retry_strategy" where
  "exponential_next_delay blake2b f64_powi eb attempt err =
     (if attempt \<ge> eb_max_attempts eb then None
      else
        (let base_seconds = seconds_f64 (eb_base_delay eb);
             delay_seconds = f64_mul base_seconds (f64_powi (eb_multiplier eb) (sint attempt));
             capped_seconds = f64_min delay_seconds (seconds_f64 (eb_max_delay eb));
             jittered = jitter_apply blake2b (eb_jitter eb) capped_seconds attempt
         in Some (final_delay jittered)))"

record fixed_delay =
  fd_max_attempts :: u32
  fd_delay :: duration
  fd_jitter :: jitter_strategy

definition fixed_delay_new :: "u32 \<Rightarrow> duration \<Rightarrow> fixed_delay" where
  "fixed_delay_new n d = \<lparr>fd_max_attempts = n, fd_delay = d, fd_jitter = NoJitter\<rparr>"

definition fixed_next_delay :: "(u8 list \<Rightarrow> u8 list) \<Rightarrow> fixed_delay \<Rightarrow> retry_strategy" where
  "fixed_next_delay blake2b fd attempt err =
     (if attempt \<ge> fd_max_attempts fd then None
      else Some (final_delay (jitter_apply blake2b (fd_jitter fd) (seconds_f64 (fd_delay fd)) attempt)))"

record linear_backoff =
  lb_max_attempts :: u32
  lb_base_delay :: duration
  lb_max_delay :: duration
  lb_jitter :: jitter_strategy

definition linear_backoff_new :: "u32 \<Rightarrow> duration \<Rightarrow> linear_backoff" where
  "linear_backoff_new n d = \<lparr>lb_max_attempts = n, lb_base_delay = d, lb_max_delay = from_hours 1,
     lb_jitter = NoJitter\<rparr>"

definition linear_next_delay :: "(u8 list \<Rightarrow> u8 list) \<Rightarrow> linear_backoff \<Rightarrow> retry_strategy" where
  "linear_next_delay blake2b lb attempt err =
     (if attempt \<ge> lb_max_attempts lb then None
      else
        (let delay_seconds = saturating_mul (to_seconds (lb_base_delay lb)) (ucast (attempt + 1));
             capped_seconds = f64_of_nat (unat (min delay_seconds (to_seconds (lb_max_delay lb))));
             jittered = jitter_apply blake2b (lb_jitter lb) capped_seconds attempt
         in Some (final_delay jittered)))"

definition no_retry_next_delay :: retry_strategy where
  "no_retry_next_delay attempt err = None"

section \<open>The wait strategy\<close>

datatype wait_decision = Continue duration | Done

record 'a wait_strategy_config =
  ws_max_attempts :: "nat option"
  ws_initial_delay :: duration
  ws_max_delay :: duration
  ws_backoff_rate :: f64
  ws_jitter :: jitter_strategy
  ws_should_continue_polling :: "'a \<Rightarrow> bool"

definition create_wait_strategy ::
  "(u8 list \<Rightarrow> u8 list) \<Rightarrow> (f64 \<Rightarrow> int \<Rightarrow> f64) \<Rightarrow> 'a wait_strategy_config \<Rightarrow> 'a \<Rightarrow> nat \<Rightarrow> wait_decision"
where
  "create_wait_strategy blake2b f64_powi cfg result attempts_made =
     (let max_attempts = (case ws_max_attempts cfg of Some n \<Rightarrow> n | None \<Rightarrow> 60) in
      if \<not> ws_should_continue_polling cfg result then Done
      else if attempts_made \<ge> max_attempts then Done
      else
        (let exponent = (if attempts_made > 0 then sint (of_nat attempts_made :: u32) - 1 else 0);
             base_delay = f64_min (f64_mul (seconds_f64 (ws_initial_delay cfg))
               (f64_powi (ws_backoff_rate cfg) exponent)) (seconds_f64 (ws_max_delay cfg));
             jittered = jitter_apply blake2b (ws_jitter cfg) base_delay (of_nat attempts_made)
         in Continue (from_seconds (f64_to_u64 (f64_round (f64_max jittered (Fin 1)))))))"

section \<open>The filter of retryable errors\<close>

datatype error_pattern = Contains string | Regex "string \<Rightarrow> bool"

record retryable_error_filter =
  rf_patterns :: "error_pattern list"
  rf_error_types :: "string list"

fun pattern_matches :: "error_pattern \<Rightarrow> string \<Rightarrow> bool" where
  "pattern_matches (Contains s) msg = str_contains msg s"
| "pattern_matches (Regex is_match) msg = is_match msg"

definition is_retryable :: "retryable_error_filter \<Rightarrow> string \<Rightarrow> bool" where
  "is_retryable f msg =
     (if rf_patterns f = [] \<and> rf_error_types f = [] then True
      else list_ex (\<lambda>p. pattern_matches p msg) (rf_patterns f))"

definition is_retryable_with_type :: "retryable_error_filter \<Rightarrow> string \<Rightarrow> string \<Rightarrow> bool" where
  "is_retryable_with_type f msg ty =
     (if rf_patterns f = [] \<and> rf_error_types f = [] then True
      else list_ex (\<lambda>t. t = ty) (rf_error_types f) \<or> is_retryable f msg)"

section \<open>Completion criteria\<close>

record completion_config =
  cc_min_successful :: "nat option"
  cc_tolerated_failure_count :: "nat option"
  cc_tolerated_failure_percentage :: "f64 option"

definition all_completed :: completion_config where
  "all_completed = \<lparr>cc_min_successful = None, cc_tolerated_failure_count = None,
     cc_tolerated_failure_percentage = None\<rparr>"

definition first_successful :: completion_config where
  "first_successful = all_completed\<lparr>cc_min_successful := Some 1\<rparr>"

definition all_successful :: completion_config where
  "all_successful = all_completed\<lparr>cc_tolerated_failure_count := Some 0,
     cc_tolerated_failure_percentage := Some (Fin 0)\<rparr>"

definition with_min_successful :: "nat \<Rightarrow> completion_config" where
  "with_min_successful n = all_completed\<lparr>cc_min_successful := Some n\<rparr>"

definition with_failure_tolerance :: "nat \<Rightarrow> completion_config" where
  "with_failure_tolerance n = all_completed\<lparr>cc_tolerated_failure_count := Some n\<rparr>"

section \<open>The item batcher\<close>

record item_batcher =
  ib_max_items_per_batch :: nat
  ib_max_bytes_per_batch :: nat

definition item_batcher_default :: item_batcher where
  "item_batcher_default = \<lparr>ib_max_items_per_batch = 100, ib_max_bytes_per_batch = 256 * 1024\<rparr>"

text \<open>The loop over the items with their indices: the batches pushed so far, the current batch, its
  bytes and its start.\<close>

fun batch_loop ::
  "item_batcher \<Rightarrow> ('a \<Rightarrow> nat) \<Rightarrow> nat \<Rightarrow> 'a list \<Rightarrow> (nat \<times> 'a list) list \<Rightarrow> 'a list \<Rightarrow> nat \<Rightarrow> nat \<Rightarrow>
   (nat \<times> 'a list) list"
where
  "batch_loop ib json_len i [] batches current bytes start =
     (if current \<noteq> [] then batches @ [(start, current)] else batches)"
| "batch_loop ib json_len i (item # items) batches current bytes start =
     (let item_bytes = json_len item;
          would_exceed_items = length current \<ge> ib_max_items_per_batch ib;
          would_exceed_bytes = bytes + item_bytes > ib_max_bytes_per_batch ib \<and> current \<noteq> []
      in if would_exceed_items \<or> would_exceed_bytes
         then batch_loop ib json_len (Suc i) items (batches @ [(start, current)]) [item] item_bytes i
         else batch_loop ib json_len (Suc i) items batches (current @ [item]) (bytes + item_bytes) start)"

definition batch_items :: "item_batcher \<Rightarrow> ('a \<Rightarrow> nat) \<Rightarrow> 'a list \<Rightarrow> (nat \<times> 'a list) list" where
  "batch_items ib json_len items =
     (if items = [] then [] else batch_loop ib json_len 0 items [] [] 0 0)"

end
