(* ===== verification/Step_Handler.thy ===== *)
theory Step_Handler
  imports State_Steps Context_Ids Config_Model
begin

text \<open>
  \<open>sdk/src/handlers/step.rs\<close>: a durable step. The handler looks at the checkpoint of its operation,
  replays a finished one, suspends on a pending retry, and otherwise runs the user's function and
  checkpoints its outcome; with at-most-once semantics a START is checkpointed before. The user's
  function is a parameter that works on the world outside; its boxed error is its text. Logging and
  tracing have no effect on the state and are left out.
\<close>

record step_context =
  sc_operation_id :: string
  sc_parent_id :: "string option"
  sc_name :: "string option"
  sc_durable_execution_arn :: string
  sc_attempt :: u32
  sc_retry_payload :: "string option"

datatype step_semantics = AtMostOncePerRetry | AtLeastOncePerRetry

record step_config =
  sf_retry_strategy :: "retry_strategy option"
  sf_step_semantics :: step_semantics
  sf_retryable_error_filter :: "retryable_error_filter option"

definition step_config_default :: step_config where
  "step_config_default = \<lparr>sf_retry_strategy = None, sf_step_semantics = AtLeastOncePerRetry,
     sf_retryable_error_filter = None\<rparr>"

type_synonym ('w, 'a) step_function = "step_context \<Rightarrow> 'w \<Rightarrow> (string + 'a) \<times> 'w"

definition create_start_update :: "operation_identifier \<Rightarrow> operation_update" where
  "create_start_update oi = apply_to oi (update_start (oi_operation_id oi) StepOp)"

definition create_succeed_update :: "operation_identifier \<Rightarrow> string option \<Rightarrow> operation_update" where
  "create_succeed_update oi result = apply_to oi (update_succeed (oi_operation_id oi) StepOp result)"

definition create_fail_update :: "operation_identifier \<Rightarrow> error_object \<Rightarrow> operation_update" where
  "create_fail_update oi e = apply_to oi (update_fail (oi_operation_id oi) StepOp e)"

definition create_retry_update ::
  "operation_identifier \<Rightarrow> string option \<Rightarrow> u64 option \<Rightarrow> operation_update" where
  "create_retry_update oi payload delay = apply_to oi (update_retry (oi_operation_id oi) StepOp payload delay)"

definition create_retry_with_error_update ::
  "operation_identifier \<Rightarrow> error_object \<Rightarrow> u64 option \<Rightarrow> operation_update" where
  "create_retry_with_error_update oi e delay =
     apply_to oi (update_retry_with_error (oi_operation_id oi) StepOp e delay)"

definition track :: "string \<Rightarrow> ('w env, durable_error, unit) cmd" where
  "track i = on_state (track_replay i)"

definition step_handle_replay ::
  "'a codec \<Rightarrow> checkpointed_result \<Rightarrow> operation_identifier \<Rightarrow> ('w env, durable_error, 'a option) cmd"
where
  "step_handle_replay c r oi =
     (case cr_operation_type r of
        None \<Rightarrow> retE None
      | Some ty \<Rightarrow>
          if ty \<noteq> StepOp then throwE (non_deterministic_error StepOp ty (oi_operation_id oi))
          else if cr_is_succeeded r then
            bindE (track (oi_operation_id oi)) (\<lambda>_.
              case cr_result r of
                Some s \<Rightarrow> liftE (map_sum id Some
                  (deserialize_or ''Failed to deserialize checkpointed result: '' c s))
              | None \<Rightarrow> (case json_deserialize c ''null'' of
                    Inr x \<Rightarrow> retE (Some x)
                  | Inl _ \<Rightarrow> throwE (SerDes
                      ''Step succeeded but no result was stored and type requires a value'')))
          else if cr_is_failed r then
            bindE (track (oi_operation_id oi)) (\<lambda>_.
              case cr_error r of
                Some e \<Rightarrow> throwE (replayed_user_error e)
              | None \<Rightarrow> throwE (err_execution ''Step failed with unknown error''))
          else if cr_is_terminal r then
            bindE (track (oi_operation_id oi)) (\<lambda>_.
              throwE (Execution (''Step was '' @ status_text r) StepInterrupted))
          else if cr_is_ready r then retE None
          else if cr_is_pending r then throwE (Suspend None)
          else retE None)"

definition execute_with_retry ::
  "('w, 'a) step_function \<Rightarrow> step_context \<Rightarrow> step_config \<Rightarrow> 'w \<Rightarrow> (string + 'a) \<times> 'w" where
  "execute_with_retry func ctx cfg w =
     (case func ctx w of
        (Inr x, w1) \<Rightarrow> (Inr x, w1)
      | (Inl err, w1) \<Rightarrow>
          (case sf_retryable_error_filter cfg of
             Some f \<Rightarrow> if \<not> is_retryable f err then (Inl err, w1) else (Inl err, w1)
           | None \<Rightarrow> (Inl err, w1)))"

text \<open>Running the user's function as a command that does not fail: its outcome is a value.\<close>

definition run_user :: "('w \<Rightarrow> 'r \<times> 'w) \<Rightarrow> ('w env, durable_error, 'r) cmd" where
  "run_user f v = (case f (env_world v) of (r, w) \<Rightarrow> (Inr r, v\<lparr>env_world := w\<rparr>))"

definition step_checkpoint_result ::
  "'w services \<Rightarrow> 'a codec \<Rightarrow> operation_identifier \<Rightarrow> string + 'a \<Rightarrow> ('w env, durable_error, 'a) cmd"
where
  "step_checkpoint_result sv c oi result = (case result of
     Inr x \<Rightarrow>
       bindE (liftE (serialize_or ''Failed to serialize step result: '' c x)) (\<lambda>s.
       bindE (create_checkpoint sv (create_succeed_update oi (Some s)) True) (\<lambda>_. retE x))
   | Inl err \<Rightarrow>
       bindE (create_checkpoint sv (create_fail_update oi (error_object_new ''UserCodeError'' err)) True)
         (\<lambda>_. throwE (UserCode err ''UserCodeError'' None)))"

definition execute_at_most_once ::
  "'w services \<Rightarrow> 'a codec \<Rightarrow> ('w, 'a) step_function \<Rightarrow> operation_identifier \<Rightarrow> step_context \<Rightarrow>
   step_config \<Rightarrow> bool \<Rightarrow> ('w env, durable_error, 'a) cmd"
where
  "execute_at_most_once sv c func oi ctx cfg skip_start =
     bindE (if \<not> skip_start then create_checkpoint sv (create_start_update oi) True else retE ()) (\<lambda>_.
     bindE (run_user (execute_with_retry func ctx cfg)) (step_checkpoint_result sv c oi))"

definition execute_at_least_once ::
  "'w services \<Rightarrow> 'a codec \<Rightarrow> ('w, 'a) step_function \<Rightarrow> operation_identifier \<Rightarrow> step_context \<Rightarrow>
   step_config \<Rightarrow> ('w env, durable_error, 'a) cmd"
where
  "execute_at_least_once sv c func oi ctx cfg =
     bindE (run_user (execute_with_retry func ctx cfg)) (step_checkpoint_result sv c oi)"

definition step_context_for :: "exec_state \<Rightarrow> operation_identifier \<Rightarrow> checkpointed_result \<Rightarrow> step_context" where
  "step_context_for s oi r =
     \<lparr>sc_operation_id = oi_operation_id oi, sc_parent_id = oi_parent_id oi, sc_name = oi_name oi,
      sc_durable_execution_arn = es_arn s,
      sc_attempt = (case cr_attempt r of Some n \<Rightarrow> n | None \<Rightarrow> 0),
      sc_retry_payload = cr_retry_payload r\<rparr>"

definition step_handler ::
  "'w services \<Rightarrow> 'a codec \<Rightarrow> ('w, 'a) step_function \<Rightarrow> operation_identifier \<Rightarrow> step_config \<Rightarrow>
   ('w env, durable_error, 'a) cmd"
where
  "step_handler sv c func oi cfg v =
     (let r = get_checkpoint_result (env_state v) (oi_operation_id oi);
          ctx = step_context_for (env_state v) oi r
      in bindE (step_handle_replay c r oi) (\<lambda>replayed.
           case replayed of
             Some x \<Rightarrow> retE x
           | None \<Rightarrow> (case sf_step_semantics cfg of
               AtMostOncePerRetry \<Rightarrow> execute_at_most_once sv c func oi ctx cfg (cr_is_ready r)
             | AtLeastOncePerRetry \<Rightarrow> execute_at_least_once sv c func oi ctx cfg)) v)"

section \<open>Replay\<close>

lemma track_apply [simp]: "track i v = (Inr (), v\<lparr>env_state := track_replay i (env_state v)\<rparr>)"
  by (simp add: track_def)

lemma bindE_track [simp]: "bindE (track i) f v = f () (v\<lparr>env_state := track_replay i (env_state v)\<rparr>)"
  by (simp add: track_def)

lemma bindE_lift: "bindE (liftE q) f v = (case q of Inl e \<Rightarrow> (Inl e, v) | Inr x \<Rightarrow> f x v)"
  by (simp add: bindE_def split: sum.split)

lemma execute_with_retry_func: "execute_with_retry func ctx cfg = func ctx"
proof
  fix w
  show "execute_with_retry func ctx cfg w = func ctx w"
    by (cases "func ctx w") (auto simp: execute_with_retry_def split: sum.split option.split)
qed

lemmas step_defs = step_handler_def step_handle_replay_def Let_def get_checkpoint_result_def

text \<open>A finished operation is replayed: the answer depends on the stored operation only, the world is
  untouched, and the state differs at most in the replay tracking.\<close>

definition step_replay_outcome :: "'a codec \<Rightarrow> operation \<Rightarrow> durable_error + 'a" where
  "step_replay_outcome c op =
     (if op_status op = Succeeded then
        (case get_result op of
           Some s \<Rightarrow> deserialize_or ''Failed to deserialize checkpointed result: '' c s
         | None \<Rightarrow> (case json_deserialize c ''null'' of
              Inr x \<Rightarrow> Inr x
            | Inl _ \<Rightarrow> Inl (SerDes ''Step succeeded but no result was stored and type requires a value'')))
      else if op_status op = Failed then
        (case op_error op of Some e \<Rightarrow> Inl (replayed_user_error e)
         | None \<Rightarrow> Inl (err_execution ''Step failed with unknown error''))
      else Inl (Execution (''Step was '' @ display_status (op_status op)) StepInterrupted))"

lemma step_handler_replays:
  assumes "get_operation (env_state v) (oi_operation_id oi) = Some op" "op_type op = StepOp"
    and "is_terminal (op_status op)"
  shows "step_handler sv c func oi cfg v =
     (step_replay_outcome c op, v\<lparr>env_state := track_replay (oi_operation_id oi) (env_state v)\<rparr>)"
  using assms
  by (cases "op_status op")
     (auto simp: step_defs get_operation_def step_replay_outcome_def status_text_def bindE_def
        split: option.split sum.split)

end
