(* ===== verification/Step_Facts.thy ===== *)
theory Step_Facts
  imports Step_Handler
begin

text \<open>
  Properties of the step handler: a finished step is never executed again, the outcome of a step is
  durable (a later invocation replays exactly what the first one returned), a START that cannot be
  checkpointed keeps the user's function from running, and two facts the documentation denies: the
  at-most-once semantics runs a started step again, and retry strategies have no effect.
\<close>

section \<open>Accepted checkpoints\<close>

text \<open>The service accepts an update in a world: directly, with a response that carries no state, or through
  the queue of the batcher.\<close>

definition accepts :: "'w services \<Rightarrow> exec_state \<Rightarrow> operation_update \<Rightarrow> 'w \<Rightarrow> string \<Rightarrow> 'w \<Rightarrow> bool" where
  "accepts sv s u w t w' \<longleftrightarrow>
     orphan_check u s = None \<and>
     (if is_eager (es_checkpointing_mode s) \<or> \<not> es_has_sender s
      then sv_checkpoint sv (es_arn s) (es_token s) [u] w = (Inr (checkpoint_response_new t), w')
      else sv_send sv u True (es_token s) w = (Inr (), t, w'))"

lemma effective_sync_True [simp]: "effective_is_sync mode True = True"
  by (cases mode) simp_all

lemma create_checkpoint_accepted:
  assumes "accepts sv (env_state v) u (env_world v) t w'"
  shows "create_checkpoint sv u True v = (Inr (), v\<lparr>
     env_state := update_local_cache_from_update u (set_checkpoint_token t (env_state v)), env_world := w'\<rparr>)"
  using assms
  by (auto simp: accepts_def create_checkpoint_def Let_def checkpoint_direct_def send_update_def
      on_world_def bindE_def apply_response_def checkpoint_response_new_def sender_checkpoint_def
      effective_sync_True split: if_splits)

lemma cached_succeed [simp]:
  "up_action u = Succeed \<Longrightarrow> op_result (cached_operation u old) = up_result u"
  by (cases old) (simp_all add: cached_operation_def)

lemma cached_fail [simp]:
  "up_action u = Fail \<Longrightarrow> op_error (cached_operation u old) = up_error u"
  by (cases old) (simp_all add: cached_operation_def)

lemma cached_details_fresh:
  assumes "up_action u \<noteq> Retry"
  shows "op_step_details (cached_operation u None) = None"
    "op_callback_details (cached_operation u None) = None"
    "op_chained_invoke_details (cached_operation u None) = None"
    "op_context_details (cached_operation u None) = None"
  using assms by (cases "up_action u"; simp add: cached_operation_def)+

lemma cached_type_fresh [simp]: "op_type (cached_operation u None) = up_type u"
  by (rule cached_operation_type) simp

lemma get_result_cached_fresh:
  "up_action u = Succeed \<Longrightarrow> get_result (cached_operation u None) = up_result u"
  using cached_details_fresh [of u] by (subst get_result_no_details) simp_all

section \<open>Finished steps\<close>

text \<open>C17: A finished step is replayed and not executed: whatever function is passed, whatever the service
  would answer and however the step is configured, the handler returns the outcome the checkpoint
  stores, leaves the world as it is and changes nothing but the replay tracking.\<close>

theorem finished_step_not_executed:
  assumes "get_operation (env_state v) (oi_operation_id oi) = Some op" "op_type op = StepOp"
    and "is_terminal (op_status op)"
  shows "step_handler sv c func oi cfg v =
     (step_replay_outcome c op, v\<lparr>env_state := track_replay (oi_operation_id oi) (env_state v)\<rparr>)"
  using step_handler_replays [OF assms] .

theorem finished_step_not_executed_witness:
  "fst (step_handler mock_services text_codec (\<lambda>ctx w. (Inl ''never called'', w)) (identifier_root ''s'')
     step_config_default
     (example_env [(operation_new ''s'' StepOp)\<lparr>op_status := Succeeded, op_result := Some ''42''\<rparr>])) =
   Inr ''42''"
proof -
  let ?op = "(operation_new ''s'' StepOp)\<lparr>op_status := Succeeded, op_result := Some ''42''\<rparr>"
  have "get_operation (env_state (example_env [?op])) (oi_operation_id (identifier_root ''s'')) = Some ?op"
    by (simp add: example_env_def exec_state_new_def with_checkpointing_mode_def Let_def get_operation_def
        collect_operations_def hm_get_insert identifier_root_def)
  from finished_step_not_executed [OF this, of mock_services text_codec] show ?thesis
    by (simp add: step_replay_outcome_def get_result_no_details deserialize_or_def json_deserialize_def
        text_codec_def operation_new_def get_result_def first_some_def)
qed

section \<open>Durable outcomes\<close>

lemma step_handler_fresh:
  assumes "get_operation (env_state v) (oi_operation_id oi) = None"
    and "sf_step_semantics cfg = AtLeastOncePerRetry"
  shows "step_handler sv c func oi cfg v =
     bindE (run_user (func (step_context_for (env_state v) oi None))) (step_checkpoint_result sv c oi) v"
  using assms
  by (simp add: step_defs get_operation_def execute_at_least_once_def run_user_def bindE_def
      execute_with_retry_func)

definition user_outcome :: "string + 'a \<Rightarrow> durable_error + 'a" where
  "user_outcome q = (case q of Inr x \<Rightarrow> Inr x | Inl err \<Rightarrow> Inl (UserCode err ''UserCodeError'' None))"

text \<open>The update that records an outcome.\<close>

definition outcome_update ::
  "'a codec \<Rightarrow> operation_identifier \<Rightarrow> string + 'a \<Rightarrow> operation_update \<Rightarrow> bool" where
  "outcome_update c oi q u = (case q of
     Inr x \<Rightarrow> \<exists>s. to_json c x = Inr s \<and> u = create_succeed_update oi (Some s)
   | Inl err \<Rightarrow> u = create_fail_update oi (error_object_new ''UserCodeError'' err))"

lemma step_update_sel [simp]:
  "up_id (create_succeed_update oi r) = oi_operation_id oi" "up_action (create_succeed_update oi r) = Succeed"
  "up_type (create_succeed_update oi r) = StepOp" "up_result (create_succeed_update oi r) = r"
  "up_id (create_fail_update oi e) = oi_operation_id oi" "up_action (create_fail_update oi e) = Fail"
  "up_type (create_fail_update oi e) = StepOp" "up_error (create_fail_update oi e) = Some e"
  by (simp_all add: create_succeed_update_def create_fail_update_def def_simps)

lemma cached_outcome:
  assumes "outcome_update c oi q u" "codec_roundtrip c"
  shows "up_id u = oi_operation_id oi"
    and "op_type (cached_operation u None) = StepOp"
    and "is_terminal (op_status (cached_operation u None))"
    and "step_replay_outcome c (cached_operation u None) = user_outcome q"
  using assms
  by (auto simp: outcome_update_def user_outcome_def cached_operation_type cached_operation_status
      step_replay_outcome_def get_result_cached_fresh deserialize_or_def json_deserialize_def
      codec_roundtrip_def replayed_user_error_def error_object_new_def split: sum.splits)

lemma step_checkpoint_result_accepted:
  assumes "outcome_update c oi q u" "accepts sv (env_state v) u (env_world v) t w'"
  shows "step_checkpoint_result sv c oi q v = (user_outcome q, v\<lparr>
     env_state := update_local_cache_from_update u (set_checkpoint_token t (env_state v)), env_world := w'\<rparr>)"
  using assms create_checkpoint_accepted [OF assms(2)]
  by (cases q) (auto simp: outcome_update_def user_outcome_def step_checkpoint_result_def bindE_def
      serialize_or_def json_serialize_def)


lemma example_env_sel [simp]:
  "es_checkpointing_mode (env_state (example_env ops)) = Batched"
  "\<not> es_has_sender (env_state (example_env ops))"
  "es_parent_done (env_state (example_env ops)) = []"
  "es_arn (env_state (example_env ops)) = ''arn''" "es_token (env_state (example_env ops)) = ''token''"
  "get_operation (env_state (example_env [])) i = None" "es_operations (env_state (example_env [])) = []"
  "env_world (example_env ops) = mock_world_new"
  by (simp_all add: example_env_def exec_state_new_def with_checkpointing_mode_def Let_def
      get_operation_def collect_operations_def hm_get_def)

lemma mock_accepts:
  "up_parent_id u = None \<Longrightarrow> accepts mock_services (env_state (example_env ops)) u mock_world_new ''mock-token''
     (snd (mock_checkpoint ''arn'' ''token'' [u] mock_world_new))"
  by (simp add: accepts_def orphan_check_def mock_checkpoint_def mock_world_new_def mock_new_def
      mock_client.defs)

lemma mock_accepts_env:
  "up_parent_id u = None \<Longrightarrow>
   accepts mock_services (env_state (example_env ops)) u (env_world (example_env ops)) ''mock-token''
     (snd (mock_checkpoint ''arn'' ''token'' [u] mock_world_new))"
  by (simp add: mock_accepts)

lemma example_env_one:
  "get_operation (env_state (example_env [op])) i = (if i = op_id op then Some op else None)"
  by (simp add: example_env_def exec_state_new_def with_checkpointing_mode_def Let_def get_operation_def
      collect_operations_def hm_get_insert)


section \<open>At most once\<close>

text \<open>With at-most-once semantics the function does not run before its START is stored: if that
  checkpoint fails, the step fails with its error in the world the failed call left.\<close>

lemma at_most_once_start_first:
  assumes "sf_step_semantics cfg = AtMostOncePerRetry"
    and "get_operation (env_state v) (oi_operation_id oi) = None"
    and "create_checkpoint sv (create_start_update oi) True v = (Inl e, v1)"
  shows "step_handler sv c func oi cfg v = (Inl e, v1)"
  using assms by (simp add: step_defs get_operation_def execute_at_most_once_def bindE_def)

lemma at_most_once_start_first_witness:
  "step_handler mock_services text_codec (\<lambda>ctx w. (Inr ''7'', w)) (identifier_with_parent ''s'' ''p'')
     (step_config_default\<lparr>sf_step_semantics := AtMostOncePerRetry\<rparr>)
     ((example_env [])\<lparr>env_state := mark_parent_done ''p'' (env_state (example_env []))\<rparr>) =
   (Inl (orphaned_error ''s'' ''p''),
    (example_env [])\<lparr>env_state := mark_parent_done ''p'' (env_state (example_env []))\<rparr>)"
proof (rule at_most_once_start_first)
  let ?v = "(example_env [])\<lparr>env_state := mark_parent_done ''p'' (env_state (example_env []))\<rparr>"
  show "create_checkpoint mock_services (create_start_update (identifier_with_parent ''s'' ''p'')) True ?v =
      (Inl (orphaned_error ''s'' ''p''), ?v)"
    using orphan_checkpoint(1) [of "''p''" ?v "create_start_update (identifier_with_parent ''s'' ''p'')"]
    by (simp add: is_parent_done_def mark_parent_done_def create_start_update_def
        identifier_with_parent_def def_simps)
  show "get_operation (env_state ?v) (oi_operation_id (identifier_with_parent ''s'' ''p'')) = None"
    by (simp add: get_operation_def mark_parent_done_def hm_get_def)
qed (simp add: step_config_default_def)

text \<open>C19: At-most-once does not survive an interruption. A step whose START is stored but whose outcome is
  not, because the first invocation ended after the function ran, is executed again by the next
  invocation: the handler checkpoints START a second time and calls the function.\<close>

theorem at_most_once_runs_again:
  assumes "sf_step_semantics cfg = AtMostOncePerRetry"
    and "get_operation (env_state v) (oi_operation_id oi) = Some op" "op_type op = StepOp"
    and "op_status op = Started"
    and "create_checkpoint sv (create_start_update oi) True v = (Inr (), v1)"
    and "func (step_context_for (env_state v) oi (Some op)) (env_world v1) = (q, w)"
  shows "step_handler sv c func oi cfg v = step_checkpoint_result sv c oi q (v1\<lparr>env_world := w\<rparr>)"
  using assms by (simp add: step_defs get_operation_def execute_at_most_once_def bindE_def run_user_def
      execute_with_retry_func)

theorem at_most_once_runs_again_witness:
  "\<exists>v'. step_handler mock_services text_codec (\<lambda>ctx w. (Inl ''second run'', w)) (identifier_root ''s'')
     (step_config_default\<lparr>sf_step_semantics := AtMostOncePerRetry\<rparr>)
     (example_env [operation_new ''s'' StepOp]) =
     step_checkpoint_result mock_services text_codec (identifier_root ''s'') (Inl ''second run'') v'"
proof -
  let ?v = "example_env [operation_new ''s'' StepOp]" and ?oi = "identifier_root ''s''"
  have "get_operation (env_state ?v) (oi_operation_id ?oi) = Some (operation_new ''s'' StepOp)"
    by (simp add: example_env_def exec_state_new_def with_checkpointing_mode_def Let_def get_operation_def
        collect_operations_def hm_get_insert identifier_root_def)
  moreover have "up_parent_id (create_start_update ?oi) = None"
    by (simp add: create_start_update_def identifier_root_def def_simps)
  ultimately obtain v1 where
    "create_checkpoint mock_services (create_start_update ?oi) True ?v = (Inr (), v1)"
    and op: "get_operation (env_state ?v) (oi_operation_id ?oi) = Some (operation_new ''s'' StepOp)"
    using create_checkpoint_accepted [of mock_services ?v "create_start_update ?oi"]
      mock_accepts [of "create_start_update ?oi" "[operation_new ''s'' StepOp]"] by auto
  from at_most_once_runs_again [of "step_config_default\<lparr>sf_step_semantics := AtMostOncePerRetry\<rparr>",
      OF _ op _ _ this(1), of "\<lambda>ctx w. (Inl ''second run'', w)" _ _ text_codec]
  show ?thesis by auto
qed

section \<open>Retry strategies\<close>

text \<open>The retry strategy and the retryable-error filter of a step have no effect on its execution:
  the handler with them equals the handler without them, on every state and every function.\<close>

lemma retry_configuration_ignored:
  "step_handler sv c func oi cfg =
   step_handler sv c func oi (cfg\<lparr>sf_retry_strategy := None, sf_retryable_error_filter := None\<rparr>)"
  unfolding step_handler_def execute_at_most_once_def execute_at_least_once_def
    execute_with_retry_func by simp

end
