(* ===== verification/Child_Facts.thy ===== *)
theory Child_Facts
  imports Child_Handler
begin

text \<open>
  Properties of child contexts: a finished child is answered from its checkpoint, the outcome of a
  child is durable (an error as the \<open>UserCode\<close> error that its checkpoint keeps), a suspension leaves
  the child open, a finished child admits no further checkpoint below it, and with a summary
  generator a large result is not the one that a replay returns.
\<close>

section \<open>Finished children\<close>

text \<open>What a finished child answers, from its stored operation.\<close>

definition child_replay_outcome :: "'a codec \<Rightarrow> operation \<Rightarrow> durable_error + 'a" where
  "child_replay_outcome c op =
     (if op_status op = Succeeded then
        (case get_result op of
           Some s \<Rightarrow> deserialize_or ''Failed to deserialize child context result: '' c s
         | None \<Rightarrow> Inl (err_execution ''Child context was Succeeded''))
      else if op_status op = Failed then
        (case op_error op of Some e \<Rightarrow> Inl (replayed_user_error e)
         | None \<Rightarrow> Inl (err_execution ''Child context failed with unknown error''))
      else Inl (err_execution (''Child context was '' @ display_status (op_status op))))"

lemma child_handler_replays:
  assumes "get_operation (env_state v) (oi_operation_id oi) = Some op" "op_type op = ContextOp"
    and "is_terminal (op_status op)"
    and "\<not> (ch_replay_children cfg \<and> has_replay_children (env_state v) (oi_operation_id oi))"
  shows "\<exists>v'. child_handler sv c func oi cfg v = (child_replay_outcome c op, v') \<and>
     (v' = v \<or> v' = v\<lparr>env_state := track_replay (oi_operation_id oi) (env_state v)\<rparr>)"
  using assms
  by (cases "op_status op")
     (auto simp: child_handler_def child_unresolved_def get_checkpoint_result_def get_operation_def
        child_replay_outcome_def status_text_def bindE_lift Let_def split: option.split sum.split)

lemma child_handler_replays_value:
  assumes "get_operation (env_state v) (oi_operation_id oi) = Some op" "op_type op = ContextOp"
    and "is_terminal (op_status op)" "\<not> ch_replay_children cfg"
    and "child_replay_outcome c op = q" "\<forall>m. q \<noteq> Inl (SerDes m)"
  shows "child_handler sv c func oi cfg v =
     (q, v\<lparr>env_state := track_replay (oi_operation_id oi) (env_state v)\<rparr>)"
  using assms
  by (cases "op_status op")
     (auto simp: child_handler_def child_unresolved_def get_checkpoint_result_def get_operation_def
        child_replay_outcome_def status_text_def bindE_lift Let_def deserialize_or_def
        split: option.split sum.split)

text \<open>A finished child is not run again: the handler answers from the checkpoint, whatever function
  it is passed, without touching the world, and changes nothing of the execution state but the replay
  tracking; unless the caller and the checkpoint both ask for the children to be replayed.\<close>

lemma finished_child_not_rerun:
  assumes "get_operation (env_state v) (oi_operation_id oi) = Some op" "op_type op = ContextOp"
    and "is_terminal (op_status op)"
    and "ch_replay_children cfg \<Longrightarrow> \<not> has_replay_children (env_state v) (oi_operation_id oi)"
  shows "\<exists>v'. child_handler sv c func oi cfg v = (child_replay_outcome c op, v') \<and>
     (v' = v \<or> v' = v\<lparr>env_state := track_replay (oi_operation_id oi) (env_state v)\<rparr>)"
  by (rule child_handler_replays) (use assms in auto)

definition example_child :: "operation" where
  "example_child = (operation_new ''c'' ContextOp)\<lparr>op_status := Succeeded, op_result := Some ''42''\<rparr>"

lemma example_child_outcome:
  "child_replay_outcome text_codec example_child = Inr ''42''" "op_type example_child = ContextOp"
  "is_terminal (op_status example_child)" "op_id example_child = ''c''"
  by (simp_all add: example_child_def child_replay_outcome_def get_result_def first_some_def
      operation_new_def deserialize_or_def json_deserialize_def text_codec_def)

lemma finished_child_not_rerun_witness:
  "fst (child_handler mock_services text_codec (\<lambda>ctx v. (Inl (Validation ''never run''), v))
     (identifier_root ''c'') child_config_default (example_env [example_child])) = Inr ''42''"
proof -
  have "get_operation (env_state (example_env [example_child])) (oi_operation_id (identifier_root ''c'')) =
      Some example_child"
    by (simp add: example_env_one example_child_outcome identifier_root_def)
  from finished_child_not_rerun [OF this example_child_outcome(2,3), of child_config_default
      mock_services text_codec "\<lambda>ctx v. (Inl (Validation ''never run''), v)"]
  show ?thesis by (auto simp: child_config_default_def example_child_outcome)
qed

section \<open>Running a child\<close>

lemma child_update_sel [simp]:
  "up_id (child_start_update oi cfg) = oi_operation_id oi" "up_action (child_start_update oi cfg) = Start"
  "up_type (child_start_update oi cfg) = ContextOp"
  "up_id (child_succeed_update oi r) = oi_operation_id oi" "up_action (child_succeed_update oi r) = Succeed"
  "up_type (child_succeed_update oi r) = ContextOp" "up_result (child_succeed_update oi r) = r"
  "up_id (child_fail_update oi e) = oi_operation_id oi" "up_action (child_fail_update oi e) = Fail"
  "up_type (child_fail_update oi e) = ContextOp" "up_error (child_fail_update oi e) = Some e"
  by (simp_all add: child_start_update_def child_succeed_update_def child_fail_update_def Let_def def_simps)

lemma child_handler_fresh:
  assumes "get_operation (env_state v) (oi_operation_id oi) = None"
  shows "child_handler sv c func oi cfg v =
     bindE (create_checkpoint sv (child_start_update oi cfg) True) (\<lambda>_. run_child sv c func oi cfg) v"
  using assms by (simp add: child_handler_def get_checkpoint_result_def get_operation_def Let_def)

lemma child_handler_open:
  assumes "get_operation (env_state v) (oi_operation_id oi) = Some op" "op_type op = ContextOp"
    and "\<not> is_terminal (op_status op)"
  shows "child_handler sv c func oi cfg v = run_child sv c func oi cfg v"
  using assms by (cases "op_status op") (simp_all add: child_handler_def child_unresolved_def
      get_checkpoint_result_def get_operation_def Let_def)

text \<open>What the run of a child returns, the update that records it, and what a replay makes of it.\<close>

definition child_outcome :: "child_config \<Rightarrow> durable_error + 'a \<Rightarrow> durable_error + 'a" where
  "child_outcome cfg q = map_sum (map_child_error cfg) id q"

definition child_outcome_update ::
  "'a codec \<Rightarrow> operation_identifier \<Rightarrow> child_config \<Rightarrow> durable_error + 'a \<Rightarrow> operation_update \<Rightarrow> bool" where
  "child_outcome_update c oi cfg q u = (case q of
     Inr x \<Rightarrow> \<exists>s. to_json c x = Inr s \<and> u = child_succeed_update oi (Some (result_to_store cfg s))
   | Inl e \<Rightarrow> \<not> is_suspend e \<and> u = child_fail_update oi (error_object_from (map_child_error cfg e)))"

definition child_replayed :: "child_config \<Rightarrow> durable_error + 'a \<Rightarrow> durable_error + 'a" where
  "child_replayed cfg q = map_sum (\<lambda>e. replayed_user_error (error_object_from (map_child_error cfg e))) id q"

lemma child_replayed_user_code: "\<forall>m. child_replayed cfg q \<noteq> Inl (SerDes m)"
  by (cases q) (simp_all add: child_replayed_def replayed_user_error_def)

lemma child_complete_accepted:
  assumes "child_outcome_update c oi cfg q u" "accepts sv (env_state v) u (env_world v) t w'"
  shows "child_complete sv c oi cfg q v = (child_outcome cfg q, v\<lparr>
     env_state := mark_parent_done (oi_operation_id oi)
       (update_local_cache_from_update u (set_checkpoint_token t (env_state v))), env_world := w'\<rparr>)"
  using assms create_checkpoint_accepted [OF assms(2)]
  by (cases q) (auto simp: child_outcome_update_def child_outcome_def child_complete_def bindE_def Let_def
      serialize_or_def json_serialize_def)

lemma cached_child_outcome:
  assumes "child_outcome_update c oi cfg q u" "codec_roundtrip c"
    and "op_type old = ContextOp" "op_context_details old = None"
    and "\<And>x s. q = Inr x \<Longrightarrow> to_json c x = Inr s \<Longrightarrow> result_to_store cfg s = s"
  shows "op_type (cached_operation u (Some old)) = ContextOp"
    and "is_terminal (op_status (cached_operation u (Some old)))"
    and "child_replay_outcome c (cached_operation u (Some old)) = child_replayed cfg q"
  using assms
  by (auto simp: child_outcome_update_def child_replayed_def cached_operation_def child_replay_outcome_def
      get_result_def first_some_def deserialize_or_def json_deserialize_def codec_roundtrip_def
      split: sum.splits)

lemma fresh_operation_context [simp]:
  "op_type (fresh_operation u) = up_type u" "op_context_details (fresh_operation u) = None"
  "op_id (fresh_operation u) = up_id u" "op_status (fresh_operation u) = Started"
  by (simp_all add: fresh_operation_def operation_new_def)

lemma get_operation_mark_done [simp]:
  "get_operation (mark_parent_done p s) i = get_operation s i"
  by (simp add: get_operation_def mark_parent_done_def)

lemma run_child_accepted:
  assumes "func (create_child_context (oi_operation_id oi)) v = (q, v2)"
    and "child_outcome_update c oi cfg q u" "accepts sv (env_state v2) u (env_world v2) t2 w2"
  shows "run_child sv c func oi cfg v = (child_outcome cfg q, v2\<lparr>
     env_state := mark_parent_done (oi_operation_id oi)
       (update_local_cache_from_update u (set_checkpoint_token t2 (env_state v2))), env_world := w2\<rparr>)"
  using assms(1) child_complete_accepted [OF assms(2,3)] by (simp add: run_child_def)



text \<open>A child that suspends stays open: the suspension is returned as it is, nothing is recorded after
  the function, the child is not marked done, and the next invocation runs the function again without
  a second START.\<close>

lemma suspended_child_resumes:
  assumes "get_operation (env_state v) (oi_operation_id oi) = Some op" "op_type op = ContextOp"
    and "\<not> is_terminal (op_status op)"
    and "func (create_child_context (oi_operation_id oi)) v = (Inl (Suspend t), v1)"
    and "get_operation (env_state v2) (oi_operation_id oi) = Some op"
  shows "child_handler sv c func oi cfg v = (Inl (Suspend t), v1) \<and>
         child_handler sv' c func' oi cfg' v2 = run_child sv' c func' oi cfg' v2"
proof
  show "child_handler sv c func oi cfg v = (Inl (Suspend t), v1)"
    using assms(4) by (simp add: child_handler_open [OF assms(1-3)] run_child_def child_complete_def)
  show "child_handler sv' c func' oi cfg' v2 = run_child sv' c func' oi cfg' v2"
    by (rule child_handler_open [OF assms(5,2,3)])
qed


section \<open>Witnesses\<close>

text \<open>A service that accepts every checkpoint and keeps the token.\<close>

definition accepting_services :: "'w services" where
  "accepting_services =
     \<lparr>sv_checkpoint = (\<lambda>arn token us w. (Inr (checkpoint_response_new token), w)),
      sv_get_operations = (\<lambda>arn m w. (Inr \<lparr>gor_operations = [], gor_next_marker = None\<rparr>, w)),
      sv_sleep = (\<lambda>ms w. w), sv_send = (\<lambda>u is_sync t w. (Inr (), t, w))\<rparr>"

lemma accepting_accepts:
  "orphan_check u s = None \<Longrightarrow> accepts accepting_services s u w (es_token s) w"
  by (simp add: accepts_def accepting_services_def)

lemma orphan_check_root [simp]: "orphan_check (child_start_update (identifier_root i) cfg) s = None"
  "orphan_check (child_succeed_update (identifier_root i) r) s = None"
  by (simp_all add: orphan_check_def child_start_update_def child_succeed_update_def identifier_root_def
      Let_def def_simps)

lemma identifier_root_sel [simp]: "oi_operation_id (identifier_root i) = i"
  by (simp add: identifier_root_def)


lemma suspended_child_resumes_witness:
  "fst (child_handler accepting_services text_codec (\<lambda>ctx v. (Inl (Suspend None), v)) (identifier_root ''c'')
     child_config_default (example_env [operation_new ''c'' ContextOp])) = Inl (Suspend None)"
proof -
  let ?op = "operation_new ''c'' ContextOp" and ?f = "\<lambda>ctx v. (Inl (Suspend None), v)"
  have get: "get_operation (env_state (example_env [?op])) (oi_operation_id (identifier_root ''c'')) = Some ?op"
    by (simp add: example_env_one operation_new_def)
  have op: "op_type ?op = ContextOp" "\<not> is_terminal (op_status ?op)"
    by (simp_all add: operation_new_def)
  have "child_handler accepting_services text_codec ?f (identifier_root ''c'') child_config_default
      (example_env [?op]) = (Inl (Suspend None), example_env [?op])"
    using suspended_child_resumes [where func = ?f and func' = ?f and sv' = accepting_services and t = None,
        OF get op refl get] by blast
  then show ?thesis by simp
qed

section \<open>Summaries\<close>

text \<open>With a summary generator, a result above the threshold is returned by the first invocation, and a
  later one, without the replay of the children, reads the summary as if it were the result.\<close>

lemma large_child_result_replayed_from_summary:
  assumes "ch_summary_generator cfg = Some g" "to_json c x = Inr s" "length s > SUMMARY_THRESHOLD"
    and "child_outcome_update c oi cfg (Inr x) u" "op_type old = ContextOp" "op_context_details old = None"
  shows "child_outcome cfg (Inr x) = Inr x \<and>
     child_replay_outcome c (cached_operation u (Some old)) =
       deserialize_or ''Failed to deserialize child context result: '' c (g s)"
  using assms by (auto simp: child_outcome_def child_outcome_update_def child_replay_outcome_def
      cached_operation_def get_result_def first_some_def result_to_store_def)

end
