(* ===== verification/Config_Facts.thy ===== *)
theory Config_Facts
  imports Config_Model
begin

text \<open>
  Properties of \<open>sdk/src/config.rs\<close>: every strategy stops at its number of attempts and never asks
  for less than one second or more than its cap; the jitter factor lies in the closed unit interval;
  the item batcher partitions its input in order and within its limits.
\<close>

section \<open>Jitter\<close>

lemma sum_bytes: "(\<Sum>k<n. 255 * 256 ^ k) = (256::nat) ^ n - 1"
proof (induction n)
  case (Suc n)
  have "1 \<le> (256::nat) ^ n" by simp
  with Suc show ?case by simp
qed simp

lemma u64_from_le_bytes_less: "u64_from_le_bytes bs < 2 ^ 64"
proof -
  have b: "unat (b :: u8) \<le> 255" for b using unsigned_less [of b, where ?'a = nat] by simp
  have "u64_from_le_bytes bs \<le> (\<Sum>k<8. 255 * 256 ^ k)"
    unfolding u64_from_le_bytes_def by (intro sum_mono mult_right_mono b) simp
  also have "\<dots> = 256 ^ 8 - 1" by (rule sum_bytes)
  also have "\<dots> < (2::nat) ^ 64" by simp
  finally show ?thesis .
qed

lemma fl_u64_max: "fl (2 ^ 64 - 1) = 2 ^ 64"
  by code_simp

text \<open>Any factor is a number between 0 and 1.\<close>

lemma deterministic_random_factor_bounds:
  "\<exists>f. deterministic_random_factor blake2b attempt = Fin f \<and> 0 \<le> f \<and> f \<le> 1"
proof -
  let ?v = "u64_from_le_bytes (take 8 (blake2b (map of_char ''jitter'' @ le_bytes attempt)))"
  have "?v \<le> 2 ^ 64 - 1" using u64_from_le_bytes_less [of "take 8 (blake2b (map of_char ''jitter'' @ le_bytes attempt))"] by simp
  then have "(of_nat ?v :: rat) \<le> of_nat (2 ^ 64 - 1)" by (rule of_nat_mono)
  then have le: "fl (of_nat ?v) \<le> 2 ^ 64"
    using fl_mono_nonneg [of "of_nat ?v" "2 ^ 64 - 1"] fl_u64_max by (simp add: of_nat_diff)
  have nn: "0 \<le> fl (of_nat ?v)" by (simp add: fl_nonneg)
  have "fl (fl (of_nat ?v) / 2 ^ 64) \<le> fl 1"
    using le nn by (intro fl_mono_nonneg) simp_all
  moreover have "fl 1 = 1" using fl_exact_nat [of 1] by simp
  moreover have "deterministic_random_factor blake2b attempt = Fin (fl (fl (of_nat ?v) / 2 ^ 64))"
    using fl_u64_max by (simp add: deterministic_random_factor_def Let_def f64_of_nat_def of_nat_diff)
  ultimately show ?thesis using nn by (simp add: fl_nonneg)
qed

lemma f64_of_rat_bounded:
  assumes "0 \<le> x" "x \<le> of_nat n" "n < 2 ^ 53"
  shows "f64_of_rat x = Fin (fl x) \<and> 0 \<le> fl x \<and> fl x \<le> of_nat n"
proof -
  have "fl x \<le> of_nat n" using fl_mono_nonneg [OF assms(1,2)] fl_exact_nat [OF assms(3)] by simp
  moreover have "(of_nat n :: rat) < 2 ^ 53"
    using assms(3) by (metis of_nat_less_iff of_nat_numeral of_nat_power)
  moreover have "(2::rat) ^ 53 < 2 ^ 1024" by (rule power_strict_increasing) simp_all
  moreover have "- (2 ^ 1024) < (0::rat)" by simp
  ultimately show ?thesis using fl_nonneg [OF assms(1)]
    unfolding f64_of_rat_def Let_def by (smt (verit) order.strict_trans1 order.strict_trans not_le)
qed

text \<open>Full jitter on a delay between 0 and a whole number of seconds stays between the two.\<close>

lemma jitter_apply_bounds:
  assumes "j \<noteq> HalfJitter" "0 \<le> d" "d \<le> of_nat n" "n < 2 ^ 53"
  shows "\<exists>y. jitter_apply blake2b j (Fin d) attempt = Fin y \<and> 0 \<le> y \<and> y \<le> of_nat n"
proof (cases j)
  case FullJitter
  obtain f where f: "deterministic_random_factor blake2b attempt = Fin f" "0 \<le> f" "f \<le> 1"
    using deterministic_random_factor_bounds by blast
  have "f * d \<le> 1 * d" using f assms(2) by (intro mult_right_mono) simp_all
  then have "f * d \<le> of_nat n" using assms(3) by simp
  with f assms(2,4) FullJitter f64_of_rat_bounded [of "f * d" n] show ?thesis
    by (simp add: jitter_apply_def)
qed (use assms in \<open>simp_all add: jitter_apply_def\<close>)

text \<open>The factor that the hash of an attempt gives is never outside the closed unit interval, and it
  is exactly one for a hash that starts with eight bytes of ones: the interval is closed.\<close>

lemma jitter_factor_closed_interval:
  "(\<exists>f. deterministic_random_factor blake2b attempt = Fin f \<and> 0 \<le> f \<and> f \<le> 1) \<and>
   deterministic_random_factor (\<lambda>_. replicate 64 255) attempt = Fin 1"
proof
  have "u64_from_le_bytes (replicate 8 255) = (\<Sum>k<8. 255 * 256 ^ k)"
    unfolding u64_from_le_bytes_def by (rule sum.cong) simp_all
  also have "\<dots> = 256 ^ 8 - 1" by (rule sum_bytes)
  finally have v: "u64_from_le_bytes (replicate 8 255) = 2 ^ 64 - 1" by simp
  have t: "take 8 (replicate 64 (255 :: u8)) = replicate 8 255" by (simp only: take_replicate) simp
  have one: "f64_div (f64_of_nat (2 ^ 64 - 1)) (f64_of_nat (2 ^ 64 - 1)) = Fin 1"
    using fl_u64_max fl_exact_nat [of 1] by (simp add: f64_of_nat_def of_nat_diff)
  show "deterministic_random_factor (\<lambda>_. replicate 64 255) attempt = Fin 1"
    unfolding deterministic_random_factor_def Let_def t v by (rule one)
qed (rule deterministic_random_factor_bounds)

section \<open>What a retry strategy promises\<close>

locale retry_policy =
  fixes next_delay :: retry_strategy and max_attempts :: u32
  assumes exhausted: "max_attempts \<le> attempt \<Longrightarrow> next_delay attempt err = None"
    and at_least_a_second: "next_delay attempt err = Some d \<Longrightarrow> 1 \<le> unat (to_seconds d)"
begin

lemma retry_before_max: "next_delay attempt err = Some d \<Longrightarrow> attempt < max_attempts"
  using exhausted [of attempt err] by (cases "max_attempts \<le> attempt") auto

lemma delay_valid_for_wait: "next_delay attempt err = Some d \<Longrightarrow> validate_for_wait d = Inr ()"
  using at_least_a_second by (fastforce simp: validate_for_wait_ok)

text \<open>However the errors of the attempts look, attempts counted from 0 are granted a retry only
  finitely often, at most \<open>max_attempts\<close> times.\<close>

lemma retries_bounded: "card {n. n < 2 ^ 32 \<and> next_delay (of_nat n) (err n) \<noteq> None} \<le> unat max_attempts"
proof -
  have "{n. n < 2 ^ 32 \<and> next_delay (of_nat n) (err n) \<noteq> None} \<subseteq> {..< unat max_attempts}"
  proof
    fix n assume "n \<in> {n. n < 2 ^ 32 \<and> next_delay (of_nat n) (err n) \<noteq> None}"
    then obtain d where "n < 2 ^ 32" "next_delay (of_nat n) (err n) = Some d" by auto
    then have "(of_nat n :: u32) < max_attempts" "unat (of_nat n :: u32) = n"
      using retry_before_max by (auto simp: unat_of_nat)
    then show "n \<in> {..< unat max_attempts}" by (simp add: word_less_nat_alt)
  qed
  then have "card {n. n < 2 ^ 32 \<and> next_delay (of_nat n) (err n) \<noteq> None} \<le> card {..< unat max_attempts}"
    by (intro card_mono) simp_all
  then show ?thesis by simp
qed

end

lemma final_delay_at_least_a_second: "1 \<le> unat (to_seconds (final_delay x))"
  using f64_to_u64_max_one by (simp add: final_delay_def from_seconds_def)

interpretation exponential: retry_policy "exponential_next_delay blake2b pw eb" "eb_max_attempts eb"
  for blake2b pw eb
  by unfold_locales
     (auto simp: exponential_next_delay_def Let_def split: if_splits
        intro: final_delay_at_least_a_second [unfolded One_nat_def])

interpretation fixed: retry_policy "fixed_next_delay blake2b fd" "fd_max_attempts fd" for blake2b fd
  by unfold_locales
     (auto simp: fixed_next_delay_def split: if_splits
        intro: final_delay_at_least_a_second [unfolded One_nat_def])

interpretation linear: retry_policy "linear_next_delay blake2b lb" "lb_max_attempts lb" for blake2b lb
  by unfold_locales
     (auto simp: linear_next_delay_def Let_def split: if_splits
        intro: final_delay_at_least_a_second [unfolded One_nat_def])

interpretation no_retry: retry_policy no_retry_next_delay 0
  by unfold_locales (simp_all add: no_retry_next_delay_def)

section \<open>Bounds of the delays\<close>

lemma final_delay_bounds:
  assumes "f64_le_nat x m" "m < 2 ^ 53"
  shows "unat (to_seconds (final_delay x)) \<le> max 1 m"
proof -
  obtain b where b: "f64_max x (Fin 1) = Fin b" "1 \<le> b" "b \<le> of_nat (max 1 m)"
    using f64_max_one_finite [OF assms(1)] by blast
  have "max 1 m < 2 ^ 64" using assms(2) by simp
  with f64_to_u64_bounds [OF b(2,3)] b(1) show ?thesis
    by (simp add: final_delay_def from_seconds_def)
qed

lemma seconds_f64_exact:
  "unat (to_seconds d) < 2 ^ 53 \<Longrightarrow> seconds_f64 d = Fin (of_nat (unat (to_seconds d)))"
  by (simp add: seconds_f64_def f64_of_nat_exact)

text \<open>An exponential backoff without jitter never asks for more than its maximal delay (or one
  second, if that is larger), whatever the multiplier and the powers are, infinite and undefined
  results included, and it grants exactly the attempts below its maximum.\<close>

lemma exponential_backoff_bounds:
  assumes "eb_jitter eb = NoJitter" "unat (to_seconds (eb_max_delay eb)) < 2 ^ 53"
  shows "(exponential_next_delay blake2b pw eb attempt err = None \<longleftrightarrow> eb_max_attempts eb \<le> attempt) \<and>
     (\<forall>d. exponential_next_delay blake2b pw eb attempt err = Some d \<longrightarrow>
        1 \<le> unat (to_seconds d) \<and> unat (to_seconds d) \<le> max 1 (unat (to_seconds (eb_max_delay eb))))"
proof (intro conjI allI impI)
  fix d assume d: "exponential_next_delay blake2b pw eb attempt err = Some d"
  then show "1 \<le> unat (to_seconds d)" by (rule exponential.at_least_a_second)
  from d show "unat (to_seconds d) \<le> max 1 (unat (to_seconds (eb_max_delay eb)))"
    using final_delay_bounds [OF f64_min_le assms(2)] seconds_f64_exact [OF assms(2)] assms(1)
    by (auto simp: exponential_next_delay_def Let_def jitter_apply_def split: if_splits)
qed (simp add: exponential_next_delay_def Let_def)

lemma exponential_backoff_bounds_witness:
  "\<exists>d. exponential_next_delay (\<lambda>_. []) (\<lambda>a n. PosInf) exponential_backoff_default 2 ''err'' = Some d \<and>
     unat (to_seconds d) \<le> 3600"
  using exponential_backoff_bounds [of exponential_backoff_default "\<lambda>_. []" "\<lambda>a n. PosInf" 2 "''err''"]
  by (auto simp: exponential_backoff_default_def from_hours_def)

text \<open>A linear backoff without jitter grants exactly the attempts below its maximum, and the delay is
  the base delay times the number of the attempt counted from 1, capped at the maximal delay, and at
  least a second. The multiplication saturates instead of wrapping.\<close>

lemma linear_backoff_delay:
  assumes "lb_jitter lb = NoJitter" "unat (to_seconds (lb_max_delay lb)) < 2 ^ 53"
  shows "linear_next_delay blake2b lb attempt err =
     (if lb_max_attempts lb \<le> attempt then None
      else Some (Duration (of_nat (max 1 (min (unat (to_seconds (lb_base_delay lb)) * (unat attempt + 1))
        (unat (to_seconds (lb_max_delay lb))))))))"
proof (cases "lb_max_attempts lb \<le> attempt")
  case False
  let ?base = "to_seconds (lb_base_delay lb)" and ?max = "to_seconds (lb_max_delay lb)"
  have "unat attempt < unat (lb_max_attempts lb)" using False by (simp add: word_le_nat_alt)
  then have less: "unat attempt < 2 ^ LENGTH(32) - 1"
    using unsigned_less [of "lb_max_attempts lb", where ?'a = nat] by simp
  have at: "unat (ucast (attempt + 1) :: u64) = unat attempt + 1"
    using unat_Suc_word [OF less] by (simp add: unsigned_ucast_eq take_bit_nat_eq_self unsigned_less [THEN order.strict_trans2])
  have mn: "unat (min a b) = min (unat a) (unat (b::u64))" for a b
    by (simp add: min_def word_le_nat_alt)
  define m where "m = unat (min (saturating_mul ?base (ucast (attempt + 1))) ?max)"
  have "m = min (min (unat ?base * (unat attempt + 1)) (2 ^ 64 - 1)) (unat ?max)"
    by (simp add: m_def mn unat_saturating_mul at)
  then have m: "m = min (unat ?base * (unat attempt + 1)) (unat ?max)" "m < 2 ^ 53"
    using assms(2) unsigned_less [of ?max, where ?'a = nat] by auto
  have "f64_max (Fin (of_nat m)) (Fin 1) = Fin (of_nat (max 1 m))"
    by (auto simp: f64_max_def)
  moreover have "max 1 m < 2 ^ 53" using m(2) by simp
  ultimately have "final_delay (f64_of_nat m) = Duration (of_nat (max 1 m))"
    using f64_of_nat_exact [OF m(2)] f64_to_u64_of_nat [of "max 1 m"]
    by (simp add: final_delay_def from_seconds_def)
  then show ?thesis using False m(1) assms(1)
    by (simp add: linear_next_delay_def Let_def jitter_apply_def flip: m_def)
qed (simp add: linear_next_delay_def)

lemma linear_backoff_delay_witness:
  "linear_next_delay (\<lambda>_. []) (linear_backoff_new 5 (Duration 10)) 2 ''err'' = Some (Duration 30)"
  using linear_backoff_delay [of "linear_backoff_new 5 (Duration 10)" "\<lambda>_. []" 2 "''err''"]
  by (simp add: linear_backoff_new_def from_hours_def)

section \<open>Polling\<close>

lemma f64_round_bounds:
  assumes "1 \<le> a" "a \<le> of_nat m"
  shows "\<exists>b. f64_round (Fin a) = Fin b \<and> 1 \<le> b \<and> b \<le> of_nat m"
proof -
  have "1 \<le> \<lfloor>a + 1 / 2\<rfloor>" using assms(1) by (simp add: le_floor_iff)
  moreover have "\<lfloor>a + 1 / 2\<rfloor> \<le> int m" using assms(2) by (simp add: floor_le_iff)
  ultimately have "(1::rat) \<le> of_int \<lfloor>a + 1 / 2\<rfloor>" "(of_int \<lfloor>a + 1 / 2\<rfloor> :: rat) \<le> of_nat m"
    by (metis of_int_le_iff of_int_1 of_int_of_nat_eq)+
  then show ?thesis using assms(1) by simp
qed

text \<open>A polling strategy without jitter stops when the condition holds or the attempts are used up,
  60 by default, and otherwise waits for at least one second and at most the maximal delay (or one
  second, if that is larger), so every decision to continue is a valid wait.\<close>

lemma wait_strategy_decision:
  fixes cfg :: "'a wait_strategy_config"
  assumes "ws_jitter cfg = NoJitter" "unat (to_seconds (ws_max_delay cfg)) < 2 ^ 53"
  defines "limit \<equiv> (case ws_max_attempts cfg of Some n \<Rightarrow> n | None \<Rightarrow> 60)"
  shows "(create_wait_strategy blake2b pw cfg result n = Done \<longleftrightarrow>
       \<not> ws_should_continue_polling cfg result \<or> limit \<le> n) \<and>
     (\<forall>d. create_wait_strategy blake2b pw cfg result n = Continue d \<longrightarrow>
        validate_for_wait d = Inr () \<and> unat (to_seconds d) \<le> max 1 (unat (to_seconds (ws_max_delay cfg))))"
proof -
  let ?m = "unat (to_seconds (ws_max_delay cfg))"
  have "f64_to_u64 (f64_round (f64_max (f64_min x (seconds_f64 (ws_max_delay cfg))) (Fin 1))) \<noteq> 0 \<and>
      unat (f64_to_u64 (f64_round (f64_max (f64_min x (seconds_f64 (ws_max_delay cfg))) (Fin 1)))) \<le> max 1 ?m"
    for x
  proof -
    obtain a where a: "f64_max (f64_min x (Fin (of_nat ?m))) (Fin 1) = Fin a" "1 \<le> a" "a \<le> of_nat (max 1 ?m)"
      using f64_max_one_finite [OF f64_min_le] by blast
    obtain b where b: "f64_round (Fin a) = Fin b" "1 \<le> b" "b \<le> of_nat (max 1 ?m)"
      using f64_round_bounds [OF a(2,3)] by blast
    have "max 1 ?m < 2 ^ 64" using assms(2) by simp
    with f64_to_u64_bounds [OF b(2,3)] have "f64_to_u64 (Fin b) \<noteq> 0 \<and> unat (f64_to_u64 (Fin b)) \<le> max 1 ?m"
      by (metis not_one_le_zero unsigned_0)
    then show ?thesis unfolding seconds_f64_exact [OF assms(2)] a(1) b(1) .
  qed
  then show ?thesis
    by (auto simp: create_wait_strategy_def Let_def limit_def jitter_apply_def assms(1)
        from_seconds_def validate_for_wait_ok not_le simp del: f64_round.simps)
qed

definition example_polling :: "nat wait_strategy_config" where
  "example_polling = \<lparr>ws_max_attempts = Some 3, ws_initial_delay = Duration 5,
     ws_max_delay = Duration 300, ws_backoff_rate = Fin 2, ws_jitter = NoJitter,
     ws_should_continue_polling = (\<lambda>n. n < 10)\<rparr>"

lemma wait_strategy_decision_witness:
  "create_wait_strategy (\<lambda>_. []) (\<lambda>a n. Fin 1) example_polling 0 3 = Done \<and>
   create_wait_strategy (\<lambda>_. []) (\<lambda>a n. Fin 1) example_polling 0 2 \<noteq> Done"
  using wait_strategy_decision [of example_polling "\<lambda>_. []" "\<lambda>a n. Fin 1" 0 3]
    wait_strategy_decision [of example_polling "\<lambda>_. []" "\<lambda>a n. Fin 1" 0 2]
  by (simp add: example_polling_def)

section \<open>Item batches\<close>

text \<open>A batch of a list: its start index and its items are those of the list.\<close>

definition batch_of :: "item_batcher \<Rightarrow> ('a \<Rightarrow> nat) \<Rightarrow> 'a list \<Rightarrow> nat \<times> 'a list \<Rightarrow> bool" where
  "batch_of ib json_len all sb \<longleftrightarrow> (case sb of (start, b) \<Rightarrow>
     b \<noteq> [] \<and> take (length b) (drop start all) = b \<and> length b \<le> ib_max_items_per_batch ib \<and>
     (length b = 1 \<or> sum_list (map json_len b) \<le> ib_max_bytes_per_batch ib))"

lemma batch_loop_partition:
  assumes "1 \<le> ib_max_items_per_batch ib"
    and "\<forall>sb \<in> set batches. batch_of ib json_len all sb"
    and "all = concat (map snd batches) @ current @ items"
    and "start = length (concat (map snd batches))" "i = start + length current"
    and "bytes = sum_list (map json_len current)"
    and "length current \<le> ib_max_items_per_batch ib"
    and "length current \<le> 1 \<or> bytes \<le> ib_max_bytes_per_batch ib"
  shows "concat (map snd (batch_loop ib json_len i items batches current bytes start)) = all \<and>
     (\<forall>sb \<in> set (batch_loop ib json_len i items batches current bytes start). batch_of ib json_len all sb)"
  using assms
proof (induction items arbitrary: i batches current bytes start)
  case Nil
  have "length current = 1 \<or> length current \<noteq> Suc 0" by simp
  with Nil show ?case by (cases current) (auto simp: batch_of_def)
next
  case (Cons item items)
  show ?case
  proof (cases "length current \<ge> ib_max_items_per_batch ib \<or>
      bytes + json_len item > ib_max_bytes_per_batch ib \<and> current \<noteq> []")
    case True
    then have ne: "current \<noteq> []" using Cons.prems(1) by auto
    have "batch_of ib json_len all (start, current)"
      using Cons.prems(3,4,6-8) ne by (cases current) (auto simp: batch_of_def)
    then have "\<forall>sb \<in> set (batches @ [(start, current)]). batch_of ib json_len all sb"
      using Cons.prems(2) by auto
    moreover have step: "batch_loop ib json_len i (item # items) batches current bytes start =
        batch_loop ib json_len (Suc i) items (batches @ [(start, current)]) [item] (json_len item) i"
      using True by (simp add: Let_def)
    ultimately show ?thesis unfolding step
      by (intro Cons.IH) (use Cons.prems(1,3-5) in \<open>simp_all\<close>)
  next
    case False
    then have step: "batch_loop ib json_len i (item # items) batches current bytes start =
        batch_loop ib json_len (Suc i) items batches (current @ [item]) (bytes + json_len item) start"
      by (auto simp: Let_def)
    show ?thesis unfolding step
      by (intro Cons.IH) (use Cons.prems(1-6) False in \<open>auto simp: not_le\<close>)
  qed
qed

text \<open>The batches of the item batcher, taken together, are the items in their order; each batch is
  non-empty, starts at the index it names, holds at most the maximal number of items, and more than
  one item only within the byte limit.\<close>

lemma item_batches_partition:
  assumes "1 \<le> ib_max_items_per_batch ib"
  shows "concat (map snd (batch_items ib json_len items)) = items \<and>
     (\<forall>(start, b) \<in> set (batch_items ib json_len items).
        b \<noteq> [] \<and> take (length b) (drop start items) = b \<and> length b \<le> ib_max_items_per_batch ib \<and>
        (length b = 1 \<or> sum_list (map json_len b) \<le> ib_max_bytes_per_batch ib))"
  using batch_loop_partition [OF assms, of "[]" json_len items "[]" items 0 0 0]
  by (auto simp: batch_items_def batch_of_def split_beta)

lemma item_batches_partition_witness:
  "concat (map snd (batch_items \<lparr>ib_max_items_per_batch = 2, ib_max_bytes_per_batch = 1024\<rparr>
     (\<lambda>_. 3) ''abcde'')) = ''abcde''"
  using item_batches_partition [of "\<lparr>ib_max_items_per_batch = 2, ib_max_bytes_per_batch = 1024\<rparr>" "\<lambda>_. 3"
      "''abcde''"] by simp

text \<open>With a maximum of no items per batch, every batcher answer on a non-empty list starts with a
  batch that has no items.\<close>

lemma item_batches_zero_limit:
  assumes "ib_max_items_per_batch ib = 0" "items \<noteq> []"
  shows "\<exists>more. batch_items ib json_len items = (0, []) # more"
proof -
  have "\<exists>more. batch_loop ib json_len i xs bs cur n s = bs @ more" for i xs bs cur n s
  proof (induction xs arbitrary: i bs cur n s)
    case (Cons x xs)
    then show ?case by (auto simp: Let_def) (metis append.assoc)+
  qed simp
  from this [of 1 "tl items" "[(0, [])]"] show ?thesis
    using assms by (cases items) (auto simp: batch_items_def Let_def)
qed

lemma item_batches_zero_limit_witness:
  "\<exists>more. batch_items \<lparr>ib_max_items_per_batch = 0, ib_max_bytes_per_batch = 1024\<rparr> (\<lambda>_. 3) ''ab'' =
     (0, []) # more"
  by (rule item_batches_zero_limit) simp_all

end
