(* ===== verification/Wait_Condition.thy ===== *)
theory Wait_Condition
  imports Child_Facts Config_Facts
begin

text \<open>
  Polling: \<open>sdk/src/handlers/wait_for_condition.rs\<close> with its configuration in
  \<open>sdk/src/context.rs\<close>. A check is one attempt of a single \<open>STEP\<close> operation; when it fails, the wait
  strategy decides between a \<open>RETRY\<close> that stores the state and the next attempt, and the end. The
  check is a function of the state and the attempt that reads and changes the world. The lemmas
  follow one attempt and the sequence of attempts over several invocations.
\<close>

section \<open>State, context and configuration\<close>

record 's condition_state =
  wc_user_state :: 's
  wc_attempt :: nat

record condition_context =
  cc_attempt :: nat
  cc_max_attempts :: "nat option"

record 's condition_config =
  wcc_initial_state :: 's
  wcc_wait_strategy :: "'s \<Rightarrow> nat \<Rightarrow> wait_decision"

definition from_interval :: "'s \<Rightarrow> duration \<Rightarrow> nat option \<Rightarrow> 's condition_config" where
  "from_interval initial_state interval max_attempts =
     (let max = (case max_attempts of Some n \<Rightarrow> n | None \<Rightarrow> 2 ^ 64 - 1)
      in \<lparr>wcc_initial_state = initial_state,
          wcc_wait_strategy = (\<lambda>_ attempts_made.
            if attempts_made \<ge> max then Done else Continue (from_seconds (to_seconds interval)))\<rparr>)"

type_synonym ('w, 's, 'a) condition_check =
  "'s \<Rightarrow> condition_context \<Rightarrow> 'w \<Rightarrow> (string + 'a) \<times> 'w"

section \<open>Updates\<close>

definition condition_update :: "operation_identifier \<Rightarrow> operation_update \<Rightarrow> operation_update" where
  "condition_update oi u = apply_to oi (with_sub_type ''wait_for_condition'' u)"

definition condition_start_update :: "operation_identifier \<Rightarrow> operation_update" where
  "condition_start_update oi = condition_update oi (update_start (oi_operation_id oi) StepOp)"

definition condition_succeed_update :: "operation_identifier \<Rightarrow> string option \<Rightarrow> operation_update" where
  "condition_succeed_update oi r = condition_update oi (update_succeed (oi_operation_id oi) StepOp r)"

definition condition_fail_update :: "operation_identifier \<Rightarrow> error_object \<Rightarrow> operation_update" where
  "condition_fail_update oi e = condition_update oi (update_fail (oi_operation_id oi) StepOp e)"

definition condition_retry_update ::
  "operation_identifier \<Rightarrow> string option \<Rightarrow> u64 option \<Rightarrow> operation_update" where
  "condition_retry_update oi p delay =
     condition_update oi (update_retry (oi_operation_id oi) StepOp p delay)"

section \<open>The handler\<close>

definition condition_handle_replay ::
  "'a codec \<Rightarrow> checkpointed_result \<Rightarrow> operation_identifier \<Rightarrow> ('w env, durable_error, 'a option) cmd"
where
  "condition_handle_replay c r oi =
     (case cr_operation_type r of
        None \<Rightarrow> retE None
      | Some ty \<Rightarrow>
          if ty \<noteq> StepOp then throwE (non_deterministic_error StepOp ty (oi_operation_id oi))
          else if cr_is_succeeded r then
            bindE (track (oi_operation_id oi)) (\<lambda>_.
              case cr_result r of
                Some s \<Rightarrow> liftE (map_sum id Some
                  (deserialize_or ''Failed to deserialize checkpointed result: '' c s))
              | None \<Rightarrow> retE None)
          else if cr_is_failed r then
            bindE (track (oi_operation_id oi)) (\<lambda>_.
              case cr_error r of
                Some e \<Rightarrow> throwE (replayed_user_error e)
              | None \<Rightarrow> throwE (err_execution ''wait_for_condition failed with unknown error''))
          else retE None)"

definition get_current_state ::
  "'s condition_state codec \<Rightarrow> checkpointed_result \<Rightarrow> 's condition_config \<Rightarrow> durable_error + (nat \<times> 's)" where
  "get_current_state sc r cfg = (case cr_retry_payload r of
     Some payload \<Rightarrow>
       (case deserialize_or ''Failed to deserialize wait_for_condition state: '' sc payload of
          Inl e \<Rightarrow> Inl e
        | Inr st \<Rightarrow> Inr (wc_attempt st, wc_user_state st))
   | None \<Rightarrow> (case cr_attempt r of
       Some attempt \<Rightarrow> Inr (unat attempt, wcc_initial_state cfg)
     | None \<Rightarrow> Inr (1, wcc_initial_state cfg)))"

definition condition_not_met ::
  "'w services \<Rightarrow> 's condition_state codec \<Rightarrow> operation_identifier \<Rightarrow> 's condition_config \<Rightarrow> nat \<Rightarrow> 's \<Rightarrow>
   string \<Rightarrow> ('w env, durable_error, 'a) cmd"
where
  "condition_not_met sv sc oi cfg attempt user_state e =
     (case wcc_wait_strategy cfg user_state attempt of
        Done \<Rightarrow>
          bindE (create_checkpoint sv (condition_fail_update oi (error_object_new ''MaxAttemptsExceeded''
              (''Max attempts exceeded for wait_for_condition. Last error: '' @ e))) True) (\<lambda>_.
            throwE (Execution ''Max attempts exceeded for wait_for_condition'' ExecutionError))
      | Continue delay \<Rightarrow>
          bindE (liftE (serialize_or ''Failed to serialize wait_for_condition state: '' sc
              \<lparr>wc_user_state = user_state, wc_attempt = attempt + 1\<rparr>)) (\<lambda>s.
          bindE (create_checkpoint sv (condition_retry_update oi (Some s) (Some (to_seconds delay))) True)
            (\<lambda>_. throwE (Suspend None))))"

definition condition_attempt ::
  "'w services \<Rightarrow> 'a codec \<Rightarrow> 's condition_state codec \<Rightarrow> ('w, 's, 'a) condition_check \<Rightarrow>
   operation_identifier \<Rightarrow> 's condition_config \<Rightarrow> nat \<Rightarrow> 's \<Rightarrow> ('w env, durable_error, 'a) cmd"
where
  "condition_attempt sv c sc check oi cfg attempt user_state =
     bindE (run_user (check user_state \<lparr>cc_attempt = attempt, cc_max_attempts = None\<rparr>)) (\<lambda>q. case q of
       Inr x \<Rightarrow>
         bindE (liftE (serialize_or ''Failed to serialize wait_for_condition result: '' c x)) (\<lambda>s.
         bindE (create_checkpoint sv (condition_succeed_update oi (Some s)) True) (\<lambda>_. retE x))
     | Inl e \<Rightarrow> condition_not_met sv sc oi cfg attempt user_state e)"

definition wait_for_condition_handler ::
  "'w services \<Rightarrow> 'a codec \<Rightarrow> 's condition_state codec \<Rightarrow> ('w, 's, 'a) condition_check \<Rightarrow>
   operation_identifier \<Rightarrow> 's condition_config \<Rightarrow> ('w env, durable_error, 'a) cmd"
where
  "wait_for_condition_handler sv c sc check oi cfg v =
     (let r = get_checkpoint_result (env_state v) (oi_operation_id oi) in
      bindE (condition_handle_replay c r oi) (\<lambda>replayed. case replayed of
        Some x \<Rightarrow> retE x
      | None \<Rightarrow> bindE (liftE (get_current_state sc r cfg)) (\<lambda>(attempt, user_state).
          bindE (if attempt = 1 \<and> \<not> is_existent r
                 then create_checkpoint sv (condition_start_update oi) True else retE ()) (\<lambda>_.
          condition_attempt sv c sc check oi cfg attempt user_state))) v)"

end
