(* ===== verification/Wait_Condition_Facts.thy ===== *)
theory Wait_Condition_Facts
  imports Wait_Condition
begin

text \<open>
  Properties of polling. One attempt: a failing check stores the state and the number of the next
  attempt, which the next invocation hands to the check. All attempts: with a limit the polling ends
  after that many invocations. And two facts that differ from the documentation: the state is never
  changed by the check, and a wait that was cancelled, stopped or timed out is checked again.
\<close>

section \<open>One attempt\<close>

lemma condition_update_sel [simp]:
  "up_id (condition_update oi u) = up_id u" "up_action (condition_update oi u) = up_action u"
  "up_type (condition_update oi u) = up_type u" "up_result (condition_update oi u) = up_result u"
  "up_error (condition_update oi u) = up_error u"
  "up_step_options (condition_update oi u) = up_step_options u"
  "up_parent_id u = None \<Longrightarrow> up_parent_id (condition_update oi u) = oi_parent_id oi"
  by (simp_all add: condition_update_def def_simps split: option.split)

lemma condition_updates_sel [simp]:
  "up_id (condition_start_update oi) = oi_operation_id oi" "up_action (condition_start_update oi) = Start"
  "up_type (condition_start_update oi) = StepOp" "up_parent_id (condition_start_update oi) = oi_parent_id oi"
  "up_id (condition_succeed_update oi r) = oi_operation_id oi"
  "up_action (condition_succeed_update oi r) = Succeed" "up_type (condition_succeed_update oi r) = StepOp"
  "up_parent_id (condition_succeed_update oi r) = oi_parent_id oi"
  "up_result (condition_succeed_update oi r) = r"
  "up_id (condition_fail_update oi e) = oi_operation_id oi" "up_action (condition_fail_update oi e) = Fail"
  "up_type (condition_fail_update oi e) = StepOp" "up_error (condition_fail_update oi e) = Some e"
  "up_parent_id (condition_fail_update oi e) = oi_parent_id oi"
  "up_id (condition_retry_update oi p d) = oi_operation_id oi"
  "up_action (condition_retry_update oi p d) = Retry" "up_type (condition_retry_update oi p d) = StepOp"
  "up_parent_id (condition_retry_update oi p d) = oi_parent_id oi"
  "up_result (condition_retry_update oi p d) = p" "up_step_options (condition_retry_update oi p d) = Some d"
  by (simp_all add: condition_start_update_def condition_succeed_update_def condition_fail_update_def
      condition_retry_update_def def_simps)

text \<open>An operation that holds the state of the next attempt.\<close>

definition holds_attempt :: "'s condition_state codec \<Rightarrow> nat \<Rightarrow> 's \<Rightarrow> operation \<Rightarrow> bool" where
  "holds_attempt sc n st op \<longleftrightarrow> op_type op = StepOp \<and> op_status op \<notin> {Succeeded, Failed} \<and>
     (\<exists>s. get_retry_payload op = Some s \<and> from_json sc s = Inr \<lparr>wc_user_state = st, wc_attempt = n\<rparr>)"

lemma condition_handler_stored:
  assumes "get_operation (env_state v) (oi_operation_id oi) = Some op" "holds_attempt sc n st op"
  shows "wait_for_condition_handler sv c sc check oi cfg v = condition_attempt sv c sc check oi cfg n st v"
  using assms
  by (auto simp: wait_for_condition_handler_def condition_handle_replay_def get_current_state_def
      get_checkpoint_result_def get_operation_def holds_attempt_def deserialize_or_def
      json_deserialize_def bindE_lift Let_def)

lemma condition_handler_fresh:
  assumes "get_operation (env_state v) (oi_operation_id oi) = None"
  shows "wait_for_condition_handler sv c sc check oi cfg v =
     bindE (create_checkpoint sv (condition_start_update oi) True)
       (\<lambda>_. condition_attempt sv c sc check oi cfg 1 (wcc_initial_state cfg)) v"
  using assms
  by (simp add: wait_for_condition_handler_def condition_handle_replay_def get_current_state_def
      get_checkpoint_result_def get_operation_def bindE_lift Let_def)

lemma cached_retry_holds:
  assumes "op_type old = StepOp" "from_json sc s = Inr \<lparr>wc_user_state = st, wc_attempt = n\<rparr>"
  shows "holds_attempt sc n st (cached_operation (condition_retry_update oi (Some s) d) (Some old))"
  using assms by (auto simp: holds_attempt_def cached_operation_def Let_def get_retry_payload_def
      retry_step_details_def)

section \<open>Services that store every update\<close>

definition stores_updates :: "'w services \<Rightarrow> operation_identifier \<Rightarrow> bool" where
  "stores_updates sv oi \<longleftrightarrow> (\<forall>u v. up_id u = oi_operation_id oi \<longrightarrow> up_parent_id u = oi_parent_id oi \<longrightarrow>
     (\<exists>v1. create_checkpoint sv u True v = (Inr (), v1) \<and>
       get_operation (env_state v1) (oi_operation_id oi) =
         Some (cached_operation u (get_operation (env_state v) (oi_operation_id oi)))))"

lemma stores_updatesE:
  assumes "stores_updates sv oi" "up_id u = oi_operation_id oi" "up_parent_id u = oi_parent_id oi"
  obtains v1 where "create_checkpoint sv u True v = (Inr (), v1)"
    "get_operation (env_state v1) (oi_operation_id oi) =
       Some (cached_operation u (get_operation (env_state v) (oi_operation_id oi)))"
  using assms unfolding stores_updates_def by blast

lemma condition_not_met_continue:
  assumes "stores_updates sv oi" "codec_roundtrip sc"
    and "to_json sc \<lparr>wc_user_state = st, wc_attempt = n + 1\<rparr> = Inr s"
    and "wcc_wait_strategy cfg st n = Continue d"
    and "get_operation (env_state v) (oi_operation_id oi) = Some old" "op_type old = StepOp"
  obtains v1 op where "condition_not_met sv sc oi cfg n st e v = (Inl (Suspend None), v1)"
    "get_operation (env_state v1) (oi_operation_id oi) = Some op" "holds_attempt sc (n + 1) st op"
    "op_status op = Pending"
proof -
  let ?u = "condition_retry_update oi (Some s) (Some (to_seconds d))"
  obtain v1 where v1: "create_checkpoint sv ?u True v = (Inr (), v1)"
    "get_operation (env_state v1) (oi_operation_id oi) = Some (cached_operation ?u (Some old))"
    using stores_updatesE [OF assms(1), of ?u v] assms(5) by auto
  have "from_json sc s = Inr \<lparr>wc_user_state = st, wc_attempt = n + 1\<rparr>"
    using assms(2,3) by (simp add: codec_roundtrip_def)
  from cached_retry_holds [OF assms(6) this, of oi "Some (to_seconds d)"] v1 assms(3,4) show ?thesis
    by (intro that [of v1 "cached_operation ?u (Some old)"])
       (simp_all add: condition_not_met_def bindE_def serialize_or_def json_serialize_def
         cached_operation_def Let_def)
qed

lemma condition_not_met_done:
  assumes "stores_updates sv oi" "wcc_wait_strategy cfg st n = Done"
  obtains v1 where "condition_not_met sv sc oi cfg n st e v =
    (Inl (Execution ''Max attempts exceeded for wait_for_condition'' ExecutionError), v1)"
proof -
  let ?u = "condition_fail_update oi (error_object_new ''MaxAttemptsExceeded''
              (''Max attempts exceeded for wait_for_condition. Last error: '' @ e))"
  obtain v1 where "create_checkpoint sv ?u True v = (Inr (), v1)"
    using stores_updatesE [OF assms(1), of ?u v] by auto
  with assms(2) show ?thesis by (intro that [of v1]) (simp add: condition_not_met_def bindE_def)
qed

lemma condition_attempt_cases:
  assumes "check st \<lparr>cc_attempt = n, cc_max_attempts = None\<rparr> (env_world v) = (q, w)"
  shows "condition_attempt sv c sc check oi cfg n st v =
     (case q of
        Inr x \<Rightarrow> bindE (liftE (serialize_or ''Failed to serialize wait_for_condition result: '' c x)) (\<lambda>s.
           bindE (create_checkpoint sv (condition_succeed_update oi (Some s)) True) (\<lambda>_. retE x))
           (v\<lparr>env_world := w\<rparr>)
      | Inl e \<Rightarrow> condition_not_met sv sc oi cfg n st e (v\<lparr>env_world := w\<rparr>))"
  using assms by (simp add: condition_attempt_def run_user_def bindE_def split: sum.split)

lemma condition_met_ends:
  assumes "stores_updates sv oi"
  shows "\<exists>q v1. bindE (liftE (serialize_or m c x)) (\<lambda>s.
           bindE (create_checkpoint sv (condition_succeed_update oi (Some s)) True) (\<lambda>_. retE x)) v = (q, v1) \<and>
           \<not> (\<exists>t. q = Inl (Suspend t))"
proof (cases "to_json c x")
  case (Inl e)
  then show ?thesis by (simp add: bindE_def serialize_or_def json_serialize_def)
next
  case (Inr s)
  obtain v1 where "create_checkpoint sv (condition_succeed_update oi (Some s)) True v = (Inr (), v1)"
    using stores_updatesE [OF assms, of "condition_succeed_update oi (Some s)" v] by auto
  with Inr show ?thesis by (simp add: bindE_def serialize_or_def json_serialize_def)
qed

section \<open>All attempts\<close>

text \<open>Invocations that follow one another: while one suspends, \<open>resume\<close> loads the next one.\<close>

fun invocations :: "('w env \<Rightarrow> 'w env) \<Rightarrow> ('w env, durable_error, 'a) cmd \<Rightarrow> nat \<Rightarrow>
   ('w env, durable_error, 'a) cmd" where
  "invocations resume m 0 v = m v"
| "invocations resume m (Suc k) v = (case m v of
     (Inl (Suspend t), v1) \<Rightarrow> invocations resume m k (resume v1)
   | (q, v1) \<Rightarrow> (q, v1))"

text \<open>The service offers a pending operation again, unchanged but for its status.\<close>

definition resumes :: "('w env \<Rightarrow> 'w env) \<Rightarrow> string \<Rightarrow> bool" where
  "resumes resume i \<longleftrightarrow> (\<forall>v op. get_operation (env_state v) i = Some op \<longrightarrow> op_status op = Pending \<longrightarrow>
     (\<exists>st \<in> {Pending, Ready}. get_operation (env_state (resume v)) i = Some (op\<lparr>op_status := st\<rparr>)))"

lemma resumes_holds:
  assumes "resumes resume i" "get_operation (env_state v) i = Some op" "holds_attempt sc n st op"
    and "op_status op = Pending"
  obtains op' where "get_operation (env_state (resume v)) i = Some op'" "holds_attempt sc n st op'"
proof -
  obtain st' where "st' \<in> {Pending, Ready}"
    "get_operation (env_state (resume v)) i = Some (op\<lparr>op_status := st'\<rparr>)"
    using assms(1,2,4) unfolding resumes_def by blast
  with assms(3) show ?thesis
    by (intro that [of "op\<lparr>op_status := st'\<rparr>"]) (auto simp: holds_attempt_def get_retry_payload_def)
qed

lemma invocations_end:
  assumes "m v = (q, v1)" "\<not> (\<exists>t. q = Inl (Suspend t))"
  shows "invocations resume m k v = (q, v1)"
  using assms by (cases k) (auto split: sum.splits durable_error.splits)

lemma bounded_attempt:
  fixes v :: "'w env" and c :: "'a codec"
  assumes "stores_updates sv oi" "codec_roundtrip sc" "\<And>k. \<exists>s. to_json sc \<lparr>wc_user_state = st, wc_attempt = k\<rparr> = Inr s"
    and "cfg = from_interval st interval (Some m)"
    and "get_operation (env_state v) (oi_operation_id oi) = Some old" "op_type old = StepOp"
  shows "\<exists>q v1. condition_attempt sv c sc check oi cfg n st v = (q, v1) \<and>
     (\<not> (\<exists>t. q = Inl (Suspend t)) \<or>
      n < m \<and> q = Inl (Suspend None) \<and>
      (\<exists>op. get_operation (env_state v1) (oi_operation_id oi) = Some op \<and> holds_attempt sc (n + 1) st op \<and>
         op_status op = Pending))"
proof -
  obtain q w where q: "check st \<lparr>cc_attempt = n, cc_max_attempts = None\<rparr> (env_world v) = (q, w)" by fastforce
  let ?v = "v\<lparr>env_world := w\<rparr>"
  show ?thesis
  proof (cases q)
    case (Inr x)
    then show ?thesis
      using condition_met_ends [OF assms(1), of "''Failed to serialize wait_for_condition result: ''" c x ?v]
      by (auto simp: condition_attempt_cases [of check, OF q])
  next
    case (Inl e)
    note run = condition_attempt_cases [of check, OF q, of sv c sc oi cfg]
    show ?thesis
    proof (cases "n < m")
      case True
      obtain s where "to_json sc \<lparr>wc_user_state = st, wc_attempt = n + 1\<rparr> = Inr s"
        using assms(3) by blast
      moreover have "wcc_wait_strategy cfg st n = Continue (from_seconds (to_seconds interval))"
        using True assms(4) by (simp add: from_interval_def)
      moreover have "get_operation (env_state ?v) (oi_operation_id oi) = Some old" using assms(5) by simp
      ultimately obtain v1 op where "condition_not_met sv sc oi cfg n st e ?v = (Inl (Suspend None) :: durable_error + 'a, v1)"
        "get_operation (env_state v1) (oi_operation_id oi) = Some op" "holds_attempt sc (n + 1) st op"
        "op_status op = Pending"
        by (rule condition_not_met_continue [OF assms(1,2) _ _ _ assms(6)])
      with True Inl show ?thesis by (intro exI [of _ "Inl (Suspend None)"] exI [of _ v1]) (auto simp: run)
    next
      case False
      obtain v1 where "condition_not_met sv sc oi cfg n st e ?v =
          (Inl (Execution ''Max attempts exceeded for wait_for_condition'' ExecutionError) :: durable_error + 'a, v1)"
        using condition_not_met_done [OF assms(1), of cfg st n sc e ?v] False assms(4)
        by (auto simp: from_interval_def)
      with Inl show ?thesis by (auto simp: run)
    qed
  qed
qed

lemma polling_from_attempt:
  assumes "stores_updates sv oi" "codec_roundtrip sc" "\<And>k. \<exists>s. to_json sc \<lparr>wc_user_state = st, wc_attempt = k\<rparr> = Inr s"
    and "cfg = from_interval st interval (Some m)" "resumes resume (oi_operation_id oi)"
    and "get_operation (env_state v) (oi_operation_id oi) = Some op" "holds_attempt sc n st op"
  shows "\<exists>q v'. invocations resume (wait_for_condition_handler sv c sc check oi cfg) (m - n) v = (q, v') \<and>
     \<not> (\<exists>t. q = Inl (Suspend t))"
  using assms(6,7)
proof (induction "m - n" arbitrary: n v op)
  case 0
  then have "\<not> n < m" "op_type op = StepOp" by (simp_all add: holds_attempt_def)
  with bounded_attempt [OF assms(1-4) 0(2), where n = n and c = c and check = check] 0 show ?case
    by (auto simp: condition_handler_stored [OF 0(2,3)])
next
  case (Suc k)
  let ?h = "wait_for_condition_handler sv c sc check oi cfg"
  have "op_type op = StepOp" using Suc.prems(2) by (simp add: holds_attempt_def)
  from bounded_attempt [OF assms(1-4) Suc.prems(1) this, where n = n and c = c and check = check]
  obtain q v1 where q: "?h v = (q, v1)" and
    alt: "\<not> (\<exists>t. q = Inl (Suspend t)) \<or> q = Inl (Suspend None) \<and>
      (\<exists>op. get_operation (env_state v1) (oi_operation_id oi) = Some op \<and> holds_attempt sc (n + 1) st op \<and>
         op_status op = Pending)"
    by (auto simp: condition_handler_stored [OF Suc.prems])
  from alt show ?case
  proof
    assume "\<not> (\<exists>t. q = Inl (Suspend t))"
    then show ?thesis using invocations_end [of ?h, OF q] by blast
  next
    assume susp: "q = Inl (Suspend None) \<and>
      (\<exists>op. get_operation (env_state v1) (oi_operation_id oi) = Some op \<and> holds_attempt sc (n + 1) st op \<and>
         op_status op = Pending)"
    then obtain op' where "get_operation (env_state (resume v1)) (oi_operation_id oi) = Some op'"
      "holds_attempt sc (n + 1) st op'"
      using resumes_holds [OF assms(5)] by metis
    from Suc.hyps(1) [OF _ this] Suc.hyps(2)
    obtain q' v' where "invocations resume ?h k (resume v1) = (q', v')" "\<not> (\<exists>t. q' = Inl (Suspend t))"
      by (metis Suc_diff_Suc add_diff_cancel_left' diff_Suc_1 diff_diff_left plus_1_eq_Suc add.commute)
    then show ?thesis using q susp Suc.hyps(2) [symmetric] by simp
  qed
qed

text \<open>C22: Polling at an interval with a limit of \<open>m\<close> attempts ends: when the service stores every update of
  the operation and offers a pending operation again, one of the first \<open>max 1 m\<close> invocations returns a
  value or an error that is not a suspension, whatever the check answers.\<close>

theorem polling_ends:
  fixes v :: "'w env" and c :: "'a codec"
  assumes "stores_updates sv oi" "codec_roundtrip sc" "\<And>k. \<exists>s. to_json sc \<lparr>wc_user_state = st, wc_attempt = k\<rparr> = Inr s"
    and "resumes resume (oi_operation_id oi)"
    and "get_operation (env_state v) (oi_operation_id oi) = None"
  shows "\<exists>q v'. invocations resume (wait_for_condition_handler sv c sc check oi (from_interval st interval (Some m)))
       (m - 1) v = (q, v') \<and> \<not> (\<exists>t. q = Inl (Suspend t))"
proof -
  let ?cfg = "from_interval st interval (Some m)"
  let ?h = "wait_for_condition_handler sv c sc check oi ?cfg"
  obtain v0 where v0: "create_checkpoint sv (condition_start_update oi) True v = (Inr (), v0)"
    "get_operation (env_state v0) (oi_operation_id oi) = Some (fresh_operation (condition_start_update oi))"
    using stores_updatesE [OF assms(1), of "condition_start_update oi" v] assms(5)
    by (auto simp: cached_operation_def)
  have "wcc_initial_state ?cfg = st" by (simp add: from_interval_def Let_def)
  with v0(1) have run: "?h v = condition_attempt sv c sc check oi ?cfg 1 st v0"
    by (simp add: condition_handler_fresh [OF assms(5)] bindE_def)
  have "op_type (fresh_operation (condition_start_update oi)) = StepOp" by simp
  from bounded_attempt [OF assms(1-3) refl v0(2) this, where n = 1 and c = c and check = check and interval = interval and m = m]
  obtain q v1 where q: "?h v = (q, v1)" and
    alt: "\<not> (\<exists>t. q = Inl (Suspend t)) \<or> 1 < m \<and> q = Inl (Suspend None) \<and>
      (\<exists>op. get_operation (env_state v1) (oi_operation_id oi) = Some op \<and> holds_attempt sc 2 st op \<and>
         op_status op = Pending)"
    unfolding run one_add_one by blast
  from alt show ?thesis
  proof
    assume "\<not> (\<exists>t. q = Inl (Suspend t))"
    then show ?thesis using invocations_end [of ?h, OF q] by blast
  next
    assume susp: "1 < m \<and> q = Inl (Suspend None) \<and>
      (\<exists>op. get_operation (env_state v1) (oi_operation_id oi) = Some op \<and> holds_attempt sc 2 st op \<and>
         op_status op = Pending)"
    then obtain op' where op': "get_operation (env_state (resume v1)) (oi_operation_id oi) = Some op'"
      "holds_attempt sc 2 st op'"
      using resumes_holds [OF assms(4)] by metis
    from polling_from_attempt [where cfg = ?cfg, OF assms(1-3) refl assms(4) op', of c check]
    obtain q' v' where "invocations resume ?h (m - 2) (resume v1) = (q', v')" "\<not> (\<exists>t. q' = Inl (Suspend t))"
      by blast
    moreover have "1 < m" using susp by blast
    then have "m - 1 = Suc (m - 2)" by arith
    ultimately show ?thesis using q susp by simp
  qed
qed

text \<open>A check that always fails, with a limit of two attempts, at the accepting service.\<close>

definition example_state_codec :: "unit condition_state codec" where
  "example_state_codec =
     \<lparr>to_json = (\<lambda>st. Inr (replicate (wc_attempt st) CHR ''1'')),
      from_json = (\<lambda>s. Inr \<lparr>wc_user_state = (), wc_attempt = length s\<rparr>)\<rparr>"

lemma accepting_stores: "stores_updates accepting_services (identifier_root i)"
  unfolding stores_updates_def
proof (intro allI impI)
  fix u :: operation_update and v :: "'a env"
  assume "up_id u = oi_operation_id (identifier_root i)" "up_parent_id u = oi_parent_id (identifier_root i)"
  then show "\<exists>v1. create_checkpoint accepting_services u True v = (Inr (), v1) \<and>
       get_operation (env_state v1) (oi_operation_id (identifier_root i)) =
         Some (cached_operation u (get_operation (env_state v) (oi_operation_id (identifier_root i))))"
    by (auto simp: create_checkpoint_def orphan_check_def identifier_root_def Let_def checkpoint_direct_def
        send_update_def sender_checkpoint_def on_world_def bindE_def apply_response_def
        checkpoint_response_new_def accepting_services_def get_update_local_cache)
qed

theorem polling_ends_witness:
  "\<exists>q v'. invocations (\<lambda>v. v) (wait_for_condition_handler accepting_services text_codec example_state_codec
       (\<lambda>st ctx w. (Inl ''not yet'', w)) (identifier_root ''p'')
       (from_interval () (from_seconds 5) (Some 2))) 1 (example_env []) = (q, v') \<and>
     \<not> (\<exists>t. q = Inl (Suspend t))"
proof -
  have "codec_roundtrip example_state_codec" by (simp add: codec_roundtrip_def example_state_codec_def)
  moreover have "\<exists>s. to_json example_state_codec \<lparr>wc_user_state = (), wc_attempt = k\<rparr> = Inr s" for k
    by (simp add: example_state_codec_def)
  moreover have "resumes (\<lambda>v. v) (oi_operation_id (identifier_root ''p''))"
    by (auto simp: resumes_def)
  ultimately show ?thesis
    using polling_ends [OF accepting_stores [of "''p''"], where m = 2 and v = "example_env []" and resume = "\<lambda>v. v"
        and st = "()" and sc = example_state_codec and c = text_codec
        and check = "\<lambda>st ctx w. (Inl ''not yet'', w)" and interval = "from_seconds 5"]
    by simp
qed

section \<open>Ended waits\<close>

text \<open>A wait for a condition that was cancelled, stopped or timed out is not over for the handler: the
  next invocation runs the check again, as if the operation were still open.\<close>

lemma ended_condition_checked_again:
  assumes "get_operation (env_state v) (oi_operation_id oi) = Some op" "op_type op = StepOp"
    and "op_status op \<in> {Cancelled, TimedOut, Stopped}"
  shows "wait_for_condition_handler sv c sc check oi cfg v =
     (case get_current_state sc (Some op) cfg of
        Inl e \<Rightarrow> (Inl e, v) | Inr (n, st) \<Rightarrow> condition_attempt sv c sc check oi cfg n st v)"
  using assms
  by (auto simp: wait_for_condition_handler_def condition_handle_replay_def get_checkpoint_result_def
      get_operation_def bindE_lift Let_def split: sum.split)

lemma ended_condition_checked_again_witness:
  "fst (wait_for_condition_handler accepting_services text_codec example_state_codec
       (\<lambda>st ctx w. (Inl ''still checked'', w)) (identifier_root ''p'')
       (from_interval () (from_seconds 5) (Some 3))
       (example_env [(operation_new ''p'' StepOp)\<lparr>op_status := Cancelled\<rparr>])) = Inl (Suspend None)"
proof -
  let ?op = "(operation_new ''p'' StepOp)\<lparr>op_status := Cancelled\<rparr>"
  let ?cfg = "from_interval () (from_seconds 5) (Some 3)" and ?oi = "identifier_root ''p''"
  let ?v = "example_env [?op]"
  have get: "get_operation (env_state ?v) (oi_operation_id ?oi) = Some ?op"
    by (simp add: example_env_one operation_new_def)
  have ty: "op_type ?op = StepOp" by (simp add: operation_new_def)
  have roundtrip: "codec_roundtrip example_state_codec" by (simp add: codec_roundtrip_def example_state_codec_def)
  have ser: "to_json example_state_codec \<lparr>wc_user_state = (), wc_attempt = 1 + 1\<rparr> = Inr ''11''"
    by (simp add: example_state_codec_def numeral_2_eq_2)
  have strat: "wcc_wait_strategy ?cfg () 1 = Continue (from_seconds (to_seconds (from_seconds 5)))"
    by (simp add: from_interval_def)
  have st: "get_current_state example_state_codec (Some ?op) ?cfg = Inr (1, ())"
    by (simp add: get_current_state_def operation_new_def from_interval_def get_retry_payload_def get_attempt_def)
  have "condition_attempt accepting_services text_codec example_state_codec
       (\<lambda>st ctx w. (Inl ''still checked'', w)) ?oi ?cfg 1 () ?v =
      condition_not_met accepting_services example_state_codec ?oi ?cfg 1 () ''still checked'' ?v"
    using condition_attempt_cases [where check = "\<lambda>st ctx w. (Inl ''still checked'', w)" and v = ?v
        and q = "Inl ''still checked''" and n = 1 and st = "()" and sv = accepting_services and c = text_codec
        and sc = example_state_codec and oi = ?oi and cfg = ?cfg, OF refl] by (simp del: example_env_sel)
  moreover obtain v1 :: "mock_world env" where
    "condition_not_met accepting_services example_state_codec ?oi ?cfg 1 () ''still checked'' ?v =
       (Inl (Suspend None) :: durable_error + string, v1)"
    by (rule condition_not_met_continue [OF accepting_stores roundtrip ser strat get ty])
  ultimately show ?thesis
    using ended_condition_checked_again [OF get, of accepting_services text_codec example_state_codec _ ?cfg] st
    by (simp add: operation_new_def)
qed

end
