(* ===== verification/Wait_Handler.thy ===== *)
theory Wait_Handler
  imports Step_Facts
begin

text \<open>
  \<open>sdk/src/handlers/wait.rs\<close>: a durable wait and its cancellation. The handler never sleeps: it
  checkpoints the wait, suspends the execution and is called again in a later invocation. The
  properties say when the execution may continue past a wait, and that cancelling lets it.
\<close>

definition MIN_WAIT_SECONDS :: u64 where
  "MIN_WAIT_SECONDS = 1"

definition wait_start_update :: "operation_identifier \<Rightarrow> u64 \<Rightarrow> operation_update" where
  "wait_start_update oi secs = apply_to oi (update_start_wait (oi_operation_id oi) secs)"

definition wait_too_short :: "u64 \<Rightarrow> durable_error" where
  "wait_too_short secs = Validation (''Wait duration must be at least '' @ show_word MIN_WAIT_SECONDS @
     '' second(s), got '' @ show_word secs @ '' seconds'')"

definition start_wait_and_suspend ::
  "'w services \<Rightarrow> u64 \<Rightarrow> operation_identifier \<Rightarrow> ('w env, durable_error, unit) cmd" where
  "start_wait_and_suspend sv secs oi =
     bindE (create_checkpoint sv (wait_start_update oi secs) True) (\<lambda>_. throwE (Suspend None))"

definition wait_handler ::
  "'w services \<Rightarrow> duration \<Rightarrow> operation_identifier \<Rightarrow> ('w env, durable_error, unit) cmd" where
  "wait_handler sv d oi v =
     (let wait_seconds = to_seconds d in
      if wait_seconds < MIN_WAIT_SECONDS then (Inl (wait_too_short wait_seconds), v)
      else
        (let r = get_checkpoint_result (env_state v) (oi_operation_id oi) in
         case cr_operation_type r of
           None \<Rightarrow> start_wait_and_suspend sv wait_seconds oi v
         | Some ty \<Rightarrow>
             if ty \<noteq> WaitOp then (Inl (non_deterministic_error WaitOp ty (oi_operation_id oi)), v)
             else if cr_is_succeeded r then track (oi_operation_id oi) v
             else if cr_is_cancelled r then track (oi_operation_id oi) v
             else if is_existent r \<and> \<not> cr_is_terminal r then (Inl (Suspend None), v)
             else start_wait_and_suspend sv wait_seconds oi v))"

definition wait_cancel_handler ::
  "'w services \<Rightarrow> string \<Rightarrow> ('w env, durable_error, unit) cmd" where
  "wait_cancel_handler sv i v =
     (let r = get_checkpoint_result (env_state v) i in
      case cr_operation_type r of
        None \<Rightarrow> (Inr (), v)
      | Some ty \<Rightarrow>
          if ty \<noteq> WaitOp then
            (Inl (Validation (''Cannot cancel operation '' @ i @ '': expected WAIT operation but found '' @
               debug_type ty)), v)
          else if cr_is_terminal r then (Inr (), v)
          else create_checkpoint sv (update_cancel i WaitOp) True v)"

section \<open>Properties\<close>

lemma start_wait_never_ok: "start_wait_and_suspend sv secs oi v \<noteq> (Inr (), v')"
  by (auto simp: start_wait_and_suspend_def bindE_eq_Inr)

lemma wait_update_sel [simp]:
  "up_id (wait_start_update oi s) = oi_operation_id oi" "up_type (wait_start_update oi s) = WaitOp"
  "up_action (wait_start_update oi s) = Start" "up_wait_options (wait_start_update oi s) = Some s"
  by (simp_all add: wait_start_update_def def_simps)

text \<open>The execution continues past a wait only when the service has completed or cancelled it: the
  handler succeeds exactly for a valid duration and a stored WAIT operation that is SUCCEEDED or
  CANCELLED, and then it does nothing but track the operation.\<close>

lemma wait_continues_only_when_over:
  "wait_handler sv d oi v = (Inr (), v') \<longleftrightarrow>
     to_seconds d \<noteq> 0 \<and>
     (\<exists>op. get_operation (env_state v) (oi_operation_id oi) = Some op \<and> op_type op = WaitOp \<and>
        op_status op \<in> {Succeeded, Cancelled}) \<and>
     v' = v\<lparr>env_state := track_replay (oi_operation_id oi) (env_state v)\<rparr>"
proof -
  have "to_seconds d < MIN_WAIT_SECONDS \<longleftrightarrow> to_seconds d = 0"
    by (simp add: MIN_WAIT_SECONDS_def word_less_nat_alt unat_eq_0)
  then show ?thesis
    using start_wait_never_ok [of sv "to_seconds d" oi v v']
    by (cases "get_operation (env_state v) (oi_operation_id oi)")
       (auto simp: wait_handler_def Let_def get_checkpoint_result_def get_operation_def)
qed

lemma wait_continues_only_when_over_witness:
  "\<not> (\<exists>v'. wait_handler mock_services (Duration 5) (identifier_root ''w'') (example_env []) = (Inr (), v'))"
  using wait_continues_only_when_over [of mock_services "Duration 5" "identifier_root ''w''" "example_env []"]
  by simp

text \<open>A new wait is stored once and then waited for: the first invocation checkpoints START with the
  duration in seconds and suspends; every later invocation that still finds it started suspends
  without calling the service or changing anything.\<close>

lemma wait_stored_then_suspends:
  fixes v :: "'w env"
  assumes "to_seconds d \<noteq> 0" "get_operation (env_state v) (oi_operation_id oi) = None"
    and "accepts sv (env_state v) (wait_start_update oi (to_seconds d)) (env_world v) t w"
  shows "\<exists>v' op. wait_handler sv d oi v = (Inl (Suspend None), v') \<and> env_world v' = w \<and>
     get_operation (env_state v') (oi_operation_id oi) = Some op \<and> op_status op = Started \<and>
     (\<forall>(sv' :: 'w services) v2. get_operation (env_state v2) (oi_operation_id oi) = Some op \<longrightarrow>
        wait_handler sv' d oi v2 = (Inl (Suspend None), v2))"
proof -
  let ?u = "wait_start_update oi (to_seconds d)"
  let ?v' = "v\<lparr>env_state := update_local_cache_from_update ?u (set_checkpoint_token t (env_state v)), env_world := w\<rparr>"
  have d: "\<not> to_seconds d < MIN_WAIT_SECONDS"
    using assms(1) by (simp add: MIN_WAIT_SECONDS_def word_less_nat_alt unat_eq_0)
  have "wait_handler sv d oi v = (Inl (Suspend None), ?v')"
    using assms(2) d create_checkpoint_accepted [OF assms(3)]
    by (simp add: wait_handler_def Let_def get_checkpoint_result_def get_operation_def
        start_wait_and_suspend_def bindE_def)
  moreover have "get_operation (env_state ?v') (oi_operation_id oi) = Some (cached_operation ?u None)"
    using assms(2) by (simp add: get_update_local_cache)
  moreover have "op_status (cached_operation ?u None) = Started" "op_type (cached_operation ?u None) = WaitOp"
    by (simp_all add: cached_operation_status)
  moreover have "wait_handler sv' d oi v2 = (Inl (Suspend None), v2)"
    if "get_operation (env_state v2) (oi_operation_id oi) = Some (cached_operation ?u None)"
    for sv' :: "'w services" and v2
    using that calculation(3,4) d
    by (simp add: wait_handler_def Let_def get_checkpoint_result_def get_operation_def)
  ultimately show ?thesis by (intro exI [of _ ?v'] exI [of _ "cached_operation ?u None"]) simp
qed

lemma wait_stored_then_suspends_witness:
  "fst (wait_handler mock_services (Duration 5) (identifier_root ''w'') (example_env [])) = Inl (Suspend None)"
proof -
  have "up_parent_id (wait_start_update (identifier_root ''w'') (to_seconds (Duration 5))) = None"
    by (simp add: wait_start_update_def identifier_root_def def_simps)
  then obtain v' where
    "wait_handler mock_services (Duration 5) (identifier_root ''w'') (example_env []) = (Inl (Suspend None), v')"
    using wait_stored_then_suspends [OF _ _ mock_accepts_env, of "Duration 5" "[]" "identifier_root ''w''"]
    by auto
  then show ?thesis by simp
qed

text \<open>Cancelling a wait lets the execution continue: after a cancellation of a pending wait that the
  service accepts, the operation is CANCELLED and the handler of the wait succeeds.\<close>

lemma cancelled_wait_continues:
  assumes "get_operation (env_state v) (oi_operation_id oi) = Some op" "op_type op = WaitOp"
    and "\<not> is_terminal (op_status op)" "to_seconds d \<noteq> 0"
    and "accepts sv (env_state v) (update_cancel (oi_operation_id oi) WaitOp) (env_world v) t w"
  shows "\<exists>v' v''. wait_cancel_handler sv (oi_operation_id oi) v = (Inr (), v') \<and>
     map_option op_status (get_operation (env_state v') (oi_operation_id oi)) = Some Cancelled \<and>
     wait_handler sv d oi v' = (Inr (), v'') \<and> env_world v'' = w"
proof -
  let ?u = "update_cancel (oi_operation_id oi) WaitOp"
  let ?v' = "v\<lparr>env_state := update_local_cache_from_update ?u (set_checkpoint_token t (env_state v)), env_world := w\<rparr>"
  have "wait_cancel_handler sv (oi_operation_id oi) v = (Inr (), ?v')"
    using assms(1-3) create_checkpoint_accepted [OF assms(5)]
    by (simp add: wait_cancel_handler_def Let_def get_checkpoint_result_def get_operation_def)
  moreover have g: "get_operation (env_state ?v') (oi_operation_id oi) = Some (cached_operation ?u (Some op))"
    using assms(1) by (simp add: get_update_local_cache update_cancel_def)
  moreover have "op_status (cached_operation ?u (Some op)) = Cancelled" "op_type (cached_operation ?u (Some op)) = WaitOp"
    using assms(2) by (simp_all add: cached_operation_def update_cancel_def)
  moreover have "\<not> to_seconds d < MIN_WAIT_SECONDS"
    using assms(4) by (simp add: MIN_WAIT_SECONDS_def word_less_nat_alt unat_eq_0)
  ultimately show ?thesis
    by - (rule exI [of _ ?v'],
        rule exI [of _ "?v'\<lparr>env_state := track_replay (oi_operation_id oi) (env_state ?v')\<rparr>"],
        simp add: wait_handler_def Let_def get_checkpoint_result_def get_operation_def)
qed

definition example_wait :: operation where
  "example_wait = operation_new ''w'' WaitOp"

lemma cancelled_wait_continues_witness:
  "\<exists>v'. wait_cancel_handler mock_services ''w'' (example_env [example_wait]) = (Inr (), v') \<and>
     (\<exists>v''. wait_handler mock_services (Duration 5) (identifier_root ''w'') v' = (Inr (), v''))"
proof -
  have "up_parent_id (update_cancel (oi_operation_id (identifier_root ''w'')) WaitOp) = None"
    by (simp add: update_cancel_def)
  from cancelled_wait_continues [OF _ _ _ _ mock_accepts_env [OF this], of "[example_wait]" example_wait "Duration 5"]
  show ?thesis by (auto simp: example_env_one example_wait_def identifier_root_def)
qed

text \<open>A wait that ended as FAILED, TIMED_OUT or STOPPED is started again: the handler checkpoints START
  a second time, which puts the operation back to STARTED, and suspends.\<close>

lemma ended_wait_restarted:
  assumes "to_seconds d \<noteq> 0" "get_operation (env_state v) (oi_operation_id oi) = Some op"
    and "op_type op = WaitOp" "op_status op \<in> {Failed, TimedOut, Stopped}"
    and "accepts sv (env_state v) (wait_start_update oi (to_seconds d)) (env_world v) t w"
  shows "\<exists>v'. wait_handler sv d oi v = (Inl (Suspend None), v') \<and> env_world v' = w \<and>
     map_option op_status (get_operation (env_state v') (oi_operation_id oi)) = Some Started"
  using assms(1-4) create_checkpoint_accepted [OF assms(5)]
  by (auto simp: wait_handler_def Let_def get_checkpoint_result_def start_wait_and_suspend_def bindE_def
      MIN_WAIT_SECONDS_def word_less_nat_alt unat_eq_0 get_update_local_cache cached_operation_status
      simp flip: get_operation_def)

lemma ended_wait_restarted_witness:
  "fst (wait_handler mock_services (Duration 5) (identifier_root ''w'')
     (example_env [example_wait\<lparr>op_status := TimedOut\<rparr>])) = Inl (Suspend None)"
proof -
  let ?op = "example_wait\<lparr>op_status := TimedOut\<rparr>"
  have "up_parent_id (wait_start_update (identifier_root ''w'') (to_seconds (Duration 5))) = None"
    by (simp add: wait_start_update_def identifier_root_def def_simps)
  from ended_wait_restarted [OF _ _ _ _ mock_accepts_env [OF this], of "[?op]" ?op] show ?thesis
    by (force simp: example_env_one example_wait_def identifier_root_def operation_new_def)
qed

end
