(* ===== verification/Invoke_Handler.thy ===== *)
theory Invoke_Handler
  imports Wait_Handler
begin

text \<open>
  \<open>sdk/src/handlers/invoke.rs\<close>: the durable invocation of another function. The handler stores the
  request and suspends; the service delivers the result as the operation's checkpoint. The payload
  and the result have their own codecs.
\<close>

record invoke_config =
  iv_timeout :: duration
  iv_tenant_id :: "string option"

definition create_invoke_start_update ::
  "operation_identifier \<Rightarrow> string \<Rightarrow> string \<Rightarrow> invoke_config \<Rightarrow> operation_update" where
  "create_invoke_start_update oi function_name payload_json cfg =
     apply_to oi (with_chained_invoke_options function_name (iv_tenant_id cfg)
       ((update_start (oi_operation_id oi) InvokeOp)\<lparr>up_result := Some payload_json\<rparr>))"

definition create_invoke_succeed_update :: "operation_identifier \<Rightarrow> string option \<Rightarrow> operation_update" where
  "create_invoke_succeed_update oi r = apply_to oi (update_succeed (oi_operation_id oi) InvokeOp r)"

definition create_invoke_fail_update :: "operation_identifier \<Rightarrow> error_object \<Rightarrow> operation_update" where
  "create_invoke_fail_update oi e = apply_to oi (update_fail (oi_operation_id oi) InvokeOp e)"

definition start_invoke ::
  "'w services \<Rightarrow> 'p codec \<Rightarrow> string \<Rightarrow> 'p \<Rightarrow> operation_identifier \<Rightarrow> invoke_config \<Rightarrow>
   ('w env, durable_error, 'r) cmd" where
  "start_invoke sv pc function_name payload oi cfg =
     bindE (liftE (serialize_or ''Failed to serialize invoke payload: '' pc payload)) (\<lambda>payload_json.
     bindE (create_checkpoint sv (create_invoke_start_update oi function_name payload_json cfg) True)
       (\<lambda>_. throwE (Suspend None)))"

definition invoke_error :: "string \<Rightarrow> durable_error" where
  "invoke_error msg = Invocation msg InvocationError"

text \<open>What follows the case of a stored result, in the order of the code.\<close>

definition invoke_unresolved ::
  "'w services \<Rightarrow> 'p codec \<Rightarrow> string \<Rightarrow> 'p \<Rightarrow> operation_identifier \<Rightarrow> invoke_config \<Rightarrow>
   checkpointed_result \<Rightarrow> ('w env, durable_error, 'r) cmd" where
  "invoke_unresolved sv pc function_name payload oi cfg r =
     (if cr_is_failed r then
        bindE (track (oi_operation_id oi)) (\<lambda>_. throwE (case cr_error r of
          Some e \<Rightarrow> invoke_error (eo_message e)
        | None \<Rightarrow> err_invocation ''Invoke failed with unknown error''))
      else if cr_is_stopped r then
        bindE (track (oi_operation_id oi)) (\<lambda>_. throwE (invoke_error ''Invoke was stopped externally''))
      else if cr_is_terminal r then
        bindE (track (oi_operation_id oi)) (\<lambda>_. throwE (invoke_error (''Invoke was '' @ status_text r)))
      else start_invoke sv pc function_name payload oi cfg)"

definition invoke_handler ::
  "'w services \<Rightarrow> 'p codec \<Rightarrow> 'r codec \<Rightarrow> string \<Rightarrow> 'p \<Rightarrow> operation_identifier \<Rightarrow> invoke_config \<Rightarrow>
   ('w env, durable_error, 'r) cmd" where
  "invoke_handler sv pc rc function_name payload oi cfg v =
     (let r = get_checkpoint_result (env_state v) (oi_operation_id oi) in
      case cr_operation_type r of
        None \<Rightarrow> start_invoke sv pc function_name payload oi cfg v
      | Some ty \<Rightarrow>
          if ty \<noteq> InvokeOp then (Inl (non_deterministic_error InvokeOp ty (oi_operation_id oi)), v)
          else
            (case (if cr_is_succeeded r then cr_result r else None) of
               Some s \<Rightarrow>
                 bindE (liftE (deserialize_or ''Failed to deserialize invoke result: '' rc s)) (\<lambda>x.
                 bindE (track (oi_operation_id oi)) (\<lambda>_. retE x)) v
             | None \<Rightarrow> invoke_unresolved sv pc function_name payload oi cfg r v))"

section \<open>Properties\<close>

lemma invoke_update_sel [simp]:
  "up_id (create_invoke_start_update oi f p cfg) = oi_operation_id oi"
  "up_type (create_invoke_start_update oi f p cfg) = InvokeOp"
  "up_action (create_invoke_start_update oi f p cfg) = Start"
  "up_result (create_invoke_start_update oi f p cfg) = Some p"
  "up_chained_invoke_options (create_invoke_start_update oi f p cfg) =
     Some \<lparr>cio_function_name = f, cio_tenant_id = iv_tenant_id cfg\<rparr>"
  by (simp_all add: create_invoke_start_update_def def_simps)

lemma start_invoke_never_ok: "start_invoke sv pc f p oi cfg v \<noteq> (Inr x, v')"
  by (auto simp: start_invoke_def bindE_eq_Inr)

lemma invoke_unresolved_never_ok: "invoke_unresolved sv pc f p oi cfg r v \<noteq> (Inr x, v')"
  by (simp add: invoke_unresolved_def start_invoke_never_ok)

text \<open>The result of an invocation is the service's: the handler returns a value exactly when the stored
  operation is a SUCCEEDED INVOKE with a result that reads as that value; then the world is
  untouched and only the replay tracking changes.\<close>

lemma invoke_result_from_checkpoint:
  "invoke_handler sv pc rc f p oi cfg v = (Inr x, v') \<longleftrightarrow>
     (\<exists>op s. get_operation (env_state v) (oi_operation_id oi) = Some op \<and> op_type op = InvokeOp \<and>
        op_status op = Succeeded \<and> get_result op = Some s \<and> from_json rc s = Inr x) \<and>
     v' = v\<lparr>env_state := track_replay (oi_operation_id oi) (env_state v)\<rparr>"
  using start_invoke_never_ok [of sv pc f p oi cfg v x v'] invoke_unresolved_never_ok [of sv pc f p oi cfg _ v x v']
  by (cases "get_operation (env_state v) (oi_operation_id oi)")
     (auto simp: invoke_handler_def Let_def get_checkpoint_result_def get_operation_def bindE_lift
        deserialize_or_def json_deserialize_def split: sum.splits option.splits if_splits)

text \<open>The request of an invocation is not guarded by its own checkpoint: an invocation that is still
  STARTED, PENDING or READY is sent again, START and payload, each time the execution resumes.\<close>

lemma pending_invoke_sent_again:
  assumes "get_operation (env_state v) (oi_operation_id oi) = Some op" "op_type op = InvokeOp"
    and "\<not> is_terminal (op_status op)" "to_json pc p = Inr s"
    and "accepts sv (env_state v) (create_invoke_start_update oi f s cfg) (env_world v) t w"
  shows "\<exists>v'. (invoke_handler sv pc (rc :: 'r codec) f p oi cfg v :: (durable_error + 'r) \<times> _) =
       (Inl (Suspend None), v') \<and> env_world v' = w \<and>
     map_option op_status (get_operation (env_state v') (oi_operation_id oi)) = Some Started"
proof -
  have "op_status op \<noteq> Succeeded" "op_status op \<noteq> Failed" "op_status op \<noteq> Stopped" using assms(3) by auto
  then show ?thesis
    using assms(1-4) create_checkpoint_accepted [OF assms(5)]
    by (auto simp: invoke_handler_def Let_def get_checkpoint_result_def invoke_unresolved_def
        start_invoke_def bindE_def serialize_or_def json_serialize_def get_update_local_cache
        cached_operation_status simp flip: get_operation_def)
qed

lemma pending_invoke_sent_again_witness:
  "fst (invoke_handler mock_services text_codec text_codec ''fn'' ''x'' (identifier_root ''i'')
     \<lparr>iv_timeout = Duration 0, iv_tenant_id = None\<rparr> (example_env [operation_new ''i'' InvokeOp])) =
   Inl (Suspend None)"
proof -
  let ?cfg = "\<lparr>iv_timeout = Duration 0, iv_tenant_id = None\<rparr>" and ?oi = "identifier_root ''i''"
  have "up_parent_id (create_invoke_start_update ?oi ''fn'' ''x'' ?cfg) = None"
    by (simp add: create_invoke_start_update_def identifier_root_def def_simps)
  then obtain v' where
    "invoke_handler mock_services text_codec text_codec ''fn'' ''x'' ?oi ?cfg (example_env [operation_new ''i'' InvokeOp]) =
     (Inl (Suspend None), v')"
    using pending_invoke_sent_again [OF _ _ _ _ mock_accepts_env, of "[operation_new ''i'' InvokeOp]" ?oi
        "operation_new ''i'' InvokeOp" text_codec "''x''" "''x''" "''fn''" ?cfg text_codec]
    by (auto simp: example_env_one identifier_root_def text_codec_def)
  then show ?thesis by simp
qed

text \<open>An invocation that succeeded without a result, as one of a function that returns nothing may,
  is reported as a failure.\<close>

lemma succeeded_invoke_without_result_fails:
  assumes "get_operation (env_state v) (oi_operation_id oi) = Some op" "op_type op = InvokeOp"
    and "op_status op = Succeeded" "get_result op = None"
  shows "fst (invoke_handler sv pc rc f p oi cfg v) = Inl (invoke_error ''Invoke was Succeeded'')"
  using assms
  by (simp add: invoke_handler_def Let_def get_checkpoint_result_def get_operation_def
      invoke_unresolved_def status_text_def)

lemma succeeded_invoke_without_result_fails_witness:
  "fst (invoke_handler mock_services text_codec unit_codec ''fn'' ''x'' (identifier_root ''i'')
     \<lparr>iv_timeout = Duration 0, iv_tenant_id = None\<rparr>
     (example_env [(operation_new ''i'' InvokeOp)\<lparr>op_status := Succeeded\<rparr>])) =
   Inl (invoke_error ''Invoke was Succeeded'')"
  by (rule succeeded_invoke_without_result_fails [of _ _ "(operation_new ''i'' InvokeOp)\<lparr>op_status := Succeeded\<rparr>"])
     (simp_all add: example_env_one identifier_root_def operation_new_def get_result_def first_some_def)

end
