(* ===== verification/Callback_Handler.thy ===== *)
theory Callback_Handler
  imports Wait_Handler
begin

text \<open>
  \<open>sdk/src/handlers/callback.rs\<close>: callbacks, whose identifier comes from the service when the
  operation is created, and whose result is delivered from outside through the checkpoint. A
  \<open>Callback\<close> handle is its two identifiers; the state and logger it shares are the environment.
\<close>

record callback_config =
  cbc_timeout :: duration
  cbc_heartbeat_timeout :: duration

record callback_handle =
  ch_callback_id :: string
  ch_operation_id :: string

definition create_callback_start_update ::
  "operation_identifier \<Rightarrow> callback_config \<Rightarrow> operation_update" where
  "create_callback_start_update oi cfg =
     apply_to oi ((update_start (oi_operation_id oi) CallbackOp)
       \<lparr>up_callback_options := Some \<lparr>cbo_timeout_seconds = Some (to_seconds (cbc_timeout cfg)),
          cbo_heartbeat_timeout_seconds = Some (to_seconds (cbc_heartbeat_timeout cfg))\<rparr>\<rparr>)"

definition missing_callback_id :: "string \<Rightarrow> durable_error" where
  "missing_callback_id i = Callback
     (''Service did not return callback_id in checkpoint response for operation '' @ i) None"

definition response_callback_id :: "checkpoint_response \<Rightarrow> string \<Rightarrow> string option" where
  "response_callback_id resp i =
     Option.bind (Option.bind (Option.bind (rsp_new_execution_state resp)
       (\<lambda>nes. find_operation nes i)) op_callback_details) cd_callback_id"

definition callback_handler ::
  "'w services \<Rightarrow> operation_identifier \<Rightarrow> callback_config \<Rightarrow> ('w env, durable_error, callback_handle) cmd"
where
  "callback_handler sv oi cfg v =
     (let r = get_checkpoint_result (env_state v) (oi_operation_id oi) in
      case cr_operation_type r of
        Some ty \<Rightarrow>
          if ty \<noteq> CallbackOp then (Inl (non_deterministic_error CallbackOp ty (oi_operation_id oi)), v)
          else
            (Inr \<lparr>ch_callback_id =
                (case cr_callback_id r of
                   Some i \<Rightarrow> i
                 | None \<Rightarrow> (case oi_name oi of Some n \<Rightarrow> n | None \<Rightarrow> oi_operation_id oi)),
              ch_operation_id = oi_operation_id oi\<rparr>, v)
      | None \<Rightarrow>
          bindE (create_checkpoint_with_response sv (create_callback_start_update oi cfg)) (\<lambda>resp.
            case response_callback_id resp (oi_operation_id oi) of
              Some i \<Rightarrow> retE \<lparr>ch_callback_id = i, ch_operation_id = oi_operation_id oi\<rparr>
            | None \<Rightarrow> throwE (missing_callback_id (oi_operation_id oi))) v)"

definition callback_result :: "'a codec \<Rightarrow> callback_handle \<Rightarrow> ('w env, durable_error, 'a) cmd" where
  "callback_result c cb v =
     (let r = get_checkpoint_result (env_state v) (ch_operation_id cb);
          failure = (\<lambda>msg. Callback msg (Some (ch_callback_id cb)))
      in if \<not> is_existent r then (Inl (failure ''Callback not found''), v)
         else
           (case (if cr_is_succeeded r then cr_result r else None) of
              Some s \<Rightarrow>
                bindE (liftE (deserialize_or ''Failed to deserialize callback result: '' c s)) (\<lambda>x.
                bindE (track (ch_operation_id cb)) (\<lambda>_. retE x)) v
            | None \<Rightarrow>
                if cr_is_failed r then
                  bindE (track (ch_operation_id cb)) (\<lambda>_. throwE (case cr_error r of
                    Some e \<Rightarrow> failure (eo_message e)
                  | None \<Rightarrow> failure ''Callback failed with unknown error'')) v
                else if cr_is_timed_out r then
                  bindE (track (ch_operation_id cb)) (\<lambda>_. throwE (failure ''Callback timed out'')) v
                else (Inl (Suspend None), v)))"

section \<open>Properties\<close>

lemma callback_update_sel [simp]:
  "up_id (create_callback_start_update oi cfg) = oi_operation_id oi"
  "up_type (create_callback_start_update oi cfg) = CallbackOp"
  "up_action (create_callback_start_update oi cfg) = Start"
  by (simp_all add: create_callback_start_update_def def_simps)

text \<open>A callback keeps the identifier the service gave it. Creating a callback sends its START once
  and returns the identifier of the response; in every later state that still holds the operation of
  the response, the handler returns the same handle without calling the service.\<close>

lemma callback_identifier_stable:
  fixes v :: "'w env"
  assumes "get_operation (env_state v) (oi_operation_id oi) = None"
    and "create_checkpoint_with_response sv (create_callback_start_update oi cfg) v = (Inr resp, v1)"
    and "rsp_new_execution_state resp = Some nes" "find_operation nes (oi_operation_id oi) = Some op"
    and "op_type op = CallbackOp" "Option.bind (op_callback_details op) cd_callback_id = Some i"
  shows "callback_handler sv oi cfg v =
       (Inr \<lparr>ch_callback_id = i, ch_operation_id = oi_operation_id oi\<rparr>, v1) \<and>
     (\<forall>(sv' :: 'w services) cfg' v2. get_operation (env_state v2) (oi_operation_id oi) = Some op \<longrightarrow>
        callback_handler sv' oi cfg' v2 =
          (Inr \<lparr>ch_callback_id = i, ch_operation_id = oi_operation_id oi\<rparr>, v2))"
  using assms
  by (auto simp: callback_handler_def Let_def get_checkpoint_result_def get_operation_def bindE_def
      response_callback_id_def)

definition example_callback :: operation where
  "example_callback = (operation_new ''c'' CallbackOp)\<lparr>op_callback_details :=
     Some \<lparr>cd_callback_id = Some ''cb-1'', cd_result = None, cd_error = None\<rparr>\<rparr>"

lemma callback_identifier_stable_witness:
  "fst (callback_handler mock_services (identifier_root ''c'')
     \<lparr>cbc_timeout = Duration 0, cbc_heartbeat_timeout = Duration 0\<rparr>
     ((example_env [])\<lparr>env_world := with_checkpoint_response (Inr \<lparr>rsp_checkpoint_token = ''t'',
        rsp_new_execution_state = Some \<lparr>nes_operations = [example_callback], nes_next_marker = None\<rparr>\<rparr>)
        mock_world_new\<rparr>)) = Inr \<lparr>ch_callback_id = ''cb-1'', ch_operation_id = ''c''\<rparr>"
proof -
  let ?nes = "\<lparr>nes_operations = [example_callback], nes_next_marker = None\<rparr>"
  let ?resp = "\<lparr>rsp_checkpoint_token = ''t'', rsp_new_execution_state = Some ?nes\<rparr>"
  let ?v = "(example_env [])\<lparr>env_world := with_checkpoint_response (Inr ?resp) mock_world_new\<rparr>"
  let ?cfg = "\<lparr>cbc_timeout = Duration 0, cbc_heartbeat_timeout = Duration 0\<rparr>"
  have "\<exists>v1. create_checkpoint_with_response mock_services
      (create_callback_start_update (identifier_root ''c'') ?cfg) ?v = (Inr ?resp, v1)"
    by (simp add: create_checkpoint_with_response_def orphan_check_def create_callback_start_update_def
        identifier_root_def def_simps send_update_def on_world_def bindE_def mock_checkpoint_def
        with_checkpoint_response_def mock_world_new_def mock_new_def mock_client.defs)
  then obtain v1 where "create_checkpoint_with_response mock_services
      (create_callback_start_update (identifier_root ''c'') ?cfg) ?v = (Inr ?resp, v1)" by blast
  from callback_identifier_stable [OF _ this, of ?nes example_callback "''cb-1''"] show ?thesis
    by (simp add: example_callback_def operation_new_def find_operation_def identifier_root_def)
qed

text \<open>The result of a callback is the delivered one: the handle returns a value exactly when its
  operation SUCCEEDED with a result that reads as that value. A callback that was cancelled or
  stopped, or that succeeded without a result, suspends the execution as if it were still open, and
  does so on every later look.\<close>

lemma callback_result_spec:
  "(callback_result c cb v = (Inr x, v') \<longleftrightarrow>
      (\<exists>op s. get_operation (env_state v) (ch_operation_id cb) = Some op \<and> op_status op = Succeeded \<and>
         get_result op = Some s \<and> from_json c s = Inr x) \<and>
      v' = v\<lparr>env_state := track_replay (ch_operation_id cb) (env_state v)\<rparr>) \<and>
   (callback_result c cb v = (Inl (Suspend None), v) \<longleftrightarrow>
      (\<exists>op. get_operation (env_state v) (ch_operation_id cb) = Some op \<and>
         (op_status op \<in> {Started, Pending, Ready, Cancelled, Stopped} \<or>
          op_status op = Succeeded \<and> get_result op = None)))"
proof (cases "get_operation (env_state v) (ch_operation_id cb)")
  case None
  then show ?thesis
    by (simp add: callback_result_def Let_def get_checkpoint_result_def get_operation_def)
next
  case (Some op)
  then show ?thesis
    by (cases "op_status op")
       (auto simp: callback_result_def Let_def get_checkpoint_result_def get_operation_def bindE_lift
          deserialize_or_def json_deserialize_def split: sum.splits option.splits)
qed

end
