(* ===== verification/Context_Operations.thy ===== *)
theory Context_Operations
  imports Wait_Condition_Facts Wait_Handler Invoke_Handler
    Callback_Handler
begin

text \<open>
  The durable operations that user code calls, from \<open>sdk/src/context.rs\<close>. Each takes the next
  identifier of its context, runs its handler and, when it returns a value, tracks the replay. User
  code in a context is a command on a scope: the environment shared by the whole execution and the
  context it works in.
\<close>

section \<open>Scopes\<close>

record 'w scope =
  sp_env :: "'w env"
  sp_context :: durable_context

definition in_env :: "('w env, durable_error, 'a) cmd \<Rightarrow> ('w scope, durable_error, 'a) cmd" where
  "in_env m sp = (case m (sp_env sp) of (r, v) \<Rightarrow> (r, sp\<lparr>sp_env := v\<rparr>))"

text \<open>User code run in a context of its own: what it did to its context is gone afterwards.\<close>

definition in_context :: "('w scope, durable_error, 'a) cmd \<Rightarrow> ('w, 'a) child_function" where
  "in_context m ctx v = (case m \<lparr>sp_env = v, sp_context = ctx\<rparr> of (r, sp) \<Rightarrow> (r, sp_env sp))"

definition take_identifier ::
  "(u8 list \<Rightarrow> u8 list) \<Rightarrow> string option \<Rightarrow> ('w scope, durable_error, operation_identifier) cmd" where
  "take_identifier blake2b name sp = (case next_operation_identifier blake2b name (sp_context sp) of
     (oi, ctx) \<Rightarrow> (Inr oi, sp\<lparr>sp_context := ctx\<rparr>))"

definition track_result :: "string \<Rightarrow> ('w env, durable_error, 'a) cmd \<Rightarrow> ('w env, durable_error, 'a) cmd" where
  "track_result i m = bindE m (\<lambda>x. bindE (track i) (\<lambda>_. retE x))"

definition durable_operation ::
  "(u8 list \<Rightarrow> u8 list) \<Rightarrow> string option \<Rightarrow> (operation_identifier \<Rightarrow> ('w env, durable_error, 'a) cmd) \<Rightarrow>
   ('w scope, durable_error, 'a) cmd"
where
  "durable_operation blake2b name handler =
     bindE (take_identifier blake2b name) (\<lambda>oi. in_env (track_result (oi_operation_id oi) (handler oi)))"

section \<open>Operations\<close>

definition ctx_step ::
  "(u8 list \<Rightarrow> u8 list) \<Rightarrow> 'w services \<Rightarrow> 'a codec \<Rightarrow> ('w, 'a) step_function \<Rightarrow> step_config option \<Rightarrow>
   ('w scope, durable_error, 'a) cmd"
where
  "ctx_step blake2b sv c func config = durable_operation blake2b None (\<lambda>oi.
     step_handler sv c func oi (case config of Some cfg \<Rightarrow> cfg | None \<Rightarrow> step_config_default))"

definition ctx_step_named ::
  "(u8 list \<Rightarrow> u8 list) \<Rightarrow> 'w services \<Rightarrow> 'a codec \<Rightarrow> string \<Rightarrow> ('w, 'a) step_function \<Rightarrow>
   step_config option \<Rightarrow> ('w scope, durable_error, 'a) cmd"
where
  "ctx_step_named blake2b sv c name func config = durable_operation blake2b (Some name) (\<lambda>oi.
     step_handler sv c func oi (case config of Some cfg \<Rightarrow> cfg | None \<Rightarrow> step_config_default))"

definition ctx_wait ::
  "(u8 list \<Rightarrow> u8 list) \<Rightarrow> 'w services \<Rightarrow> duration \<Rightarrow> string option \<Rightarrow> ('w scope, durable_error, unit) cmd" where
  "ctx_wait blake2b sv d name = durable_operation blake2b name (\<lambda>oi. wait_handler sv d oi)"

definition ctx_cancel_wait :: "'w services \<Rightarrow> string \<Rightarrow> ('w scope, durable_error, unit) cmd" where
  "ctx_cancel_wait sv i = in_env (wait_cancel_handler sv i)"

definition callback_config_default :: callback_config where
  "callback_config_default = \<lparr>cbc_timeout = from_seconds 0, cbc_heartbeat_timeout = from_seconds 0\<rparr>"

definition ctx_create_callback ::
  "(u8 list \<Rightarrow> u8 list) \<Rightarrow> 'w services \<Rightarrow> string option \<Rightarrow> callback_config option \<Rightarrow>
   ('w scope, durable_error, callback_handle) cmd"
where
  "ctx_create_callback blake2b sv name config = durable_operation blake2b name (\<lambda>oi.
     callback_handler sv oi (case config of Some cfg \<Rightarrow> cfg | None \<Rightarrow> callback_config_default))"

definition ctx_invoke ::
  "(u8 list \<Rightarrow> u8 list) \<Rightarrow> 'w services \<Rightarrow> 'p codec \<Rightarrow> 'r codec \<Rightarrow> string \<Rightarrow> 'p \<Rightarrow> invoke_config \<Rightarrow>
   ('w scope, durable_error, 'r) cmd"
where
  "ctx_invoke blake2b sv pc rc function_name payload cfg =
     durable_operation blake2b (Some (''invoke:'' @ function_name)) (\<lambda>oi.
       invoke_handler sv pc rc function_name payload oi cfg)"

definition ctx_run_in_child_context ::
  "(u8 list \<Rightarrow> u8 list) \<Rightarrow> 'w services \<Rightarrow> 'a codec \<Rightarrow> string option \<Rightarrow> ('w scope, durable_error, 'a) cmd \<Rightarrow>
   child_config option \<Rightarrow> ('w scope, durable_error, 'a) cmd"
where
  "ctx_run_in_child_context blake2b sv c name func config =
     durable_operation blake2b (Some (case name of Some n \<Rightarrow> n | None \<Rightarrow> ''child_context'')) (\<lambda>oi.
       child_handler sv c (in_context func) oi
         (case config of Some cfg \<Rightarrow> cfg | None \<Rightarrow> child_config_default))"

definition ctx_wait_for_condition ::
  "(u8 list \<Rightarrow> u8 list) \<Rightarrow> 'w services \<Rightarrow> 'a codec \<Rightarrow> 's condition_state codec \<Rightarrow>
   ('w, 's, 'a) condition_check \<Rightarrow> 's condition_config \<Rightarrow> ('w scope, durable_error, 'a) cmd"
where
  "ctx_wait_for_condition blake2b sv c sc check cfg =
     durable_operation blake2b (Some ''wait_for_condition'') (\<lambda>oi.
       wait_for_condition_handler sv c sc check oi cfg)"

section \<open>Waiting for a callback\<close>

text \<open>The function of the child that submits the callback: a step that marks the submission, then the
  submitter itself.\<close>

definition submitter_child ::
  "(u8 list \<Rightarrow> u8 list) \<Rightarrow> 'w services \<Rightarrow> (string \<Rightarrow> 'w \<Rightarrow> (string + unit) \<times> 'w) \<Rightarrow> string \<Rightarrow>
   ('w scope, durable_error, unit) cmd"
where
  "submitter_child blake2b sv submitter callback_id =
     bindE (ctx_step_named blake2b sv unit_codec ''execute_submitter'' (\<lambda>_ w. (Inr (), w)) None) (\<lambda>_.
     bindE (in_env (run_user (submitter callback_id))) (\<lambda>q. case q of
       Inl e \<Rightarrow> throwE (UserCode e ''SubmitterError'' None)
     | Inr _ \<Rightarrow> retE ()))"

definition ctx_wait_for_callback ::
  "(u8 list \<Rightarrow> u8 list) \<Rightarrow> 'w services \<Rightarrow> 'a codec \<Rightarrow> (string \<Rightarrow> 'w \<Rightarrow> (string + unit) \<times> 'w) \<Rightarrow>
   callback_config option \<Rightarrow> ('w scope, durable_error, 'a) cmd"
where
  "ctx_wait_for_callback blake2b sv c submitter config =
     bindE (ctx_create_callback blake2b sv None config) (\<lambda>callback.
     bindE (take_identifier blake2b (Some ''wait_for_callback_submitter'')) (\<lambda>oi.
     bindE (in_env (track_result (oi_operation_id oi) (child_handler sv unit_codec
       (in_context (submitter_child blake2b sv submitter (ch_callback_id callback))) oi child_config_default)))
       (\<lambda>_. in_env (callback_result c callback))))"

section \<open>Running an operation\<close>

lemma durable_operation_run:
  assumes "next_operation_identifier blake2b name (sp_context sp) = (oi, ctx)"
    and "handler oi (sp_env sp) = (q, v)"
  shows "durable_operation blake2b name handler sp =
     (q, sp\<lparr>sp_context := ctx, sp_env :=
        (case q of Inr x \<Rightarrow> v\<lparr>env_state := track_replay (oi_operation_id oi) (env_state v)\<rparr> | Inl e \<Rightarrow> v)\<rparr>)"
  using assms by (cases q) (simp_all add: durable_operation_def take_identifier_def bindE_def in_env_def
      track_result_def)

section \<open>Reading the context\<close>

definition next_operation_id :: "(u8 list \<Rightarrow> u8 list) \<Rightarrow> durable_context \<Rightarrow> string \<times> durable_context" where
  "next_operation_id blake2b ctx = (case next_id blake2b (dc_generator ctx) of (i, g) \<Rightarrow> (i, ctx\<lparr>dc_generator := g\<rparr>))"

definition current_step_counter :: "durable_context \<Rightarrow> u64" where
  "current_step_counter ctx = current_counter (dc_generator ctx)"

definition get_original_input :: "'a codec \<Rightarrow> exec_state \<Rightarrow> durable_error + 'a" where
  "get_original_input c s = (case get_original_input_raw s of
     None \<Rightarrow> Inl (Validation (''No original input available. '' @
       ''The EXECUTION operation may not exist or has no input payload.''))
   | Some payload \<Rightarrow> map_sum (\<lambda>e. SerDes (''Failed to deserialize original input: '' @ e)) id (from_json c payload))"

text \<open>The input of the caller is read back from the first EXECUTION operation of the invocation.\<close>

lemma get_original_input_first:
  assumes "ies_operations init = pre @ op # post" "\<forall>p \<in> set pre. op_type p \<noteq> ExecutionOp" "op_type op = ExecutionOp"
    and "op_execution_details op = Some (Some payload)"
  shows "get_original_input c (exec_state_new arn token init) =
    map_sum (\<lambda>e. SerDes (''Failed to deserialize original input: '' @ e)) id (from_json c payload)"
proof -
  have "find (\<lambda>op. op_type op = ExecutionOp) (ies_operations init) = Some op"
    unfolding assms(1) using assms(2,3) by (induction pre) auto
  then show ?thesis
    using assms(4) by (simp add: get_original_input_def get_original_input_raw_def exec_state_new_def with_checkpointing_mode_def Let_def)
qed

end
