(* ===== verification/Replay_Safe.thy ===== *)
theory Replay_Safe
  imports Context_Ids Execution_State
begin

text \<open>
  Replay-safe helpers of \<open>sdk/src/replay_safe.rs\<close>: identifiers derived from the identifier of an operation
  instead of a random source, and the start of the execution instead of the clock.
\<close>

section \<open>Identifiers\<close>

text \<open>The first 16 bytes of the hash, with the version and the variant of a random UUID.\<close>

definition uuid_from_operation :: "(u8 list \<Rightarrow> u8 list) \<Rightarrow> string \<Rightarrow> u64 \<Rightarrow> u8 list" where
  "uuid_from_operation blake2b i seed =
     (let bytes = take 16 (blake2b (id_message i seed));
          bytes = bytes[6 := or (and (bytes ! 6) 15) 64]
      in bytes[8 := or (and (bytes ! 8) 63) 128])"

definition uuid_to_string :: "u8 list \<Rightarrow> string" where
  "uuid_to_string b =
     hex_encode (take 4 b) @ ''-'' @ hex_encode (take 2 (drop 4 b)) @ ''-'' @
     hex_encode (take 2 (drop 6 b)) @ ''-'' @ hex_encode (take 2 (drop 8 b)) @ ''-'' @
     hex_encode (take 6 (drop 10 b))"

definition uuid_string_from_operation :: "(u8 list \<Rightarrow> u8 list) \<Rightarrow> string \<Rightarrow> u64 \<Rightarrow> string" where
  "uuid_string_from_operation blake2b i seed = uuid_to_string (uuid_from_operation blake2b i seed)"

section \<open>Timestamps\<close>

definition timestamp_from_execution :: "exec_state \<Rightarrow> int option" where
  "timestamp_from_execution s = Option.bind (es_execution_operation s) op_start_timestamp"

text \<open>The division of Rust rounds towards zero.\<close>

definition timestamp_seconds_from_execution :: "exec_state \<Rightarrow> int option" where
  "timestamp_seconds_from_execution s =
     map_option (\<lambda>ms. sgn ms * (\<bar>ms\<bar> div 1000)) (timestamp_from_execution s)"

section \<open>Properties\<close>

lemma bytes_16:
  assumes "length b = 16"
  obtains b0 b1 b2 b3 b4 b5 b6 b7 b8 b9 b10 b11 b12 b13 b14 b15
  where "b = [b0, b1, b2, b3, b4, b5, b6, b7, b8, b9, b10, b11, b12, b13, b14, b15]"
  using assms by (fastforce simp: numeral_eq_Suc length_Suc_conv)

lemma uuid_to_string_16:
  "uuid_to_string [b0, b1, b2, b3, b4, b5, b6, b7, b8, b9, b10, b11, b12, b13, b14, b15] =
     hex_encode [b0, b1, b2, b3] @ ''-'' @ hex_encode [b4, b5] @ ''-'' @ hex_encode [b6, b7] @ ''-'' @
     hex_encode [b8, b9] @ ''-'' @ hex_encode [b10, b11, b12, b13, b14, b15]"
  by (simp add: uuid_to_string_def)

lemma uuid_to_string_inj:
  assumes "length a = 16" "length b = 16" "uuid_to_string a = uuid_to_string b"
  shows "a = b"
proof (rule bytes_16 [OF assms(1)], rule bytes_16 [OF assms(2)])
  show "a = b" if "a = [a0, a1, a2, a3, a4, a5, a6, a7, a8, a9, a10, a11, a12, a13, a14, a15]"
    "b = [b0, b1, b2, b3, b4, b5, b6, b7, b8, b9, b10, b11, b12, b13, b14, b15]"
    for a0 a1 a2 a3 a4 a5 a6 a7 a8 a9 a10 a11 a12 a13 a14 a15 b0 b1 b2 b3 b4 b5 b6 b7 b8 b9 b10 b11 b12 b13 b14 b15
    using assms(3) hex_encode_inj [of a b] by (simp add: that uuid_to_string_16)
qed

lemma low_bits:
  fixes x :: u8
  assumes "n < 8"
  shows "unat (and x (mask n)) < 2 ^ n"
  using assms take_bit_nat_less_exp [of n "unat x"] by (simp add: unsigned_take_bit_eq flip: take_bit_eq_mask)

lemma version_nibble: "unat (or (and (x :: u8) 15) 64) div 16 = 4"
proof -
  have m: "(15 :: u8) = mask 4" by (simp add: mask_eq_exp_minus_1)
  have "and (and x 15) 64 = 0" by (simp add: and.assoc)
  then have "or (and x 15) 64 = and x 15 + 64" by (simp add: disjunctive_add_eq_or)
  moreover have "unat (and x 15) < 16" using low_bits [of 4 x] by (simp add: m)
  ultimately show ?thesis by (simp add: unat_word_ariths)
qed

lemma variant_nibble: "unat (or (and (x :: u8) 63) 128) div 16 \<in> {8, 9, 10, 11}"
proof -
  have m: "(63 :: u8) = mask 6" by (simp add: mask_eq_exp_minus_1)
  have "and (and x 63) 128 = 0" by (simp add: and.assoc)
  then have "or (and x 63) 128 = and x 63 + 128" by (simp add: disjunctive_add_eq_or)
  moreover have "unat (and x 63) < 64" using low_bits [of 6 x] by (simp add: m)
  ultimately have m: "unat (or (and x 63) 128) = unat (and x 63) + 128" "unat (and x 63) < 64"
    by (simp_all add: unat_word_ariths)
  then have "8 \<le> unat (or (and x 63) 128) div 16" "unat (or (and x 63) 128) div 16 < 12" by simp_all
  then show ?thesis by auto
qed

lemma uuid_string_wellformed_length:
  "length (blake2b (id_message i seed)) \<ge> 16 \<Longrightarrow> length (uuid_string_from_operation blake2b i seed) = 36"
  by (simp add: uuid_string_from_operation_def uuid_from_operation_def uuid_to_string_def Let_def hex_encode_length)

definition is_hex :: "char \<Rightarrow> bool" where
  "is_hex ch \<longleftrightarrow> ch \<in> set ''0123456789abcdef''"

lemma hex_digit_cases:
  "n < 16 \<Longrightarrow> hex_digit n = ''0123456789abcdef'' ! n"
proof -
  have "list_all (\<lambda>n. hex_digit n = ''0123456789abcdef'' ! n) [0..<16]" by code_simp
  then show "n < 16 \<Longrightarrow> hex_digit n = ''0123456789abcdef'' ! n" by (simp add: list_all_iff)
qed

lemma hex_digit_is_hex: "n < 16 \<Longrightarrow> is_hex (hex_digit n)"
  using nth_mem [of n "''0123456789abcdef''"] by (simp add: hex_digit_cases is_hex_def)

text \<open>C30: A derived identifier has the form of a random UUID: 36 characters, four hyphens between groups
  of hexadecimal digits, the version 4 and one of the variants 8, 9, a and b. It is a function of the
  operation and the seed, and two hashes that differ outside the six overwritten bits give different
  identifiers.\<close>

theorem uuid_string_wellformed:
  assumes "length (blake2b (id_message i seed)) \<ge> 16"
  defines "s \<equiv> uuid_string_from_operation blake2b i seed"
  shows "length s = 36 \<and> (\<forall>k \<in> {8, 13, 18, 23}. s ! k = CHR ''-'') \<and>
     (\<forall>k < 36. k \<notin> {8, 13, 18, 23} \<longrightarrow> is_hex (s ! k)) \<and>
     s ! 14 = CHR ''4'' \<and> s ! 19 \<in> set ''89ab'' \<and>
     (\<forall>j seed'. length (blake2b (id_message j seed')) \<ge> 16 \<longrightarrow>
        (uuid_string_from_operation blake2b j seed' = s \<longleftrightarrow>
         uuid_from_operation blake2b j seed' = uuid_from_operation blake2b i seed))"
proof -
  have len: "length (uuid_from_operation blake2b j sd) = 16" if "length (blake2b (id_message j sd)) \<ge> 16" for j sd
    using that by (simp add: uuid_from_operation_def Let_def)
  let ?b = "uuid_from_operation blake2b i seed"
  have nib: "unat (?b ! 6) div 16 = 4" "unat (?b ! 8) div 16 \<in> {8, 9, 10, 11}"
    using assms(1) version_nibble variant_nibble by (simp_all add: uuid_from_operation_def Let_def)
  obtain b0 b1 b2 b3 b4 b5 b6 b7 b8 b9 b10 b11 b12 b13 b14 b15
    where b: "?b = [b0, b1, b2, b3, b4, b5, b6, b7, b8, b9, b10, b11, b12, b13, b14, b15]"
    by (rule bytes_16 [OF len [OF assms(1)]])
  have s: "s = uuid_to_string [b0, b1, b2, b3, b4, b5, b6, b7, b8, b9, b10, b11, b12, b13, b14, b15]"
    by (simp add: s_def uuid_string_from_operation_def b)
  have n: "unat (x :: u8) div 16 < 16" "unat x mod 16 < 16" for x
    using unsigned_less [of x, where ?'a = nat] by simp_all
  have "list_all (\<lambda>k. k \<in> {8, 13, 18, 23} \<or> is_hex (s ! k)) [0..<36]"
    unfolding s by (simp add: uuid_to_string_16 upt_conv_Cons hex_digit_is_hex n)
  then have "\<forall>k < 36. k \<notin> {8, 13, 18, 23} \<longrightarrow> is_hex (s ! k)" by (auto simp: list_all_iff)
  moreover have "s ! 14 = CHR ''4''" "s ! 19 \<in> set ''89ab''"
    using nib unfolding s b by (auto simp: uuid_to_string_16 hex_digit_cases)
  moreover have "uuid_string_from_operation blake2b j seed' = s \<longleftrightarrow>
       uuid_from_operation blake2b j seed' = ?b" if "length (blake2b (id_message j seed')) \<ge> 16" for j seed'
    using uuid_to_string_inj [OF len [OF that] len [OF assms(1)]]
    by (auto simp: s_def uuid_string_from_operation_def)
  moreover have "length s = 36" "\<forall>k \<in> {8, 13, 18, 23}. s ! k = CHR ''-''"
    unfolding s by (simp_all add: uuid_to_string_16)
  ultimately show ?thesis by blast
qed

theorem uuid_string_wellformed_witness:
  "uuid_string_from_operation (\<lambda>m. take 64 (m @ replicate 64 0)) ''op'' 7 ! 14 = CHR ''4''"
  using uuid_string_wellformed [of "\<lambda>m. take 64 (m @ replicate 64 0)" "''op''" 7] by simp

end
