(* ===== verification/Runtime.thy ===== *)
theory Runtime
  imports Context_Operations Replay_Safe
begin

text \<open>
  One invocation of the Lambda function: the input and output records of \<open>sdk/src/lambda.rs\<close> and
  \<open>run_durable_handler\<close> of \<open>sdk/src/runtime.rs\<close>, which extracts the event, runs the handler against the
  timeout and turns its result into the output.
\<close>

section \<open>The output of an invocation\<close>

datatype invocation_status = InvocationSucceeded | InvocationFailed | InvocationPending

fun display_invocation_status :: "invocation_status \<Rightarrow> string" where
  "display_invocation_status InvocationSucceeded = ''SUCCEEDED''"
| "display_invocation_status InvocationFailed = ''FAILED''"
| "display_invocation_status InvocationPending = ''PENDING''"

record invocation_output =
  io_status :: invocation_status
  io_result :: "string option"
  io_error :: "error_object option"

definition MAX_RESPONSE_SIZE :: nat where
  "MAX_RESPONSE_SIZE = 6 * 1024 * 1024"

definition output_succeeded :: "string option \<Rightarrow> invocation_output" where
  "output_succeeded r = \<lparr>io_status = InvocationSucceeded, io_result = r, io_error = None\<rparr>"

definition output_failed :: "error_object \<Rightarrow> invocation_output" where
  "output_failed e = \<lparr>io_status = InvocationFailed, io_result = None, io_error = Some e\<rparr>"

definition output_pending :: invocation_output where
  "output_pending = \<lparr>io_status = InvocationPending, io_result = None, io_error = None\<rparr>"

lemmas output_defs = output_succeeded_def output_failed_def output_pending_def

definition output_is_succeeded :: "invocation_output \<Rightarrow> bool" where
  "output_is_succeeded out = (io_status out = InvocationSucceeded)"

definition output_is_failed :: "invocation_output \<Rightarrow> bool" where
  "output_is_failed out = (io_status out = InvocationFailed)"

definition output_is_pending :: "invocation_output \<Rightarrow> bool" where
  "output_is_pending out = (io_status out = InvocationPending)"

definition output_from_result :: "'a codec \<Rightarrow> 'a \<Rightarrow> invocation_output" where
  "output_from_result c x = (case to_json c x of
     Inr json \<Rightarrow>
       if length json > MAX_RESPONSE_SIZE
       then output_failed (error_object_new ''ResponseTooLarge''
         (''Response size '' @ show_nat (length json) @ '' bytes exceeds maximum '' @ show_nat MAX_RESPONSE_SIZE @
          '' bytes. Consider checkpointing large results.''))
       else output_succeeded (Some json)
   | Inl e \<Rightarrow> output_failed (error_object_new ''SerializationError'' (''Failed to serialize result: '' @ e)))"

definition output_from_error :: "durable_error \<Rightarrow> invocation_output" where
  "output_from_error e = (case e of
     Suspend _ \<Rightarrow> output_pending | _ \<Rightarrow> output_failed (error_object_from e))"

definition would_exceed_max_size :: "'a codec \<Rightarrow> 'a \<Rightarrow> bool" where
  "would_exceed_max_size c x = (case to_json c x of
     Inr json \<Rightarrow> length json > MAX_RESPONSE_SIZE | Inl _ \<Rightarrow> False)"

text \<open>The text of the reference to a checkpointed result, with the quotation mark as a constant.\<close>

definition quote :: string where
  "quote = [char_of (34 :: nat)]"

definition checkpointed_result_text :: "string \<Rightarrow> nat \<Rightarrow> string" where
  "checkpointed_result_text i n =
     ''{'' @ quote @ ''__checkpointed_result__'' @ quote @ '':'' @ quote @ i @ quote @ '','' @
     quote @ ''size'' @ quote @ '':'' @ show_nat n @ ''}''"

definition output_checkpointed_result :: "string \<Rightarrow> nat \<Rightarrow> invocation_output" where
  "output_checkpointed_result i n = output_succeeded (Some (checkpointed_result_text i n))"

definition is_checkpointed_result :: "invocation_output \<Rightarrow> bool" where
  "is_checkpointed_result out = (case io_result out of
     Some r \<Rightarrow> str_contains r ''__checkpointed_result__'' | None \<Rightarrow> False)"

definition output_of_string :: "error_object + string \<Rightarrow> invocation_output" where
  "output_of_string r = (case r of Inr x \<Rightarrow> output_succeeded (Some x) | Inl e \<Rightarrow> output_failed e)"

definition output_of_option :: "error_object + string option \<Rightarrow> invocation_output" where
  "output_of_option r = (case r of Inr x \<Rightarrow> output_succeeded x | Inl e \<Rightarrow> output_failed e)"

section \<open>The input\<close>

text \<open>\<open>'j\<close> is the type of JSON values and \<open>'e\<close> the event type of the user; how a value or a text is read as
  an event is the business of the JSON library.\<close>

record 'j invocation_input =
  ii_durable_execution_arn :: string
  ii_checkpoint_token :: string
  ii_initial_execution_state :: initial_execution_state
  ii_input :: "'j option"

definition initial_state_with_operations :: "operation list \<Rightarrow> initial_execution_state" where
  "initial_state_with_operations ops = \<lparr>ies_operations = ops, ies_next_marker = None\<rparr>"

definition initial_state_has_more :: "initial_execution_state \<Rightarrow> bool" where
  "initial_state_has_more s = (ies_next_marker s \<noteq> None)"

record ('j, 'e) event_codec =
  ec_from_value :: "'j \<Rightarrow> string + 'e"
  ec_from_str :: "string \<Rightarrow> string + 'e"
  ec_null :: 'j

definition deserialization_failed :: "string \<Rightarrow> invocation_output" where
  "deserialization_failed m = output_failed (error_object_new ''DeserializationError'' m)"

definition extract_event ::
  "('j, 'e) event_codec \<Rightarrow> 'j invocation_input \<Rightarrow> invocation_output + 'e" where
  "extract_event ec input =
     (case ii_input input of
        Some value \<Rightarrow> map_sum (\<lambda>e. deserialization_failed (''Failed to deserialize event from Input: '' @ e)) id
          (ec_from_value ec value)
      | None \<Rightarrow>
          (case Option.bind (find (\<lambda>op. op_type op = ExecutionOp)
               (ies_operations (ii_initial_execution_state input)))
             (\<lambda>op. Option.bind (op_execution_details op) id) of
             Some payload \<Rightarrow> map_sum (\<lambda>e. deserialization_failed
                 (''Failed to deserialize event from ExecutionDetails.InputPayload: '' @ e)) id
               (ec_from_str ec payload)
           | None \<Rightarrow> map_sum (\<lambda>_. deserialization_failed
                 ''No input provided and event type does not support default'') id
               (ec_from_value ec (ec_null ec))))"

section \<open>The result\<close>

definition result_operation_id :: "(u8 list \<Rightarrow> u8 list) \<Rightarrow> string \<Rightarrow> string" where
  "result_operation_id blake2b arn = ''__result__'' @ uuid_string_from_operation blake2b arn 0"

definition checkpoint_large_result ::
  "(u8 list \<Rightarrow> u8 list) \<Rightarrow> 'w services \<Rightarrow> string \<Rightarrow> string \<Rightarrow> 'w env \<Rightarrow> invocation_output \<times> 'w env" where
  "checkpoint_large_result blake2b sv json arn v =
     (let i = result_operation_id blake2b arn in
      case create_checkpoint sv (update_succeed i ExecutionOp (Some json)) True v of
        (Inr _, v1) \<Rightarrow> (output_checkpointed_result i (length json), v1)
      | (Inl e, v1) \<Rightarrow> (output_failed (error_object_new ''CheckpointError''
            (''Failed to checkpoint large result: '' @ display_error e)), v1))"

definition process_result ::
  "(u8 list \<Rightarrow> u8 list) \<Rightarrow> 'w services \<Rightarrow> 'a codec \<Rightarrow> durable_error + 'a \<Rightarrow> string \<Rightarrow> 'w env \<Rightarrow>
   invocation_output \<times> 'w env"
where
  "process_result blake2b sv c r arn v = (case r of
     Inr x \<Rightarrow> (case to_json c x of
         Inr json \<Rightarrow>
           if length json > MAX_RESPONSE_SIZE then checkpoint_large_result blake2b sv json arn v
           else (output_succeeded (Some json), v)
       | Inl e \<Rightarrow> (output_failed (error_object_new ''SerializationError''
             (''Failed to serialize result: '' @ e)), v))
   | Inl (Suspend _) \<Rightarrow> (output_pending, v)
   | Inl e \<Rightarrow> (output_failed (error_object_from e), v))"

text \<open>The completion of the execution by user code, through the context.\<close>

definition ctx_complete_execution_success ::
  "'w services \<Rightarrow> 'a codec \<Rightarrow> 'a \<Rightarrow> ('w env, durable_error, unit) cmd" where
  "ctx_complete_execution_success sv c x = (case to_json c x of
     Inr s \<Rightarrow> complete_execution_success sv (Some s)
   | Inl e \<Rightarrow> throwE (SerDes (''Failed to serialize execution result: '' @ e)))"

definition ctx_complete_execution_failure ::
  "'w services \<Rightarrow> error_object \<Rightarrow> ('w env, durable_error, unit) cmd" where
  "ctx_complete_execution_failure sv e = complete_execution_failure sv e"

definition complete_execution_if_large ::
  "'w services \<Rightarrow> 'a codec \<Rightarrow> 'a \<Rightarrow> ('w env, durable_error, bool) cmd" where
  "complete_execution_if_large sv c x =
     (if would_exceed_max_size c x
      then bindE (ctx_complete_execution_success sv c x) (\<lambda>_. retE True)
      else retE False)"

section \<open>The invocation\<close>

text \<open>The handler races the timeout: \<open>interrupted\<close> is the environment in which the timer found the
  handler, \<open>None\<close> when the handler returned first. \<open>client\<close> is the service client, or the error of its
  construction.\<close>

definition run_durable_handler ::
  "(u8 list \<Rightarrow> u8 list) \<Rightarrow> durable_error + 'w services \<Rightarrow> ('j, 'e) event_codec \<Rightarrow> 'a codec \<Rightarrow>
   ('e \<Rightarrow> ('w scope, durable_error, 'a) cmd) \<Rightarrow> 'w env option \<Rightarrow> 'j invocation_input \<Rightarrow> 'w \<Rightarrow>
   (durable_error + invocation_output) \<times> 'w env"
where
  "run_durable_handler blake2b client ec c handler interrupted input w =
     (let s = with_batcher_and_mode (ii_durable_execution_arn input) (ii_checkpoint_token input)
                (ii_initial_execution_state input) Batched;
          v = \<lparr>env_state = s, env_world = w\<rparr>
      in case extract_event ec input of
           Inl out \<Rightarrow> (Inr out, v)
         | Inr event \<Rightarrow>
             (case client of
                Inl e \<Rightarrow> (Inl e, v)
              | Inr sv \<Rightarrow>
                  (case interrupted of
                     Some v1 \<Rightarrow> (Inr output_pending, v1)
                   | None \<Rightarrow>
                       (case handler event \<lparr>sp_env = v, sp_context = context_new s\<rparr> of
                          (r, sp) \<Rightarrow> (case process_result blake2b sv c r (ii_durable_execution_arn input) (sp_env sp) of
                             (out, v1) \<Rightarrow> (Inr out, v1))))))"

end
