(* ===== verification/Orchestrator.thy ===== *)
theory Orchestrator
  imports Operation_Storage Checkpoint_Server Runtime Durable_Operation
begin

text \<open>
  The test runner: \<open>testing/src/checkpoint_server/orchestrator.rs\<close>. It starts an execution on the
  checkpoint server, runs the handler, and while the handler suspends it looks at the operations,
  ends the waits, starts another invocation and runs the handler again. The world of a run is the
  user's world beside the server; the time that \<open>tokio::time::advance\<close> skips is not modelled, and what the
  rest of the test does while the runner sleeps is a parameter.
\<close>

section \<open>State\<close>

record orchestrator =
  or_operation_storage :: operation_storage
  or_pending_operations :: "string list"
  or_invocation_active :: bool
  or_execution_id :: "string option"
  or_checkpoint_token :: "string option"
  or_execution_complete :: bool
  or_registered_handles :: "operation_handle list"
  or_shared_operations :: "operation list"
  or_skip_time :: bool

definition orchestrator_new :: "bool \<Rightarrow> operation_handle list \<Rightarrow> orchestrator" where
  "orchestrator_new skip handles =
     \<lparr>or_operation_storage = operation_storage_new, or_pending_operations = [], or_invocation_active = False,
      or_execution_id = None, or_checkpoint_token = None, or_execution_complete = False,
      or_registered_handles = handles, or_shared_operations = [], or_skip_time = skip\<rparr>"

record 'o test_execution_result =
  ter_status :: execution_status
  ter_result :: "'o option"
  ter_error :: "test_result_error option"
  ter_operations :: "operation list"
  ter_invocations :: "test_invocation list"
  ter_execution_id :: string

definition test_success ::
  "'o \<Rightarrow> operation list \<Rightarrow> string \<Rightarrow> test_invocation list \<Rightarrow> 'o test_execution_result" where
  "test_success x ops e invs = \<lparr>ter_status = SucceededExecution, ter_result = Some x, ter_error = None,
     ter_operations = ops, ter_invocations = invs, ter_execution_id = e\<rparr>"

definition test_failure ::
  "test_result_error \<Rightarrow> operation list \<Rightarrow> string \<Rightarrow> test_invocation list \<Rightarrow> 'o test_execution_result" where
  "test_failure err ops e invs = \<lparr>ter_status = FailedExecution, ter_result = None, ter_error = Some err,
     ter_operations = ops, ter_invocations = invs, ter_execution_id = e\<rparr>"

definition test_running :: "operation list \<Rightarrow> string \<Rightarrow> test_invocation list \<Rightarrow> 'o test_execution_result" where
  "test_running ops e invs = \<lparr>ter_status = RunningExecution, ter_result = None, ter_error = None,
     ter_operations = ops, ter_invocations = invs, ter_execution_id = e\<rparr>"

section \<open>Looking at the operations\<close>

datatype process_operations_result =
    ExecutionHasSucceeded string
  | ExecutionHasFailed test_result_error
  | NoPendingOperations
  | ShouldReinvoke "nat option"

datatype operation_process_result = OperationPending "int option" | OperationCompleted | OperationNotApplicable

definition handle_execution_update :: "operation list \<Rightarrow> process_operations_result option" where
  "handle_execution_update ops = (case find (\<lambda>op. op_type op = ExecutionOp) ops of
     None \<Rightarrow> None
   | Some op \<Rightarrow>
       if op_status op = Succeeded
       then Some (ExecutionHasSucceeded (case op_result op of Some r \<Rightarrow> r | None \<Rightarrow> []))
       else if op_status op = Failed
       then Some (ExecutionHasFailed (case op_error op of
              Some e \<Rightarrow> test_result_error_new (eo_type e) (eo_message e)
            | None \<Rightarrow> test_result_error_new ''ExecutionFailed'' ''Execution failed''))
       else None)"

definition handle_wait_update :: "operation \<Rightarrow> string list \<Rightarrow> operation_process_result \<times> string list" where
  "handle_wait_update op pending =
     (if op_status op \<noteq> Started then (OperationCompleted, pending)
      else (OperationPending (Option.bind (op_wait_details op) id), hs_insert (op_id op) pending))"

definition handle_step_update :: "operation \<Rightarrow> string list \<Rightarrow> operation_process_result \<times> string list" where
  "handle_step_update op pending =
     (if op_status op \<noteq> Pending \<and> op_status op \<noteq> Started then (OperationCompleted, pending)
      else (OperationPending (Option.bind (op_step_details op) sd_next_attempt_timestamp),
            hs_insert (op_id op) pending))"

definition handle_callback_update :: "operation \<Rightarrow> string list \<Rightarrow> operation_process_result \<times> string list" where
  "handle_callback_update op pending =
     (if op_status op \<noteq> Started then (OperationCompleted, removeAll (op_id op) pending)
      else (OperationPending None, hs_insert (op_id op) pending))"

definition process_operation :: "operation \<Rightarrow> string list \<Rightarrow> operation_process_result \<times> string list" where
  "process_operation op pending =
     (if is_terminal (op_status op) then (OperationCompleted, pending)
      else case op_type op of
             WaitOp \<Rightarrow> handle_wait_update op pending
           | StepOp \<Rightarrow> handle_step_update op pending
           | CallbackOp \<Rightarrow> handle_callback_update op pending
           | _ \<Rightarrow> (OperationNotApplicable, pending))"

fun earlier :: "int option \<Rightarrow> int option \<Rightarrow> int option" where
  "earlier None current = current"
| "earlier (Some t) None = Some t"
| "earlier (Some t) (Some c) = Some (if t < c then t else c)"

text \<open>The loop over the operations: whether one is pending, the earliest scheduled time, the pending set.\<close>

fun scan_operations :: "operation list \<Rightarrow> bool \<Rightarrow> int option \<Rightarrow> string list \<Rightarrow> bool \<times> int option \<times> string list" where
  "scan_operations [] has earliest pending = (has, earliest, pending)"
| "scan_operations (op # ops) has earliest pending = (case process_operation op pending of
     (OperationPending t, pending1) \<Rightarrow> scan_operations ops True (earlier t earliest) pending1
   | (_, pending1) \<Rightarrow> scan_operations ops has earliest pending1)"

definition process_operations ::
  "int \<Rightarrow> operation list \<Rightarrow> orchestrator \<Rightarrow> process_operations_result \<times> orchestrator" where
  "process_operations now ops o' = (case handle_execution_update ops of
     Some r \<Rightarrow> (r, o')
   | None \<Rightarrow> (case scan_operations ops False None (or_pending_operations o') of
       (has, earliest, pending) \<Rightarrow>
         (if \<not> has then NoPendingOperations
          else ShouldReinvoke (map_option (\<lambda>t. if t > now then nat (t - now) else 0) earliest),
          o'\<lparr>or_pending_operations := pending\<rparr>)))"

section \<open>Handles\<close>

definition match_operation :: "operation_matcher \<Rightarrow> operation list \<Rightarrow> operation option" where
  "match_operation m ops = (case m of
     ByName n \<Rightarrow> find (\<lambda>op. op_name op = Some n) ops
   | ByIndex i \<Rightarrow> if i < length ops then Some (ops ! i) else None
   | ById i \<Rightarrow> find (\<lambda>op. op_id op = i) ops
   | ByNameAndIndex n i \<Rightarrow>
       (let named = filter (\<lambda>op. op_name op = Some n) ops in if i < length named then Some (named ! i) else None))"

definition populate_handle :: "operation list \<Rightarrow> operation_handle \<Rightarrow> operation_handle" where
  "populate_handle ops h = (case match_operation (oh_matcher h) ops of
     Some op \<Rightarrow> h\<lparr>oh_inner := Some op, oh_status := Some (op_status op)\<rparr> | None \<Rightarrow> h)"

definition populate_handles :: "operation list \<Rightarrow> orchestrator \<Rightarrow> orchestrator" where
  "populate_handles ops o' = o'\<lparr>or_shared_operations := ops,
     or_registered_handles := map (populate_handle ops) (or_registered_handles o')\<rparr>"

section \<open>A run\<close>

record 'u run_state =
  rs_orchestrator :: orchestrator
  rs_world :: "'u \<times> server"

type_synonym ('u, 'a) run = "('u run_state, test_error, 'a) cmd"

text \<open>The parameters of a runner: its hosts, the handler with the codecs of its input and output, and what
  happens in the world during a pause between two polls.\<close>

record ('u, 'i, 'o) runner =
  ru_hosts :: "nat \<Rightarrow> host"
  ru_input :: "'i codec"
  ru_output :: "'o codec"
  ru_handler :: "'i \<Rightarrow> (('u \<times> server) scope, durable_error, 'o) cmd"
  ru_pause :: "'u \<times> server \<Rightarrow> 'u \<times> server"

definition current_host :: "('u, 'i, 'o) runner \<Rightarrow> 'u run_state \<Rightarrow> host" where
  "current_host ru rs = ru_hosts ru (srv_commands (snd (rs_world rs)))"

definition api :: "('u, 'i, 'o) runner \<Rightarrow> api_request \<Rightarrow> 'u run_state \<Rightarrow> (string + api_payload) \<times> 'u run_state" where
  "api ru req rs = (case on_server (send_api_request (ru_hosts ru) req) (rs_world rs) of
     (r, w) \<Rightarrow> (r, rs\<lparr>rs_world := w\<rparr>))"

definition on_orchestrator :: "(orchestrator \<Rightarrow> orchestrator) \<Rightarrow> 'u run_state \<Rightarrow> 'u run_state" where
  "on_orchestrator f rs = rs\<lparr>rs_orchestrator := f (rs_orchestrator rs)\<rparr>"

definition expect_invocation :: "string + api_payload \<Rightarrow> test_error + invocation_result" where
  "expect_invocation r = (case r of
     Inl e \<Rightarrow> Inl (CheckpointServerError e)
   | Inr (InvocationPayload i) \<Rightarrow> Inr i
   | Inr _ \<Rightarrow> Inl (TestSerializationError ''unexpected payload''))"

text \<open>The operations of the execution, none when the request fails.\<close>

definition fetch_operations :: "('u, 'i, 'o) runner \<Rightarrow> string \<Rightarrow> 'u run_state \<Rightarrow> operation list option \<times> 'u run_state" where
  "fetch_operations ru e rs = (case on_server (client_get_operations (ru_hosts ru) e []) (rs_world rs) of
     (Inr r, w) \<Rightarrow> (Some (gor_operations r), rs\<lparr>rs_world := w\<rparr>)
   | (Inl _, w) \<Rightarrow> (None, rs\<lparr>rs_world := w\<rparr>))"

definition fetch_and_store :: "('u, 'i, 'o) runner \<Rightarrow> string \<Rightarrow> 'u run_state \<Rightarrow> operation list \<times> 'u run_state" where
  "fetch_and_store ru e rs = (case fetch_operations ru e rs of
     (Some ops, rs1) \<Rightarrow>
       (ops, on_orchestrator (\<lambda>o'. o'\<lparr>or_operation_storage := fold os_update_operation ops (or_operation_storage o')\<rparr>) rs1)
   | (None, rs1) \<Rightarrow> ([], rs1))"

text \<open>\<open>run_handler\<close>: one call of the handler with the execution state of the invocation.\<close>

definition run_handler ::
  "('u, 'i, 'o) runner \<Rightarrow> 'i \<Rightarrow> exec_state \<Rightarrow> 'u run_state \<Rightarrow> (durable_error + 'o) \<times> test_invocation \<times> 'u run_state" where
  "run_handler ru payload s rs =
     (let start = ho_now (current_host ru rs);
          (r, v) = in_context (ru_handler ru payload) (context_new s) \<lparr>env_state = s, env_world = rs_world rs\<rparr>;
          rs1 = (on_orchestrator (\<lambda>o'. o'\<lparr>or_invocation_active := False\<rparr>) rs)\<lparr>rs_world := env_world v\<rparr>
      in (r, invocation_with_end (ho_now (current_host ru rs1)) (invocation_with_start start), rs1))"

definition send_complete_invocation ::
  "('u, 'i, 'o) runner \<Rightarrow> string \<Rightarrow> string \<Rightarrow> durable_error + 'o \<Rightarrow> 'u run_state \<Rightarrow> 'u run_state" where
  "send_complete_invocation ru e i r rs = snd (api ru (CompleteInvocation e i
     (case r of Inr _ \<Rightarrow> None | Inl err \<Rightarrow> if is_suspend err then None else Some (error_object_from err))) rs)"

definition send_complete_execution ::
  "('u, 'i, 'o) runner \<Rightarrow> string \<Rightarrow> string option \<Rightarrow> error_object option \<Rightarrow> 'u run_state \<Rightarrow> 'u run_state" where
  "send_complete_execution ru e result error rs =
     snd (api ru (CompleteExecution e result error) (on_orchestrator (\<lambda>o'. o'\<lparr>or_execution_complete := True\<rparr>) rs))"

definition result_json :: "'o codec \<Rightarrow> 'o \<Rightarrow> string option" where
  "result_json c x = (case to_json c x of Inr s \<Rightarrow> Some s | Inl _ \<Rightarrow> None)"

section \<open>Waiting for callbacks\<close>

definition MAX_CALLBACK_POLLS :: nat where
  "MAX_CALLBACK_POLLS = 6000"

definition all_callbacks_done :: "string list \<Rightarrow> operation list \<Rightarrow> bool" where
  "all_callbacks_done pending ops \<longleftrightarrow> (\<forall>i \<in> set pending. \<exists>op \<in> set ops. op_id op = i \<and>
     op_type op = CallbackOp \<and> op_status op \<in> {Succeeded, Failed, Cancelled})"

text \<open>The text of the error, without the debug text of the pending set at its end.\<close>

definition polling_timed_out :: test_error where
  "polling_timed_out = CheckpointServerError (''Callback polling timed out after '' @ show_nat MAX_CALLBACK_POLLS @
     '' iterations (~'' @ show_nat (MAX_CALLBACK_POLLS * 50 div 1000) @ ''s). Pending operations: '')"

fun poll_callbacks :: "('u, 'i, 'o) runner \<Rightarrow> string \<Rightarrow> nat \<Rightarrow> ('u, operation list) run" where
  "poll_callbacks ru e 0 rs = (Inl polling_timed_out, rs)"
| "poll_callbacks ru e (Suc n) rs =
     (case fetch_operations ru e (rs\<lparr>rs_world := ru_pause ru (rs_world rs)\<rparr>) of
        (None, rs1) \<Rightarrow> poll_callbacks ru e n rs1
      | (Some ops, rs1) \<Rightarrow>
          (let rs2 = on_orchestrator (populate_handles ops) rs1 in
           if all_callbacks_done (or_pending_operations (rs_orchestrator rs2)) ops then (Inr ops, rs2)
           else poll_callbacks ru e n rs2))"

section \<open>The loop of a suspended execution\<close>

definition MAX_ITERATIONS :: nat where
  "MAX_ITERATIONS = 100"

definition too_many_iterations :: test_error where
  "too_many_iterations = CheckpointServerError ''Maximum iteration count exceeded''"

text \<open>Every started wait is reported as succeeded, whatever its scheduled end.\<close>

definition complete_wait :: "('u, 'i, 'o) runner \<Rightarrow> string \<Rightarrow> operation \<Rightarrow> 'u run_state \<Rightarrow> 'u run_state" where
  "complete_wait ru e op rs =
     (if op_type op = WaitOp \<and> op_status op = Started
      then snd (api ru (UpdateCheckpointData e (op_id op)
             (op\<lparr>op_status := Succeeded, op_end_timestamp := Some (ho_now (current_host ru rs))\<rparr>)) rs)
      else rs)"

definition complete_waits :: "('u, 'i, 'o) runner \<Rightarrow> string \<Rightarrow> operation list \<Rightarrow> 'u run_state \<Rightarrow> 'u run_state" where
  "complete_waits ru e ops rs = fold (complete_wait ru e) ops rs"

text \<open>The next invocation: the server's operations become the initial state of the SDK.\<close>

definition reinvoke ::
  "('u, 'i, 'o) runner \<Rightarrow> 'i \<Rightarrow> string \<Rightarrow> ('u, (durable_error + 'o) \<times> test_invocation) run" where
  "reinvoke ru payload e rs =
     (let i = ho_uuid (current_host ru rs) 3;
          (r, rs1) = api ru (StartInvocation e i) rs
      in case expect_invocation r of
           Inl err \<Rightarrow> (Inl err, rs1)
         | Inr ir \<Rightarrow>
             (let rs2 = on_orchestrator (\<lambda>o'. o'\<lparr>or_checkpoint_token := Some (ir_checkpoint_token ir)\<rparr>) rs1;
                  s = exec_state_new e (ir_checkpoint_token ir)
                        (initial_state_with_operations (map oe_operation (ir_operation_events ir)));
                  (q, iv, rs3) = run_handler ru payload s rs2
              in (Inr (q, iv), send_complete_invocation ru e i q rs3)))"

definition final_operations :: "('u, 'i, 'o) runner \<Rightarrow> string \<Rightarrow> 'u run_state \<Rightarrow> operation list \<times> 'u run_state" where
  "final_operations ru e rs = (case fetch_operations ru e rs of
     (ops, rs1) \<Rightarrow> (let l = (case ops of Some x \<Rightarrow> x | None \<Rightarrow> []) in (l, on_orchestrator (populate_handles l) rs1)))"

text \<open>A handler that returned: success or failure is reported to the server and to the caller.\<close>

definition finish_success ::
  "('u, 'i, 'o) runner \<Rightarrow> string \<Rightarrow> test_invocation list \<Rightarrow> 'o \<Rightarrow> ('u, 'o test_execution_result) run" where
  "finish_success ru e invs x rs =
     (case final_operations ru e (send_complete_execution ru e (result_json (ru_output ru) x) None rs) of
        (ops, rs1) \<Rightarrow> (Inr (test_success x ops e invs), rs1))"

definition handler_error :: "durable_error \<Rightarrow> test_result_error" where
  "handler_error err = test_result_error_new (eo_type (error_object_from err)) (display_error err)"

definition finish_failure ::
  "('u, 'i, 'o) runner \<Rightarrow> string \<Rightarrow> test_invocation list \<Rightarrow> test_invocation \<Rightarrow> durable_error \<Rightarrow>
   ('u, 'o test_execution_result) run" where
  "finish_failure ru e invs iv err rs =
     (case final_operations ru e (send_complete_execution ru e None (Some (error_object_from err)) rs) of
        (ops, rs1) \<Rightarrow>
          (Inr (test_failure (handler_error err) ops e (invs @ [invocation_with_error (handler_error err) iv])), rs1))"

definition error_object_of_result :: "test_result_error \<Rightarrow> error_object" where
  "error_object_of_result err = \<lparr>eo_type = (case tre_error_type err of Some t \<Rightarrow> t | None \<Rightarrow> []),
     eo_message = (case tre_error_message err of Some m \<Rightarrow> m | None \<Rightarrow> []), eo_stack_trace = None\<rparr>"

text \<open>One iteration asks for another when its invocation suspended; the iterations left are the first
  argument.\<close>

fun handle_pending_execution ::
  "('u, 'i, 'o) runner \<Rightarrow> 'i \<Rightarrow> string \<Rightarrow> nat \<Rightarrow> test_invocation list \<Rightarrow> ('u, 'o test_execution_result) run" where
  "handle_pending_execution ru payload e 0 invs rs = (Inl too_many_iterations, rs)"
| "handle_pending_execution ru payload e (Suc n) invs rs =
     (let (ops, rs1) = fetch_and_store ru e rs;
          rs2 = on_orchestrator (populate_handles ops) rs1;
          (p, o2) = process_operations (ho_now (current_host ru rs2)) ops (rs_orchestrator rs2);
          rs3 = rs2\<lparr>rs_orchestrator := o2\<rparr>
      in case p of
           ExecutionHasSucceeded text \<Rightarrow>
             (let rs4 = send_complete_execution ru e (Some text) None rs3 in
              case from_json (ru_output ru) text of
                Inr x \<Rightarrow> (Inr (test_success x ops e invs), rs4)
              | Inl _ \<Rightarrow> (Inr (test_running ops e invs), rs4))
         | ExecutionHasFailed err \<Rightarrow>
             (Inr (test_failure err ops e invs), send_complete_execution ru e None (Some (error_object_of_result err)) rs3)
         | NoPendingOperations \<Rightarrow> (Inr (test_running ops e invs), rs3)
         | ShouldReinvoke advance \<Rightarrow>
             (if advance = None \<and> or_registered_handles o2 = [] then (Inr (test_running ops e invs), rs3)
              else case (if advance = None then poll_callbacks ru e MAX_CALLBACK_POLLS rs3 else (Inr ops, rs3)) of
                (Inl err, rs4) \<Rightarrow> (Inl err, rs4)
              | (Inr ops1, rs4) \<Rightarrow>
                  (case reinvoke ru payload e (if advance = None then rs4 else complete_waits ru e ops1 rs4) of
                     (Inl err, rs5) \<Rightarrow> (Inl err, rs5)
                   | (Inr (Inr x, iv), rs5) \<Rightarrow> finish_success ru e (invs @ [iv]) x rs5
                   | (Inr (Inl err, iv), rs5) \<Rightarrow>
                       if is_suspend err then handle_pending_execution ru payload e n (invs @ [iv]) rs5
                       else finish_failure ru e invs iv err rs5)))"

section \<open>An execution from the beginning\<close>

definition clear_run :: "orchestrator \<Rightarrow> orchestrator" where
  "clear_run o' = o'\<lparr>or_operation_storage := os_clear (or_operation_storage o'), or_pending_operations := [],
     or_execution_complete := False\<rparr>"

definition first_invocation ::
  "('u, 'i, 'o) runner \<Rightarrow> 'i \<Rightarrow> string \<Rightarrow>
   ('u, string \<times> (durable_error + 'o) \<times> test_invocation \<times> operation list) run" where
  "first_invocation ru payload text rs =
     (let i = ho_uuid (current_host ru rs) 3;
          (r, rs1) = api ru (StartDurableExecution (Some text) i) rs
      in case expect_invocation r of
           Inl err \<Rightarrow> (Inl err, rs1)
         | Inr ir \<Rightarrow>
             (let e = ir_execution_id ir;
                  rs2 = on_orchestrator (\<lambda>o'. o'\<lparr>or_execution_id := Some e,
                          or_checkpoint_token := Some (ir_checkpoint_token ir)\<rparr>) rs1;
                  s = exec_state_new e (ir_checkpoint_token ir) (initial_state_with_operations []);
                  (q, iv, rs3) = run_handler ru payload s rs2;
                  (ops, rs4) = fetch_and_store ru e (send_complete_invocation ru e i q rs3)
              in (Inr (e, q, iv, ops), on_orchestrator (populate_handles ops) rs4)))"

definition execute_handler :: "('u, 'i, 'o) runner \<Rightarrow> 'i \<Rightarrow> ('u, 'o test_execution_result) run" where
  "execute_handler ru payload rs0 =
     (let rs = on_orchestrator clear_run rs0 in
      case to_json (ru_input ru) payload of
        Inl err \<Rightarrow> (Inl (TestSerializationError err), rs)
      | Inr text \<Rightarrow>
          (case first_invocation ru payload text rs of
             (Inl err, rs1) \<Rightarrow> (Inl err, rs1)
           | (Inr (e, Inr x, iv, ops), rs1) \<Rightarrow>
               (Inr (test_success x ops e [iv]),
                send_complete_execution ru e (result_json (ru_output ru) x) None rs1)
           | (Inr (e, Inl err, iv, ops), rs1) \<Rightarrow>
               if is_suspend err then handle_pending_execution ru payload e MAX_ITERATIONS [iv] rs1
               else (Inr (test_failure (handler_error err) ops e [invocation_with_error (handler_error err) iv]),
                     send_complete_execution ru e None (Some (error_object_from err)) rs1)))"

end
