(* ===== verification/Cloud_Runner.thy ===== *)
theory Cloud_Runner
  imports Cloud_History Orchestrator
begin

text \<open>
  The runner that tests a deployed function: \<open>CloudDurableTestRunner\<close> and \<open>CloudCallbackSender\<close> of
  \<open>testing/src/cloud_runner.rs\<close>. It invokes the function, polls the history of the execution until the execution ended or the
  time is over, and keeps the operations for the test. The requests to the service are the record \<open>aws_lambda\<close>;
  the JSON of the payload and of the result are codecs. Polling may go on for ever, so a run is an option.
\<close>

section \<open>State\<close>

record cloud_config =
  cc_poll_interval :: nat
  cc_timeout :: nat

definition cloud_config_default :: cloud_config where
  "cloud_config_default = \<lparr>cc_poll_interval = 1000, cc_timeout = 300 * 1000\<rparr>"

record 'w cloud_runner =
  cr_function_name :: string
  cr_config :: cloud_config
  cr_storage :: operation_storage
  cr_handles :: "'w test_handle list"
  cr_all_operations :: "operation list"

definition ensure_qualified :: "string \<Rightarrow> string" where
  "ensure_qualified name = (if CHR '':'' \<in> set name then name else name @ '':$LATEST'')"

definition cloud_runner_new :: "string \<Rightarrow> 'w cloud_runner" where
  "cloud_runner_new name = \<lparr>cr_function_name = ensure_qualified name, cr_config = cloud_config_default,
     cr_storage = operation_storage_new, cr_handles = [], cr_all_operations = []\<rparr>"

definition add_handle :: "operation_matcher \<Rightarrow> 'w cloud_runner \<Rightarrow> 'w test_handle \<times> 'w cloud_runner" where
  "add_handle m c = (let h = operation_handle_new m (cr_all_operations c) in (h, c\<lparr>cr_handles := cr_handles c @ [h]\<rparr>))"

section \<open>Callbacks\<close>

definition cloud_callback_sender :: "'w aws_lambda \<Rightarrow> 'w callback_sender" where
  "cloud_callback_sender lam = \<lparr>
     cs_send_success = (\<lambda>i result.
       aws_request (''SendDurableExecutionCallbackSuccess failed for callback '' @ [CHR 0x27] @ i @ [CHR 0x27]) (al_callback_success lam i result)),
     cs_send_failure = (\<lambda>i e.
       aws_request (''SendDurableExecutionCallbackFailure failed for callback '' @ [CHR 0x27] @ i @ [CHR 0x27])
         (al_callback_failure lam i (tre_error_type e) (tre_error_message e))),
     cs_send_heartbeat = (\<lambda>i.
       aws_request (''SendDurableExecutionCallbackHeartbeat failed for callback '' @ [CHR 0x27] @ i @ [CHR 0x27]) (al_callback_heartbeat lam i))\<rparr>"

section \<open>The invocation\<close>

text \<open>The name of a function and the qualifier after its last colon, unless there are several.\<close>

definition split_qualifier :: "string \<Rightarrow> string \<times> string option" where
  "split_qualifier name =
     (let after = rev (takeWhile (\<lambda>c. c \<noteq> CHR '':'') (rev name));
          before = rev (tl (dropWhile (\<lambda>c. c \<noteq> CHR '':'') (rev name)))
      in if CHR '':'' \<notin> set name then (name, None)
         else if CHR '':'' \<in> set before then (name, None)
         else (before, Some after))"

definition arn_of_output :: "invoke_output \<Rightarrow> test_error + string" where
  "arn_of_output r = (case io_function_error r of
     Some fe \<Rightarrow> Inl (AwsSdkError (''Lambda function error ('' @ fe @ ''): '' @
       (case io_payload r of Some p \<Rightarrow> p | None \<Rightarrow> ''Unknown error'')))
   | None \<Rightarrow> (case io_arn r of
       Some arn \<Rightarrow> Inr arn
     | None \<Rightarrow> Inl (AwsSdkError ''No DurableExecutionArn in invoke response. Is the function a durable function?'')))"

definition invoke_lambda ::
  "'w aws_lambda \<Rightarrow> 'i codec \<Rightarrow> 'i \<Rightarrow> 'w cloud_runner \<Rightarrow> ('w, test_error, string) cmd" where
  "invoke_lambda lam ic payload c = (case to_json ic payload of
     Inl m \<Rightarrow> throwE (TestSerializationError m)
   | Inr text \<Rightarrow> (case split_qualifier (cr_function_name c) of (f, q) \<Rightarrow>
       bindE (aws_request ''Lambda invoke failed'' (al_invoke lam f q text)) (\<lambda>r. liftE (arn_of_output r))))"

section \<open>One cycle of polling\<close>

definition store_operations :: "operation list \<Rightarrow> 'w cloud_runner \<Rightarrow> 'w cloud_runner" where
  "store_operations ops c = c\<lparr>cr_storage := fold add_or_update ops (cr_storage c)\<rparr>"

definition notify_handle :: "operation_storage \<Rightarrow> 'w test_handle \<Rightarrow> 'w test_handle" where
  "notify_handle s h = (let h1 = h\<lparr>oh_all_operations := os_operations s\<rparr> in
     case lookup_operation (oh_matcher h) s of
       Some op \<Rightarrow> h1\<lparr>oh_inner := Some op, oh_status := Some (op_status op)\<rparr>
     | None \<Rightarrow> h1)"

definition notify_handles :: "'w cloud_runner \<Rightarrow> 'w cloud_runner" where
  "notify_handles c = c\<lparr>cr_all_operations := os_operations (cr_storage c),
     cr_handles := map (notify_handle (cr_storage c)) (cr_handles c)\<rparr>"

text \<open>Sleep, poll, store, notify: one pass of the loop of \<open>run\<close>, before it looks at the terminal state.\<close>

definition cloud_cycle ::
  "'w aws_lambda \<Rightarrow> 'w cloud_runner \<Rightarrow> history_poller \<Rightarrow> 'w \<Rightarrow>
   ((test_error + poll_result \<times> 'w cloud_runner \<times> history_poller) \<times> 'w) option"
where
  "cloud_cycle lam c p w =
     (case poll_once (lambda_client lam) p (al_sleep lam (cc_poll_interval (cr_config c)) w) of
        None \<Rightarrow> None
      | Some (Inl e, w1) \<Rightarrow> Some (Inl e, w1)
      | Some (Inr (r, p1), w1) \<Rightarrow> Some (Inr (r, notify_handles (store_operations (pr_operations r) c), p1), w1))"

section \<open>A run\<close>

definition terminal_result :: "'o codec \<Rightarrow> terminal_state \<Rightarrow> operation list \<Rightarrow> test_error + 'o test_result" where
  "terminal_result oc t ops =
     (if ts_status t = SucceededExecution
      then (case from_json oc (case ts_result t of Some s \<Rightarrow> s | None \<Rightarrow> ''null'') of
              Inl m \<Rightarrow> Inl (TestSerializationError m)
            | Inr x \<Rightarrow> Inr (test_result_success x ops))
      else Inr ((test_result_with_status (ts_status t) ops)\<lparr>tr_error := ts_error t\<rparr>))"

partial_function (option) cloud_loop ::
  "'w aws_lambda \<Rightarrow> 'o codec \<Rightarrow> nat \<Rightarrow> 'w cloud_runner \<Rightarrow> history_poller \<Rightarrow> test_history_event list \<Rightarrow> nodejs_event list \<Rightarrow> 'w \<Rightarrow>
   ((test_error + 'o test_result) \<times> 'w cloud_runner \<times> 'w) option"
where
  "cloud_loop lam oc deadline c p evs nevs w =
     (if al_now lam w \<ge> deadline
      then Some (Inr (test_result_with_status TimedOutExecution (os_operations (cr_storage c))), c, w)
      else case cloud_cycle lam c p w of
        None \<Rightarrow> None
      | Some (Inl e, w1) \<Rightarrow> Some (Inl e, c, w1)
      | Some (Inr (r, c1, p1), w1) \<Rightarrow>
          (case pr_terminal r of
             None \<Rightarrow> cloud_loop lam oc deadline c1 p1 (evs @ pr_events r) (nevs @ pr_nodejs_events r) w1
           | Some t \<Rightarrow>
               (case terminal_result oc t (os_operations (cr_storage c1)) of
                  Inl e \<Rightarrow> Some (Inl e, c1, w1)
                | Inr x \<Rightarrow> Some (Inr (x\<lparr>tr_history_events := evs @ pr_events r,
                    tr_nodejs_history_events := nevs @ pr_nodejs_events r\<rparr>), c1, w1))))"

definition start_run :: "'w aws_lambda \<Rightarrow> 'w cloud_runner \<Rightarrow> 'w cloud_runner" where
  "start_run lam c = c\<lparr>cr_handles := map (\<lambda>h. h\<lparr>oh_callback_sender := Some (cloud_callback_sender lam)\<rparr>) (cr_handles c)\<rparr>"

definition cloud_run ::
  "'w aws_lambda \<Rightarrow> 'i codec \<Rightarrow> 'o codec \<Rightarrow> 'i \<Rightarrow> 'w cloud_runner \<Rightarrow> 'w \<Rightarrow>
   ((test_error + 'o test_result) \<times> 'w cloud_runner \<times> 'w) option"
where
  "cloud_run lam ic oc payload c w =
     (let c0 = c\<lparr>cr_storage := operation_storage_new\<rparr> in
      case invoke_lambda lam ic payload c0 w of
        (Inl e, w1) \<Rightarrow> Some (Inl e, c0, w1)
      | (Inr arn, w1) \<Rightarrow>
          cloud_loop lam oc (al_now lam w1 + cc_timeout (cr_config c)) (start_run lam c0)
            (history_poller_new arn (cc_poll_interval (cr_config c))) [] [] w1)"

section \<open>Names of functions\<close>

text \<open>A name without a colon gets the qualifier of the latest version, and the invocation takes it off again;
  whatever the name, the two parts put together are the name again, and the function part of a split name
  has no colon of its own.\<close>

lemma split_qualifier_roundtrip:
  "(case split_qualifier (ensure_qualified name) of
      (f, None) \<Rightarrow> f = name
    | (f, Some q) \<Rightarrow> f @ '':'' @ q = ensure_qualified name \<and> CHR '':'' \<notin> set f \<and> CHR '':'' \<notin> set q) \<and>
   (CHR '':'' \<in> set name \<or> split_qualifier (ensure_qualified name) = (name, Some ''$LATEST''))"
proof (cases "CHR '':'' \<in> set name")
  case False
  have "split_qualifier (name @ '':$LATEST'') = (name, Some ''$LATEST'')"
    using False by (simp add: split_qualifier_def)
  with False show ?thesis by (simp add: ensure_qualified_def)
next
  case True
  let ?after = "rev (takeWhile (\<lambda>c. c \<noteq> CHR '':'') (rev name))"
  let ?before = "rev (tl (dropWhile (\<lambda>c. c \<noteq> CHR '':'') (rev name)))"
  have ne: "dropWhile (\<lambda>c. c \<noteq> CHR '':'') (rev name) \<noteq> []" using True by (simp add: dropWhile_eq_Nil_conv)
  then have "dropWhile (\<lambda>c. c \<noteq> CHR '':'') (rev name) = CHR '':'' # tl (dropWhile (\<lambda>c. c \<noteq> CHR '':'') (rev name))"
    using hd_dropWhile [OF ne] by (metis (full_types) list.collapse)
  then have "rev name = rev ?after @ CHR '':'' # rev ?before"
    by (metis rev_rev_ident takeWhile_dropWhile_id)
  then have name: "name = ?before @ '':'' @ ?after"
    by (metis append.assoc append_Cons append_Nil rev.simps(2) rev_append rev_rev_ident)
  have "CHR '':'' \<notin> set ?after" by (auto dest: set_takeWhileD)
  with True name show ?thesis by (simp add: ensure_qualified_def split_qualifier_def Let_def)
qed

section \<open>Operations of the cloud have no callback identifier\<close>

lemma terminal_from_event_sel [simp]:
  "hp_operations (terminal_from_event e p) = hp_operations p"
  "hp_next_marker (terminal_from_event e p) = hp_next_marker p"
  by (simp_all add: terminal_from_event_def split: option.split aws_event_type.split)

lemma page_of_events_sel [simp]:
  "hp_operations (page_of_events evs next) = events_to_operations evs"
  "hp_next_marker (page_of_events evs next) = next"
proof -
  have "hp_operations (fold terminal_from_event es p) = hp_operations p \<and>
      hp_next_marker (fold terminal_from_event es p) = hp_next_marker p" for es p
    by (induction es arbitrary: p) simp_all
  then show "hp_operations (page_of_events evs next) = events_to_operations evs"
    "hp_next_marker (page_of_events evs next) = next"
    by (simp_all add: page_of_events_def)
qed

lemma get_history_page:
  "get_history lam arn m w = (Inr page, w1) \<Longrightarrow>
   \<exists>evs next. al_history lam arn m w = (Inr (evs, next), w1) \<and> page = page_of_events evs next"
  by (auto simp: get_history_def bindE_eq_Inr aws_request_def split: prod.splits sum.splits)

lemma lambda_page:
  assumes "call_with_retries (lambda_client lam) p m w = (Inr page, w1)"
  shows "\<exists>u evs next. al_history lam (po_arn p) m u = (Inr (evs, next), w1) \<and> page = page_of_events evs next"
  using retry_loop_page [OF assms [unfolded call_with_retries_def]] get_history_page
  by (fastforce simp: lambda_client_def)

definition without_ids :: "operation list \<Rightarrow> bool" where
  "without_ids ops \<longleftrightarrow> (\<forall>op \<in> set ops. op_callback_details op = None)"

definition polled_without_ids :: "(test_error + poll_result \<times> string option) \<times> 'w \<Rightarrow> bool" where
  "polled_without_ids y \<longleftrightarrow> (case fst y of Inl e \<Rightarrow> True | Inr (r, m) \<Rightarrow> without_ids (pr_operations r))"

lemma poll_pages_without_ids:
  assumes "poll_pages (lambda_client lam) p m r w = Some y" "without_ids (pr_operations r)"
  shows "polled_without_ids y"
proof -
  have "lambda_client lam = lambda_client lam \<longrightarrow> without_ids (pr_operations r) \<longrightarrow> polled_without_ids y"
  proof (rule poll_pages.raw_induct [where P = "\<lambda>cl p m r w y. cl = lambda_client lam \<longrightarrow>
      without_ids (pr_operations r) \<longrightarrow> polled_without_ids y", OF _ assms(1)], intro impI)
    fix f :: "'a history_client \<Rightarrow> history_poller \<Rightarrow> string option \<Rightarrow> poll_result \<Rightarrow> 'a \<Rightarrow>
        ((test_error + poll_result \<times> string option) \<times> 'a) option" and cl p m r w y
    assume IH: "\<And>cl p m r w y. f cl p m r w = Some y \<Longrightarrow>
        cl = lambda_client lam \<longrightarrow> without_ids (pr_operations r) \<longrightarrow> polled_without_ids y"
      and body: "(case call_with_retries cl p m w of (Inl e, w1) \<Rightarrow> Some (Inl e, w1)
        | (Inr page, w1) \<Rightarrow> (case hp_next_marker page of None \<Rightarrow> Some (Inr (add_page page r, m), w1)
          | Some next \<Rightarrow> f cl p (Some next) (add_page page r) (hc_sleep cl (po_interval p) w1))) = Some y"
      and cl: "cl = lambda_client lam" and r: "without_ids (pr_operations r)"
    obtain q w1 where q: "call_with_retries (lambda_client lam) p m w = (q, w1)"
      by (cases "call_with_retries (lambda_client lam) p m w")
    show "polled_without_ids y"
    proof (cases q)
      case (Inl e)
      with body q cl show ?thesis by (auto simp: polled_without_ids_def)
    next
      case (Inr page)
      then obtain evs nx where "page = page_of_events evs nx" using lambda_page [of lam p m w page w1] q by auto
      then have a: "without_ids (pr_operations (add_page page r))"
        using r events_to_operations_spec [of evs] by (auto simp: without_ids_def add_page_def)
      show ?thesis
      proof (cases "hp_next_marker page")
        case None
        with body q cl Inr a show ?thesis by (auto simp: polled_without_ids_def)
      next
        case (Some n)
        with body q cl Inr have "f cl p (Some n) (add_page page r) (hc_sleep cl (po_interval p) w1) = Some y" by simp
        from IH [OF this] cl a show ?thesis by blast
      qed
    qed
  qed
  then show ?thesis using assms(2) by blast
qed

lemma poll_once_without_ids:
  assumes "poll_once (lambda_client lam) p w = Some (Inr (r, p1), w1)"
  shows "without_ids (pr_operations r)"
  using assms poll_pages_without_ids [of lam p "po_last_marker p" poll_result_empty w]
  by (auto simp: poll_once_def poll_result_empty_def without_ids_def polled_without_ids_def split: option.splits prod.splits sum.splits)

text \<open>Nothing in the storage and in the handles has the details of a callback.\<close>

definition unready :: "'w test_handle \<Rightarrow> bool" where
  "unready h \<longleftrightarrow> (case oh_inner h of None \<Rightarrow> True | Some op \<Rightarrow> op_callback_details op = None)"

definition no_callback_ids :: "'w cloud_runner \<Rightarrow> bool" where
  "no_callback_ids c \<longleftrightarrow> without_ids (os_operations (cr_storage c)) \<and> (\<forall>h \<in> set (cr_handles c). unready h)"

lemma without_ids_add_or_update:
  "without_ids (os_operations s) \<Longrightarrow> op_callback_details op = None \<Longrightarrow> without_ids (os_operations (add_or_update op s))"
  unfolding without_ids_def
  by (cases "hm_get (os_operations_by_id s) (op_id op)")
     (auto simp: add_or_update_def dest: set_update_subset_insert [THEN subsetD])

lemma without_ids_store:
  "without_ids (os_operations s) \<Longrightarrow> without_ids ops \<Longrightarrow> without_ids (os_operations (fold add_or_update ops s))"
proof (induction ops arbitrary: s)
  case (Cons op ops)
  have "op_callback_details op = None" "without_ids ops" using Cons.prems(2) by (simp_all add: without_ids_def)
  with Cons.IH without_ids_add_or_update [OF Cons.prems(1)] show ?case by simp
qed simp

lemma nth_operation_in: "nth_operation s k = Some op \<Longrightarrow> op \<in> set (os_operations s)"
  by (auto simp: nth_operation_def split: if_splits)

lemma named_operation_in: "os_get_by_name_and_index s n k = Some op \<Longrightarrow> \<exists>j. nth_operation s j = Some op"
  unfolding os_get_by_name_and_index_def by (cases "hm_get (os_operations_by_name s) n") (auto split: if_splits)

lemma first_operation_in:
  assumes "os_get_by_name s n = Some op"
  shows "\<exists>j. nth_operation s j = Some op"
proof (cases "hm_get (os_operations_by_name s) n")
  case (Some indices)
  with assms show ?thesis unfolding os_get_by_name_def by (cases indices) auto
qed (use assms in \<open>simp add: os_get_by_name_def\<close>)

lemma id_operation_in: "os_get_by_id s i = Some op \<Longrightarrow> \<exists>j. nth_operation s j = Some op"
proof (cases "hm_get (os_operations_by_id s) i")
  case (Some j)
  moreover assume "os_get_by_id s i = Some op"
  ultimately have "nth_operation s j = Some op" by (simp add: os_get_by_id_def nth_operation_def)
  then show ?thesis by blast
qed (simp add: os_get_by_id_def)

lemma lookup_operation_in:
  assumes "lookup_operation m s = Some op"
  shows "op \<in> set (os_operations s)"
proof -
  have "\<exists>j. nth_operation s j = Some op"
  proof (cases m)
    case (ByName n)
    with assms first_operation_in show ?thesis by (simp add: lookup_operation_def)
  next
    case (ByIndex i)
    with assms show ?thesis by (auto simp: lookup_operation_def os_get_by_index_def)
  next
    case (ById i)
    with assms id_operation_in show ?thesis by (simp add: lookup_operation_def)
  next
    case (ByNameAndIndex n i)
    with assms named_operation_in show ?thesis by (simp add: lookup_operation_def)
  qed
  then show ?thesis using nth_operation_in by blast
qed

lemma unready_notify: "without_ids (os_operations s) \<Longrightarrow> unready h \<Longrightarrow> unready (notify_handle s h)"
  by (auto simp: notify_handle_def Let_def unready_def without_ids_def dest: lookup_operation_in split: option.splits)

lemma no_callback_ids_cycle:
  assumes "no_callback_ids c" "cloud_cycle lam c p w = Some (Inr (r, c1, p1), w1)"
  shows "no_callback_ids c1"
proof -
  have c1: "c1 = notify_handles (store_operations (pr_operations r) c)"
    and "poll_once (lambda_client lam) p (al_sleep lam (cc_poll_interval (cr_config c)) w) = Some (Inr (r, p1), w1)"
    using assms(2) by (auto simp: cloud_cycle_def split: option.splits prod.splits sum.splits)
  then have "without_ids (pr_operations r)" by (blast intro: poll_once_without_ids)
  with assms(1) show ?thesis
    by (auto simp: c1 no_callback_ids_def notify_handles_def store_operations_def without_ids_store unready_notify)
qed

text \<open>The runners that a run passes through.\<close>

inductive cloud_reaches ::
  "'w aws_lambda \<Rightarrow> 'w cloud_runner \<times> history_poller \<times> 'w \<Rightarrow> 'w cloud_runner \<times> history_poller \<times> 'w \<Rightarrow> bool" for lam where
  start: "cloud_reaches lam x x"
| cycle: "cloud_reaches lam x (c, p, w) \<Longrightarrow> cloud_cycle lam c p w = Some (Inr (r, c1, p1), w1) \<Longrightarrow>
    cloud_reaches lam x (c1, p1, w1)"

lemma no_callback_ids_reaches:
  "cloud_reaches lam x y \<Longrightarrow> no_callback_ids (fst x) \<Longrightarrow> no_callback_ids (fst y)"
  by (induction rule: cloud_reaches.induct) (auto intro: no_callback_ids_cycle)

lemma unready_no_callback: "unready h \<Longrightarrow> \<exists>e. validate_callback_ready h = Inl e"
  by (auto simp: unready_def validate_callback_ready_def callback_id_of_def split: option.splits)

text \<open>C34: A test against the cloud cannot answer a callback through a handle. The operations made from the history
  carry no callback details, so in every state a run passes through each handle that was fresh at its
  start refuses to send: there is no request to the service, the world is unchanged.\<close>

theorem cloud_callbacks_never_answered:
  assumes "\<forall>h \<in> set (cr_handles c). oh_inner h = None"
    and "cloud_reaches lam (start_run lam (c\<lparr>cr_storage := operation_storage_new\<rparr>), p, w) (c1, p1, w1)"
    and "h \<in> set (cr_handles c1)"
  shows "(\<exists>e. handle_send_callback_success result h u = (Inl e, u)) \<and>
     (\<exists>e. handle_send_callback_failure err h u = (Inl e, u)) \<and>
     (\<exists>e. handle_send_callback_heartbeat h u = (Inl e, u))"
proof -
  have "no_callback_ids (start_run lam (c\<lparr>cr_storage := operation_storage_new\<rparr>))"
    using assms(1) by (auto simp: no_callback_ids_def without_ids_def start_run_def operation_storage_new_def unready_def)
  with no_callback_ids_reaches [OF assms(2)] assms(3) have "unready h" by (simp add: no_callback_ids_def)
  from unready_no_callback [OF this] obtain e where "validate_callback_ready h = Inl e" by blast
  then show ?thesis
    by (simp add: handle_send_callback_success_def handle_send_callback_failure_def handle_send_callback_heartbeat_def
        with_handle_sender_def bindE_def liftE_def)
qed

definition callback_started :: aws_event where
  "callback_started = \<lparr>ae_event_type = Some AwsCallbackStarted, ae_event_id = 1, ae_id = Some ''op1'', ae_name = Some ''approve'',
     ae_parent_id = None, ae_timestamp = Some 0, ae_step_succeeded = None, ae_execution_succeeded = None,
     ae_context_succeeded = None, ae_callback_succeeded = None, ae_invoke_succeeded = None, ae_step_failed = None,
     ae_execution_failed = None, ae_context_failed = None, ae_callback_failed = None, ae_invoke_failed = None\<rparr>"

text \<open>A service whose world is its clock, with an execution that waits for a callback.\<close>

definition clock_lambda :: "nat aws_lambda" where
  "clock_lambda = \<lparr>al_history = (\<lambda>arn m w. (Inr ([callback_started], None), w)),
     al_invoke = (\<lambda>f q text w. (Inr \<lparr>io_function_error = None, io_payload = None, io_arn = Some ''arn''\<rparr>, w)),
     al_callback_success = (\<lambda>i r w. (Inr (), w)), al_callback_failure = (\<lambda>i t m w. (Inr (), w)),
     al_callback_heartbeat = (\<lambda>i w. (Inr (), w)), al_sleep = (\<lambda>d w. w + d), al_now = (\<lambda>w. w)\<rparr>"

definition approving_runner :: "nat cloud_runner" where
  "approving_runner = snd (add_handle (ByName ''approve'') (cloud_runner_new ''f''))"

lemma clock_poll:
  "poll_once (lambda_client clock_lambda) p w =
     Some (Inr (add_page (page_of_events [callback_started] None) poll_result_empty, p), w)"
proof -
  have g: "hc_get_history (lambda_client clock_lambda) (po_arn p) m w = (Inr (page_of_events [callback_started] None), w)" for m
    by (simp add: lambda_client_def get_history_def clock_lambda_def aws_request_def bindE_def)
  show ?thesis
    unfolding poll_once_def
    by (subst poll_pages.simps) (simp add: call_with_retries_def retry_loop_Inr [OF g])
qed

lemma clock_operations: "events_to_operations [callback_started] =
    [(operation_new ''op1'' CallbackOp)\<lparr>op_name := Some ''approve'', op_status := Started\<rparr>]"
  by (simp add: events_to_operations_def on_event_def event_operation_def callback_started_def operation_of_event_def
      extract_result_def extract_error_def hm_get_insert map_filter_simps operation_new_def)

theorem cloud_callbacks_never_answered_witness:
  "\<exists>c1 p1 w1 h. cloud_reaches clock_lambda
       (start_run clock_lambda (approving_runner\<lparr>cr_storage := operation_storage_new\<rparr>), history_poller_new ''arn'' 1000, 0) (c1, p1, w1) \<and>
     h \<in> set (cr_handles c1) \<and> map_option op_type (oh_inner h) = Some CallbackOp \<and>
     (\<exists>e. handle_send_callback_success ''1'' h (5 :: nat) = (Inl e, 5)) \<and>
     (\<exists>e. handle_send_callback_failure (test_result_error_from_message ''m'') h (5 :: nat) = (Inl e, 5)) \<and>
     (\<exists>e. handle_send_callback_heartbeat h (5 :: nat) = (Inl e, 5))"
proof -
  let ?c = "start_run clock_lambda (approving_runner\<lparr>cr_storage := operation_storage_new\<rparr>)"
  let ?r = "add_page (page_of_events [callback_started] None) poll_result_empty"
  let ?c1 = "notify_handles (store_operations (pr_operations ?r) ?c)"
  have fresh: "\<forall>h \<in> set (cr_handles approving_runner). oh_inner h = None"
    by (simp add: approving_runner_def add_handle_def cloud_runner_new_def operation_handle_new_def Let_def)
  have "cloud_cycle clock_lambda ?c (history_poller_new ''arn'' 1000) 0 =
      Some (Inr (?r, ?c1, history_poller_new ''arn'' 1000), al_sleep clock_lambda (cc_poll_interval (cr_config ?c)) 0)"
    by (simp add: cloud_cycle_def clock_poll)
  then have reach: "cloud_reaches clock_lambda (?c, history_poller_new ''arn'' 1000, 0)
      (?c1, history_poller_new ''arn'' 1000, al_sleep clock_lambda (cc_poll_interval (cr_config ?c)) 0)"
    by (rule cloud_reaches.cycle [OF cloud_reaches.start])
  have ops: "pr_operations ?r = [(operation_new ''op1'' CallbackOp)\<lparr>op_name := Some ''approve'', op_status := Started\<rparr>]"
    by (simp add: add_page_def poll_result_empty_def clock_operations)
  obtain h where h: "cr_handles ?c1 = [h]" "map_option op_type (oh_inner h) = Some CallbackOp"
    unfolding ops
    by (simp add: approving_runner_def add_handle_def cloud_runner_new_def operation_handle_new_def start_run_def
        notify_handles_def store_operations_def notify_handle_def add_or_update_def os_add_operation_def Let_def
        operation_storage_new_def lookup_operation_def os_get_by_name_def nth_operation_def hm_get_insert operation_new_def)
  then have "h \<in> set (cr_handles ?c1)" by simp
  with cloud_callbacks_never_answered [OF fresh reach this, of "''1''" 5 "test_result_error_from_message ''m''"] reach h(2)
  show ?thesis by blast
qed

section \<open>A run ends\<close>

lemma poll_pages_returns:
  fixes rank :: "string option \<Rightarrow> nat"
  assumes sleep: "\<And>d w. al_now lam w + d \<le> al_now lam (al_sleep lam d w)"
    and time: "\<And>arn m w. al_now lam w \<le> al_now lam (snd (al_history lam arn m w))"
    and pages: "\<And>arn m w evs n w1. al_history lam arn m w = (Inr (evs, Some n), w1) \<Longrightarrow> rank m < rank (Some n) \<and> rank (Some n) \<le> N"
  shows "\<exists>y. poll_pages (lambda_client lam) p m r w = Some y \<and> al_now lam w \<le> al_now lam (snd y)"
proof (induction "N - rank m" arbitrary: m r w rule: less_induct)
  case less
  obtain q w1 where q: "call_with_retries (lambda_client lam) p m w = (q, w1)"
    by (cases "call_with_retries (lambda_client lam) p m w")
  have get: "al_now lam u \<le> al_now lam (snd (hc_get_history (lambda_client lam) (po_arn p) m u))" for m u
    using time [of u "po_arn p" m]
    by (auto simp: lambda_client_def get_history_def bindE_def aws_request_def split: prod.split sum.split)
  have slp: "al_now lam u \<le> al_now lam (hc_sleep (lambda_client lam) d u)" for d u
    using sleep [of u d] by (simp add: lambda_client_def)
  have now: "al_now lam w \<le> al_now lam w1"
    using retry_loop_invariant [where I = "\<lambda>u. al_now lam w \<le> al_now lam u" and cl = "lambda_client lam" and p = p and w = w and marker = m and n = 0]
      get slp q order_trans unfolding call_with_retries_def by fastforce
  show ?case
  proof (cases q)
    case (Inl e)
    with q now show ?thesis by (subst poll_pages.simps) simp
  next
    case (Inr page)
    show ?thesis
    proof (cases "hp_next_marker page")
      case None
      with q Inr now show ?thesis by (subst poll_pages.simps) simp
    next
      case (Some n)
      obtain u evs nx where "al_history lam (po_arn p) m u = (Inr (evs, nx), w1)" "page = page_of_events evs nx"
        using lambda_page [of lam p m w page w1] q Inr by auto
      then have "rank m < rank (Some n)" "rank (Some n) \<le> N"
        using pages [of "po_arn p" m u evs n w1] Some by simp_all
      then have "N - rank (Some n) < N - rank m" by simp
      from less [OF this, of "add_page page r" "hc_sleep (lambda_client lam) (po_interval p) w1"]
      obtain y where y: "poll_pages (lambda_client lam) p (Some n) (add_page page r) (hc_sleep (lambda_client lam) (po_interval p) w1) = Some y"
        "al_now lam (hc_sleep (lambda_client lam) (po_interval p) w1) \<le> al_now lam (snd y)" by blast
      then have "al_now lam w \<le> al_now lam (snd y)" using now slp [of w1 "po_interval p"] by linarith
      with y(1) q Inr Some show ?thesis by (subst poll_pages.simps) simp
    qed
  qed
qed

text \<open>C35: A run against the cloud returns whatever the service answers, if time passes at least as long as the
  runner sleeps, the interval is positive, and the markers of a history are bounded: a page leads only to later pages.\<close>

theorem cloud_run_returns:
  fixes rank :: "string option \<Rightarrow> nat"
  assumes interval: "0 < cc_poll_interval (cr_config c)"
    and sleep: "\<And>d w. al_now lam w + d \<le> al_now lam (al_sleep lam d w)"
    and time: "\<And>arn m w. al_now lam w \<le> al_now lam (snd (al_history lam arn m w))"
    and pages: "\<And>arn m w evs n w1. al_history lam arn m w = (Inr (evs, Some n), w1) \<Longrightarrow> rank m < rank (Some n) \<and> rank (Some n) \<le> N"
  shows "\<exists>q. cloud_run lam ic oc payload c w = Some q"
proof -
  have loop: "\<exists>q. cloud_loop lam oc deadline c p evs nevs w = Some q" if "0 < cc_poll_interval (cr_config c)" for deadline c p evs nevs w
    using that
  proof (induction "deadline - al_now lam w" arbitrary: c p evs nevs w rule: less_induct)
    case less
    let ?w = "al_sleep lam (cc_poll_interval (cr_config c)) w"
    obtain y where y: "poll_pages (lambda_client lam) p (po_last_marker p) poll_result_empty ?w = Some y"
        "al_now lam ?w \<le> al_now lam (snd y)"
      using poll_pages_returns [where lam = lam and rank = rank and N = N] sleep time pages by blast
    show ?case
    proof (cases "al_now lam w \<ge> deadline")
      case True
      then show ?thesis by (subst cloud_loop.simps) simp
    next
      case False
      obtain x w1 where x: "y = (x, w1)" by (cases y)
      show ?thesis
      proof (cases x)
        case (Inl e)
        with y x have "cloud_cycle lam c p w = Some (Inl e, w1)" by (simp add: cloud_cycle_def poll_once_def)
        with False show ?thesis by (subst cloud_loop.simps) simp
      next
        case (Inr rm)
        obtain r mk where r: "rm = (r, mk)" by (cases rm)
        let ?c1 = "notify_handles (store_operations (pr_operations r) c)"
        from y x Inr r have cyc: "cloud_cycle lam c p w = Some (Inr (r, ?c1, p\<lparr>po_last_marker := mk\<rparr>), w1)"
          by (simp add: cloud_cycle_def poll_once_def)
        have "deadline - al_now lam w1 < deadline - al_now lam w"
          using False y(2) x sleep [of w "cc_poll_interval (cr_config c)"] less.prems by simp
        moreover have "0 < cc_poll_interval (cr_config ?c1)"
          using less.prems by (simp add: notify_handles_def store_operations_def)
        ultimately have "\<exists>q. cloud_loop lam oc deadline ?c1 (p\<lparr>po_last_marker := mk\<rparr>) (evs @ pr_events r) (nevs @ pr_nodejs_events r) w1 = Some q"
          by (rule less.hyps)
        with False cyc show ?thesis
          by (subst cloud_loop.simps) (auto split: option.split sum.split)
      qed
    qed
  qed
  show ?thesis
    using loop [of "start_run lam (c\<lparr>cr_storage := operation_storage_new\<rparr>)"] interval
    by (auto simp: cloud_run_def Let_def start_run_def split: prod.split sum.split)
qed

theorem cloud_run_returns_witness:
  "\<exists>q. cloud_run clock_lambda \<lparr>to_json = Inr, from_json = Inr\<rparr> \<lparr>to_json = Inr, from_json = Inr\<rparr> ''1'' approving_runner 0 = Some q"
proof (rule cloud_run_returns [where rank = "\<lambda>_. 0" and N = 0])
  show "0 < cc_poll_interval (cr_config approving_runner)"
    by (simp add: approving_runner_def add_handle_def cloud_runner_new_def cloud_config_default_def Let_def)
qed (simp_all add: clock_lambda_def)

end
