(* ===== verification/Workflow.thy ===== *)
theory Workflow
  imports Context_Operations
begin

text \<open>
  The promise of the SDK, as a refinement. A workflow is a sequence of steps and waits whose next
  action depends on the results so far; its specification \<open>eval\<close> runs it once, from the beginning to
  the end, each step function exactly once. The implementation \<open>run_workflow\<close> calls the durable
  operations of \<open>sdk/src/context.rs\<close>; every wait ends the invocation, and the next one starts from the
  beginning with the recorded operations. This theory has the workflows and the replay of a recorded
  prefix, which depends on no service; \<open>Workflow_Service\<close> has the rest and the theorem.
\<close>

section \<open>Workflows and their specification\<close>

datatype 'w workflow =
    Finish string
  | StepThen "'w \<Rightarrow> (string + string) \<times> 'w" "durable_error + string \<Rightarrow> 'w workflow"
  | WaitThen duration "'w workflow"

primrec eval :: "'w workflow \<Rightarrow> 'w \<Rightarrow> (durable_error + string) \<times> 'w" where
  "eval (Finish r) w = (Inr r, w)"
| "eval (StepThen f k) w = (case f w of (q, w1) \<Rightarrow> eval (k (user_outcome q)) w1)"
| "eval (WaitThen d wk) w =
     (if to_seconds d < MIN_WAIT_SECONDS then (Inl (wait_too_short (to_seconds d)), w) else eval wk w)"

text \<open>How many operations and how many waits a run performs.\<close>

primrec operations_of :: "'w workflow \<Rightarrow> 'w \<Rightarrow> nat" where
  "operations_of (Finish r) w = 0"
| "operations_of (StepThen f k) w = (case f w of (q, w1) \<Rightarrow> Suc (operations_of (k (user_outcome q)) w1))"
| "operations_of (WaitThen d wk) w =
     (if to_seconds d < MIN_WAIT_SECONDS then 1 else Suc (operations_of wk w))"

primrec waits_of :: "'w workflow \<Rightarrow> 'w \<Rightarrow> nat" where
  "waits_of (Finish r) w = 0"
| "waits_of (StepThen f k) w = (case f w of (q, w1) \<Rightarrow> waits_of (k (user_outcome q)) w1)"
| "waits_of (WaitThen d wk) w = (if to_seconds d < MIN_WAIT_SECONDS then 0 else Suc (waits_of wk w))"

section \<open>The implementation\<close>

primrec run_workflow ::
  "'w workflow \<Rightarrow> (u8 list \<Rightarrow> u8 list) \<Rightarrow> 'w services \<Rightarrow> ('w scope, durable_error, string) cmd" where
  "run_workflow (Finish r) blake2b sv = retE r"
| "run_workflow (StepThen f k) blake2b sv = (\<lambda>sp.
     case ctx_step blake2b sv text_codec (\<lambda>_. f) None sp of
       (q, sp1) \<Rightarrow> (case q of
           Inl (Suspend t) \<Rightarrow> (Inl (Suspend t), sp1)
         | _ \<Rightarrow> run_workflow (k q) blake2b sv sp1))"
| "run_workflow (WaitThen d wk) blake2b sv =
     bindE (ctx_wait blake2b sv d None) (\<lambda>_. run_workflow wk blake2b sv)"

definition invocation ::
  "(u8 list \<Rightarrow> u8 list) \<Rightarrow> 'w services \<Rightarrow> 'w workflow \<Rightarrow> ('w env, durable_error, string) cmd" where
  "invocation blake2b sv wk v =
     in_context (run_workflow wk blake2b sv) (context_new (env_state v)) v"

text \<open>A workflow on one part of the world: \<open>view\<close> reads the part and \<open>put\<close> writes it.\<close>

definition lift_function :: "('w \<Rightarrow> 'u) \<Rightarrow> ('u \<Rightarrow> 'w \<Rightarrow> 'w) \<Rightarrow> ('u \<Rightarrow> 'a \<times> 'u) \<Rightarrow> 'w \<Rightarrow> 'a \<times> 'w" where
  "lift_function view put f w = (case f (view w) of (q, u) \<Rightarrow> (q, put u w))"

primrec lift_workflow :: "('w \<Rightarrow> 'u) \<Rightarrow> ('u \<Rightarrow> 'w \<Rightarrow> 'w) \<Rightarrow> 'u workflow \<Rightarrow> 'w workflow" where
  "lift_workflow view put (Finish r) = Finish r"
| "lift_workflow view put (StepThen f k) = StepThen (lift_function view put f) (\<lambda>q. lift_workflow view put (k q))"
| "lift_workflow view put (WaitThen d wk) = WaitThen d (lift_workflow view put wk)"

lemma lift_workflow_id: "lift_workflow (\<lambda>w. w) (\<lambda>u w. u) wk = wk"
  by (induction wk) (simp_all add: lift_function_def fun_eq_iff)

section \<open>The environment\<close>

text \<open>The service accepts every checkpoint, and its own work does not show in the user's world.\<close>

definition accepts_all :: "'w services \<Rightarrow> bool" where
  "accepts_all sv \<longleftrightarrow> (\<forall>s u w. orphan_check u s = None \<longrightarrow> (\<exists>t. accepts sv s u w t w))"

text \<open>Between two invocations the service ends the waits, and the SDK loads the operations again.\<close>

definition end_wait :: "operation \<Rightarrow> operation" where
  "end_wait op = (if op_type op = WaitOp then op\<lparr>op_status := Succeeded\<rparr> else op)"

definition reloads :: "('w env \<Rightarrow> 'w env) \<Rightarrow> bool" where
  "reloads resume \<longleftrightarrow> (\<forall>v. env_world (resume v) = env_world v \<and>
     es_arn (env_state (resume v)) = es_arn (env_state v) \<and>
     (\<forall>i. get_operation (env_state (resume v)) i = map_option end_wait (get_operation (env_state v) i)))"

section \<open>Recorded prefixes\<close>

text \<open>The part of an execution state that the handlers depend on, and the identifier of the n-th
  operation of the root context.\<close>

definition same_core :: "exec_state \<Rightarrow> exec_state \<Rightarrow> bool" where
  "same_core s s' \<longleftrightarrow> (\<exists>r l. s' = s\<lparr>es_replay_status := r, es_replayed := l\<rparr>)"

lemma same_core_sel:
  assumes "same_core s s'"
  shows "es_operations s' = es_operations s" "es_arn s' = es_arn s"
  using assms by (auto simp: same_core_def)

text \<open>Two operations, or none, that replay in the same way.\<close>

definition agree :: "operation option \<Rightarrow> operation option \<Rightarrow> bool" where
  "agree a b \<longleftrightarrow> map_option operation_core a = map_option operation_core b"

lemma agree_refl [simp]: "agree a a"
  by (simp add: agree_def)

lemma agree_trans: "agree a b \<Longrightarrow> agree b c \<Longrightarrow> agree a c"
  by (simp add: agree_def)

lemma agree_None [simp]: "agree a None \<longleftrightarrow> a = None" "agree None a \<longleftrightarrow> a = None"
  by (cases a; simp add: agree_def)+

lemma get_result_status [simp]: "get_result (op\<lparr>op_status := st\<rparr>) = get_result op"
  by (cases "op_type op") (simp_all add: get_result_def)

lemma core_sel:
  assumes "operation_core op = operation_core op'"
  shows "op_type op = op_type op'" "op_status op = op_status op'" "step_replay_outcome c op = step_replay_outcome c op'"
    "operation_core (end_wait op) = operation_core (end_wait op')"
proof -
  from assms have eqs: "op_type op = op_type op'" "op_status op = op_status op'" "get_result op = get_result op'"
    "op_error op = op_error op'" "op_parent_id op = op_parent_id op'" "op_name op = op_name op'"
    by (simp_all add: operation_core_def)
  show "op_type op = op_type op'" "op_status op = op_status op'" by (fact eqs)+
  show "step_replay_outcome c op = step_replay_outcome c op'" by (simp only: step_replay_outcome_def eqs)
  show "operation_core (end_wait op) = operation_core (end_wait op')"
    using eqs by (simp add: end_wait_def operation_core_def)
qed

lemma agree_SomeD: "agree a (Some op) \<Longrightarrow> \<exists>op'. a = Some op' \<and> operation_core op' = operation_core op"
  by (cases a) (simp_all add: agree_def)

lemma agree_end_wait: "agree a b \<Longrightarrow> agree (map_option end_wait a) (map_option end_wait b)"
  by (cases a; cases b) (auto simp: agree_def intro: core_sel(4))

definition nth_id :: "(u8 list \<Rightarrow> u8 list) \<Rightarrow> string \<Rightarrow> nat \<Rightarrow> string" where
  "nth_id blake2b base n = generate_operation_id blake2b base (of_nat n)"

definition nth_context :: "string \<Rightarrow> nat \<Rightarrow> durable_context" where
  "nth_context base n = \<lparr>dc_parent_id = None, dc_generator = \<lparr>ig_base_id = base, ig_step_counter = of_nat n\<rparr>\<rparr>"

text \<open>\<open>recorded s n wk m wk'\<close>: the operations \<open>n\<close> to \<open>m - 1\<close> of \<open>wk\<close> are finished in \<open>s\<close>, and what is left is
  \<open>wk'\<close>.\<close>

inductive recorded ::
  "(nat \<Rightarrow> string) \<Rightarrow> exec_state \<Rightarrow> nat \<Rightarrow> 'w workflow \<Rightarrow> nat \<Rightarrow> 'w workflow \<Rightarrow> bool" for ids s where
  recorded_none: "recorded ids s n wk n wk"
| recorded_step: "get_operation s (ids n) = Some op \<Longrightarrow> op_type op = StepOp \<Longrightarrow> is_terminal (op_status op) \<Longrightarrow>
     step_replay_outcome text_codec op = q \<Longrightarrow> (\<And>t. q \<noteq> Inl (Suspend t)) \<Longrightarrow>
     recorded ids s (Suc n) (k q) m wk' \<Longrightarrow> recorded ids s n (StepThen f k) m wk'"
| recorded_wait: "get_operation s (ids n) = Some op \<Longrightarrow> op_type op = WaitOp \<Longrightarrow> op_status op = Succeeded \<Longrightarrow>
     \<not> to_seconds d < MIN_WAIT_SECONDS \<Longrightarrow>
     recorded ids s (Suc n) wk m wk' \<Longrightarrow> recorded ids s n (WaitThen d wk) m wk'"

lemma recorded_trans:
  "recorded ids s n wk m wk' \<Longrightarrow> recorded ids s m wk' l wk'' \<Longrightarrow> recorded ids s n wk l wk''"
  by (induction rule: recorded.induct) (blast intro: recorded.intros)+

lemma recorded_le: "recorded ids s n wk m wk' \<Longrightarrow> n \<le> m"
  by (induction rule: recorded.induct) simp_all

text \<open>A recorded prefix stays recorded when the operations below it stay or end their waits.\<close>

definition kept_or_ended :: "operation option \<Rightarrow> operation option \<Rightarrow> bool" where
  "kept_or_ended a b \<longleftrightarrow> agree b a \<or> agree b (map_option end_wait a)"

lemma recorded_mono:
  assumes "recorded ids s n wk m wk'"
    and "\<And>i. i < m \<Longrightarrow> kept_or_ended (get_operation s (ids i)) (get_operation s' (ids i))"
  shows "recorded ids s' n wk m wk'"
  using assms
proof (induction rule: recorded.induct)
  case (recorded_none n wk)
  show ?case by (rule recorded.recorded_none)
next
  case (recorded_step n op q k m wk' f)
  have "n < m" using recorded_le [OF recorded_step.hyps(6)] by simp
  from recorded_step.prems [OF this] recorded_step.hyps(1,2) have "agree (get_operation s' (ids n)) (Some op)"
    by (auto simp: kept_or_ended_def end_wait_def)
  then obtain op' where op': "get_operation s' (ids n) = Some op'" "operation_core op' = operation_core op"
    using agree_SomeD by blast
  have "step_replay_outcome text_codec op' = q"
    using recorded_step.hyps(4) core_sel(3) [OF op'(2), of text_codec] by simp
  then show ?case
    by (rule recorded.recorded_step [where op = op', rotated 3])
       (use recorded_step op'(1) core_sel(1,2) [OF op'(2)] in simp_all)
next
  case (recorded_wait n op d wk m wk')
  have "n < m" using recorded_le [OF recorded_wait.hyps(5)] by simp
  from recorded_wait.prems [OF this] recorded_wait.hyps(1) obtain op' op'' where
    op': "get_operation s' (ids n) = Some op'" "operation_core op' = operation_core op''" "op'' = op \<or> op'' = end_wait op"
    by (auto simp: kept_or_ended_def dest: agree_SomeD)
  moreover from this(3) have "op_type op'' = WaitOp" "op_status op'' = Succeeded"
    using recorded_wait.hyps(2,3) by (auto simp: end_wait_def)
  ultimately have "op_type op' = WaitOp" "op_status op' = Succeeded" using core_sel [OF op'(2)] by simp_all
  with op'(1) show ?case
    by (rule recorded.recorded_wait) (use recorded_wait in simp_all)
qed

lemma recorded_core:
  assumes "recorded ids s n wk m wk'" "same_core s s'"
  shows "recorded ids s' n wk m wk'"
  by (rule recorded_mono [OF assms(1)])
     (simp add: kept_or_ended_def get_operation_def same_core_sel [OF assms(2)])

section \<open>One operation\<close>

lemma next_nth [simp]:
  "next_operation_identifier blake2b None (nth_context base n) =
     (identifier_new (nth_id blake2b base n) None None, nth_context base (Suc n))"
  by (simp add: next_operation_identifier_def nth_context_def nth_id_def next_id_def)

lemma identifier_new_sel [simp]:
  "oi_operation_id (identifier_new i p n) = i" "oi_parent_id (identifier_new i p n) = p"
  by (simp_all add: identifier_new_def)

lemma same_core_track [simp]: "same_core s (track_replay i s)"
proof -
  have "track_replay i s = s\<lparr>es_replay_status := es_replay_status (track_replay i s),
      es_replayed := es_replayed (track_replay i s)\<rparr>"
    by (simp add: track_replay_def Let_def)
  then show ?thesis unfolding same_core_def by blast
qed

lemma same_core_get: "same_core s s' \<Longrightarrow> get_operation s' i = get_operation s i"
  by (simp add: get_operation_def same_core_sel)

lemma same_core_refl [simp]: "same_core s s"
proof -
  have "s = s\<lparr>es_replay_status := es_replay_status s, es_replayed := es_replayed s\<rparr>" by simp
  then show ?thesis unfolding same_core_def by blast
qed

lemma same_core_trans: "same_core s s' \<Longrightarrow> same_core s' s'' \<Longrightarrow> same_core s s''"
  by (fastforce simp: same_core_def)

text \<open>The state after an operation that answered \<open>q\<close> in state \<open>s\<close>.\<close>

definition tracked :: "string \<Rightarrow> durable_error + 'a \<Rightarrow> exec_state \<Rightarrow> exec_state" where
  "tracked i q s = (case q of Inr x \<Rightarrow> track_replay i s | Inl e \<Rightarrow> s)"

lemma same_core_tracked [simp]: "same_core s (tracked i q s)"
  by (simp add: tracked_def split: sum.split)

lemma durable_operation_nth:
  assumes "handler (identifier_new (nth_id blake2b base n) None None) v = (q, v1)"
  shows "durable_operation blake2b None handler \<lparr>sp_env = v, sp_context = nth_context base n\<rparr> =
     (q, \<lparr>sp_env = v1\<lparr>env_state := tracked (nth_id blake2b base n) q (env_state v1)\<rparr>,
          sp_context = nth_context base (Suc n)\<rparr>)"
  using durable_operation_run [of blake2b None "\<lparr>sp_env = v, sp_context = nth_context base n\<rparr>" _ _ handler]
    assms
  by (auto simp: tracked_def split: sum.split)

lemma ctx_step_recorded:
  assumes "get_operation (env_state v) (nth_id blake2b base n) = Some op" "op_type op = StepOp"
    and "is_terminal (op_status op)"
  shows "\<exists>s. ctx_step blake2b sv text_codec func None \<lparr>sp_env = v, sp_context = nth_context base n\<rparr> =
       (step_replay_outcome text_codec op, \<lparr>sp_env = v\<lparr>env_state := s\<rparr>, sp_context = nth_context base (Suc n)\<rparr>) \<and>
     same_core (env_state v) s"
proof -
  let ?oi = "identifier_new (nth_id blake2b base n) None None"
  let ?t = "track_replay (nth_id blake2b base n) (env_state v)"
  have run: "step_handler sv text_codec func ?oi step_config_default v =
      (step_replay_outcome text_codec op, v\<lparr>env_state := ?t\<rparr>)"
    using step_handler_replays [of v ?oi op sv text_codec func step_config_default] assms by simp
  have "same_core (env_state v)
      (tracked (nth_id blake2b base n) (step_replay_outcome text_codec op) ?t)"
    by (rule same_core_trans [OF same_core_track same_core_tracked])
  with durable_operation_nth [where handler = "\<lambda>oi. step_handler sv text_codec func oi step_config_default", OF run]
  show ?thesis by (auto simp: ctx_step_def)
qed

lemma set_token_sel [simp]:
  "es_arn (set_checkpoint_token t s) = es_arn s"
  "get_operation (set_checkpoint_token t s) i = get_operation s i"
  by (simp_all add: set_checkpoint_token_def get_operation_def)

text \<open>\<open>adds s i op s'\<close>: the state \<open>s'\<close> is \<open>s\<close> with the operation \<open>op\<close> recorded under \<open>i\<close>.\<close>

definition adds :: "exec_state \<Rightarrow> string \<Rightarrow> operation \<Rightarrow> exec_state \<Rightarrow> bool" where
  "adds s i op s' \<longleftrightarrow> es_arn s' = es_arn s \<and>
     (\<forall>j. get_operation s' j = (if j = i then Some op else get_operation s j))"

lemma adds_core: "adds s i op s1 \<Longrightarrow> same_core s1 s2 \<Longrightarrow> adds s i op s2"
  by (simp add: adds_def same_core_sel get_operation_def)

lemma adds_update:
  "get_operation s (up_id u) = None \<Longrightarrow>
   adds s (up_id u) (cached_operation u None) (update_local_cache_from_update u (set_checkpoint_token t s))"
  by (simp add: adds_def get_update_local_cache)

lemma ctx_wait_recorded:
  assumes "get_operation (env_state v) (nth_id blake2b base n) = Some op" "op_type op = WaitOp"
    and "op_status op = Succeeded" "\<not> to_seconds d < MIN_WAIT_SECONDS"
  shows "\<exists>s. ctx_wait blake2b sv d None \<lparr>sp_env = v, sp_context = nth_context base n\<rparr> =
       (Inr (), \<lparr>sp_env = v\<lparr>env_state := s\<rparr>, sp_context = nth_context base (Suc n)\<rparr>) \<and>
     same_core (env_state v) s"
proof -
  let ?i = "nth_id blake2b base n"
  have run: "wait_handler sv d (identifier_new ?i None None) v =
      (Inr (), v\<lparr>env_state := track_replay ?i (env_state v)\<rparr>)"
    using assms by (simp add: wait_handler_def Let_def get_checkpoint_result_def get_operation_def)
  have "same_core (env_state v) (tracked ?i (Inr ()) (track_replay ?i (env_state v)))"
    by (rule same_core_trans [OF same_core_track same_core_tracked])
  with durable_operation_nth [where handler = "\<lambda>oi. wait_handler sv d oi", OF run] show ?thesis
    by (auto simp: ctx_wait_def)
qed

lemma ctx_wait_short:
  assumes "to_seconds d < MIN_WAIT_SECONDS"
  shows "ctx_wait blake2b sv d None \<lparr>sp_env = v, sp_context = nth_context base n\<rparr> =
     (Inl (wait_too_short (to_seconds d)), \<lparr>sp_env = v, sp_context = nth_context base (Suc n)\<rparr>)"
proof -
  have run: "wait_handler sv d (identifier_new (nth_id blake2b base n) None None) v =
      (Inl (wait_too_short (to_seconds d)), v)"
    using assms by (simp add: wait_handler_def Let_def)
  from durable_operation_nth [where handler = "\<lambda>oi. wait_handler sv d oi", OF run] show ?thesis
    by (simp add: ctx_wait_def tracked_def)
qed

section \<open>Replay\<close>

text \<open>Running a workflow over a recorded prefix does nothing but advance the context.\<close>

lemma run_recorded:
  assumes "recorded (nth_id blake2b base) s n wk m wk'" "same_core s (env_state v)"
  shows "\<exists>s'. run_workflow wk blake2b sv \<lparr>sp_env = v, sp_context = nth_context base n\<rparr> =
       run_workflow wk' blake2b sv \<lparr>sp_env = v\<lparr>env_state := s'\<rparr>, sp_context = nth_context base m\<rparr> \<and>
     same_core (env_state v) s'"
  using assms
proof (induction arbitrary: v rule: recorded.induct)
  case (recorded_none n wk)
  show ?case by (intro exI [of _ "env_state v"]) simp
next
  case (recorded_step n op q k m wk' f)
  have "get_operation (env_state v) (nth_id blake2b base n) = Some op"
    using recorded_step.hyps(1) same_core_get [OF recorded_step.prems] by simp
  from ctx_step_recorded [OF this recorded_step.hyps(2,3), of sv "\<lambda>_. f"] recorded_step.hyps(4)
  obtain s1 where s1: "ctx_step blake2b sv text_codec (\<lambda>_. f) None \<lparr>sp_env = v, sp_context = nth_context base n\<rparr> =
       (q, \<lparr>sp_env = v\<lparr>env_state := s1\<rparr>, sp_context = nth_context base (Suc n)\<rparr>)"
    "same_core (env_state v) s1" by auto
  have "same_core s (env_state (v\<lparr>env_state := s1\<rparr>))"
    using same_core_trans [OF recorded_step.prems s1(2)] by simp
  from recorded_step.IH [OF this] s1 recorded_step.hyps(5) show ?case
    by (auto split: sum.splits durable_error.splits intro: same_core_trans)
next
  case (recorded_wait n op d wk m wk')
  have "get_operation (env_state v) (nth_id blake2b base n) = Some op"
    using recorded_wait.hyps(1) same_core_get [OF recorded_wait.prems] by simp
  from ctx_wait_recorded [OF this recorded_wait.hyps(2-4), of sv]
  obtain s1 where s1: "ctx_wait blake2b sv d None \<lparr>sp_env = v, sp_context = nth_context base n\<rparr> =
       (Inr (), \<lparr>sp_env = v\<lparr>env_state := s1\<rparr>, sp_context = nth_context base (Suc n)\<rparr>)"
    "same_core (env_state v) s1" by auto
  have "same_core s (env_state (v\<lparr>env_state := s1\<rparr>))"
    using same_core_trans [OF recorded_wait.prems s1(2)] by simp
  from recorded_wait.IH [OF this] s1 show ?case
    by (auto simp: bindE_def intro: same_core_trans)
qed

end
