(* ===== verification/Workflow_Service.thy ===== *)
theory Workflow_Service
  imports Workflow
begin

text \<open>
  The service under a workflow as an interface: what the SDK needs of it so that the invocations of a
  workflow together behave like one run. The client's lemmas are proved once, in the locale; a service
  that accepts every checkpoint and the checkpoint server of the testing crate are instances.
\<close>

section \<open>The interface\<close>

text \<open>The updates a workflow of steps and waits sends from the root context.\<close>

definition plain_update :: "operation_update \<Rightarrow> bool" where
  "plain_update u \<longleftrightarrow> up_parent_id u = None \<and> up_step_options u = None \<and>
     (up_type u = StepOp \<and> up_action u = Succeed \<and> up_error u = None \<or>
      up_type u = StepOp \<and> up_action u = Fail \<and> up_result u = None \<or>
      up_type u = WaitOp \<and> up_action u = Start \<and> up_result u = None \<and> up_error u = None \<and> up_wait_options u \<noteq> None)"

text \<open>A checkpoint that is recorded: nothing but the new operation changes, and it is what the cache would hold.\<close>

definition recorded_checkpoint ::
  "'w services \<Rightarrow> operation_update \<Rightarrow> 'w env \<Rightarrow> 'w env \<Rightarrow> bool" where
  "recorded_checkpoint sv u v v' \<longleftrightarrow> create_checkpoint sv u True v = (Inr (), v') \<and>
     (\<exists>op. adds (env_state v) (up_id u) op (env_state v') \<and>
        operation_core op = operation_core (cached_operation u None))"

locale checkpoint_service =
  fixes sv :: "'w services" and view :: "'w \<Rightarrow> 'u" and put :: "'u \<Rightarrow> 'w \<Rightarrow> 'w"
    and used :: "string set" and good :: "'w env \<Rightarrow> bool"
  assumes view_put: "view (put x w) = x"
    and good_put: "good v \<Longrightarrow> good (v\<lparr>env_world := put x (env_world v)\<rparr>)"
    and good_core: "good v \<Longrightarrow> same_core (env_state v) s \<Longrightarrow> good (v\<lparr>env_state := s\<rparr>)"
    and records: "good v \<Longrightarrow> plain_update u \<Longrightarrow> up_id u \<in> used \<Longrightarrow> get_operation (env_state v) (up_id u) = None \<Longrightarrow>
      \<exists>v'. recorded_checkpoint sv u v v' \<and> good v' \<and> view (env_world v') = view (env_world v)"

section \<open>One operation\<close>

lemma plain_updates:
  "plain_update (create_succeed_update (identifier_new i None nm) (Some r))"
  "plain_update (create_fail_update (identifier_new i None nm) e)"
  "plain_update (wait_start_update (identifier_new i None nm) d)"
  by (simp_all add: plain_update_def create_succeed_update_def create_fail_update_def wait_start_update_def
      identifier_new_def def_simps)

lemma step_checkpoint_result_recorded:
  assumes "outcome_update c oi q u" "create_checkpoint sv u True v = (Inr (), v')"
  shows "step_checkpoint_result sv c oi q v = (user_outcome q, v')"
  using assms
  by (cases q) (auto simp: outcome_update_def user_outcome_def step_checkpoint_result_def bindE_def
      serialize_or_def json_serialize_def)

text \<open>The identifiers from \<open>n\<close> on, below \<open>N\<close>, are not used yet.\<close>

definition unused :: "(nat \<Rightarrow> string) \<Rightarrow> exec_state \<Rightarrow> nat \<Rightarrow> nat \<Rightarrow> bool" where
  "unused ids s n N \<longleftrightarrow> (\<forall>i. n \<le> i \<longrightarrow> i < N \<longrightarrow> get_operation s (ids i) = None)"

lemma unused_adds:
  assumes "unused ids s n N" "adds s (ids n) op s'" "inj_on ids {..<N}" "n < N"
  shows "unused ids s' (Suc n) N"
proof -
  have "ids i \<noteq> ids n" if "Suc n \<le> i" "i < N" for i
    using inj_onD [OF assms(3), of i n] assms(4) that by auto
  with assms(1,2) show ?thesis by (simp add: unused_def adds_def)
qed

lemma adds_keeps:
  fixes ids :: "nat \<Rightarrow> string"
  assumes "adds s (ids n) op s'" "inj_on ids {..<N}" "n < N" "i < n"
  shows "get_operation s' (ids i) = get_operation s (ids i)"
proof -
  have "i < N" by (rule less_trans [OF assms(4,3)])
  then have "ids i \<noteq> ids n" using inj_onD [OF assms(2), of i n] assms(3,4) by auto
  with assms(1) show ?thesis by (simp add: adds_def)
qed

lemma unused_core: "same_core s s' \<Longrightarrow> unused ids s n N \<Longrightarrow> unused ids s' n N"
  by (simp add: unused_def same_core_get)

text \<open>The operations of an invocation that suspended, as the next one finds them.\<close>

definition resumed :: "(nat \<Rightarrow> string) \<Rightarrow> nat \<Rightarrow> exec_state \<Rightarrow> exec_state \<Rightarrow> bool" where
  "resumed ids N s s' \<longleftrightarrow> (\<forall>i < N. agree (get_operation s' (ids i)) (map_option end_wait (get_operation s (ids i))))"

lemma resumed_at: "resumed ids N s s' \<Longrightarrow> i < N \<Longrightarrow>
    agree (get_operation s' (ids i)) (map_option end_wait (get_operation s (ids i)))"
  by (simp add: resumed_def)

definition pending_wait :: "(nat \<Rightarrow> string) \<Rightarrow> nat \<Rightarrow> exec_state \<Rightarrow> bool" where
  "pending_wait ids N s \<longleftrightarrow> (\<exists>i < N. \<exists>op. get_operation s (ids i) = Some op \<and> op_type op = WaitOp \<and> op_status op = Started)"

text \<open>What one invocation does from its first new operation, the n-th, on: it ends with the result, or
  suspended at a wait with everything before it recorded for the next one.\<close>

definition live_result ::
  "('w \<Rightarrow> 'u) \<Rightarrow> ('u \<Rightarrow> 'w \<Rightarrow> 'w) \<Rightarrow> (nat \<Rightarrow> string) \<Rightarrow> nat \<Rightarrow> nat \<Rightarrow> 'u workflow \<Rightarrow> 'w env \<Rightarrow> durable_error + string \<Rightarrow>
   'w env \<Rightarrow> bool"
where
  "live_result view put ids N n wk v q v' \<longleftrightarrow>
     (if waits_of wk (view (env_world v)) = 0
      then (q, view (env_world v')) = eval wk (view (env_world v)) \<and> (\<forall>t. q \<noteq> Inl (Suspend t))
      else q = Inl (Suspend None) \<and> es_arn (env_state v') = es_arn (env_state v) \<and>
        (\<forall>i < n. get_operation (env_state v') (ids i) = get_operation (env_state v) (ids i)) \<and>
        pending_wait ids N (env_state v') \<and>
        (\<exists>m wk'. (\<forall>s. resumed ids m (env_state v') s \<longrightarrow>
             recorded ids s n (lift_workflow view put wk) m (lift_workflow view put wk')) \<and>
           n < m \<and> unused ids (env_state v') m N \<and> m + operations_of wk' (view (env_world v')) \<le> N \<and>
           waits_of wk (view (env_world v)) = Suc (waits_of wk' (view (env_world v'))) \<and>
           eval wk' (view (env_world v')) = eval wk (view (env_world v))))"

lemma live_result_step:
  assumes "live_result view put ids N (Suc n) (k (user_outcome q)) v1 q' v'"
    and "f (view (env_world v)) = (q, view (env_world v1))"
    and "adds (env_state v) (ids n) op (env_state v1)" "inj_on ids {..<N}" "n < N"
    and "op_type op = StepOp" "is_terminal (op_status op)" "step_replay_outcome text_codec op = user_outcome q"
  shows "live_result view put ids N n (StepThen f k) v q' v'"
proof (cases "waits_of (k (user_outcome q)) (view (env_world v1)) = 0")
  case True
  with assms(1,2) show ?thesis by (simp add: live_result_def)
next
  case False
  let ?k = "k (user_outcome q)" and ?L = "lift_workflow view put"
  from False assms(1) obtain m wk' where m:
    "\<forall>s. resumed ids m (env_state v') s \<longrightarrow> recorded ids s (Suc n) (?L ?k) m (?L wk')"
    "Suc n < m" "unused ids (env_state v') m N" "m + operations_of wk' (view (env_world v')) \<le> N"
    "waits_of ?k (view (env_world v1)) = Suc (waits_of wk' (view (env_world v')))"
    "eval wk' (view (env_world v')) = eval ?k (view (env_world v1))"
    and v': "q' = Inl (Suspend None)" "es_arn (env_state v') = es_arn (env_state v1)"
      "\<forall>i < Suc n. get_operation (env_state v') (ids i) = get_operation (env_state v1) (ids i)"
      "pending_wait ids N (env_state v')"
    by (auto simp: live_result_def)
  have ns: "user_outcome q \<noteq> Inl (Suspend t)" for t
    by (cases q) (simp_all add: user_outcome_def)
  have op: "get_operation (env_state v') (ids n) = Some op"
    using v'(3) assms(3) by (simp add: adds_def)
  have "recorded ids s n (?L (StepThen f k)) m (?L wk')" if s: "resumed ids m (env_state v') s" for s
  proof -
    have "agree (get_operation s (ids n)) (Some op)"
      using resumed_at [OF s, of n] m(2) op assms(6) by (simp add: end_wait_def)
    then obtain op' where op': "get_operation s (ids n) = Some op'" "operation_core op' = operation_core op"
      using agree_SomeD by blast
    have "step_replay_outcome text_codec op' = user_outcome q"
      using core_sel(3) [OF op'(2), of text_codec] assms(8) by simp
    then show ?thesis
      unfolding lift_workflow.simps
      by (rule recorded.recorded_step [where op = op', rotated 3])
         (use s m(1) ns op'(1) core_sel(1,2) [OF op'(2)] assms(6,7) in simp_all)
  qed
  moreover have "get_operation (env_state v') (ids i) = get_operation (env_state v) (ids i)" if "i < n" for i
    using v'(3) that adds_keeps [OF assms(3-5) that] by simp
  moreover have "es_arn (env_state v') = es_arn (env_state v)" using v'(2) assms(3) by (simp add: adds_def)
  moreover have "n < m" using m(2) by simp
  ultimately show ?thesis
    using assms(2) m(3-6) v'(1,4) unfolding live_result_def by (auto simp del: lift_workflow.simps)
qed

text \<open>Between two invocations: the first \<open>n\<close> operations of \<open>wk\<close> are recorded, \<open>wk'\<close> is left to run.\<close>

definition between ::
  "('w \<Rightarrow> 'u) \<Rightarrow> ('u \<Rightarrow> 'w \<Rightarrow> 'w) \<Rightarrow> (nat \<Rightarrow> string) \<Rightarrow> string \<Rightarrow> nat \<Rightarrow> 'u workflow \<Rightarrow> nat \<Rightarrow> 'u workflow \<Rightarrow> 'w env \<Rightarrow> bool"
where
  "between view put ids base N wk n wk' v \<longleftrightarrow>
     recorded ids (env_state v) 0 (lift_workflow view put wk) n (lift_workflow view put wk') \<and>
     es_arn (env_state v) = base \<and> unused ids (env_state v) n N \<and>
     n + operations_of wk' (view (env_world v)) \<le> N"

text \<open>An invocation that suspended, with \<open>k\<close> waits left: whatever resumes it is between invocations again.\<close>

definition suspended_with ::
  "('w \<Rightarrow> 'u) \<Rightarrow> ('u \<Rightarrow> 'w \<Rightarrow> 'w) \<Rightarrow> (nat \<Rightarrow> string) \<Rightarrow> string \<Rightarrow> nat \<Rightarrow> 'u workflow \<Rightarrow> nat \<Rightarrow>
   (durable_error + string) \<times> 'u \<Rightarrow> 'w env \<Rightarrow> bool"
where
  "suspended_with view put ids base N wk k goal v \<longleftrightarrow>
     pending_wait ids N (env_state v) \<and> es_arn (env_state v) = base \<and>
     (\<forall>v'. resumed ids N (env_state v) (env_state v') \<longrightarrow> es_arn (env_state v') = base \<longrightarrow>
        view (env_world v') = view (env_world v) \<longrightarrow>
        (\<exists>m wk'. between view put ids base N wk m wk' v' \<and> waits_of wk' (view (env_world v')) = k \<and>
           eval wk' (view (env_world v')) = goal))"

lemma context_new_nth: "context_new s = nth_context (es_arn s) 0"
  by (simp add: context_new_def nth_context_def generator_new_def)

lemma unused_resumed:
  assumes "unused ids s n N" "resumed ids N s s'"
  shows "unused ids s' n N"
proof -
  have "get_operation s' (ids i) = None" if "n \<le> i" "i < N" for i
    using resumed_at [OF assms(2) that(2)] assms(1) that by (simp add: unused_def)
  then show ?thesis by (simp add: unused_def)
qed

section \<open>The client of the interface\<close>

context checkpoint_service
begin

abbreviation lifted :: "'u workflow \<Rightarrow> 'w workflow" where
  "lifted \<equiv> lift_workflow view put"

lemma ctx_step_live:
  assumes "good v" "get_operation (env_state v) (nth_id blake2b base n) = None" "nth_id blake2b base n \<in> used"
    and "f (view (env_world v)) = (q, u)"
  shows "\<exists>v1 op. ctx_step blake2b sv text_codec (\<lambda>_. lift_function view put f) None
         \<lparr>sp_env = v, sp_context = nth_context base n\<rparr> =
       (user_outcome q, \<lparr>sp_env = v1, sp_context = nth_context base (Suc n)\<rparr>) \<and>
     good v1 \<and> view (env_world v1) = u \<and> adds (env_state v) (nth_id blake2b base n) op (env_state v1) \<and>
     op_type op = StepOp \<and> is_terminal (op_status op) \<and> step_replay_outcome text_codec op = user_outcome q"
proof -
  let ?i = "nth_id blake2b base n"
  let ?oi = "identifier_new ?i None None"
  let ?v = "v\<lparr>env_world := put u (env_world v)\<rparr>"
  let ?f = "lift_function view put f"
  obtain w where w: "outcome_update text_codec ?oi q w" "plain_update w"
    by (cases q) (auto simp: outcome_update_def text_codec_def plain_updates)
  note cached = cached_outcome [OF w(1) text_codec_roundtrip]
  obtain v' op where v': "create_checkpoint sv w True ?v = (Inr (), v')" "good v'"
    "view (env_world v') = u" "adds (env_state v) ?i op (env_state v')"
    "operation_core op = operation_core (cached_operation w None)"
    using records [OF good_put [OF assms(1)] w(2), of u] assms(2,3) cached(1)
    by (auto simp: recorded_checkpoint_def view_put)
  have run: "step_handler sv text_codec (\<lambda>_. ?f) ?oi step_config_default v = (user_outcome q, v')"
    using step_checkpoint_result_recorded [OF w(1) v'(1)] assms(2,4)
    by (subst step_handler_fresh) (simp_all add: step_config_default_def bindE_def run_user_def lift_function_def)
  let ?v1 = "v'\<lparr>env_state := tracked ?i (user_outcome q) (env_state v')\<rparr>"
  have "good ?v1" by (rule good_core [OF v'(2) same_core_tracked])
  moreover have "adds (env_state v) ?i op (env_state ?v1)"
    using adds_core [OF v'(4) same_core_tracked, of ?i "user_outcome q"] by simp
  moreover have "ctx_step blake2b sv text_codec (\<lambda>_. ?f) None \<lparr>sp_env = v, sp_context = nth_context base n\<rparr> =
      (user_outcome q, \<lparr>sp_env = ?v1, sp_context = nth_context base (Suc n)\<rparr>)"
    using durable_operation_nth [where handler = "\<lambda>oi. step_handler sv text_codec (\<lambda>_. ?f) oi step_config_default", OF run]
    by (simp add: ctx_step_def)
  moreover have "op_type op = StepOp" "is_terminal (op_status op)" "step_replay_outcome text_codec op = user_outcome q"
    using core_sel(1,2) [OF v'(5)] core_sel(3) [OF v'(5), of text_codec] cached(2-4) by simp_all
  moreover have "view (env_world ?v1) = u" using v'(3) by simp
  ultimately show ?thesis by blast
qed

lemma ctx_wait_live:
  assumes "good v" "get_operation (env_state v) (nth_id blake2b base n) = None" "nth_id blake2b base n \<in> used"
    and "\<not> to_seconds d < MIN_WAIT_SECONDS"
  shows "\<exists>v1 op. ctx_wait blake2b sv d None \<lparr>sp_env = v, sp_context = nth_context base n\<rparr> =
       (Inl (Suspend None), \<lparr>sp_env = v1, sp_context = nth_context base (Suc n)\<rparr>) \<and>
     good v1 \<and> view (env_world v1) = view (env_world v) \<and>
     adds (env_state v) (nth_id blake2b base n) op (env_state v1) \<and> op_type op = WaitOp \<and> op_status op = Started"
proof -
  let ?i = "nth_id blake2b base n"
  let ?oi = "identifier_new ?i None None"
  let ?u = "wait_start_update ?oi (to_seconds d)"
  have id: "up_id ?u = ?i" by (simp add: wait_start_update_def identifier_new_def def_simps)
  obtain v' op where v': "create_checkpoint sv ?u True v = (Inr (), v')" "good v'"
    "view (env_world v') = view (env_world v)" "adds (env_state v) ?i op (env_state v')"
    "operation_core op = operation_core (cached_operation ?u None)"
    using records [OF assms(1) plain_updates(3), of ?i None "to_seconds d"] assms(2,3) id
    by (auto simp: recorded_checkpoint_def)
  have run: "wait_handler sv d ?oi v = (Inl (Suspend None), v')"
    using v'(1) assms(2,4)
    by (simp add: wait_handler_def Let_def get_checkpoint_result_def get_operation_def
        start_wait_and_suspend_def bindE_def)
  have "ctx_wait blake2b sv d None \<lparr>sp_env = v, sp_context = nth_context base n\<rparr> =
      (Inl (Suspend None), \<lparr>sp_env = v', sp_context = nth_context base (Suc n)\<rparr>)"
    using durable_operation_nth [where handler = "\<lambda>oi. wait_handler sv d oi", OF run]
    by (simp add: ctx_wait_def tracked_def)
  moreover have "op_type op = WaitOp" "op_status op = Started"
    using core_sel(1,2) [OF v'(5)] by (simp_all add: cached_operation_def wait_start_update_def def_simps)
  ultimately show ?thesis using v' by blast
qed

lemma run_live:
  assumes "inj_on (nth_id blake2b base) {..<N}" "nth_id blake2b base ` {..<N} \<subseteq> used"
    and "good v" "unused (nth_id blake2b base) (env_state v) n N"
    and "n + operations_of wk (view (env_world v)) \<le> N"
  shows "\<exists>q sp. run_workflow (lifted wk) blake2b sv \<lparr>sp_env = v, sp_context = nth_context base n\<rparr> = (q, sp) \<and>
     good (sp_env sp) \<and> live_result view put (nth_id blake2b base) N n wk v q (sp_env sp)"
  using assms(3-)
proof (induction wk arbitrary: n v)
  case (Finish r)
  show ?case using Finish.prems by (simp add: live_result_def)
next
  case (WaitThen d wk)
  let ?ids = "nth_id blake2b base"
  show ?case
  proof (cases "to_seconds d < MIN_WAIT_SECONDS")
    case True
    then show ?thesis
      using ctx_wait_short [OF True, of blake2b sv v base n] WaitThen.prems(1)
      by (simp add: bindE_def live_result_def wait_too_short_def)
  next
    case False
    with WaitThen.prems have N: "n < N" "n + 1 + operations_of wk (view (env_world v)) \<le> N" by simp_all
    have "get_operation (env_state v) (?ids n) = None" "?ids n \<in> used"
      using WaitThen.prems(2) N(1) assms(2) by (auto simp: unused_def)
    from ctx_wait_live [OF WaitThen.prems(1) this False]
    obtain v1 op where s: "ctx_wait blake2b sv d None \<lparr>sp_env = v, sp_context = nth_context base n\<rparr> =
         (Inl (Suspend None), \<lparr>sp_env = v1, sp_context = nth_context base (Suc n)\<rparr>)"
      "good v1" "view (env_world v1) = view (env_world v)" "adds (env_state v) (?ids n) op (env_state v1)"
      "op_type op = WaitOp" "op_status op = Started" by blast
    have "recorded ?ids s2 n (lifted (WaitThen d wk)) (Suc n) (lifted wk)" if "resumed ?ids (Suc n) (env_state v1) s2" for s2
    proof -
      have "agree (get_operation s2 (?ids n)) (Some (end_wait op))"
        using that s(4) by (auto simp: resumed_def adds_def)
      then obtain op' where op': "get_operation s2 (?ids n) = Some op'" "operation_core op' = operation_core (end_wait op)"
        using agree_SomeD by blast
      then show ?thesis
        unfolding lift_workflow.simps using core_sel(1,2) [OF op'(2)] s(5) False
        by (intro recorded.recorded_wait [where op = op'] recorded.recorded_none) (simp_all add: end_wait_def)
    qed
    moreover have "pending_wait ?ids N (env_state v1)"
      using s(4-6) N(1) by (auto simp: pending_wait_def adds_def)
    moreover note unused_adds [OF WaitThen.prems(2) s(4) assms(1) N(1)] adds_keeps [OF s(4) assms(1) N(1)]
    moreover have "es_arn (env_state v1) = es_arn (env_state v)" using s(4) by (simp add: adds_def)
    ultimately have "live_result view put ?ids N n (WaitThen d wk) v (Inl (Suspend None)) v1"
      using False N(2) s(3) unfolding live_result_def
      by (auto simp del: lift_workflow.simps intro!: exI [of _ "Suc n"] exI [of _ wk])
    then show ?thesis using s(1,2) by (simp add: bindE_def)
  qed
next
  case (StepThen f k)
  obtain q u where f: "f (view (env_world v)) = (q, u)" by fastforce
  with StepThen.prems have N: "n < N" "Suc n + operations_of (k (user_outcome q)) u \<le> N" by simp_all
  have "get_operation (env_state v) (nth_id blake2b base n) = None" "nth_id blake2b base n \<in> used"
    using StepThen.prems(2) N(1) assms(2) by (auto simp: unused_def)
  from ctx_step_live [where f = f, OF StepThen.prems(1) this f]
  obtain v1 op where s: "ctx_step blake2b sv text_codec (\<lambda>_. lift_function view put f) None
         \<lparr>sp_env = v, sp_context = nth_context base n\<rparr> =
       (user_outcome q, \<lparr>sp_env = v1, sp_context = nth_context base (Suc n)\<rparr>)"
    "good v1" "view (env_world v1) = u" "adds (env_state v) (nth_id blake2b base n) op (env_state v1)"
    "op_type op = StepOp" "is_terminal (op_status op)" "step_replay_outcome text_codec op = user_outcome q"
    by blast
  have run: "run_workflow (lifted (StepThen f k)) blake2b sv \<lparr>sp_env = v, sp_context = nth_context base n\<rparr> =
      run_workflow (lifted (k (user_outcome q))) blake2b sv \<lparr>sp_env = v1, sp_context = nth_context base (Suc n)\<rparr>"
    using s(1) by (cases q) (simp_all add: user_outcome_def)
  have un: "unused (nth_id blake2b base) (env_state v1) (Suc n) N"
    using unused_adds [OF StepThen.prems(2) s(4) assms(1) N(1)] .
  from StepThen.IH [OF rangeI [of k "user_outcome q"] s(2) un] N(2) s(3) obtain q' sp where
    "run_workflow (lifted (k (user_outcome q))) blake2b sv \<lparr>sp_env = v1, sp_context = nth_context base (Suc n)\<rparr> = (q', sp)"
    "good (sp_env sp)"
    "live_result view put (nth_id blake2b base) N (Suc n) (k (user_outcome q)) v1 q' (sp_env sp)" by auto
  with run live_result_step [where f = f and k = k and v = v, OF _ _ s(4) assms(1) N(1) s(5-7)] f s(3) show ?case by auto
qed

text \<open>One invocation: it ends with the result of what was left, or suspends with less left.\<close>

lemma one_invocation:
  assumes "inj_on (nth_id blake2b base) {..<N}" "nth_id blake2b base ` {..<N} \<subseteq> used" "good v"
    and "between view put (nth_id blake2b base) base N wk n wk' v"
  obtains q v1 where "invocation blake2b sv (lifted wk) v = (q, v1)" "good v1"
    and "waits_of wk' (view (env_world v)) = 0 \<Longrightarrow>
      (q, view (env_world v1)) = eval wk' (view (env_world v)) \<and> (\<forall>t. q \<noteq> Inl (Suspend t))"
    and "\<And>k. waits_of wk' (view (env_world v)) = Suc k \<Longrightarrow> q = Inl (Suspend None) \<and>
      suspended_with view put (nth_id blake2b base) base N wk k (eval wk' (view (env_world v))) v1"
proof -
  let ?ids = "nth_id blake2b base"
  note B = assms(4) [unfolded between_def]
  from run_recorded [OF B [THEN conjunct1] same_core_refl, of sv] obtain s where s:
    "run_workflow (lifted wk) blake2b sv \<lparr>sp_env = v, sp_context = nth_context base 0\<rparr> =
       run_workflow (lifted wk') blake2b sv \<lparr>sp_env = v\<lparr>env_state := s\<rparr>, sp_context = nth_context base n\<rparr>"
    "same_core (env_state v) s" by blast
  let ?v = "v\<lparr>env_state := s\<rparr>"
  have "unused ?ids (env_state ?v) n N" using unused_core [OF s(2)] B by simp
  from run_live [OF assms(1,2) good_core [OF assms(3) s(2)] this, of wk'] B obtain q sp where run:
    "run_workflow (lifted wk') blake2b sv \<lparr>sp_env = ?v, sp_context = nth_context base n\<rparr> = (q, sp)"
    "good (sp_env sp)" "live_result view put ?ids N n wk' ?v q (sp_env sp)" by auto
  have inv: "invocation blake2b sv (lifted wk) v = (q, sp_env sp)"
    using s(1) run(1) B by (simp add: invocation_def in_context_def context_new_nth)
  have susp: "q = Inl (Suspend None) \<and>
      suspended_with view put ?ids base N wk k (eval wk' (view (env_world v))) (sp_env sp)"
    if k: "waits_of wk' (view (env_world v)) = Suc k" for k
  proof -
    let ?s1 = "env_state (sp_env sp)"
    from run(3) k obtain m wk'' where q: "q = Inl (Suspend None)"
      and arn: "es_arn ?s1 = es_arn s"
      and keep: "\<forall>i < n. get_operation ?s1 (?ids i) = get_operation s (?ids i)"
      and pend: "pending_wait ?ids N ?s1"
      and rec: "\<forall>s2. resumed ?ids m ?s1 s2 \<longrightarrow> recorded ?ids s2 n (lifted wk') m (lifted wk'')"
      and m: "n < m" "unused ?ids ?s1 m N" "m + operations_of wk'' (view (env_world (sp_env sp))) \<le> N"
        "k = waits_of wk'' (view (env_world (sp_env sp)))"
        "eval wk'' (view (env_world (sp_env sp))) = eval wk' (view (env_world v))"
      by (auto simp: live_result_def)
    have "between view put ?ids base N wk m wk'' v2"
      if v2: "resumed ?ids N ?s1 (env_state v2)" "es_arn (env_state v2) = base"
        "view (env_world v2) = view (env_world (sp_env sp))" for v2
    proof -
      have res: "resumed ?ids m ?s1 (env_state v2)" using v2(1) m(3) by (simp add: resumed_def)
      have "recorded ?ids (env_state v2) 0 (lifted wk) n (lifted wk')"
      proof (rule recorded_mono [OF B [THEN conjunct1]])
        fix i assume i: "i < n"
        with m(1) resumed_at [OF res, of i] keep
        show "kept_or_ended (get_operation (env_state v) (?ids i)) (get_operation (env_state v2) (?ids i))"
          by (simp add: kept_or_ended_def same_core_get [OF s(2)])
      qed
      from recorded_trans [OF this rec [rule_format, OF res]]
      have "recorded ?ids (env_state v2) 0 (lifted wk) m (lifted wk'')" .
      then show ?thesis
        using v2 arn m(3) B unused_resumed [OF m(2) v2(1)] by (simp add: between_def same_core_sel [OF s(2)])
    qed
    moreover have "es_arn ?s1 = base" using arn B by (simp add: same_core_sel [OF s(2)])
    ultimately show ?thesis using q pend m(4,5) unfolding suspended_with_def by fastforce
  qed
  have "(q, view (env_world (sp_env sp))) = eval wk' (view (env_world v)) \<and> (\<forall>t. q \<noteq> Inl (Suspend t))"
    if "waits_of wk' (view (env_world v)) = 0"
    using run(3) that by (simp add: live_result_def)
  from that [OF inv run(2) this susp] show ?thesis by blast
qed

lemma between_start:
  assumes "unused (nth_id blake2b (es_arn (env_state v))) (env_state v) 0 N"
    and "operations_of wk (view (env_world v)) \<le> N"
  shows "between view put (nth_id blake2b (es_arn (env_state v))) (es_arn (env_state v)) N wk 0 wk v"
  using assms by (simp add: between_def recorded_none)

text \<open>All invocations, when what happens between them resumes the workflow.\<close>

lemma invocations_refine_from:
  assumes "inj_on (nth_id blake2b base) {..<N}" "nth_id blake2b base ` {..<N} \<subseteq> used"
    and "\<And>v. good v \<Longrightarrow> pending_wait (nth_id blake2b base) N (env_state v) \<Longrightarrow> es_arn (env_state v) = base \<Longrightarrow>
      good (resume v) \<and> view (env_world (resume v)) = view (env_world v) \<and>
      es_arn (env_state (resume v)) = es_arn (env_state v) \<and> resumed (nth_id blake2b base) N (env_state v) (env_state (resume v))"
    and "good v" "between view put (nth_id blake2b base) base N wk n wk' v"
  shows "\<exists>v'. invocations resume (invocation blake2b sv (lifted wk)) (waits_of wk' (view (env_world v))) v =
       (fst (eval wk' (view (env_world v))), v') \<and> view (env_world v') = snd (eval wk' (view (env_world v)))"
  using assms(4-)
proof (induction "waits_of wk' (view (env_world v))" arbitrary: v n wk')
  case W: (0 v wk' n)
  from one_invocation [OF assms(1,2) W(2,3)] obtain q v1 where
    "invocation blake2b sv (lifted wk) v = (q, v1)"
    "(q, view (env_world v1)) = eval wk' (view (env_world v))" "\<forall>t. q \<noteq> Inl (Suspend t)"
    using W(1) by metis
  with invocations_end [of "invocation blake2b sv (lifted wk)" v q v1 resume] W(1) show ?case
    by (metis fst_conv snd_conv)
next
  case W: (Suc k v wk' n)
  let ?w = "view (env_world v)"
  from one_invocation [OF assms(1,2) W(3,4)] obtain q v1 where inv:
    "invocation blake2b sv (lifted wk) v = (q, v1)" "good v1" and q: "q = Inl (Suspend None)" and susp:
    "suspended_with view put (nth_id blake2b base) base N wk k (eval wk' ?w) v1"
    using W(2) by metis
  note S = susp [unfolded suspended_with_def]
  from assms(3) [OF inv(2)] S have R: "good (resume v1)" "view (env_world (resume v1)) = view (env_world v1)"
    "es_arn (env_state (resume v1)) = base" "resumed (nth_id blake2b base) N (env_state v1) (env_state (resume v1))"
    by auto
  with S obtain m wk'' where m: "between view put (nth_id blake2b base) base N wk m wk'' (resume v1)"
    "waits_of wk'' (view (env_world (resume v1))) = k" "eval wk'' (view (env_world (resume v1))) = eval wk' ?w"
    by blast
  from W(1) [OF m(2) [symmetric] R(1) m(1)] m(2,3) inv(1) q show ?case by (simp flip: W(2))
qed

end

section \<open>A service that accepts every checkpoint\<close>

lemma accepts_all_checkpoint_service:
  assumes "accepts_all sv"
  shows "checkpoint_service sv (\<lambda>w. w) (\<lambda>u w. u) UNIV (\<lambda>v. True)"
proof (unfold_locales, goal_cases)
  case (4 v u)
  then have "orphan_check u (env_state v) = None" by (simp add: plain_update_def orphan_check_def)
  with assms obtain t where "accepts sv (env_state v) u (env_world v) t (env_world v)"
    unfolding accepts_all_def by blast
  from create_checkpoint_accepted [OF this] adds_update [of "env_state v" u t] 4(4) show ?case
    unfolding recorded_checkpoint_def by fastforce
qed simp_all

interpretation accepting: checkpoint_service accepting_services "\<lambda>w. w" "\<lambda>u w. u" UNIV "\<lambda>v. True"
proof (rule accepts_all_checkpoint_service)
  show "accepts_all accepting_services"
    unfolding accepts_all_def by (intro allI impI exI) (rule accepting_accepts)
qed

lemma reloads_resumed:
  assumes "reloads resume"
  shows "env_world (resume v) = env_world v" "es_arn (env_state (resume v)) = es_arn (env_state v)"
    "resumed ids N (env_state v) (env_state (resume v))"
  using assms by (simp_all add: reloads_def resumed_def)

section \<open>The refinement\<close>

lemma nth_id_inj:
  assumes "collision_free blake2b {(base, of_nat i) | i. i < N}" "N \<le> 2 ^ 64"
  shows "inj_on (nth_id blake2b base) {..<N}"
proof (rule inj_onI)
  fix i j assume ij: "i \<in> {..<N}" "j \<in> {..<N}" "nth_id blake2b base i = nth_id blake2b base j"
  then have "(of_nat i :: u64) = of_nat j"
    using generate_operation_id_inj [OF assms(1), of base "of_nat i" base "of_nat j"]
    by (auto simp: nth_id_def)
  then have "unat (of_nat i :: u64) = unat (of_nat j :: u64)" by simp
  moreover have "i < 2 ^ 64" "j < 2 ^ 64" using ij assms(2) by simp_all
  ultimately show "i = j" by (simp add: unat_of_nat)
qed

text \<open>C1: A durable workflow behaves like the same workflow run once without interruption. Starting from
  nothing recorded, the invocations that follow one another, one more than the run has waits, end with
  the result of the one run, and the world has changed exactly as in it: every step function took
  effect once, although every invocation starts the workflow from the beginning.\<close>

theorem invocations_refine_eval:
  fixes v :: "'w env"
  assumes "accepts_all sv" "reloads resume"
    and "collision_free blake2b {(es_arn (env_state v), of_nat i) | i. i < N}" "N \<le> 2 ^ 64"
    and "operations_of wk (env_world v) \<le> N"
    and "unused (nth_id blake2b (es_arn (env_state v))) (env_state v) 0 N"
  shows "\<exists>v'. invocations resume (invocation blake2b sv wk) (waits_of wk (env_world v)) v =
       (fst (eval wk (env_world v)), v') \<and> env_world v' = snd (eval wk (env_world v))"
proof -
  have sv: "checkpoint_service sv (\<lambda>w. w) (\<lambda>u w. u) UNIV (\<lambda>v. True)"
    by (rule accepts_all_checkpoint_service [OF assms(1)])
  have "between (\<lambda>w. w) (\<lambda>u w. u) (nth_id blake2b (es_arn (env_state v))) (es_arn (env_state v)) N wk 0 wk v"
    using assms(5,6) by (simp add: between_def recorded_none)
  from checkpoint_service.invocations_refine_from [OF sv nth_id_inj [OF assms(3,4)] _ _ _ this, of resume]
    reloads_resumed [OF assms(2)] show ?thesis by (simp add: lift_workflow_id)
qed

text \<open>A counter that is incremented, waits and is doubled.\<close>

definition example_workflow :: "nat workflow" where
  "example_workflow =
     StepThen (\<lambda>w. (Inr ''incremented'', w + 1)) (\<lambda>_. WaitThen (from_seconds 60)
       (StepThen (\<lambda>w. (Inr ''doubled'', w * 2)) (\<lambda>q. case q of Inr x \<Rightarrow> Finish x | Inl e \<Rightarrow> Finish ''failed'')))"

definition example_resume :: "'w env \<Rightarrow> 'w env" where
  "example_resume v = v\<lparr>env_state := (env_state v)\<lparr>
     es_operations := map (\<lambda>(i, op). (i, end_wait op)) (es_operations (env_state v))\<rparr>\<rparr>"

lemma example_resume_reloads: "reloads example_resume"
proof -
  have "hm_get (map (\<lambda>(i, op). (i, end_wait op)) m) j = map_option end_wait (hm_get m j)"
    for m :: "(string \<times> operation) list" and j
    by (induction m) (auto simp: hm_get_def)
  then show ?thesis by (simp add: reloads_def example_resume_def get_operation_def)
qed

theorem invocations_refine_eval_witness:
  "\<exists>v'. invocations example_resume (invocation (\<lambda>m. m) accepting_services example_workflow) 1
       \<lparr>env_state = with_batcher_and_mode ''ab'' ''token'' \<lparr>ies_operations = [], ies_next_marker = None\<rparr> Batched,
        env_world = 20\<rparr> = (Inr ''doubled'', v') \<and> env_world v' = 42"
proof -
  let ?v = "\<lparr>env_state = with_batcher_and_mode ''ab'' ''token'' \<lparr>ies_operations = [], ies_next_marker = None\<rparr> Batched,
        env_world = 20 :: nat\<rparr>"
  have st: "es_arn (env_state ?v) = ''ab''"
    "get_operation (env_state ?v) i = None" for i
    by (simp_all add: with_batcher_and_mode_def with_checkpointing_mode_def Let_def get_operation_def
        collect_operations_def hm_get_def)
  have ev: "eval example_workflow 20 = (Inr ''doubled'', 42)" "waits_of example_workflow 20 = 1"
    "operations_of example_workflow 20 = 3"
    by (simp_all add: example_workflow_def user_outcome_def def_simps MIN_WAIT_SECONDS_def)
  have all: "accepts_all (accepting_services :: nat services)"
    unfolding accepts_all_def by (intro allI impI exI) (rule accepting_accepts)
  have free: "collision_free (\<lambda>m. m) {(es_arn (env_state ?v), of_nat i) | i. i < 3}"
    unfolding st(1) by (rule collision_free_short) auto
  have un: "unused (nth_id (\<lambda>m. m) (es_arn (env_state ?v))) (env_state ?v) 0 3"
    using st(2) by (simp add: unused_def)
  have w: "env_world ?v = 20" by simp
  have "(3 :: nat) \<le> 2 ^ 64" "operations_of example_workflow (env_world ?v) \<le> 3"
    unfolding w ev(3) by simp_all
  from invocations_refine_eval [OF all example_resume_reloads free this un]
  show ?thesis unfolding w ev by simp
qed

end
