(* ===== verification/Server_Service.thy ===== *)
theory Server_Service
  imports Checkpoint_Server Workflow_Service
begin

text \<open>
  The checkpoint server is a service in the sense of \<open>Workflow_Service\<close>: a checkpoint of the SDK reaches the
  execution its token names, is recorded there, and the answer brings the client's cache to the same state.
\<close>

section \<open>Client and server in step\<close>

text \<open>\<open>srv_good\<close> relates an execution state of the SDK and the server: the token belongs to the execution,
  which is not completed, and on the identifiers of the workflow both sides hold the same operations.\<close>

definition token_of :: "(nat \<Rightarrow> host) \<Rightarrow> string \<Rightarrow> string \<Rightarrow> bool" where
  "token_of hosts e t \<longleftrightarrow> (\<forall>k. \<exists>d. ho_decode_token (hosts k) t = Inr d \<and> td_execution_id d = e)"

definition tokens_roundtrip :: "(nat \<Rightarrow> host) \<Rightarrow> bool" where
  "tokens_roundtrip hosts \<longleftrightarrow> (\<forall>k k' d. ho_decode_token (hosts k) (ho_encode_token (hosts k') d) = Inr d)"

lemma token_of_invocation: "tokens_roundtrip hosts \<Longrightarrow> token_of hosts e (invocation_token (hosts k) e i)"
  by (simp add: tokens_roundtrip_def token_of_def invocation_token_def)

definition timed_wait :: "operation \<Rightarrow> bool" where
  "timed_wait op \<longleftrightarrow> op_type op = WaitOp \<longrightarrow>
     op_status op \<in> {Started, Succeeded} \<and> (\<exists>t. op_wait_details op = Some (Some t))"

definition open_execution :: "checkpoint_manager \<Rightarrow> bool" where
  "open_execution cm \<longleftrightarrow> cm_wf cm \<and> \<not> cm_is_execution_completed cm \<and>
     (\<forall>i op. cm_operation cm i = Some op \<longrightarrow> timed_wait op \<and> (op_type op = ExecutionOp \<longrightarrow> op_status op = Started))"

definition in_step :: "string set \<Rightarrow> exec_state \<Rightarrow> checkpoint_manager \<Rightarrow> bool" where
  "in_step used s cm \<longleftrightarrow> (\<forall>i \<in> used. agree (get_operation s i) (cm_operation cm i))"

definition srv_good :: "(nat \<Rightarrow> host) \<Rightarrow> string \<Rightarrow> string set \<Rightarrow> exec_state \<Rightarrow> server \<Rightarrow> bool" where
  "srv_good hosts e used s srv \<longleftrightarrow> \<not> es_has_sender s \<and> es_arn s = e \<and> token_of hosts e (es_token s) \<and>
     (\<exists>cm. hm_get (srv_executions srv) e = Some cm \<and> open_execution cm \<and> cm_dirty_operation_ids cm = [] \<and>
        in_step used s cm)"

definition server_good :: "(nat \<Rightarrow> host) \<Rightarrow> string \<Rightarrow> string set \<Rightarrow> ('u \<times> server) env \<Rightarrow> bool" where
  "server_good hosts e used v \<longleftrightarrow> srv_good hosts e used (env_state v) (snd (env_world v))"

definition put_user :: "'u \<Rightarrow> 'u \<times> server \<Rightarrow> 'u \<times> server" where
  "put_user u w = (u, snd w)"

section \<open>A checkpoint\<close>

lemma spec_updates_single:
  "spec_updates h [(0, u)] f = f(up_id u \<mapsto> updated_operation h (ho_uuid h 0) u (f (up_id u)))"
  by (simp add: spec_updates_def)

lemma completed_after_plain:
  assumes "plain_update u" "get_operation_data m (up_id u) = None"
  shows "cm_is_execution_completed (snd (process_checkpoint h [u] m)) = cm_is_execution_completed m"
proof -
  have "cm_operation m (up_id u) = None" using assms(2) by (simp add: cm_operation_def)
  then have "\<not> completes_execution (updated_operation h (ho_uuid h 0) u (cm_operation m (up_id u)))"
    using assms(1) by (auto simp: completes_execution_def plain_update_def updated_operation_def)
  then show ?thesis
    by (simp add: process_checkpoint_def get_dirty_operations_def process_updates_def cm_process_operation_update_eq Let_def)
qed

text \<open>The server records a plain update of a new operation and answers with that operation alone.\<close>

lemma process_plain:
  assumes "open_execution cm" "cm_dirty_operation_ids cm = []" "plain_update u" "cm_operation cm (up_id u) = None"
  obtains cm' op where "process_checkpoint h [u] cm = (Inr [op], cm')" "open_execution cm'" "cm_dirty_operation_ids cm' = []"
    and "cm_operation cm' = (cm_operation cm)(up_id u \<mapsto> op)" "op_id op = up_id u"
    and "operation_core op = operation_core (cached_operation u None)"
proof -
  let ?op = "updated_operation h (ho_uuid h 0) u None"
  have wf: "cm_wf cm" using assms(1) by (simp add: open_execution_def)
  obtain ops cm' where p: "process_checkpoint h [u] cm = (Inr ops, cm')"
    "cm_operation cm' = (cm_operation cm)(up_id u \<mapsto> ?op)"
    "distinct (map op_id ops)" "op_id ` set ops = {up_id u}"
    "\<forall>op \<in> set ops. cm_operation cm' (op_id op) = Some op" "\<not> has_dirty_operations cm'"
    using process_checkpoint_spec [OF wf, of h "[u]"] assms(2,4) by (auto simp: spec_updates_single)
  have "ops = [?op]"
  proof -
    have "op = ?op" if "op \<in> set ops" for op
    proof -
      from that p(4) have "op_id op = up_id u" by blast
      with p(2,5) that show ?thesis by fastforce
    qed
    then have "set ops \<subseteq> {?op}" by blast
    moreover have "ops \<noteq> []" using p(4) by auto
    moreover have "distinct ops" using p(3) by (simp add: distinct_map)
    ultimately show ?thesis by (cases ops; cases "tl ops") auto
  qed
  have id: "op_id ?op = up_id u" by (simp add: updated_operation_def)
  have core: "operation_core ?op = operation_core (cached_operation u None)"
    using cache_agrees [of u h "ho_uuid h 0"] assms(3) by (auto simp: plain_update_def)
  have plain: "timed_wait ?op" "op_type ?op \<noteq> ExecutionOp"
    using assms(3) by (auto simp: timed_wait_def plain_update_def updated_operation_def create_operation_from_update_def)
  have "cm_is_execution_completed cm' = cm_is_execution_completed cm"
    using completed_after_plain [OF assms(3), of cm h] assms(4) p(1) by (simp add: cm_operation_def)
  moreover have "cm_wf cm'" using cm_wf_process_checkpoint [OF wf, of h "[u]"] p(1) by simp
  ultimately have "open_execution cm'"
    using assms(1) p(2) plain by (auto simp: open_execution_def)
  with that p \<open>ops = [?op]\<close> id core show thesis by (auto simp: has_dirty_operations_def)
qed

lemma server_records:
  assumes "server_good hosts e used v" "plain_update u" "up_id u \<in> used" "get_operation (env_state v) (up_id u) = None"
  shows "\<exists>v'. recorded_checkpoint (server_services hosts) u v v' \<and> server_good hosts e used v' \<and>
     fst (env_world v') = fst (env_world v)"
proof -
  let ?s = "env_state v" and ?srv = "snd (env_world v)"
  let ?h = "hosts (srv_commands ?srv)"
  obtain cm where cm: "hm_get (srv_executions ?srv) e = Some cm" "open_execution cm" "cm_dirty_operation_ids cm = []"
    "in_step used ?s cm" and s: "\<not> es_has_sender ?s" "es_arn ?s = e" "token_of hosts e (es_token ?s)"
    using assms(1) by (auto simp: server_good_def srv_good_def)
  obtain d where d: "ho_decode_token ?h (es_token ?s) = Inr d" "td_execution_id d = e"
    using s(3) unfolding token_of_def by blast
  have "cm_operation cm (up_id u) = None"
    using cm(4) assms(3,4) by (auto simp: in_step_def)
  from process_plain [OF cm(2,3) assms(2) this] obtain cm' op where p:
    "process_checkpoint ?h [u] cm = (Inr [op], cm')" "open_execution cm'" "cm_dirty_operation_ids cm' = []"
    "cm_operation cm' = (cm_operation cm)(up_id u \<mapsto> op)" "op_id op = up_id u"
    "operation_core op = operation_core (cached_operation u None)" .
  let ?srv' = "\<lparr>srv_executions = hm_insert e cm' (srv_executions ?srv), srv_commands = Suc (srv_commands ?srv)\<rparr>"
  let ?s' = "add_operation op (set_checkpoint_token (es_token ?s) ?s)"
  let ?v' = "\<lparr>env_state = ?s', env_world = (fst (env_world v), ?srv')\<rparr>"
  have "sv_checkpoint (server_services hosts) (es_arn ?s) (es_token ?s) [u] (env_world v) =
      (Inr \<lparr>rsp_checkpoint_token = es_token ?s,
         rsp_new_execution_state = Some \<lparr>nes_operations = [op], nes_next_marker = None\<rparr>\<rparr>, (fst (env_world v), ?srv'))"
    using d cm(1) p(1)
    by (simp add: server_services_def on_server_def client_checkpoint_def send_api_request_def handle_checkpoint_def
        execution_of_token_def)
  then have "create_checkpoint (server_services hosts) u True v = (Inr (), ?v')"
    using assms(2) s(1)
    by (simp add: create_checkpoint_def orphan_check_def plain_update_def Let_def checkpoint_direct_def send_update_def
        on_world_def bindE_def apply_response_def update_local_cache_from_response_def)
  moreover have "adds ?s (up_id u) op ?s'"
    by (simp add: adds_def get_add_operation p(5)) (simp add: add_operation_def)
  moreover have "server_good hosts e used ?v'"
    using p s cm(4) by (auto simp: server_good_def srv_good_def hm_get_insert in_step_def get_add_operation)
      (auto simp: add_operation_def set_checkpoint_token_def)
  ultimately show ?thesis using p(6) by (auto simp: recorded_checkpoint_def)
qed

interpretation server: checkpoint_service "server_services hosts" fst put_user used "server_good hosts e used"
  for hosts :: "nat \<Rightarrow> host" and used e
proof (unfold_locales, goal_cases)
  case (3 v s)
  then show ?case
    by (auto simp: server_good_def srv_good_def same_core_def in_step_def get_operation_def)
next
  case (4 v u)
  then show ?case by (rule server_records)
qed (simp_all add: server_good_def put_user_def)

end
