(* ===== verification/Local_Run.thy ===== *)
theory Local_Run
  imports Orchestrator Server_Service
begin

text \<open>
  The whole system: user code on the SDK, the SDK on the checkpoint server, and the test runner that
  invokes the user code again after each wait. The theorem says that a run of a workflow ends with the
  result and the effect of the one uninterrupted run.
\<close>

section \<open>Requests that keep client and server in step\<close>

lemma api_eq:
  "send_api_request (ru_hosts ru) req (snd (rs_world rs)) = (r, srv) \<Longrightarrow>
   api ru req rs = (r, rs\<lparr>rs_world := (fst (rs_world rs), srv)\<rparr>)"
  by (simp add: api_def on_server_def)

lemma srv_good_executions:
  "srv_executions srv' = srv_executions srv \<Longrightarrow> srv_good hosts e used s srv' = srv_good hosts e used s srv"
  by (simp add: srv_good_def)

lemma cm_complete_invocation_sel:
  assumes "cm_complete_invocation h i cm = (r, cm')"
  shows "cm_operation cm' = cm_operation cm" "cm_dirty_operation_ids cm' = cm_dirty_operation_ids cm"
    "cm_is_execution_completed cm' = cm_is_execution_completed cm"
  using assms
  by (auto simp: cm_complete_invocation_def Let_def cm_operation_def get_operation_data_def fun_eq_iff
      split: option.splits)

lemma open_execution_cong:
  "cm_operation cm' = cm_operation cm \<Longrightarrow> cm_is_execution_completed cm' = cm_is_execution_completed cm \<Longrightarrow>
   cm_wf cm' \<Longrightarrow> open_execution cm \<Longrightarrow> open_execution cm'"
  by (simp add: open_execution_def)

lemma srv_good_complete_invocation:
  assumes "srv_good hosts e used s srv"
  shows "srv_good hosts e used s (snd (send_api_request hosts (CompleteInvocation e i err) srv))"
proof -
  obtain cm where cm: "hm_get (srv_executions srv) e = Some cm" "open_execution cm" "cm_dirty_operation_ids cm = []"
    "in_step used s cm" using assms by (auto simp: srv_good_def)
  obtain r cm' where c: "cm_complete_invocation (hosts (srv_commands srv)) i cm = (r, cm')" by fastforce
  have "cm_wf cm'"
    using cm_wf_complete_invocation [of cm "hosts (srv_commands srv)" i] c cm(2) by (simp add: open_execution_def)
  with cm cm_complete_invocation_sel [OF c]
  have "open_execution cm'" "cm_dirty_operation_ids cm' = []" "in_step used s cm'"
    by (auto intro: open_execution_cong simp: in_step_def)
  moreover have "hm_get (srv_executions (snd (send_api_request hosts (CompleteInvocation e i err) srv))) e = Some cm'"
    using cm(1) c by (cases r) (auto simp: send_api_request_def handle_complete_invocation_def
        em_complete_invocation_def hm_get_insert)
  ultimately show ?thesis using assms by (auto simp: srv_good_def)
qed

section \<open>The operations of a stalled execution\<close>

lemma earlier_Some: "earlier (Some t) x \<noteq> None" "x \<noteq> None \<Longrightarrow> earlier y x \<noteq> None"
  by (cases x; simp) (cases y; cases x; simp)

lemma process_wait:
  "op_type op = WaitOp \<Longrightarrow> op_status op = Started \<Longrightarrow> op_wait_details op = Some (Some t) \<Longrightarrow>
   fst (process_operation op pending) = OperationPending (Some t)"
  by (simp add: process_operation_def handle_wait_update_def)

lemma scan_keeps:
  "scan_operations ops has earliest pending = (has', earliest', pending') \<Longrightarrow>
   (has \<longrightarrow> has') \<and> (earliest \<noteq> None \<longrightarrow> earliest' \<noteq> None)"
proof (induction ops arbitrary: has earliest pending)
  case (Cons op ops)
  obtain r p where r: "process_operation op pending = (r, p)" by fastforce
  show ?case
  proof (cases r)
    case (OperationPending t)
    then have "scan_operations ops True (earlier t earliest) p = (has', earliest', pending')"
      using Cons.prems r by simp
    from Cons.IH [OF this] earlier_Some(2) show ?thesis by blast
  qed (use Cons.prems Cons.IH [of has earliest p] r in simp_all)
qed simp

lemma scan_finds_wait:
  assumes "op \<in> set ops" "op_type op = WaitOp" "op_status op = Started" "op_wait_details op = Some (Some t)"
    and "scan_operations ops has earliest pending = (has', earliest', pending')"
  shows "has' \<and> earliest' \<noteq> None"
  using assms(1,5)
proof (induction ops arbitrary: has earliest pending)
  case (Cons x ops)
  obtain r p where r: "process_operation x pending = (r, p)" by fastforce
  show ?case
  proof (cases "op = x")
    case True
    then have "scan_operations ops True (earlier (Some t) earliest) p = (has', earliest', pending')"
      using Cons.prems(2) r process_wait [OF assms(2-4), of pending] by simp
    from scan_keeps [OF this] earlier_Some(1) show ?thesis by blast
  next
    case False
    with Cons.prems(1) have "op \<in> set ops" by simp
    note IH = Cons.IH [OF this]
    show ?thesis
      using Cons.prems(2) r by (cases r) (auto dest: IH)
  qed
qed simp

text \<open>An open execution with a started wait is run again.\<close>

lemma process_operations_wait:
  assumes "open_execution cm" "cm_operation cm i = Some op" "op_type op = WaitOp" "op_status op = Started"
  shows "\<exists>t o2. process_operations now (cm_get_state cm) o1 = (ShouldReinvoke (Some t), o2) \<and>
     or_registered_handles o2 = or_registered_handles o1"
proof -
  have wf: "cm_wf cm" using assms(1) by (simp add: open_execution_def)
  have "handle_execution_update (cm_get_state cm) = None"
  proof (cases "find (\<lambda>op. op_type op = ExecutionOp) (cm_get_state cm)")
    case (Some x)
    then have "op_type x = ExecutionOp" "cm_operation cm (op_id x) = Some x"
      using find_Some_in [OF Some] cm_get_state_found [OF wf] by auto
    with assms(1) have "op_status x = Started" by (auto simp: open_execution_def)
    with Some show ?thesis by (simp add: handle_execution_update_def)
  qed (simp add: handle_execution_update_def)
  moreover have "op \<in> set (cm_get_state cm)"
    using assms(2) cm_wf_id [OF wf assms(2)] cm_get_state_mem [OF wf] by simp
  moreover have "\<exists>t. op_wait_details op = Some (Some t)"
    using assms by (auto simp: open_execution_def timed_wait_def)
  moreover obtain has earliest pending where
    "scan_operations (cm_get_state cm) False None (or_pending_operations o1) = (has, earliest, pending)"
    using prod_cases3 by blast
  ultimately show ?thesis
    using scan_finds_wait [of op "cm_get_state cm" _ False None "or_pending_operations o1" has earliest pending] assms(3,4)
    by (auto simp: process_operations_def)
qed

section \<open>Ending the waits\<close>

definition ended_wait :: "int \<Rightarrow> operation \<Rightarrow> operation" where
  "ended_wait t op = (if op_type op = WaitOp \<and> op_status op = Started
     then op\<lparr>op_status := Succeeded, op_end_timestamp := Some t\<rparr> else op)"

definition waits_ended :: "string set \<Rightarrow> checkpoint_manager \<Rightarrow> checkpoint_manager \<Rightarrow> bool" where
  "waits_ended P cm cm' \<longleftrightarrow> cm_wf cm' \<and> cm_is_execution_completed cm' = cm_is_execution_completed cm \<and>
     (\<forall>i. \<exists>t. cm_operation cm' i = (if i \<in> P then map_option (ended_wait t) (cm_operation cm i) else cm_operation cm i))"

lemma complete_wait_effect:
  assumes "hm_get (srv_executions (snd (rs_world rs))) e = Some cm" "cm_wf cm" "cm_operation cm (op_id op) = Some op"
  shows "\<exists>srv cm'. complete_wait ru e op rs = rs\<lparr>rs_world := (fst (rs_world rs), srv)\<rparr> \<and>
     hm_get (srv_executions srv) e = Some cm' \<and> waits_ended {op_id op} cm cm'"
proof (cases "op_type op = WaitOp \<and> op_status op = Started")
  case True
  let ?h = "current_host ru rs" and ?srv = "snd (rs_world rs)"
  let ?op = "op\<lparr>op_status := Succeeded, op_end_timestamp := Some (ho_now ?h)\<rparr>"
  let ?cm = "update_operation_data ?h (op_id op) ?op cm"
  let ?srv' = "\<lparr>srv_executions = hm_insert e ?cm (srv_executions ?srv), srv_commands = Suc (srv_commands ?srv)\<rparr>"
  have "send_api_request (ru_hosts ru) (UpdateCheckpointData e (op_id op) ?op) ?srv = (Inr EmptyPayload, ?srv')"
    using assms(1) by (simp add: send_api_request_def handle_update_checkpoint_data_def with_execution_def current_host_def)
  from api_eq [OF this] True have "complete_wait ru e op rs = rs\<lparr>rs_world := (fst (rs_world rs), ?srv')\<rparr>"
    by (simp add: complete_wait_def)
  moreover have "cm_wf ?cm" by (rule cm_wf_update_data [OF assms(2)]) simp
  moreover have "cm_is_execution_completed ?cm = cm_is_execution_completed cm"
    using True by (simp add: update_operation_data_def Let_def completes_execution_def split: option.split)
  moreover have "\<exists>t. cm_operation ?cm i = (if i \<in> {op_id op} then map_option (ended_wait t) (cm_operation cm i) else cm_operation cm i)" for i
    using True assms(3) by (auto simp: cm_operation_update_data ended_wait_def intro!: exI [of _ "ho_now ?h"])
  ultimately have "waits_ended {op_id op} cm ?cm" unfolding waits_ended_def by blast
  with \<open>complete_wait ru e op rs = _\<close> show ?thesis by (intro exI conjI) (auto simp: hm_get_insert)
next
  case False
  then have "complete_wait ru e op rs = rs" "ended_wait t op = op" for t
    by (auto simp: complete_wait_def ended_wait_def)
  with assms show ?thesis
    by (intro exI [of _ "snd (rs_world rs)"] exI [of _ cm]) (auto simp: waits_ended_def)
qed

lemma waits_ended_trans:
  assumes "waits_ended P cm cm1" "waits_ended Q cm1 cm2" "P \<inter> Q = {}"
  shows "waits_ended (P \<union> Q) cm cm2"
proof -
  have "\<exists>t. cm_operation cm2 i = (if i \<in> P \<union> Q then map_option (ended_wait t) (cm_operation cm i) else cm_operation cm i)" for i
  proof -
    obtain t1 t2 where
      "cm_operation cm1 i = (if i \<in> P then map_option (ended_wait t1) (cm_operation cm i) else cm_operation cm i)"
      "cm_operation cm2 i = (if i \<in> Q then map_option (ended_wait t2) (cm_operation cm1 i) else cm_operation cm1 i)"
      using assms(1,2) unfolding waits_ended_def by blast
    with assms(3) show ?thesis by (cases "i \<in> P"; cases "i \<in> Q") auto
  qed
  with assms(1,2) show ?thesis by (simp add: waits_ended_def)
qed

lemma complete_waits_effect:
  assumes "hm_get (srv_executions (snd (rs_world rs))) e = Some cm" "cm_wf cm"
    and "\<And>op. op \<in> set ops \<Longrightarrow> cm_operation cm (op_id op) = Some op" "distinct (map op_id ops)"
  shows "\<exists>srv cm'. complete_waits ru e ops rs = rs\<lparr>rs_world := (fst (rs_world rs), srv)\<rparr> \<and>
     hm_get (srv_executions srv) e = Some cm' \<and> waits_ended (op_id ` set ops) cm cm'"
  using assms
proof (induction ops arbitrary: rs cm)
  case Nil
  then show ?case
    by (intro exI [of _ "snd (rs_world rs)"] exI [of _ cm]) (auto simp: complete_waits_def waits_ended_def)
next
  case (Cons op ops)
  obtain srv cm1 where 1: "complete_wait ru e op rs = rs\<lparr>rs_world := (fst (rs_world rs), srv)\<rparr>"
    "hm_get (srv_executions srv) e = Some cm1" "waits_ended {op_id op} cm cm1"
    using complete_wait_effect [OF Cons.prems(1,2), of op ru] Cons.prems(3) by auto
  let ?rs = "rs\<lparr>rs_world := (fst (rs_world rs), srv)\<rparr>"
  have later: "cm_operation cm1 (op_id x) = Some x" if "x \<in> set ops" for x
  proof -
    have "op_id x \<in> op_id ` set ops" using that by (rule imageI)
    then have "op_id x \<noteq> op_id op" using Cons.prems(4) by auto
    with 1(3) have "cm_operation cm1 (op_id x) = cm_operation cm (op_id x)"
      unfolding waits_ended_def by (metis singletonD)
    with Cons.prems(3) that show ?thesis by simp
  qed
  obtain srv' cm' where 2: "complete_waits ru e ops ?rs = ?rs\<lparr>rs_world := (fst (rs_world ?rs), srv')\<rparr>"
    "hm_get (srv_executions srv') e = Some cm'" "waits_ended (op_id ` set ops) cm1 cm'"
    using Cons.IH [of ?rs cm1] 1(2,3) later Cons.prems(4) by (auto simp: waits_ended_def)
  have "{op_id op} \<inter> op_id ` set ops = {}" using Cons.prems(4) by auto
  from waits_ended_trans [OF 1(3) 2(3) this] 1(1) 2(1,2) show ?case
    by (intro exI [of _ srv'] exI [of _ cm']) (simp add: complete_waits_def)
qed

section \<open>The next invocation\<close>

lemma get_collect_operations:
  "hm_get (collect_operations ops) i = find (\<lambda>op. op_id op = i) (rev ops)"
proof (induction ops rule: rev_induct)
  case (snoc op ops)
  then show ?case by (simp add: collect_operations_def hm_get_insert)
qed (simp add: collect_operations_def)

lemma get_loaded_state:
  assumes "cm_wf cm"
  shows "get_operation (exec_state_new e t (initial_state_with_operations (cm_get_state cm))) i = cm_operation cm i"
proof -
  have "find (\<lambda>op. op_id op = i) (rev (cm_get_state cm)) = cm_operation cm i"
  proof (cases "find (\<lambda>op. op_id op = i) (rev (cm_get_state cm))")
    case None
    then have no: "op_id op \<noteq> i" if "op \<in> set (cm_get_state cm)" for op
      using that by (auto simp: find_None_iff)
    have "cm_operation cm i = None"
    proof (rule ccontr)
      assume "cm_operation cm i \<noteq> None"
      then obtain op where op: "cm_operation cm i = Some op" by blast
      with cm_wf_id [OF assms op] no cm_get_state_mem [OF assms, of op] show False by simp
    qed
    with None show ?thesis by simp
  next
    case (Some op)
    with find_Some_in [OF Some] cm_get_state_found [OF assms, of op] show ?thesis by simp
  qed
  then show ?thesis
    by (simp add: exec_state_new_def with_checkpointing_mode_def Let_def get_operation_def get_collect_operations
        initial_state_with_operations_def)
qed

lemma exec_state_new_sel:
  "\<not> es_has_sender (exec_state_new e t init)" "es_arn (exec_state_new e t init) = e" "es_token (exec_state_new e t init) = t"
  by (simp_all add: exec_state_new_def with_checkpointing_mode_def Let_def)

lemma ended_wait_core:
  assumes "timed_wait op"
  shows "operation_core (ended_wait t op) = operation_core (end_wait op)" "timed_wait (ended_wait t op)"
    "op_type (ended_wait t op) = op_type op" "op_type op = ExecutionOp \<Longrightarrow> ended_wait t op = op"
  using assms by (auto simp: ended_wait_def end_wait_def timed_wait_def operation_core_def get_result_def)

lemma waits_ended_open:
  assumes "waits_ended P cm cm'" "open_execution cm"
  shows "open_execution cm'"
proof -
  have "timed_wait op' \<and> (op_type op' = ExecutionOp \<longrightarrow> op_status op' = Started)" if op': "cm_operation cm' i = Some op'" for i op'
  proof -
    obtain t where t: "cm_operation cm' i = (if i \<in> P then map_option (ended_wait t) (cm_operation cm i) else cm_operation cm i)"
      using assms(1) unfolding waits_ended_def by blast
    then obtain op where op: "cm_operation cm i = Some op" "op' = op \<or> op' = ended_wait t op"
      using op' by (cases "cm_operation cm i") (auto split: if_splits)
    have "timed_wait op" "op_type op = ExecutionOp \<longrightarrow> op_status op = Started"
      using assms(2) op(1) by (auto simp: open_execution_def)
    with op(2) ended_wait_core [of op t] show ?thesis by auto
  qed
  with assms show ?thesis by (simp add: open_execution_def waits_ended_def)
qed

text \<open>When all stored waits are ended, the loaded state resumes the one that was left.\<close>

lemma waits_ended_agree:
  assumes "waits_ended (op_id ` set (cm_get_state cm)) cm cm'" "open_execution cm" "agree a (cm_operation cm i)"
  shows "agree (cm_operation cm' i) (map_option end_wait a)"
proof -
  have wf: "cm_wf cm" using assms(2) by (simp add: open_execution_def)
  obtain t where t: "cm_operation cm' i =
      (if i \<in> op_id ` set (cm_get_state cm) then map_option (ended_wait t) (cm_operation cm i) else cm_operation cm i)"
    using assms(1) unfolding waits_ended_def by blast
  have "agree (cm_operation cm' i) (map_option end_wait (cm_operation cm i))"
  proof (cases "cm_operation cm i")
    case None
    then show ?thesis using t by (simp split: if_splits)
  next
    case (Some op)
    have "op \<in> set (cm_get_state cm)" using cm_wf_id [OF wf Some] cm_get_state_mem [OF wf] Some by simp
    then have "i \<in> op_id ` set (cm_get_state cm)" using cm_wf_id [OF wf Some] by blast
    moreover have "timed_wait op" using assms(2) Some by (auto simp: open_execution_def)
    ultimately show ?thesis using t Some ended_wait_core(1) [of op t] by (simp add: agree_def)
  qed
  moreover have "agree (map_option end_wait (cm_operation cm i)) (map_option end_wait a)"
    using assms(3) by (intro agree_end_wait) (simp add: agree_def)
  ultimately show ?thesis by (rule agree_trans)
qed

lemma start_invocation_effect:
  assumes "tokens_roundtrip (ru_hosts ru)" "hm_get (srv_executions (snd (rs_world rs))) e = Some cm" "open_execution cm"
  shows "\<exists>srv ir. api ru (StartInvocation e i) rs = (Inr (InvocationPayload ir), rs\<lparr>rs_world := (fst (rs_world rs), srv)\<rparr>) \<and>
     (\<forall>s. s = exec_state_new e (ir_checkpoint_token ir)
          (initial_state_with_operations (map oe_operation (ir_operation_events ir))) \<longrightarrow>
        srv_good (ru_hosts ru) e used s srv \<and> (\<forall>j. get_operation s j = cm_operation cm j))"
proof -
  let ?h = "current_host ru rs" and ?srv = "snd (rs_world rs)"
  let ?cm = "snd (cm_start_invocation ?h i cm)"
  let ?ir = "\<lparr>ir_checkpoint_token = invocation_token ?h e i, ir_execution_id = e, ir_invocation_id = i,
     ir_operation_events = List.map_filter (get_operation_data cm) (cm_operation_order cm)\<rparr>"
  let ?srv' = "\<lparr>srv_executions = hm_insert e ?cm (srv_executions ?srv), srv_commands = Suc (srv_commands ?srv)\<rparr>"
  have "send_api_request (ru_hosts ru) (StartInvocation e i) ?srv = (Inr (InvocationPayload ?ir), ?srv')"
    using assms(2,3)
    by (simp add: send_api_request_def handle_start_invocation_def em_start_invocation_def open_execution_def
        cm_start_invocation_def answer_of_def current_host_def)
  note start = api_eq [OF this]
  have wf: "cm_wf cm" using assms(3) by (simp add: open_execution_def)
  let ?s = "exec_state_new e (ir_checkpoint_token ?ir) (initial_state_with_operations (map oe_operation (ir_operation_events ?ir)))"
  have get: "get_operation ?s j = cm_operation cm j" for j
    using get_loaded_state [OF wf] by (simp add: cm_get_state_def)
  have op: "cm_operation ?cm = cm_operation cm"
    by (simp add: fun_eq_iff cm_operation_def cm_start_invocation_def get_operation_data_def)
  have "open_execution ?cm"
    using assms(3) by (rule open_execution_cong [OF op, rotated 2])
      (simp_all add: cm_wf_start_invocation wf, simp add: cm_start_invocation_def)
  moreover have "cm_dirty_operation_ids ?cm = []" by (simp add: cm_start_invocation_def)
  ultimately have "srv_good (ru_hosts ru) e used ?s ?srv'"
    using token_of_invocation [OF assms(1)] get op
    by (auto simp: srv_good_def exec_state_new_sel hm_get_insert in_step_def current_host_def)
  with start get show ?thesis by blast
qed

section \<open>One iteration of the runner\<close>

lemma fetch_and_store_effect:
  assumes "hm_get (srv_executions (snd (rs_world rs))) e = Some cm"
  shows "\<exists>rs'. fetch_and_store ru e rs = (cm_get_state cm, rs') \<and> fst (rs_world rs') = fst (rs_world rs) \<and>
     srv_executions (snd (rs_world rs')) = srv_executions (snd (rs_world rs))"
  using assms
  by (simp add: fetch_and_store_def fetch_operations_def on_server_def client_get_operations_def send_api_request_def
      handle_get_state_def on_orchestrator_def)

lemma on_orchestrator_world [simp]: "rs_world (on_orchestrator f rs) = rs_world rs"
  by (simp add: on_orchestrator_def)

text \<open>A runner whose handler runs the workflow on the SDK with the checkpoint server.\<close>

definition runs_workflow :: "('u, 'i, string) runner \<Rightarrow> (u8 list \<Rightarrow> u8 list) \<Rightarrow> 'u workflow \<Rightarrow> bool" where
  "runs_workflow ru blake2b wk \<longleftrightarrow> tokens_roundtrip (ru_hosts ru) \<and>
     (\<forall>payload. ru_handler ru payload =
        run_workflow (lift_workflow fst put_user wk) blake2b (server_services (ru_hosts ru)))"

text \<open>The state of a runner whose workflow suspended with \<open>k\<close> more waits to come.\<close>

definition stalled ::
  "('u, 'i, 'o) runner \<Rightarrow> (u8 list \<Rightarrow> u8 list) \<Rightarrow> string \<Rightarrow> nat \<Rightarrow> 'u workflow \<Rightarrow> nat \<Rightarrow> (durable_error + string) \<times> 'u \<Rightarrow>
   'u run_state \<Rightarrow> bool"
where
  "stalled ru blake2b e N wk k goal rs \<longleftrightarrow> (\<exists>v. env_world v = rs_world rs \<and>
     server_good (ru_hosts ru) e (nth_id blake2b e ` {..<N}) v \<and>
     suspended_with fst put_user (nth_id blake2b e) e N wk k goal v)"

lemma suspended_with_view:
  "suspended_with view put ids base N wk k goal v \<Longrightarrow> view w = view (env_world v) \<Longrightarrow>
   suspended_with view put ids base N wk k goal (v\<lparr>env_world := w\<rparr>)"
  by (simp add: suspended_with_def)

lemma stalled_server:
  assumes "stalled ru blake2b e N wk k goal rs" "fst (rs_world rs') = fst (rs_world rs)"
    and "\<And>used s. srv_good (ru_hosts ru) e used s (snd (rs_world rs)) \<Longrightarrow> srv_good (ru_hosts ru) e used s (snd (rs_world rs'))"
  shows "stalled ru blake2b e N wk k goal rs'"
proof -
  obtain v where v: "env_world v = rs_world rs" "server_good (ru_hosts ru) e (nth_id blake2b e ` {..<N}) v"
    "suspended_with fst put_user (nth_id blake2b e) e N wk k goal v"
    using assms(1) by (auto simp: stalled_def)
  have "suspended_with fst put_user (nth_id blake2b e) e N wk k goal (v\<lparr>env_world := rs_world rs'\<rparr>)"
    by (rule suspended_with_view [OF v(3)]) (simp add: v(1) assms(2))
  moreover have "server_good (ru_hosts ru) e (nth_id blake2b e ` {..<N}) (v\<lparr>env_world := rs_world rs'\<rparr>)"
    using v(1,2) assms(3) by (simp add: server_good_def)
  ultimately show ?thesis unfolding stalled_def by (intro exI [of _ "v\<lparr>env_world := rs_world rs'\<rparr>"]) simp
qed

lemma stalled_cong:
  assumes "stalled ru blake2b e N wk k goal rs" "fst (rs_world rs') = fst (rs_world rs)"
    and "srv_executions (snd (rs_world rs')) = srv_executions (snd (rs_world rs))"
  shows "stalled ru blake2b e N wk k goal rs'"
  using assms(1,2) by (rule stalled_server) (simp add: srv_good_executions [OF assms(3)])

text \<open>One call of the handler between two invocations, with the report of its end.\<close>

lemma run_handler_effect:
  assumes "runs_workflow ru blake2b wk" "inj_on (nth_id blake2b e) {..<N}"
    and "srv_good (ru_hosts ru) e (nth_id blake2b e ` {..<N}) s (snd (rs_world rs))"
    and "between fst put_user (nth_id blake2b e) e N wk n wk' \<lparr>env_state = s, env_world = rs_world rs\<rparr>"
  shows "\<exists>q iv rs1. run_handler ru payload s rs = (q, iv, rs1) \<and>
     (waits_of wk' (fst (rs_world rs)) = 0 \<longrightarrow>
        (q, fst (rs_world rs1)) = eval wk' (fst (rs_world rs)) \<and> (\<forall>t. q \<noteq> Inl (Suspend t))) \<and>
     (\<forall>k. waits_of wk' (fst (rs_world rs)) = Suc k \<longrightarrow> q = Inl (Suspend None) \<and>
        stalled ru blake2b e N wk k (eval wk' (fst (rs_world rs))) rs1) \<and>
     (\<exists>s'. srv_good (ru_hosts ru) e (nth_id blake2b e ` {..<N}) s' (snd (rs_world rs1)))"
proof -
  let ?v = "\<lparr>env_state = s, env_world = rs_world rs\<rparr>"
  have good: "server_good (ru_hosts ru) e (nth_id blake2b e ` {..<N}) ?v" using assms(3) by (simp add: server_good_def)
  from server.one_invocation [OF assms(2) subset_refl good assms(4)] obtain q v1 where inv:
    "invocation blake2b (server_services (ru_hosts ru)) (lift_workflow fst put_user wk) ?v = (q, v1)"
    "server_good (ru_hosts ru) e (nth_id blake2b e ` {..<N}) v1"
    "waits_of wk' (fst (rs_world rs)) = 0 \<Longrightarrow>
        (q, fst (env_world v1)) = eval wk' (fst (rs_world rs)) \<and> (\<forall>t. q \<noteq> Inl (Suspend t))"
    "\<And>k. waits_of wk' (fst (rs_world rs)) = Suc k \<Longrightarrow> q = Inl (Suspend None) \<and>
        suspended_with fst put_user (nth_id blake2b e) e N wk k (eval wk' (fst (rs_world rs))) v1"
    by auto
  have "in_context (ru_handler ru payload) (context_new s) ?v = (q, v1)"
    using inv(1) assms(1) by (simp add: runs_workflow_def invocation_def)
  then obtain iv rs1 where run: "run_handler ru payload s rs = (q, iv, rs1)" "rs_world rs1 = env_world v1"
    by (simp add: run_handler_def Let_def)
  have "stalled ru blake2b e N wk k (eval wk' (fst (rs_world rs))) rs1" if "waits_of wk' (fst (rs_world rs)) = Suc k" for k
    using inv(2) inv(4) [OF that] run(2) unfolding stalled_def by (intro exI [of _ v1]) simp
  with run inv show ?thesis by (auto simp: server_good_def)
qed

lemma run_handler_outcome:
  assumes "runs_workflow ru blake2b wk" "inj_on (nth_id blake2b e) {..<N}"
    and "srv_good (ru_hosts ru) e (nth_id blake2b e ` {..<N}) s (snd (rs_world rs))"
    and "between fst put_user (nth_id blake2b e) e N wk n wk' \<lparr>env_state = s, env_world = rs_world rs\<rparr>"
    and "waits_of wk' (fst (rs_world rs)) = k" "eval wk' (fst (rs_world rs)) = goal"
  shows "\<exists>q iv rs1. run_handler ru payload s rs = (q, iv, rs1) \<and>
     (k = 0 \<longrightarrow> (q, fst (rs_world rs1)) = goal \<and> (\<forall>t. q \<noteq> Inl (Suspend t))) \<and>
     (\<forall>j. k = Suc j \<longrightarrow> q = Inl (Suspend None) \<and> stalled ru blake2b e N wk j goal rs1)"
  using run_handler_effect [OF assms(1-4), of payload] unfolding assms(5,6) by blast

lemma send_complete_invocation_effect:
  "\<exists>srv. send_complete_invocation ru e i q rs = rs\<lparr>rs_world := (fst (rs_world rs), srv)\<rparr> \<and>
     (\<forall>used s. srv_good (ru_hosts ru) e used s (snd (rs_world rs)) \<longrightarrow> srv_good (ru_hosts ru) e used s srv)"
proof -
  let ?req = "CompleteInvocation e i (case q of Inr _ \<Rightarrow> None | Inl err \<Rightarrow> if is_suspend err then None else Some (error_object_from err))"
  obtain r srv where r: "send_api_request (ru_hosts ru) ?req (snd (rs_world rs)) = (r, srv)" by fastforce
  then have "srv_good (ru_hosts ru) e used s (snd (rs_world rs)) \<Longrightarrow> srv_good (ru_hosts ru) e used s srv" for used s
    using srv_good_complete_invocation by (metis snd_conv)
  with api_eq [OF r] show ?thesis by (auto simp: send_complete_invocation_def)
qed

lemma stalled_complete_invocation:
  assumes "stalled ru blake2b e N wk k goal rs"
  shows "stalled ru blake2b e N wk k goal (send_complete_invocation ru e i q rs)"
proof -
  obtain srv where srv: "send_complete_invocation ru e i q rs = rs\<lparr>rs_world := (fst (rs_world rs), srv)\<rparr>"
    "\<forall>used s. srv_good (ru_hosts ru) e used s (snd (rs_world rs)) \<longrightarrow> srv_good (ru_hosts ru) e used s srv"
    using send_complete_invocation_effect by blast
  show ?thesis unfolding srv(1) by (rule stalled_server [OF assms]) (use srv(2) in simp_all)
qed

text \<open>What follows a stalled state: the waits end and the handler runs again.\<close>

lemma stalled_reinvoke:
  assumes "runs_workflow ru blake2b wk" "inj_on (nth_id blake2b e) {..<N}" "stalled ru blake2b e N wk k goal rs"
    and "hm_get (srv_executions (snd (rs_world rs))) e = Some cm"
  shows "\<exists>q iv rs1. reinvoke ru payload e (complete_waits ru e (cm_get_state cm) rs) = (Inr (q, iv), rs1) \<and>
     (k = 0 \<longrightarrow> (q, fst (rs_world rs1)) = goal \<and> (\<forall>t. q \<noteq> Inl (Suspend t))) \<and>
     (\<forall>j. k = Suc j \<longrightarrow> q = Inl (Suspend None) \<and> stalled ru blake2b e N wk j goal rs1)"
proof -
  let ?hosts = "ru_hosts ru" and ?ids = "nth_id blake2b e" and ?used = "nth_id blake2b e ` {..<N}"
  obtain v where v: "env_world v = rs_world rs" "suspended_with fst put_user ?ids e N wk k goal v"
    and s: "srv_good ?hosts e ?used (env_state v) (snd (rs_world rs))"
    using assms(3) by (auto simp: stalled_def server_good_def)
  with assms(4) have cm: "open_execution cm" "in_step ?used (env_state v) cm"
    by (auto simp: srv_good_def)
  then have wf: "cm_wf cm" by (simp add: open_execution_def)
  obtain srv cm' where w: "complete_waits ru e (cm_get_state cm) rs = rs\<lparr>rs_world := (fst (rs_world rs), srv)\<rparr>"
    "hm_get (srv_executions srv) e = Some cm'" "waits_ended (op_id ` set (cm_get_state cm)) cm cm'"
    using complete_waits_effect [OF assms(4) wf, of "cm_get_state cm" ru] cm_get_state_found [OF wf] wf
    by (auto simp: cm_get_state_ids cm_wf_def)
  let ?rs = "rs\<lparr>rs_world := (fst (rs_world rs), srv)\<rparr>"
  let ?i = "ho_uuid (current_host ru ?rs) 3"
  have "open_execution cm'" by (rule waits_ended_open [OF w(3) cm(1)])
  from start_invocation_effect [of ru ?rs e cm' ?i ?used] w(2) this assms(1) obtain srv' ir where a:
    "api ru (StartInvocation e ?i) ?rs = (Inr (InvocationPayload ir), ?rs\<lparr>rs_world := (fst (rs_world ?rs), srv')\<rparr>)"
    and good: "srv_good ?hosts e ?used (exec_state_new e (ir_checkpoint_token ir)
          (initial_state_with_operations (map oe_operation (ir_operation_events ir)))) srv'"
    and get: "\<forall>j. get_operation (exec_state_new e (ir_checkpoint_token ir)
          (initial_state_with_operations (map oe_operation (ir_operation_events ir)))) j = cm_operation cm' j"
    unfolding runs_workflow_def by auto
  let ?s = "exec_state_new e (ir_checkpoint_token ir) (initial_state_with_operations (map oe_operation (ir_operation_events ir)))"
  let ?r1 = "on_orchestrator (\<lambda>o'. o'\<lparr>or_checkpoint_token := Some (ir_checkpoint_token ir)\<rparr>)
      (?rs\<lparr>rs_world := (fst (rs_world ?rs), srv')\<rparr>)"
  have world: "fst (rs_world ?r1) = fst (rs_world rs)" "snd (rs_world ?r1) = srv'" by simp_all
  let ?v2 = "\<lparr>env_state = ?s, env_world = rs_world ?r1\<rparr>"
  have "resumed ?ids N (env_state v) (env_state ?v2)"
    using waits_ended_agree [OF w(3) cm(1)] cm(2) get by (auto simp: resumed_def in_step_def)
  moreover have "es_arn (env_state ?v2) = e" "fst (env_world ?v2) = fst (env_world v)"
    using world(1) v(1) by (simp_all add: exec_state_new_sel)
  ultimately have "\<exists>m wk'. between fst put_user ?ids e N wk m wk' ?v2 \<and> waits_of wk' (fst (env_world ?v2)) = k \<and>
      eval wk' (fst (env_world ?v2)) = goal"
    using v(2) unfolding suspended_with_def by blast
  then obtain m wk' where b: "between fst put_user ?ids e N wk m wk' ?v2"
    "waits_of wk' (fst (rs_world ?r1)) = k" "eval wk' (fst (rs_world ?r1)) = goal"
    by auto
  have good': "srv_good ?hosts e ?used ?s (snd (rs_world ?r1))" unfolding world(2) by (rule good)
  obtain q iv r2 where run: "run_handler ru payload ?s ?r1 = (q, iv, r2)"
    "k = 0 \<longrightarrow> (q, fst (rs_world r2)) = goal \<and> (\<forall>t. q \<noteq> Inl (Suspend t))"
    "\<forall>j. k = Suc j \<longrightarrow> q = Inl (Suspend None) \<and> stalled ru blake2b e N wk j goal r2"
    using run_handler_outcome [OF assms(1,2) good' b, of payload] by blast
  have re: "reinvoke ru payload e ?rs = (Inr (q, iv), send_complete_invocation ru e ?i q r2)"
    using a run(1) by (simp add: reinvoke_def Let_def expect_invocation_def)
  have user: "fst (rs_world (send_complete_invocation ru e ?i q r2)) = fst (rs_world r2)"
    using send_complete_invocation_effect [of ru e ?i q r2] by auto
  have "stalled ru blake2b e N wk j goal (send_complete_invocation ru e ?i q r2)" if "k = Suc j" for j
    by (rule stalled_complete_invocation) (use run(3) that in blast)
  then show ?thesis
    unfolding w(1) re using run(2,3) user by (intro exI conjI) (rule refl, simp_all)
qed


text \<open>The user's part of the world is not touched by the runner's own requests.\<close>

lemma api_user: "fst (rs_world (snd (api ru req rs))) = fst (rs_world rs)"
  by (simp add: api_def on_server_def split: prod.splits)

lemma fetch_operations_user: "fst (rs_world (snd (fetch_operations ru e rs))) = fst (rs_world rs)"
  by (simp add: fetch_operations_def on_server_def split: prod.splits sum.splits)

lemma final_operations_user: "fst (rs_world (snd (final_operations ru e rs))) = fst (rs_world rs)"
  using fetch_operations_user [of ru e rs] by (auto simp: final_operations_def Let_def split: prod.splits)

lemma send_complete_execution_user: "fst (rs_world (send_complete_execution ru e x err rs)) = fst (rs_world rs)"
  by (simp add: send_complete_execution_def api_user)

lemma send_complete_invocation_user: "fst (rs_world (send_complete_invocation ru e i q rs)) = fst (rs_world rs)"
  by (simp add: send_complete_invocation_def api_user)

text \<open>The copy of the operations changes only when they are fetched.\<close>

definition stored :: "'u run_state \<Rightarrow> operation_storage" where
  "stored rs = or_operation_storage (rs_orchestrator rs)"

lemma stored_simps [simp]:
  "stored (rs\<lparr>rs_world := w\<rparr>) = stored rs"
  "stored (on_orchestrator (populate_handles ops) rs) = stored rs"
  "stored (snd (api ru req rs)) = stored rs"
  by (simp_all add: stored_def on_orchestrator_def populate_handles_def api_def split: prod.split)

lemma stored_api: "api ru req rs = (r, rs1) \<Longrightarrow> stored rs1 = stored rs"
  using stored_simps(3) [of ru req rs] by simp

lemma stored_complete_waits [simp]: "stored (complete_waits ru e ops rs) = stored rs"
proof -
  have "stored (complete_wait ru e op rs) = stored rs" for op and rs :: "'a run_state"
    by (simp add: complete_wait_def)
  then show ?thesis unfolding complete_waits_def by (induction ops arbitrary: rs) simp_all
qed

lemma stored_run_handler: "run_handler ru payload s rs = (q, iv, rs1) \<Longrightarrow> stored rs1 = stored rs"
  by (auto simp: run_handler_def Let_def on_orchestrator_def stored_def split: prod.splits)

lemma stored_token [simp]: "stored (on_orchestrator (\<lambda>o'. o'\<lparr>or_checkpoint_token := t\<rparr>) rs) = stored rs"
  by (simp add: stored_def on_orchestrator_def)

lemma stored_reinvoke:
  assumes "reinvoke ru payload e rs = (Inr (q, iv), rs1)"
  shows "stored rs1 = stored rs"
proof -
  obtain r a where a: "api ru (StartInvocation e (ho_uuid (current_host ru rs) 3)) rs = (r, a)" by fastforce
  then obtain ir where r: "expect_invocation r = Inr ir"
    using assms by (cases "expect_invocation r") (simp_all add: reinvoke_def)
  let ?a = "on_orchestrator (\<lambda>o'. o'\<lparr>or_checkpoint_token := Some (ir_checkpoint_token ir)\<rparr>) a"
  obtain q' iv' b where b: "run_handler ru payload (exec_state_new e (ir_checkpoint_token ir)
      (initial_state_with_operations (map oe_operation (ir_operation_events ir)))) ?a = (q', iv', b)"
    using prod_cases3 by blast
  from assms a r b have "rs1 = send_complete_invocation ru e (ho_uuid (current_host ru rs) 3) q b"
    by (auto simp: reinvoke_def Let_def)
  then show ?thesis using stored_run_handler [OF b] stored_api [OF a] by (simp add: send_complete_invocation_def)
qed

lemma stored_complete_execution [simp]: "stored (send_complete_execution ru e x err rs) = stored rs"
  by (simp add: send_complete_execution_def) (simp add: stored_def on_orchestrator_def)

lemma stored_fetch_operations: "fetch_operations ru e rs = (x, rs1) \<Longrightarrow> stored rs1 = stored rs"
  by (auto simp: fetch_operations_def stored_def split: prod.splits sum.splits)

lemma stored_final_operations: "final_operations ru e rs = (x, rs1) \<Longrightarrow> stored rs1 = stored rs"
  by (auto simp: final_operations_def Let_def dest!: stored_fetch_operations split: prod.splits)

lemma stored_finish_success: "finish_success ru e invs x rs = (r, rs1) \<Longrightarrow> stored rs1 = stored rs"
  by (auto simp: finish_success_def dest!: stored_final_operations split: prod.splits)

lemma stored_finish_failure: "finish_failure ru e invs iv err rs = (r, rs1) \<Longrightarrow> stored rs1 = stored rs"
  by (auto simp: finish_failure_def dest!: stored_final_operations split: prod.splits)

lemma stored_fetch_and_store:
  "fetch_and_store ru e rs = (ops, rs1) \<Longrightarrow> stored rs1 = fold os_update_operation ops (stored rs)"
  by (auto simp: fetch_and_store_def on_orchestrator_def fetch_operations_def stored_def split: prod.splits sum.splits option.splits)

lemma stored_process_operations:
  "process_operations now ops o1 = (p, o2) \<Longrightarrow> stored (rs\<lparr>rs_orchestrator := o2\<rparr>) = stored (rs\<lparr>rs_orchestrator := o1\<rparr>)"
  by (auto simp: process_operations_def stored_def split: option.splits prod.splits)

text \<open>A wait that the copy shows as started.\<close>

definition shows_started_wait :: "operation_storage \<Rightarrow> bool" where
  "shows_started_wait s \<longleftrightarrow> (\<exists>op \<in> set (os_operations s). op_type op = WaitOp \<and> op_status op = Started)"

lemma shows_started_wait_fold:
  assumes "os_wf s" "op \<in> set ops" "distinct (map op_id ops)" "op_type op = WaitOp" "op_status op = Started"
  shows "shows_started_wait (fold os_update_operation ops s)"
proof -
  have "op_id op \<in> op_id ` set ops" using assms(2) by simp
  then obtain x where x: "x \<in> set ops" "op_id x = op_id op" "os_get_by_id (fold os_update_operation ops s) (op_id op) = Some x"
    using os_store.lookup_store_all_in [OF assms(1)] by blast
  then have "x = op" using assms(2,3) by (auto simp: distinct_map inj_on_def)
  moreover have "x \<in> set (os_operations (fold os_update_operation ops s))"
    using x(3) by (cases "hm_get (os_operations_by_id (fold os_update_operation ops s)) (op_id op)")
      (auto simp: os_get_by_id_def split: if_splits)
  ultimately show ?thesis using assms(4,5) unfolding shows_started_wait_def by blast
qed

text \<open>The report of a finished run.\<close>

definition reports :: "durable_error + 'o \<Rightarrow> nat \<Rightarrow> 'o test_execution_result \<Rightarrow> bool" where
  "reports q n res \<longleftrightarrow> length (ter_invocations res) = n \<and> (case q of
     Inr x \<Rightarrow> ter_status res = SucceededExecution \<and> ter_result res = Some x \<and> ter_error res = None
   | Inl err \<Rightarrow> ter_status res = FailedExecution \<and> ter_result res = None \<and> ter_error res = Some (handler_error err))"

lemma finish_success_reports:
  "\<exists>res rs'. finish_success ru e invs x rs = (Inr res, rs') \<and> fst (rs_world rs') = fst (rs_world rs) \<and>
     reports (Inr x) (length invs) res"
  using final_operations_user [of ru e "send_complete_execution ru e (result_json (ru_output ru) x) None rs"]
  by (auto simp: finish_success_def reports_def test_success_def send_complete_execution_user split: prod.splits)

lemma finish_failure_reports:
  "\<exists>res rs'. finish_failure ru e invs iv err rs = (Inr res, rs') \<and> fst (rs_world rs') = fst (rs_world rs) \<and>
     reports (Inl err) (Suc (length invs)) res"
  using final_operations_user [of ru e "send_complete_execution ru e None (Some (error_object_from err)) rs"]
  by (auto simp: finish_failure_def reports_def test_failure_def send_complete_execution_user split: prod.splits)

lemma agree_sym: "agree a b \<Longrightarrow> agree b a"
  by (simp add: agree_def)

text \<open>A stalled execution has a started wait, so the runner ends the waits and runs the handler again.\<close>

lemma iteration:
  assumes "stalled ru blake2b e N wk k goal rs" "os_wf (stored rs)"
  shows "\<exists>rs1 cm. hm_get (srv_executions (snd (rs_world rs1))) e = Some cm \<and> stalled ru blake2b e N wk k goal rs1 \<and>
     os_wf (stored rs1) \<and> shows_started_wait (stored rs1) \<and>
     handle_pending_execution ru payload e (Suc n) invs rs =
       (case reinvoke ru payload e (complete_waits ru e (cm_get_state cm) rs1) of
          (Inl err, rs5) \<Rightarrow> (Inl err, rs5)
        | (Inr (Inr x, iv), rs5) \<Rightarrow> finish_success ru e (invs @ [iv]) x rs5
        | (Inr (Inl err, iv), rs5) \<Rightarrow>
            if is_suspend err then handle_pending_execution ru payload e n (invs @ [iv]) rs5
            else finish_failure ru e invs iv err rs5)"
proof -
  obtain v where v: "env_world v = rs_world rs" "srv_good (ru_hosts ru) e (nth_id blake2b e ` {..<N}) (env_state v) (snd (rs_world rs))"
    and "suspended_with fst put_user (nth_id blake2b e) e N wk k goal v"
    using assms(1) by (auto simp: stalled_def server_good_def)
  then obtain i op where op: "i < N" "get_operation (env_state v) (nth_id blake2b e i) = Some op" "op_type op = WaitOp" "op_status op = Started"
    by (auto simp: suspended_with_def pending_wait_def)
  obtain cm where cm: "hm_get (srv_executions (snd (rs_world rs))) e = Some cm" "open_execution cm"
    "in_step (nth_id blake2b e ` {..<N}) (env_state v) cm"
    using v(2) by (auto simp: srv_good_def)
  then have "agree (Some op) (cm_operation cm (nth_id blake2b e i))"
    using op(1,2) unfolding in_step_def by (metis imageI lessThan_iff)
  then obtain op' where op': "cm_operation cm (nth_id blake2b e i) = Some op'" "operation_core op' = operation_core op"
    using agree_SomeD agree_sym by blast
  obtain rs1 where f: "fetch_and_store ru e rs = (cm_get_state cm, rs1)" "fst (rs_world rs1) = fst (rs_world rs)"
    "srv_executions (snd (rs_world rs1)) = srv_executions (snd (rs_world rs))"
    using fetch_and_store_effect [OF cm(1)] by blast
  let ?rs2 = "on_orchestrator (populate_handles (cm_get_state cm)) rs1"
  obtain t o2 where p: "process_operations (ho_now (current_host ru ?rs2)) (cm_get_state cm) (rs_orchestrator ?rs2) =
      (ShouldReinvoke (Some t), o2)"
    using process_operations_wait [OF cm(2) op'(1)] core_sel(1,2) [OF op'(2)] op(3,4) by metis
  let ?rs3 = "?rs2\<lparr>rs_orchestrator := o2\<rparr>"
  have "stalled ru blake2b e N wk k goal ?rs3" by (rule stalled_cong [OF assms(1)]) (simp_all add: f)
  moreover have st: "stored ?rs3 = fold os_update_operation (cm_get_state cm) (stored rs)"
    using stored_process_operations [OF p, of ?rs2] stored_fetch_and_store [OF f(1)] by simp
  moreover have "os_wf (stored ?rs3)" unfolding st by (rule os_store.wf_store_all [OF assms(2)])
  moreover have "shows_started_wait (stored ?rs3)"
  proof -
    have wf: "cm_wf cm" using cm(2) by (simp add: open_execution_def)
    have "op' \<in> set (cm_get_state cm)"
      using op'(1) cm_wf_id [OF wf op'(1)] cm_get_state_mem [OF wf] by simp
    moreover have "distinct (map op_id (cm_get_state cm))" using wf by (simp add: cm_get_state_ids cm_wf_def)
    ultimately show ?thesis
      unfolding st using shows_started_wait_fold [OF assms(2)] core_sel(1,2) [OF op'(2)] op(3,4) by metis
  qed
  moreover have "hm_get (srv_executions (snd (rs_world ?rs3))) e = Some cm" by (simp add: f cm(1))
  ultimately show ?thesis
    using f(1) p by (intro exI [of _ ?rs3] exI [of _ cm]) (simp add: Let_def del: stored_simps)
qed

text \<open>The loop ends with the goal after as many iterations as there are waits.\<close>

lemma handle_pending_execution_reports:
  assumes "runs_workflow ru blake2b wk" "inj_on (nth_id blake2b e) {..<N}" "stalled ru blake2b e N wk k goal rs" "k < n"
    and "os_wf (stored rs)"
  shows "\<exists>res rs'. handle_pending_execution ru payload e n invs rs = (Inr res, rs') \<and>
     fst (rs_world rs') = snd goal \<and> reports (fst goal) (length invs + Suc k) res \<and> shows_started_wait (stored rs')"
  using assms(3-5)
proof (induction k arbitrary: rs n invs)
  case 0
  then obtain m where n: "n = Suc m" by (cases n) auto
  obtain rs1 cm where it: "hm_get (srv_executions (snd (rs_world rs1))) e = Some cm" "stalled ru blake2b e N wk 0 goal rs1"
    "os_wf (stored rs1)" "shows_started_wait (stored rs1)"
    "handle_pending_execution ru payload e (Suc m) invs rs =
       (case reinvoke ru payload e (complete_waits ru e (cm_get_state cm) rs1) of
          (Inl err, rs5) \<Rightarrow> (Inl err, rs5)
        | (Inr (Inr x, iv), rs5) \<Rightarrow> finish_success ru e (invs @ [iv]) x rs5
        | (Inr (Inl err, iv), rs5) \<Rightarrow>
            if is_suspend err then handle_pending_execution ru payload e m (invs @ [iv]) rs5
            else finish_failure ru e invs iv err rs5)"
    using iteration [OF 0(1,3)] by blast
  obtain q iv rs5 where r: "reinvoke ru payload e (complete_waits ru e (cm_get_state cm) rs1) = (Inr (q, iv), rs5)"
    "(q, fst (rs_world rs5)) = goal" "\<forall>t. q \<noteq> Inl (Suspend t)"
    using stalled_reinvoke [OF assms(1,2) it(2,1), of payload] by auto
  have sh: "shows_started_wait (stored rs5)" using stored_reinvoke [OF r(1)] it(4) by simp
  show ?case
  proof (cases q)
    case (Inl err)
    with r(3) have "\<not> is_suspend err" by (cases err) auto
    moreover obtain res rs' where f: "finish_failure ru e invs iv err rs5 = (Inr res, rs')"
        "fst (rs_world rs') = fst (rs_world rs5)" "reports (Inl err :: durable_error + string) (Suc (length invs)) res"
      using finish_failure_reports [of ru e invs iv err rs5] by blast
    moreover have "shows_started_wait (stored rs')" using stored_finish_failure [OF f(1)] sh by simp
    ultimately show ?thesis using it(5) r Inl n by auto
  next
    case (Inr x)
    obtain res rs' where f: "finish_success ru e (invs @ [iv]) x rs5 = (Inr res, rs')"
        "fst (rs_world rs') = fst (rs_world rs5)" "reports (Inr x) (length (invs @ [iv])) res"
      using finish_success_reports [of ru e "invs @ [iv]" x rs5] by blast
    moreover have "shows_started_wait (stored rs')" using stored_finish_success [OF f(1)] sh by simp
    ultimately show ?thesis using it(5) r Inr n by auto
  qed
next
  case (Suc k)
  then obtain m where n: "n = Suc m" "k < m" by (cases n) auto
  obtain rs1 cm where it: "hm_get (srv_executions (snd (rs_world rs1))) e = Some cm" "stalled ru blake2b e N wk (Suc k) goal rs1"
    "os_wf (stored rs1)" "shows_started_wait (stored rs1)"
    "handle_pending_execution ru payload e (Suc m) invs rs =
       (case reinvoke ru payload e (complete_waits ru e (cm_get_state cm) rs1) of
          (Inl err, rs5) \<Rightarrow> (Inl err, rs5)
        | (Inr (Inr x, iv), rs5) \<Rightarrow> finish_success ru e (invs @ [iv]) x rs5
        | (Inr (Inl err, iv), rs5) \<Rightarrow>
            if is_suspend err then handle_pending_execution ru payload e m (invs @ [iv]) rs5
            else finish_failure ru e invs iv err rs5)"
    using iteration [OF Suc.prems(1,3)] by blast
  obtain iv rs5 where r: "reinvoke ru payload e (complete_waits ru e (cm_get_state cm) rs1) = (Inr (Inl (Suspend None), iv), rs5)"
    "stalled ru blake2b e N wk k goal rs5"
    using stalled_reinvoke [OF assms(1,2) it(2,1), of payload] by auto
  have "os_wf (stored rs5)" using stored_reinvoke [OF r(1)] it(3) by simp
  from Suc.IH [OF r(2) n(2) this, of "invs @ [iv]"] it(5) r(1) n(1) show ?case by simp
qed



section \<open>From the beginning\<close>

lemma initialize_started:
  fixes h payload e i
  defines "cm \<equiv> snd (cm_start_invocation h i (snd (cm_initialize h payload (checkpoint_manager_new e))))"
  shows "open_execution cm" "cm_dirty_operation_ids cm = []" "j \<noteq> ho_uuid h 0 \<Longrightarrow> cm_operation cm j = None"
proof -
  let ?cm = "snd (cm_initialize h payload (checkpoint_manager_new e))"
  have op: "cm_operation ?cm j = (if j = ho_uuid h 0 then Some (initial_operation h payload) else None)" for j
    by (simp add: cm_operation_def cm_initialize_def get_operation_data_def hm_get_insert checkpoint_manager_new_def
        initial_operation_def mark_dirty_def Let_def def_simps)
  have same: "cm_operation cm = cm_operation ?cm"
    by (simp add: cm_def cm_start_invocation_def cm_operation_def get_operation_data_def fun_eq_iff)
  have "open_execution ?cm"
    using cm_wf_initialize [of h payload e] op
    by (auto simp: open_execution_def timed_wait_def initial_operation_def def_simps cm_initialize_def
        checkpoint_manager_new_def mark_dirty_def Let_def split: if_splits)
  then show "open_execution cm"
    by (rule open_execution_cong [OF same, rotated 2])
      (simp_all add: cm_def cm_wf_start_invocation cm_wf_initialize, simp add: cm_start_invocation_def)
  show "cm_dirty_operation_ids cm = []" by (simp add: cm_def cm_start_invocation_def)
  show "j \<noteq> ho_uuid h 0 \<Longrightarrow> cm_operation cm j = None" by (simp add: same op)
qed

lemma start_execution_effect:
  fixes rs :: "'u run_state" and ru :: "('u, 'i, 'o) runner"
  defines "h \<equiv> ru_hosts ru (srv_commands (snd (rs_world rs)))"
  assumes "tokens_roundtrip (ru_hosts ru)" "ho_uuid h 0 \<notin> used"
  shows "\<exists>srv ir. api ru (StartDurableExecution input i) rs =
       (Inr (InvocationPayload ir), rs\<lparr>rs_world := (fst (rs_world rs), srv)\<rparr>) \<and> ir_execution_id ir = ho_uuid h 1 \<and>
     srv_good (ru_hosts ru) (ho_uuid h 1) used
       (exec_state_new (ho_uuid h 1) (ir_checkpoint_token ir) (initial_state_with_operations [])) srv"
proof -
  let ?srv = "snd (rs_world rs)" and ?e = "ho_uuid h 1"
  let ?p = "case input of Some p \<Rightarrow> p | None \<Rightarrow> ''{}''"
  let ?cm = "snd (cm_start_invocation h i (snd (cm_initialize h ?p (checkpoint_manager_new ?e))))"
  let ?ir = "\<lparr>ir_checkpoint_token = invocation_token h ?e i, ir_execution_id = ?e, ir_invocation_id = i,
     ir_operation_events = [fst (cm_initialize h ?p (checkpoint_manager_new ?e))]\<rparr>"
  let ?srv' = "\<lparr>srv_executions = hm_insert ?e ?cm (srv_executions ?srv), srv_commands = Suc (srv_commands ?srv)\<rparr>"
  let ?s = "exec_state_new ?e (ir_checkpoint_token ?ir) (initial_state_with_operations [])"
  have "send_api_request (ru_hosts ru) (StartDurableExecution input i) ?srv = (Inr (InvocationPayload ?ir), ?srv')"
    by (simp add: send_api_request_def handle_start_execution_def start_execution_from_request_def start_execution_def
        h_def split: prod.split)
  note start = api_eq [OF this]
  have none: "get_operation ?s j = None" for j
    by (simp add: exec_state_new_def with_checkpointing_mode_def Let_def get_operation_def get_collect_operations
        initial_state_with_operations_def)
  have new: "cm_operation ?cm j = None" if "j \<in> used" for j
    by (rule initialize_started(3)) (use that assms(3) in auto)
  have "srv_good (ru_hosts ru) ?e used ?s ?srv'"
    using token_of_invocation [OF assms(2), of ?e "srv_commands ?srv" i]
      initialize_started(1,2) [where h = h and i = i and payload = ?p and e = ?e] none new
    by (auto simp: srv_good_def exec_state_new_sel hm_get_insert in_step_def h_def)
  show ?thesis by (intro exI [of _ ?srv'] exI [of _ ?ir] conjI) (fact start, simp, fact)
qed

text \<open>The first invocation, the report of its end and the fetch of the operations.\<close>

lemma first_invocation_outcome:
  fixes rs :: "'u run_state" and ru :: "('u, 'i, string) runner"
  defines "h \<equiv> ru_hosts ru (srv_commands (snd (rs_world rs)))"
  defines "e \<equiv> ho_uuid h 1"
  assumes "runs_workflow ru blake2b wk" "inj_on (nth_id blake2b e) {..<N}"
    and "operations_of wk (fst (rs_world rs)) \<le> N" "ho_uuid h 0 \<notin> nth_id blake2b e ` {..<N}"
  shows "\<exists>q iv ops rs1. first_invocation ru payload input rs = (Inr (e, q, iv, ops), rs1) \<and>
     (waits_of wk (fst (rs_world rs)) = 0 \<longrightarrow>
        (q, fst (rs_world rs1)) = eval wk (fst (rs_world rs)) \<and> (\<forall>t. q \<noteq> Inl (Suspend t))) \<and>
     (\<forall>k. waits_of wk (fst (rs_world rs)) = Suc k \<longrightarrow> q = Inl (Suspend None) \<and>
        stalled ru blake2b e N wk k (eval wk (fst (rs_world rs))) rs1)"
proof -
  let ?i = "ho_uuid (current_host ru rs) 3" and ?used = "nth_id blake2b e ` {..<N}"
  have "tokens_roundtrip (ru_hosts ru)" using assms(3) by (simp add: runs_workflow_def)
  from start_execution_effect [OF this assms(6) [unfolded h_def], of "Some input" ?i] obtain srv ir where a:
    "api ru (StartDurableExecution (Some input) ?i) rs = (Inr (InvocationPayload ir), rs\<lparr>rs_world := (fst (rs_world rs), srv)\<rparr>)"
    "ir_execution_id ir = e"
    and good: "srv_good (ru_hosts ru) e ?used (exec_state_new e (ir_checkpoint_token ir) (initial_state_with_operations [])) srv"
    by (auto simp: h_def e_def)
  let ?s = "exec_state_new e (ir_checkpoint_token ir) (initial_state_with_operations [])"
  let ?r1 = "on_orchestrator (\<lambda>o'. o'\<lparr>or_execution_id := Some e, or_checkpoint_token := Some (ir_checkpoint_token ir)\<rparr>)
      (rs\<lparr>rs_world := (fst (rs_world rs), srv)\<rparr>)"
  let ?v = "\<lparr>env_state = ?s, env_world = rs_world ?r1\<rparr>"
  have world: "fst (rs_world ?r1) = fst (rs_world rs)" "snd (rs_world ?r1) = srv" by simp_all
  have good': "srv_good (ru_hosts ru) e ?used ?s (snd (rs_world ?r1))" unfolding world(2) by (rule good)
  have arn: "es_arn (env_state ?v) = e" by (simp add: exec_state_new_sel)
  have "get_operation ?s j = None" for j
    by (simp add: exec_state_new_def with_checkpointing_mode_def Let_def get_operation_def get_collect_operations
        initial_state_with_operations_def)
  then have "unused (nth_id blake2b (es_arn (env_state ?v))) (env_state ?v) 0 N" by (simp add: unused_def)
  moreover have "operations_of wk (fst (env_world ?v)) \<le> N" using assms(5) world(1) by simp
  ultimately have b: "between fst put_user (nth_id blake2b e) e N wk 0 wk ?v"
    using server.between_start [of blake2b ?v N wk] unfolding arn by blast
  from run_handler_effect [OF assms(3,4) good' b, of payload] obtain q iv r2 where run:
    "run_handler ru payload ?s ?r1 = (q, iv, r2)"
    "waits_of wk (fst (rs_world rs)) = 0 \<longrightarrow>
        (q, fst (rs_world r2)) = eval wk (fst (rs_world rs)) \<and> (\<forall>t. q \<noteq> Inl (Suspend t))"
    "\<forall>k. waits_of wk (fst (rs_world rs)) = Suc k \<longrightarrow> q = Inl (Suspend None) \<and>
        stalled ru blake2b e N wk k (eval wk (fst (rs_world rs))) r2"
    "\<exists>s'. srv_good (ru_hosts ru) e ?used s' (snd (rs_world r2))"
    unfolding world(1) by (elim exE conjE) (rule that, assumption+, intro exI)
  let ?r3 = "send_complete_invocation ru e ?i q r2"
  obtain srv2 where c: "?r3 = r2\<lparr>rs_world := (fst (rs_world r2), srv2)\<rparr>"
    "\<forall>used s. srv_good (ru_hosts ru) e used s (snd (rs_world r2)) \<longrightarrow> srv_good (ru_hosts ru) e used s srv2"
    using send_complete_invocation_effect by blast
  obtain s' where "srv_good (ru_hosts ru) e ?used s' (snd (rs_world r2))" using run(4) by blast
  with c(2) have "srv_good (ru_hosts ru) e ?used s' srv2" by blast
  then obtain cm where "hm_get (srv_executions (snd (rs_world ?r3))) e = Some cm"
    unfolding c(1) by (auto simp: srv_good_def)
  from fetch_and_store_effect [OF this] obtain r4 where f: "fetch_and_store ru e ?r3 = (cm_get_state cm, r4)"
    "fst (rs_world r4) = fst (rs_world ?r3)" "srv_executions (snd (rs_world r4)) = srv_executions (snd (rs_world ?r3))"
    by blast
  let ?r5 = "on_orchestrator (populate_handles (cm_get_state cm)) r4"
  have "first_invocation ru payload input rs = (Inr (e, q, iv, cm_get_state cm), ?r5)"
    using a run(1) f(1) by (simp add: first_invocation_def Let_def expect_invocation_def)
  moreover have "fst (rs_world ?r5) = fst (rs_world r2)" using f(2) by (simp add: send_complete_invocation_user)
  moreover have "stalled ru blake2b e N wk k goal ?r5" if "stalled ru blake2b e N wk k goal r2" for k goal
    using stalled_cong [OF stalled_complete_invocation [OF that], of ?r5 ?i q] f(2,3) by simp
  ultimately show ?thesis using run(2,3) by (intro exI conjI) (assumption, simp_all)
qed

lemma on_orchestrator_server [simp]: "current_host ru (on_orchestrator f rs) = current_host ru rs"
  by (simp add: current_host_def)

lemma execute_started:
  fixes srv :: server and u :: 'u and ru :: "('u, 'i, string) runner"
  assumes h: "h = ru_hosts ru (srv_commands srv)" and "runs_workflow ru blake2b wk"
    and "collision_free blake2b {(ho_uuid h 1, of_nat i) | i. i < N}" "N \<le> 2 ^ 64" "operations_of wk u \<le> N"
    and "ho_uuid h 0 \<notin> nth_id blake2b (ho_uuid h 1) ` {..<N}"
  shows "\<exists>q iv ops rs1. first_invocation ru payload input
       (on_orchestrator clear_run \<lparr>rs_orchestrator = o1, rs_world = (u, srv)\<rparr>) = (Inr (ho_uuid h 1, q, iv, ops), rs1) \<and>
     (waits_of wk u = 0 \<longrightarrow> (q, fst (rs_world rs1)) = eval wk u \<and> (\<forall>t. q \<noteq> Inl (Suspend t))) \<and>
     (\<forall>k. waits_of wk u = Suc k \<longrightarrow> q = Inl (Suspend None) \<and>
        stalled ru blake2b (ho_uuid h 1) N wk k (eval wk u) rs1)"
proof -
  let ?rs = "on_orchestrator clear_run \<lparr>rs_orchestrator = o1, rs_world = (u, srv)\<rparr>"
  have world: "fst (rs_world ?rs) = u" "snd (rs_world ?rs) = srv" by simp_all
  show ?thesis
    using first_invocation_outcome [where rs = ?rs and ru = ru and N = N and payload = payload and input = input, OF assms(2)]
      nth_id_inj [OF assms(3,4)] assms(5,6) unfolding world h by blast
qed

lemma stored_first_invocation:
  assumes "first_invocation ru payload text rs = (Inr (e, q, iv, ops), rs1)"
  shows "stored rs1 = fold os_update_operation ops (stored rs)"
proof -
  obtain r a where a: "api ru (StartDurableExecution (Some text) (ho_uuid (current_host ru rs) 3)) rs = (r, a)" by fastforce
  then obtain ir where r: "expect_invocation r = Inr ir"
    using assms by (cases "expect_invocation r") (simp_all add: first_invocation_def)
  let ?e = "ir_execution_id ir" and ?i = "ho_uuid (current_host ru rs) 3"
  let ?a = "on_orchestrator (\<lambda>o'. o'\<lparr>or_execution_id := Some ?e, or_checkpoint_token := Some (ir_checkpoint_token ir)\<rparr>) a"
  have st: "stored ?a = stored a" by (simp add: stored_def on_orchestrator_def)
  obtain q' iv' b where b: "run_handler ru payload (exec_state_new ?e (ir_checkpoint_token ir)
      (initial_state_with_operations [])) ?a = (q', iv', b)"
    using prod_cases3 by blast
  obtain l c where c: "fetch_and_store ru ?e (send_complete_invocation ru ?e ?i q' b) = (l, c)" by fastforce
  from assms a r b c have "ops = l" "rs1 = on_orchestrator (populate_handles l) c"
    by (auto simp: first_invocation_def Let_def)
  then show ?thesis
    using stored_fetch_and_store [OF c] stored_run_handler [OF b] st stored_api [OF a]
    by (simp add: send_complete_invocation_def)
qed

lemma os_wf_first_invocation:
  assumes "first_invocation ru payload text (on_orchestrator clear_run rs) = (Inr (e, q, iv, ops), rs1)"
  shows "os_wf (stored rs1)"
proof -
  have "stored (on_orchestrator clear_run rs) = operation_storage_new"
    by (simp add: stored_def on_orchestrator_def clear_run_def os_clear_def)
  then show ?thesis
    using stored_first_invocation [OF assms] os_store.wf_store_all [OF os_wf_new, of ops] by simp
qed

text \<open>For user code that runs a workflow on the SDK, the orchestrator with the checkpoint server behind it starts
  the execution, ends the waits, runs the handler once more after each of them, and reports the result of
  one uninterrupted run; the user's world has changed exactly as in it, and the handler was invoked once
  more than the run has waits.\<close>

lemma execute_handler_refines_eval:
  fixes srv :: server and u :: 'u and ru :: "('u, 'i, string) runner"
  defines "h \<equiv> ru_hosts ru (srv_commands srv)"
  assumes "runs_workflow ru blake2b wk" "to_json (ru_input ru) payload = Inr input"
    and "collision_free blake2b {(ho_uuid h 1, of_nat i) | i. i < N}" "N \<le> 2 ^ 64" "operations_of wk u \<le> N"
    and "ho_uuid h 0 \<notin> nth_id blake2b (ho_uuid h 1) ` {..<N}" "waits_of wk u \<le> MAX_ITERATIONS"
  shows "\<exists>res rs'. execute_handler ru payload \<lparr>rs_orchestrator = o1, rs_world = (u, srv)\<rparr> = (Inr res, rs') \<and>
     fst (rs_world rs') = snd (eval wk u) \<and> reports (fst (eval wk u)) (Suc (waits_of wk u)) res \<and>
     (waits_of wk u \<noteq> 0 \<longrightarrow> shows_started_wait (stored rs'))"
proof -
  from execute_started [OF meta_eq_to_obj_eq [OF h_def] assms(2,4-7), of payload input o1] obtain q iv ops rs1 where f:
    "first_invocation ru payload input (on_orchestrator clear_run \<lparr>rs_orchestrator = o1, rs_world = (u, srv)\<rparr>) =
       (Inr (ho_uuid h 1, q, iv, ops), rs1)"
    "waits_of wk u = 0 \<longrightarrow> (q, fst (rs_world rs1)) = eval wk u \<and> (\<forall>t. q \<noteq> Inl (Suspend t))"
    "\<forall>k. waits_of wk u = Suc k \<longrightarrow> q = Inl (Suspend None) \<and> stalled ru blake2b (ho_uuid h 1) N wk k (eval wk u) rs1"
    by (elim exE conjE) (rule that)
  show ?thesis
  proof (cases "waits_of wk u")
    case 0
    then have ev: "eval wk u = (q, fst (rs_world rs1))" and ns: "\<forall>t. q \<noteq> Inl (Suspend t)"
      using f(2) by simp_all
    show ?thesis
    proof (cases q)
      case (Inl err)
      then have "\<not> is_suspend err" using ns by (cases err) auto
      with f(1) Inl show ?thesis
        unfolding ev 0 by (simp add: execute_handler_def assms(3) Let_def reports_def test_failure_def send_complete_execution_user)
    next
      case (Inr x)
      with f(1) show ?thesis
        unfolding ev 0 by (simp add: execute_handler_def assms(3) Let_def reports_def test_success_def send_complete_execution_user)
    qed
  next
    case (Suc k)
    with f(3) assms(8) handle_pending_execution_reports [OF assms(2) nth_id_inj [OF assms(4,5)],
        of k "eval wk u" rs1 MAX_ITERATIONS payload "[iv]"] f(1) os_wf_first_invocation [OF f(1)]
    show ?thesis by (auto simp: execute_handler_def assms(3) Let_def)
  qed
qed

text \<open>More waits than iterations.\<close>

lemma handle_pending_execution_exhausted:
  assumes "runs_workflow ru blake2b wk" "inj_on (nth_id blake2b e) {..<N}" "stalled ru blake2b e N wk k goal rs" "n \<le> k"
    and "os_wf (stored rs)"
  shows "fst (handle_pending_execution ru payload e n invs rs) = Inl too_many_iterations"
  using assms(3-5)
proof (induction n arbitrary: k rs invs)
  case (Suc n)
  then obtain j where j: "k = Suc j" "n \<le> j" by (cases k) auto
  obtain rs1 cm where it: "hm_get (srv_executions (snd (rs_world rs1))) e = Some cm" "stalled ru blake2b e N wk k goal rs1"
    "os_wf (stored rs1)"
    "handle_pending_execution ru payload e (Suc n) invs rs =
       (case reinvoke ru payload e (complete_waits ru e (cm_get_state cm) rs1) of
          (Inl err, rs5) \<Rightarrow> (Inl err, rs5)
        | (Inr (Inr x, iv), rs5) \<Rightarrow> finish_success ru e (invs @ [iv]) x rs5
        | (Inr (Inl err, iv), rs5) \<Rightarrow>
            if is_suspend err then handle_pending_execution ru payload e n (invs @ [iv]) rs5
            else finish_failure ru e invs iv err rs5)"
    using iteration [OF Suc.prems(1,3)] by blast
  obtain iv rs5 where r: "reinvoke ru payload e (complete_waits ru e (cm_get_state cm) rs1) = (Inr (Inl (Suspend None), iv), rs5)"
    "stalled ru blake2b e N wk j goal rs5"
    using stalled_reinvoke [OF assms(1,2) it(2,1)] j(1) by blast
  have "os_wf (stored rs5)" using stored_reinvoke [OF r(1)] it(3) by simp
  from Suc.IH [OF r(2) j(2) this, of "invs @ [iv]"] it(4) r(1) show ?case by simp
qed simp

text \<open>The bound of the runner is exact: a workflow with more waits than the iterations allowed is given up
  with an error of the runner, where the theorem above has one with that many waits or fewer succeed.\<close>

lemma too_many_waits_fail:
  fixes srv :: server and u :: 'u and ru :: "('u, 'i, string) runner"
  defines "h \<equiv> ru_hosts ru (srv_commands srv)"
  assumes "runs_workflow ru blake2b wk" "to_json (ru_input ru) payload = Inr input"
    and "collision_free blake2b {(ho_uuid h 1, of_nat i) | i. i < N}" "N \<le> 2 ^ 64" "operations_of wk u \<le> N"
    and "ho_uuid h 0 \<notin> nth_id blake2b (ho_uuid h 1) ` {..<N}" "MAX_ITERATIONS < waits_of wk u"
  shows "fst (execute_handler ru payload \<lparr>rs_orchestrator = o1, rs_world = (u, srv)\<rparr>) = Inl too_many_iterations"
proof -
  obtain k where k: "waits_of wk u = Suc k" "MAX_ITERATIONS \<le> k" using assms(8) by (cases "waits_of wk u") auto
  from execute_started [OF meta_eq_to_obj_eq [OF h_def] assms(2,4-7), of payload input o1] k(1) obtain iv ops rs1 where f:
    "first_invocation ru payload input (on_orchestrator clear_run \<lparr>rs_orchestrator = o1, rs_world = (u, srv)\<rparr>) =
       (Inr (ho_uuid h 1, Inl (Suspend None), iv, ops), rs1)"
    "stalled ru blake2b (ho_uuid h 1) N wk k (eval wk u) rs1"
    by auto
  from handle_pending_execution_exhausted [OF assms(2) nth_id_inj [OF assms(4,5)] f(2) k(2) os_wf_first_invocation [OF f(1)]] f(1)
  show ?thesis by (simp add: execute_handler_def assms(3) Let_def)
qed

definition example_runner :: "'u workflow \<Rightarrow> ('u, string, string) runner" where
  "example_runner wk =
     \<lparr>ru_hosts = (\<lambda>_. example_host), ru_input = text_codec, ru_output = text_codec,
      ru_handler = (\<lambda>_. run_workflow (lift_workflow fst put_user wk) (\<lambda>m. m) (server_services (\<lambda>_. example_host))),
      ru_pause = (\<lambda>w. w)\<rparr>"

definition example_server :: server where
  "example_server = \<lparr>srv_executions = [], srv_commands = 0\<rparr>"

lemma example_runner_runs: "runs_workflow (example_runner wk) (\<lambda>m. m) wk"
  by (simp add: runs_workflow_def tokens_roundtrip_def example_runner_def)
    (simp add: example_host_def example_token_roundtrip)

lemma example_runner_host:
  "ho_uuid (ru_hosts (example_runner wk) (srv_commands example_server)) 1 = ''u1''"
  "ho_uuid (ru_hosts (example_runner wk) (srv_commands example_server)) 0 = ''u0''"
proof -
  have "ho_uuid example_host 1 = ''u1''" "ho_uuid example_host 0 = ''u0''" by code_simp+
  then show "ho_uuid (ru_hosts (example_runner wk) (srv_commands example_server)) 1 = ''u1''"
    "ho_uuid (ru_hosts (example_runner wk) (srv_commands example_server)) 0 = ''u0''"
    by (simp_all add: example_runner_def)
qed

lemma example_ids: "''u0'' \<notin> nth_id (\<lambda>m. m) ''u1'' ` {..<N}"
proof
  assume "''u0'' \<in> nth_id (\<lambda>m. m) ''u1'' ` {..<N}"
  then obtain i where "nth_id (\<lambda>m. m) ''u1'' i = ''u0''" by (metis imageE)
  moreover have "length (nth_id (\<lambda>m. m) ''u1'' i) = 20"
    by (simp add: nth_id_def generate_operation_id_def id_message_def hex_encode_length le_bytes_u64_def)
  ultimately show False by simp
qed

fun wait_chain :: "nat \<Rightarrow> 'u workflow" where
  "wait_chain 0 = Finish ''waited''"
| "wait_chain (Suc n) = WaitThen (from_seconds 1) (wait_chain n)"

lemma wait_chain_counts: "waits_of (wait_chain n) u = n" "operations_of (wait_chain n) u = n"
  by (induction n) (simp_all add: def_simps MIN_WAIT_SECONDS_def)

lemma too_many_waits_fail_witness:
  "fst (execute_handler (example_runner (wait_chain 101)) ''go''
     \<lparr>rs_orchestrator = orchestrator_new True [], rs_world = (20 :: nat, example_server)\<rparr>) = Inl too_many_iterations"
proof -
  let ?ru = "example_runner (wait_chain 101) :: (nat, string, string) runner"
  have free: "collision_free (\<lambda>m. m) {(''u1'', of_nat i) | i. i < 101}"
    by (rule collision_free_short) auto
  have "(101 :: nat) \<le> 2 ^ 64" "MAX_ITERATIONS < 101" by (simp_all add: MAX_ITERATIONS_def)
  moreover have "to_json (ru_input ?ru) ''go'' = Inr ''go''" by (simp add: example_runner_def text_codec_def)
  ultimately show ?thesis
    using free example_ids
    by (intro too_many_waits_fail [where N = 101, OF example_runner_runs])
      (simp_all only: example_runner_host wait_chain_counts order_refl not_False_eq_True)
qed

end
