(* ===== verification/Local_Runner.thy ===== *)
theory Local_Runner
  imports Local_Run Runner_Storage Test_Result
begin

text \<open>
  The runner a test creates: \<open>testing/src/local_runner.rs\<close>. A run gives the handler to the orchestrator, copies the
  operations it stored, and turns its result into the result of the test; \<open>run_single_invocation\<close> does one invocation
  without the orchestrator. The checkpoint server is beside the user's world in the world of the runner; the functions
  a test registers are values of a type \<open>'f\<close>, since nothing calls them.
\<close>

section \<open>The environment of the tests\<close>

record environment_config =
  tec_skip_time :: bool
  tec_checkpoint_delay :: "u64 option"

definition environment_config_default :: environment_config where
  "environment_config_default = \<lparr>tec_skip_time = True, tec_checkpoint_delay = None\<rparr>"

text \<open>The two flags of the process.\<close>

record test_environment =
  te_setup :: bool
  te_time_skipping :: bool

text \<open>Pausing the clock of \<open>tokio\<close> either works or panics with a message; a message that is not about the kind of
  runtime or a clock that stands already is a panic of the setup (\<open>None\<close>).\<close>

definition setup_test_environment ::
  "string option \<Rightarrow> environment_config \<Rightarrow> test_environment \<Rightarrow> test_environment option" where
  "setup_test_environment pause_panic cfg te =
     (if tec_skip_time cfg
      then (case pause_panic of
              Some m \<Rightarrow>
                if sublist ''current_thread'' m \<or> sublist ''already frozen'' m \<or> sublist ''already paused'' m
                then Some \<lparr>te_setup = True, te_time_skipping = True\<rparr> else None
            | None \<Rightarrow> Some \<lparr>te_setup = True, te_time_skipping = True\<rparr>)
      else Some (te\<lparr>te_setup := True\<rparr>))"

definition teardown_test_environment :: "test_environment \<Rightarrow> test_environment" where
  "teardown_test_environment te = (if te_setup te then \<lparr>te_setup = False, te_time_skipping = False\<rparr> else te)"

section \<open>State\<close>

datatype 'f registered_function = DurableFunction 'f | RegularFunction 'f

record 'f local_runner =
  lr_storage :: operation_storage
  lr_functions :: "(string \<times> 'f registered_function) list"
  lr_handles :: "operation_handle list"
  lr_shared_operations :: "operation list"

definition local_runner_new :: "'f local_runner" where
  "local_runner_new = \<lparr>lr_storage = operation_storage_new, lr_functions = [], lr_handles = [], lr_shared_operations = []\<rparr>"

definition register_durable_function :: "string \<Rightarrow> 'f \<Rightarrow> 'f local_runner \<Rightarrow> 'f local_runner" where
  "register_durable_function n f lr = lr\<lparr>lr_functions := hm_insert n (DurableFunction f) (lr_functions lr)\<rparr>"

definition register_function :: "string \<Rightarrow> 'f \<Rightarrow> 'f local_runner \<Rightarrow> 'f local_runner" where
  "register_function n f lr = lr\<lparr>lr_functions := hm_insert n (RegularFunction f) (lr_functions lr)\<rparr>"

definition has_registered_function :: "string \<Rightarrow> 'f local_runner \<Rightarrow> bool" where
  "has_registered_function n lr = (hm_get (lr_functions lr) n \<noteq> None)"

definition clear_registered_functions :: "'f local_runner \<Rightarrow> 'f local_runner" where
  "clear_registered_functions lr = lr\<lparr>lr_functions := []\<rparr>"

definition register_handle :: "operation_matcher \<Rightarrow> 'f local_runner \<Rightarrow> operation_handle \<times> 'f local_runner" where
  "register_handle m lr =
     (let h = \<lparr>oh_matcher = m, oh_inner = None, oh_status = None\<rparr> in (h, lr\<lparr>lr_handles := lr_handles lr @ [h]\<rparr>))"

text \<open>A fresh server takes the place of the old one.\<close>

definition reset_runner :: "'f local_runner \<Rightarrow> 'u \<times> server \<Rightarrow> 'f local_runner \<times> ('u \<times> server)" where
  "reset_runner lr w = (lr\<lparr>lr_storage := operation_storage_new, lr_handles := [], lr_shared_operations := []\<rparr>,
     (fst w, (snd w)\<lparr>srv_executions := []\<rparr>))"

definition lr_get_operation :: "operation_matcher \<Rightarrow> 'f local_runner \<Rightarrow> operation option" where
  "lr_get_operation m lr = lookup_operation m (lr_storage lr)"

definition lr_get_all_operations :: "'f local_runner \<Rightarrow> operation list" where
  "lr_get_all_operations lr = os_operations (lr_storage lr)"

section \<open>Callbacks\<close>

definition server_request ::
  "(server \<Rightarrow> (durable_error + 'a) \<times> server) \<Rightarrow> ('u \<times> server, test_error, 'a) cmd" where
  "server_request req w = (case on_server req w of
     (Inl e, w1) \<Rightarrow> (Inl (CheckpointServerError (display_error e)), w1) | (Inr x, w1) \<Rightarrow> (Inr x, w1))"

definition checkpoint_callback_sender :: "(nat \<Rightarrow> host) \<Rightarrow> ('u \<times> server) callback_sender" where
  "checkpoint_callback_sender hosts = \<lparr>
     cs_send_success = (\<lambda>i result. server_request (send_callback_success hosts i result)),
     cs_send_failure = (\<lambda>i e. server_request (send_callback_failure hosts i (error_object_of_result e))),
     cs_send_heartbeat = (\<lambda>i. server_request (send_callback_heartbeat hosts i))\<rparr>"

text \<open>A registered handle as the test holds it during a run.\<close>

definition held_handle :: "(nat \<Rightarrow> host) \<Rightarrow> 'f local_runner \<Rightarrow> operation_handle \<Rightarrow> ('u \<times> server) test_handle" where
  "held_handle hosts lr h = \<lparr>oh_matcher = oh_matcher h, oh_inner = oh_inner h, oh_status = oh_status h,
     oh_callback_sender = Some (checkpoint_callback_sender hosts), oh_all_operations = lr_shared_operations lr\<rparr>"

section \<open>A run through the orchestrator\<close>

definition to_test_result :: "'o test_execution_result \<Rightarrow> 'o test_result" where
  "to_test_result res =
     (let ops = ter_operations res;
          r = (case ter_status res of
                 SucceededExecution \<Rightarrow> (case ter_result res of
                   Some x \<Rightarrow> test_result_success x ops | None \<Rightarrow> test_result_with_status SucceededExecution ops)
               | FailedExecution \<Rightarrow> (case ter_error res of
                   Some e \<Rightarrow> test_result_failure e ops | None \<Rightarrow> test_result_with_status FailedExecution ops)
               | s \<Rightarrow> test_result_with_status s ops)
      in fold add_invocation (ter_invocations res) r)"

definition add_events :: "(nat \<Rightarrow> host) \<Rightarrow> string \<Rightarrow> 'o test_result \<Rightarrow> 'u \<times> server \<Rightarrow> 'o test_result \<times> ('u \<times> server)" where
  "add_events hosts e r w = (case on_server (get_nodejs_history_events hosts e) w of
     (Inr evs, w1) \<Rightarrow> (r\<lparr>tr_nodejs_history_events := evs\<rparr>, w1) | (Inl _, w1) \<Rightarrow> (r, w1))"

definition run_orchestrator :: "bool \<Rightarrow> 'f local_runner \<Rightarrow> orchestrator" where
  "run_orchestrator skip lr = (orchestrator_new skip (lr_handles lr))\<lparr>or_shared_operations := lr_shared_operations lr\<rparr>"

text \<open>What the orchestrator leaves in the runner: the handles it filled, and its list of operations if there is one.\<close>

definition take_back :: "orchestrator \<Rightarrow> 'f local_runner \<Rightarrow> 'f local_runner" where
  "take_back o1 lr = lr\<lparr>lr_handles := or_registered_handles o1,
     lr_shared_operations := (if lr_handles lr = [] then lr_shared_operations lr else or_shared_operations o1)\<rparr>"

definition run_with_orchestrator ::
  "('u, 'i, 'o) runner \<Rightarrow> bool \<Rightarrow> 'i \<Rightarrow> 'f local_runner \<Rightarrow> 'u \<times> server \<Rightarrow>
   (test_error + 'o test_result) \<times> 'f local_runner \<times> ('u \<times> server)"
where
  "run_with_orchestrator ru skip payload lr w =
     (let lr0 = lr\<lparr>lr_storage := operation_storage_new\<rparr>;
          (q, rs) = execute_handler ru payload \<lparr>rs_orchestrator = run_orchestrator skip lr, rs_world = w\<rparr>;
          o1 = rs_orchestrator rs; lr1 = take_back o1 lr0
      in case q of
           Inl e \<Rightarrow> (Inl e, lr1, rs_world rs)
         | Inr res \<Rightarrow>
             (let (r, w1) = add_events (ru_hosts ru) (ter_execution_id res) (to_test_result res) (rs_world rs)
              in (Inr r, lr1\<lparr>lr_storage := fold os_add_operation (os_operations (or_operation_storage o1)) operation_storage_new\<rparr>, w1)))"

text \<open>\<open>run\<close>: a request without payload takes what the type of the input makes of the JSON value \<open>null\<close>.\<close>

definition local_run ::
  "('u, 'i, 'o) runner \<Rightarrow> bool \<Rightarrow> string + 'i \<Rightarrow> 'i option \<Rightarrow> 'f local_runner \<Rightarrow> 'u \<times> server \<Rightarrow>
   (test_error + 'o test_result) \<times> 'f local_runner \<times> ('u \<times> server)"
where
  "local_run ru skip from_null payload lr w =
     (case (case payload of Some p \<Rightarrow> Inr p | None \<Rightarrow> from_null) of
        Inl e \<Rightarrow> (Inl (InvalidConfiguration
          (''InvokeRequest has no payload and the input type cannot be deserialized from null: '' @ e @
           ''. Use InvokeRequest::with_payload() to provide a value.'')), lr, w)
      | Inr p \<Rightarrow> run_with_orchestrator ru skip p lr w)"

section \<open>One invocation\<close>

definition server_api :: "('u, 'i, 'o) runner \<Rightarrow> api_request \<Rightarrow> 'u \<times> server \<Rightarrow> (string + api_payload) \<times> ('u \<times> server)" where
  "server_api ru req = on_server (send_api_request (ru_hosts ru) req)"

definition world_host :: "('u, 'i, 'o) runner \<Rightarrow> 'u \<times> server \<Rightarrow> host" where
  "world_host ru w = ru_hosts ru (srv_commands (snd w))"

definition invocation_error :: "durable_error + 'o \<Rightarrow> error_object option" where
  "invocation_error q = (case q of
     Inr _ \<Rightarrow> None | Inl err \<Rightarrow> if is_suspend err then None else Some (error_object_from err))"

text \<open>The report of the handler's outcome, with the operations as they were before it.\<close>

definition single_result ::
  "('u, 'i, 'o) runner \<Rightarrow> string \<Rightarrow> durable_error + 'o \<Rightarrow> test_invocation \<Rightarrow> operation list \<Rightarrow> 'u \<times> server \<Rightarrow>
   'o test_result \<times> ('u \<times> server)"
where
  "single_result ru e q iv ops w = (case q of
     Inr x \<Rightarrow> add_events (ru_hosts ru) e (add_invocation iv (test_result_success x ops))
       (snd (server_api ru (CompleteExecution e (result_json (ru_output ru) x) None) w))
   | Inl err \<Rightarrow>
       if is_suspend err
       then add_events (ru_hosts ru) e (add_invocation iv (test_result_with_status RunningExecution ops)) w
       else add_events (ru_hosts ru) e
         (add_invocation (invocation_with_error (handler_error err) iv) (test_result_failure (handler_error err) ops))
         (snd (server_api ru (CompleteExecution e None (Some (error_object_from err))) w)))"

definition run_single_invocation ::
  "('u, 'i, 'o) runner \<Rightarrow> 'i \<Rightarrow> 'f local_runner \<Rightarrow> 'u \<times> server \<Rightarrow>
   (test_error + 'o test_result) \<times> 'f local_runner \<times> ('u \<times> server)"
where
  "run_single_invocation ru payload lr w =
     (let lr0 = lr\<lparr>lr_storage := operation_storage_new\<rparr> in
      case to_json (ru_input ru) payload of
        Inl err \<Rightarrow> (Inl (TestSerializationError err), lr0, w)
      | Inr text \<Rightarrow>
          (let i = ho_uuid (world_host ru w) 3;
               (r, w1) = server_api ru (StartDurableExecution (Some text) i) w
           in case expect_invocation r of
                Inl err \<Rightarrow> (Inl err, lr0, w1)
              | Inr ir \<Rightarrow>
                  (let e = ir_execution_id ir;
                       s = exec_state_new e (ir_checkpoint_token ir) (initial_state_with_operations []);
                       start = ho_now (world_host ru w1);
                       (q, v) = in_context (ru_handler ru payload) (context_new s) \<lparr>env_state = s, env_world = w1\<rparr>;
                       iv = invocation_with_end (ho_now (world_host ru (env_world v))) (invocation_with_start start);
                       w2 = snd (server_api ru (CompleteInvocation e i (invocation_error q)) (env_world v));
                       (ops, lr1, w3) = (case on_server (client_get_operations (ru_hosts ru) e []) w2 of
                         (Inr p, w3) \<Rightarrow> (gor_operations p,
                           lr0\<lparr>lr_storage := fold os_add_operation (gor_operations p) operation_storage_new\<rparr>, w3)
                       | (Inl _, w3) \<Rightarrow> ([], lr0, w3));
                       (res, w4) = single_result ru e q iv ops w3
                   in (Inr res, lr1, w4))))"

section \<open>What a test sees\<close>

lemma add_invocations_sel [simp]:
  "tr_status (fold add_invocation invs r) = tr_status r" "tr_result (fold add_invocation invs r) = tr_result r"
  "tr_error (fold add_invocation invs r) = tr_error r" "tr_operations (fold add_invocation invs r) = tr_operations r"
  "tr_invocations (fold add_invocation invs r) = tr_invocations r @ invs"
  by (induction invs arbitrary: r) (simp_all add: add_invocation_def)

lemma add_events_sel:
  "add_events hosts e r w = (r1, w1) \<Longrightarrow> fst w1 = fst w \<and> tr_status r1 = tr_status r \<and> tr_result r1 = tr_result r \<and>
     tr_error r1 = tr_error r \<and> tr_invocations r1 = tr_invocations r \<and> tr_operations r1 = tr_operations r"
  by (auto simp: add_events_def on_server_def split: prod.splits sum.splits)

lemma to_test_result_reports:
  assumes "reports q n res"
  shows "length (tr_invocations (to_test_result res)) = n \<and>
    (case q of Inr x \<Rightarrow> tr_get_result (to_test_result res) = Inr x
     | Inl err \<Rightarrow> tr_get_error (to_test_result res) = Inr (handler_error err))"
  using assms
  by (cases q) (auto simp: reports_def to_test_result_def Let_def tr_get_result_def tr_get_error_def
      test_result_success_def test_result_failure_def test_result_with_status_def)

lemma tr_get_cong:
  "tr_status r1 = tr_status r \<Longrightarrow> tr_result r1 = tr_result r \<Longrightarrow> tr_get_result r1 = tr_get_result r"
  "tr_status r1 = tr_status r \<Longrightarrow> tr_error r1 = tr_error r \<Longrightarrow> tr_get_error r1 = tr_get_error r"
  unfolding tr_get_result_def tr_get_error_def by presburger+

lemma fold_add_operations: "os_operations (fold os_add_operation ops s) = os_operations s @ ops"
  by (induction ops arbitrary: s) simp_all

lemma local_run_outcome:
  fixes srv :: server and u :: 'u and ru :: "('u, 'i, string) runner"
  assumes ex: "execute_handler ru payload \<lparr>rs_orchestrator = run_orchestrator skip lr, rs_world = (u, srv)\<rparr> = (Inr res, rs')"
    and "reports q n res"
  shows "\<exists>r lr' w'. local_run ru skip from_null (Some payload) lr (u, srv) = (Inr r, lr', w') \<and> fst w' = fst (rs_world rs') \<and>
     length (tr_invocations r) = n \<and> lr_get_all_operations lr' = os_operations (stored rs') \<and>
     (case q of Inr x \<Rightarrow> tr_get_result r = Inr x | Inl err \<Rightarrow> tr_get_error r = Inr (handler_error err))"
proof -
  obtain r w' where a: "add_events (ru_hosts ru) (ter_execution_id res) (to_test_result res) (rs_world rs') = (r, w')"
    by (cases "add_events (ru_hosts ru) (ter_execution_id res) (to_test_result res) (rs_world rs')")
  note sel = add_events_sel [OF a]
  have "case q of Inr x \<Rightarrow> tr_get_result r = Inr x | Inl err \<Rightarrow> tr_get_error r = Inr (handler_error err)"
    using to_test_result_reports [OF assms(2)] sel tr_get_cong [of r "to_test_result res"] by (simp split: sum.splits)
  moreover have "length (tr_invocations r) = n" using to_test_result_reports [OF assms(2)] sel by simp
  ultimately show ?thesis
    using ex a sel
    by (simp add: local_run_def run_with_orchestrator_def Let_def lr_get_all_operations_def fold_add_operations stored_def)
      (simp add: operation_storage_new_def)
qed

text \<open>C2: The whole system does what one uninterrupted run of the workflow does. For user code that runs a
  workflow on the SDK, the runner of a test, with the orchestrator and the checkpoint server behind it, returns
  the result of the one run, or its error; the user's world has changed exactly as in it, and the
  handler was invoked once more than the run has waits.\<close>

theorem local_run_refines_eval:
  fixes srv :: server and u :: 'u and ru :: "('u, 'i, string) runner"
  defines "h \<equiv> ru_hosts ru (srv_commands srv)"
  assumes "runs_workflow ru blake2b wk" "to_json (ru_input ru) payload = Inr input"
    and "collision_free blake2b {(ho_uuid h 1, of_nat i) | i. i < N}" "N \<le> 2 ^ 64" "operations_of wk u \<le> N"
    and "ho_uuid h 0 \<notin> nth_id blake2b (ho_uuid h 1) ` {..<N}" "waits_of wk u \<le> MAX_ITERATIONS"
  shows "\<exists>r lr' w'. local_run ru skip from_null (Some payload) lr (u, srv) = (Inr r, lr', w') \<and> fst w' = snd (eval wk u) \<and>
     length (tr_invocations r) = Suc (waits_of wk u) \<and>
     (case fst (eval wk u) of Inr x \<Rightarrow> tr_get_result r = Inr x | Inl err \<Rightarrow> tr_get_error r = Inr (handler_error err))"
proof -
  from execute_handler_refines_eval [OF assms(2,3) assms(4-8) [unfolded h_def], of "run_orchestrator skip lr"]
  obtain res rs' where e: "execute_handler ru payload \<lparr>rs_orchestrator = run_orchestrator skip lr, rs_world = (u, srv)\<rparr> = (Inr res, rs')"
    "fst (rs_world rs') = snd (eval wk u)" "reports (fst (eval wk u)) (Suc (waits_of wk u)) res"
    by blast
  from local_run_outcome [OF e(1,3)] e(2) show ?thesis by metis
qed

text \<open>After a run with a wait the lookups of the runner are stale: the operations it keeps are those from before the
  last invocation, so one of the waits that the run went past is still shown as started.\<close>

lemma local_lookups_stale:
  fixes srv :: server and u :: 'u and ru :: "('u, 'i, string) runner"
  defines "h \<equiv> ru_hosts ru (srv_commands srv)"
  assumes "runs_workflow ru blake2b wk" "to_json (ru_input ru) payload = Inr input"
    and "collision_free blake2b {(ho_uuid h 1, of_nat i) | i. i < N}" "N \<le> 2 ^ 64" "operations_of wk u \<le> N"
    and "ho_uuid h 0 \<notin> nth_id blake2b (ho_uuid h 1) ` {..<N}" "waits_of wk u \<le> MAX_ITERATIONS" "waits_of wk u \<noteq> 0"
  shows "\<exists>r lr' w' op. local_run ru skip from_null (Some payload) lr (u, srv) = (Inr r, lr', w') \<and> \<not> tr_is_running r \<and>
     op \<in> set (lr_get_all_operations lr') \<and> op_type op = WaitOp \<and> op_status op = Started"
proof -
  from execute_handler_refines_eval [OF assms(2,3) assms(4-8) [unfolded h_def], of "run_orchestrator skip lr"] assms(9)
  obtain res rs' where e: "execute_handler ru payload \<lparr>rs_orchestrator = run_orchestrator skip lr, rs_world = (u, srv)\<rparr> = (Inr res, rs')"
    "reports (fst (eval wk u)) (Suc (waits_of wk u)) res" "shows_started_wait (stored rs')"
    by blast
  from local_run_outcome [OF e(1,2)] obtain r lr' w' where r: "local_run ru skip from_null (Some payload) lr (u, srv) = (Inr r, lr', w')"
    "lr_get_all_operations lr' = os_operations (stored rs')"
    "case fst (eval wk u) of Inr x \<Rightarrow> tr_get_result r = Inr x | Inl err \<Rightarrow> tr_get_error r = Inr (handler_error err)"
    by metis
  have "\<not> tr_is_running r" using r(3) by (auto simp: tr_is_running_def tr_get_result_def tr_get_error_def split: sum.splits)
  with r(1,2) e(3) show ?thesis unfolding shows_started_wait_def by auto
qed

section \<open>Lookups\<close>

text \<open>In a storage with correct indices a lookup is the search that fills the handles.\<close>

lemma lookup_operation_spec:
  assumes "named_index s" "runner_storage_wf s"
  shows "lookup_operation m s = match_operation m (os_operations s)"
  using assms get_by_name_spec [OF assms(1)] get_by_name_and_index_spec [OF assms(1)] get_by_id_spec [of s]
  by (cases m) (simp_all add: lookup_operation_def match_operation_def os_get_by_index_def nth_operation_def runner_storage_wf_def)

lemma runner_storage_wf_distinct:
  assumes "runner_storage_wf s"
  shows "distinct (map op_id (os_operations s))"
proof -
  have "k = j" if "k < length (os_operations s)" "j < length (os_operations s)"
      "op_id (os_operations s ! k) = op_id (os_operations s ! j)" for k j
    using assms that unfolding runner_storage_wf_def ids_indexed_def by (metis option.inject)
  then show ?thesis by (simp add: distinct_conv_nth) metis
qed

lemma copied_storage_wf:
  assumes "distinct (map op_id (os_operations s) @ map op_id ops)" "runner_storage_wf s" "named_index s"
  shows "runner_storage_wf (fold os_add_operation ops s) \<and> named_index (fold os_add_operation ops s)"
  using assms
proof (induction ops arbitrary: s)
  case (Cons op ops)
  have fresh: "hm_get (os_operations_by_id s) (op_id op) = None"
  proof (rule ccontr)
    assume "\<not> hm_get (os_operations_by_id s) (op_id op) = None"
    then obtain k where "hm_get (os_operations_by_id s) (op_id op) = Some k" by blast
    then have "op_id op \<in> op_id ` set (os_operations s)"
      using Cons.prems(2) os_wfD unfolding runner_storage_wf_def by (metis image_eqI nth_mem)
    with Cons.prems(1) show False by simp
  qed
  have "runner_storage_wf (os_add_operation op s)"
    using Cons.prems(2) fresh by (simp add: runner_storage_wf_def os_wf_add ids_indexed_add)
  with Cons.IH [of "os_add_operation op s"] Cons.prems(1,3) show ?case by (simp add: named_index_add)
qed simp

lemma stored_wf_fetch:
  "fetch_and_store ru e rs = (ops, rs1) \<Longrightarrow> runner_storage_wf (stored rs) \<Longrightarrow> runner_storage_wf (stored rs1)"
  using stored_fetch_and_store [of ru e rs ops rs1] runner_storage_wf_fold [of "stored rs" ops]
  by (simp add: add_or_update_eq [abs_def])

lemma stored_poll_callbacks: "stored (snd (poll_callbacks ru e n rs)) = stored rs"
proof (induction n arbitrary: rs)
  case (Suc n)
  obtain x rs1 where f: "fetch_operations ru e (rs\<lparr>rs_world := ru_pause ru (rs_world rs)\<rparr>) = (x, rs1)"
    by (rule prod.exhaust)
  with stored_fetch_operations [OF f] Suc.IH show ?case by (cases x) (simp_all add: Let_def)
qed simp

lemma stored_reinvoke_any: "reinvoke ru payload e rs = (r, rs1) \<Longrightarrow> stored rs1 = stored rs"
proof (cases r)
  case (Inl err)
  assume r: "reinvoke ru payload e rs = (r, rs1)"
  obtain x a where a: "api ru (StartInvocation e (ho_uuid (current_host ru rs) 3)) rs = (x, a)"
    by (rule prod.exhaust)
  with r Inl have "rs1 = a" by (auto simp: reinvoke_def Let_def split: sum.splits prod.splits)
  with stored_api [OF a] show ?thesis by simp
next
  case (Inr y)
  assume "reinvoke ru payload e rs = (r, rs1)"
  with Inr stored_reinvoke [of ru payload e rs "fst y" "snd y" rs1] show ?thesis by simp
qed

lemma stored_wf_pending:
  "runner_storage_wf (stored rs) \<Longrightarrow> runner_storage_wf (stored (snd (handle_pending_execution ru payload e n invs rs)))"
proof (induction n arbitrary: invs rs)
  case (Suc n)
  obtain ops rs1 where f: "fetch_and_store ru e rs = (ops, rs1)" by (rule prod.exhaust)
  let ?rs2 = "on_orchestrator (populate_handles ops) rs1"
  obtain p o2 where p: "process_operations (ho_now (current_host ru ?rs2)) ops (rs_orchestrator ?rs2) = (p, o2)"
    by (rule prod.exhaust)
  let ?rs3 = "?rs2\<lparr>rs_orchestrator := o2\<rparr>"
  have wf3: "runner_storage_wf (stored ?rs3)"
    using stored_wf_fetch [OF f Suc.prems] stored_process_operations [OF p, of ?rs2] by simp
  show ?case
  proof (cases p)
    case (ExecutionHasSucceeded t)
    with f p wf3 show ?thesis by (simp add: Let_def split: sum.split)
  next
    case (ExecutionHasFailed err)
    with f p wf3 show ?thesis by (simp add: Let_def)
  next
    case NoPendingOperations
    with f p wf3 show ?thesis by (simp add: Let_def)
  next
    case (ShouldReinvoke adv)
    show ?thesis
    proof (cases "adv = None \<and> or_registered_handles o2 = []")
      case True
      with ShouldReinvoke f p wf3 show ?thesis by (simp add: Let_def)
    next
      case False
      obtain q rs4 where q: "(if adv = None then poll_callbacks ru e MAX_CALLBACK_POLLS ?rs3 else (Inr ops, ?rs3)) = (q, rs4)"
        by (rule prod.exhaust)
      have wf4: "runner_storage_wf (stored rs4)"
        using q wf3 stored_poll_callbacks [of ru e MAX_CALLBACK_POLLS ?rs3] by (auto split: if_splits)
      show ?thesis
      proof (cases q)
        case (Inl err)
        with False ShouldReinvoke f p q wf4 wf3 show ?thesis by (simp add: Let_def)
      next
        case (Inr ops1)
        obtain r rs5 where r: "reinvoke ru payload e (if adv = None then rs4 else complete_waits ru e ops1 rs4) = (r, rs5)"
          by (rule prod.exhaust)
        have wf5: "runner_storage_wf (stored rs5)" using stored_reinvoke_any [OF r] wf4 by (simp split: if_splits)
        have eq: "handle_pending_execution ru payload e (Suc n) invs rs = (case (r, rs5) of
            (Inl err, rs5) \<Rightarrow> (Inl err, rs5)
          | (Inr (Inr x, iv), rs5) \<Rightarrow> finish_success ru e (invs @ [iv]) x rs5
          | (Inr (Inl err, iv), rs5) \<Rightarrow>
              if is_suspend err then handle_pending_execution ru payload e n (invs @ [iv]) rs5
              else finish_failure ru e invs iv err rs5)"
          using False ShouldReinvoke f p q Inr r by (auto simp: Let_def)
        have fs: "stored (snd (finish_success ru e l x rs5)) = stored rs5" for l x
          by (rule stored_finish_success) (rule surjective_pairing)
        have ff: "stored (snd (finish_failure ru e l iv err rs5)) = stored rs5" for l iv err
          by (rule stored_finish_failure) (rule surjective_pairing)
        show ?thesis unfolding eq using Suc.IH [OF wf5] wf5 fs ff by (simp split: sum.split prod.split)
      qed
    qed
  qed
qed simp

lemma stored_wf_execute:
  assumes "execute_handler ru payload rs = (Inr res, rs')"
  shows "runner_storage_wf (stored rs')"
proof -
  obtain i where i: "to_json (ru_input ru) payload = Inr i"
    using assms by (cases "to_json (ru_input ru) payload") (simp_all add: execute_handler_def Let_def)
  obtain f rs1 where f: "first_invocation ru payload i (on_orchestrator clear_run rs) = (f, rs1)" by (rule prod.exhaust)
  then obtain e q iv ops where g: "f = Inr (e, q, iv, ops)"
    using assms i by (cases f) (auto simp: execute_handler_def Let_def)
  have "stored (on_orchestrator clear_run rs) = operation_storage_new"
    by (simp add: stored_def on_orchestrator_def clear_run_def os_clear_def)
  then have wf: "runner_storage_wf (stored rs1)"
    using stored_first_invocation [OF f [unfolded g]] runner_storage_wf_fold [OF runner_storage_wf_new, of ops]
    by (simp add: add_or_update_eq [abs_def])
  show ?thesis
    using assms i f g wf stored_wf_pending [OF wf, of ru payload e MAX_ITERATIONS "[iv]"]
    by (auto simp: execute_handler_def Let_def split: sum.splits if_splits)
qed

text \<open>After a run every lookup of the runner, by name, by name and index, by index or by identifier, is the search
  of the handles in the list of its operations.\<close>

lemma local_lookup_is_search:
  assumes "local_run ru skip from_null payload lr w = (Inr res, lr', w')"
  shows "lr_get_operation m lr' = match_operation m (lr_get_all_operations lr')"
proof -
  obtain p where p: "run_with_orchestrator ru skip p lr w = (Inr res, lr', w')"
    using assms by (auto simp: local_run_def split: sum.splits)
  obtain q rs where q: "execute_handler ru p \<lparr>rs_orchestrator = run_orchestrator skip lr, rs_world = w\<rparr> = (q, rs)"
    by (rule prod.exhaust)
  then obtain x where x: "q = Inr x" using p by (cases q) (simp_all add: run_with_orchestrator_def Let_def)
  let ?ops = "os_operations (stored rs)"
  have "distinct (map op_id ?ops)" by (rule runner_storage_wf_distinct [OF stored_wf_execute [OF q [unfolded x]]])
  then have "runner_storage_wf (fold os_add_operation ?ops operation_storage_new) \<and>
      named_index (fold os_add_operation ?ops operation_storage_new)"
    by (intro copied_storage_wf) (simp_all add: operation_storage_new_def [THEN arg_cong [of _ _ os_operations]])
  moreover have "lr_storage lr' = fold os_add_operation ?ops operation_storage_new"
    using p q x by (auto simp: run_with_orchestrator_def Let_def stored_def split: prod.splits)
  ultimately show ?thesis
    unfolding lr_get_operation_def lr_get_all_operations_def using lookup_operation_spec by metis
qed

section \<open>The two ways to run\<close>

lemma api_world: "server_api ru req (rs_world rs) = (r, w) \<Longrightarrow> api ru req rs = (r, rs\<lparr>rs_world := w\<rparr>)"
  by (simp add: api_def server_api_def)

lemma current_world_host: "current_host ru rs = world_host ru (rs_world rs)"
  by (simp add: current_host_def world_host_def)

lemma exec_id:
  "ter_execution_id (test_success x ops e invs) = e" "ter_execution_id (test_failure err ops e invs) = e"
  by (simp_all add: test_success_def test_failure_def)

text \<open>The world after the first invocation of a run, from the steps of a single invocation.\<close>

lemma first_invocation_world:
  assumes "server_api ru (StartDurableExecution (Some input) (ho_uuid (world_host ru w) 3)) w = (r, w1)"
    and "expect_invocation r = Inr ir"
    and "in_context (ru_handler ru payload) (context_new (exec_state_new (ir_execution_id ir) (ir_checkpoint_token ir) (initial_state_with_operations [])))
      \<lparr>env_state = exec_state_new (ir_execution_id ir) (ir_checkpoint_token ir) (initial_state_with_operations []), env_world = w1\<rparr> = (q, v)"
    and "server_api ru (CompleteInvocation (ir_execution_id ir) (ho_uuid (world_host ru w) 3) (invocation_error q)) (env_world v) = (a, w2)"
    and "on_server (client_get_operations (ru_hosts ru) (ir_execution_id ir) []) w2 = (p, w3)"
    and "rs_world rs = w"
  shows "\<exists>rs1. first_invocation ru payload input rs =
      (Inr (ir_execution_id ir, q, invocation_with_end (ho_now (world_host ru (env_world v)))
          (invocation_with_start (ho_now (world_host ru w1))),
        (case p of Inr x \<Rightarrow> gor_operations x | Inl _ \<Rightarrow> [])), rs1) \<and> rs_world rs1 = w3"
proof -
  let ?e = "ir_execution_id ir" and ?i = "ho_uuid (world_host ru w) 3"
  have 1: "api ru (StartDurableExecution (Some input) ?i) rs = (r, rs\<lparr>rs_world := w1\<rparr>)"
    by (rule api_world) (simp add: assms(1,6))
  let ?rs2 = "on_orchestrator (\<lambda>o'. o'\<lparr>or_execution_id := Some ?e, or_checkpoint_token := Some (ir_checkpoint_token ir)\<rparr>) (rs\<lparr>rs_world := w1\<rparr>)"
  let ?s = "exec_state_new ?e (ir_checkpoint_token ir) (initial_state_with_operations [])"
  let ?iv = "invocation_with_end (ho_now (world_host ru (env_world v))) (invocation_with_start (ho_now (world_host ru w1)))"
  obtain rs3 where 2: "run_handler ru payload ?s ?rs2 = (q, ?iv, rs3)" "rs_world rs3 = env_world v"
    using assms(3) by (simp add: run_handler_def Let_def current_world_host)
  have 3: "send_complete_invocation ru ?e ?i q rs3 = rs3\<lparr>rs_world := w2\<rparr>"
    using api_world [of ru "CompleteInvocation ?e ?i (invocation_error q)" rs3 a w2] assms(4) 2(2)
    by (simp add: send_complete_invocation_def invocation_error_def)
  obtain rs4 where 4: "fetch_and_store ru ?e (rs3\<lparr>rs_world := w2\<rparr>) =
      ((case p of Inr x \<Rightarrow> gor_operations x | Inl _ \<Rightarrow> []), rs4)" "rs_world rs4 = w3"
    using assms(5) by (cases p) (simp_all add: fetch_and_store_def fetch_operations_def)
  show ?thesis
    using 1 assms(2) 2(1) 3 4 by (simp add: first_invocation_def Let_def current_world_host assms(6))
qed

text \<open>C32: When one invocation is enough, it does not matter how a test runs its handler: a single invocation that does
  not suspend gives the same result, to the last event, as a run through the orchestrator, and leaves
  the same world.\<close>

theorem single_invocation_agrees:
  fixes ru :: "('u, 'i, 'o) runner"
  assumes "run_single_invocation ru payload lr w = (Inr res, lr1, w1)" "\<not> tr_is_running res"
  shows "\<exists>lr2. local_run ru skip from_null (Some payload) lr w = (Inr res, lr2, w1)"
proof -
  let ?i = "ho_uuid (world_host ru w) 3"
  obtain input where input: "to_json (ru_input ru) payload = Inr input"
    using assms(1) by (cases "to_json (ru_input ru) payload") (simp_all add: run_single_invocation_def)
  obtain r a1 where a: "server_api ru (StartDurableExecution (Some input) ?i) w = (r, a1)" by (rule prod.exhaust)
  obtain ir where ir: "expect_invocation r = Inr ir"
    using assms(1) input a by (cases "expect_invocation r") (simp_all add: run_single_invocation_def)
  let ?e = "ir_execution_id ir"
  let ?s = "exec_state_new ?e (ir_checkpoint_token ir) (initial_state_with_operations [])"
  obtain q v where h: "in_context (ru_handler ru payload) (context_new ?s) \<lparr>env_state = ?s, env_world = a1\<rparr> = (q, v)" by (rule prod.exhaust)
  obtain b a2 where c: "server_api ru (CompleteInvocation ?e ?i (invocation_error q)) (env_world v) = (b, a2)" by (rule prod.exhaust)
  obtain p a3 where g: "on_server (client_get_operations (ru_hosts ru) ?e []) a2 = (p, a3)" by (rule prod.exhaust)
  let ?iv = "invocation_with_end (ho_now (world_host ru (env_world v))) (invocation_with_start (ho_now (world_host ru a1)))"
  let ?ops = "case p of Inr x \<Rightarrow> gor_operations x | Inl _ \<Rightarrow> []"
  have single: "single_result ru ?e q ?iv ?ops a3 = (res, w1)"
    using assms(1) input a ir h c g
    by (cases p) (auto simp: run_single_invocation_def Let_def split: prod.splits)
  let ?rs = "on_orchestrator clear_run \<lparr>rs_orchestrator = run_orchestrator skip lr, rs_world = w\<rparr>"
  have "rs_world ?rs = w" by simp
  from first_invocation_world [OF a ir h c g this] obtain rs1 where
    f: "first_invocation ru payload input ?rs = (Inr (?e, q, ?iv, ?ops), rs1)" "rs_world rs1 = a3" by blast
  have fin: "rs_world (send_complete_execution ru ?e x y rs1) = snd (server_api ru (CompleteExecution ?e x y) a3)" for x y
    using f(2) by (simp add: send_complete_execution_def api_def server_api_def on_orchestrator_def split: prod.split)
  show ?thesis
  proof (cases q)
    case (Inr x)
    then have ex: "execute_handler ru payload \<lparr>rs_orchestrator = run_orchestrator skip lr, rs_world = w\<rparr> =
        (Inr (test_success x ?ops ?e [?iv]), send_complete_execution ru ?e (result_json (ru_output ru) x) None rs1)"
      using f(1) by (simp add: execute_handler_def input Let_def)
    have conv: "to_test_result (test_success x ?ops ?e [?iv]) = add_invocation ?iv (test_result_success x ?ops)"
      by (simp add: to_test_result_def test_success_def)
    show ?thesis using single Inr ex fin conv
      by (simp add: local_run_def run_with_orchestrator_def Let_def single_result_def exec_id)
  next
    case (Inl err)
    have ns: "\<not> is_suspend err"
    proof
      assume "is_suspend err"
      then have "tr_status res = RunningExecution"
        using single Inl add_events_sel [of "ru_hosts ru" ?e _ a3 res w1]
        by (fastforce simp: single_result_def add_invocation_def test_result_with_status_def)
      with assms(2) show False by (simp add: tr_is_running_def)
    qed
    let ?iv' = "invocation_with_error (handler_error err) ?iv"
    from ns Inl have ex: "execute_handler ru payload \<lparr>rs_orchestrator = run_orchestrator skip lr, rs_world = w\<rparr> =
        (Inr (test_failure (handler_error err) ?ops ?e [?iv']),
         send_complete_execution ru ?e None (Some (error_object_from err)) rs1)"
      using f(1) by (simp add: execute_handler_def input Let_def)
    have conv: "(to_test_result (test_failure (handler_error err) ?ops ?e [?iv']) :: 'o test_result) =
        add_invocation ?iv' (test_result_failure (handler_error err) ?ops)"
      by (simp add: to_test_result_def test_failure_def)
    show ?thesis using single Inl ns ex fin conv
      by (simp add: local_run_def run_with_orchestrator_def Let_def single_result_def exec_id)
  qed
qed

section \<open>Examples\<close>

lemma example_workflow_eval:
  "eval example_workflow 20 = (Inr ''doubled'', 42)" "waits_of example_workflow 20 = 1" "operations_of example_workflow 20 = 3"
  by (simp_all add: example_workflow_def user_outcome_def def_simps MIN_WAIT_SECONDS_def)

lemma example_limits:
  "to_json (ru_input (example_runner wk)) ''go'' = Inr ''go''" "(3 :: nat) \<le> 2 ^ 64" "(1 :: nat) \<le> MAX_ITERATIONS"
  "collision_free (\<lambda>m. m) {(''u1'', of_nat i) | i. i < 3}"
  by (simp_all add: example_runner_def text_codec_def MAX_ITERATIONS_def) (rule collision_free_short; auto)

theorem local_run_refines_eval_witness:
  "\<exists>r lr' w'. local_run (example_runner example_workflow) True (Inl []) (Some ''go'') (local_runner_new :: unit local_runner)
       (20, example_server) = (Inr r, lr', w') \<and>
     fst w' = 42 \<and> length (tr_invocations r) = 2 \<and> tr_get_result r = Inr ''doubled''"
proof -
  let ?ru = "example_runner example_workflow"
  have "\<exists>r lr' w'. local_run ?ru True (Inl []) (Some ''go'') (local_runner_new :: unit local_runner)
       (20, example_server) = (Inr r, lr', w') \<and> fst w' = snd (eval example_workflow 20) \<and>
     length (tr_invocations r) = Suc (waits_of example_workflow 20) \<and>
     (case fst (eval example_workflow 20) of Inr x \<Rightarrow> tr_get_result r = Inr x | Inl err \<Rightarrow> tr_get_error r = Inr (handler_error err))"
    using example_ids example_workflow_eval(2,3) example_limits
    by (intro local_run_refines_eval [where N = 3, OF example_runner_runs]) (simp_all only: example_runner_host order_refl not_False_eq_True)
  then show ?thesis unfolding example_workflow_eval by (simp add: numeral_2_eq_2)
qed

lemma local_lookups_stale_witness:
  "\<exists>r lr' w' op. local_run (example_runner example_workflow) True (Inl []) (Some ''go'') (local_runner_new :: unit local_runner)
       (20, example_server) = (Inr r, lr', w') \<and> \<not> tr_is_running r \<and>
     op \<in> set (lr_get_all_operations lr') \<and> op_type op = WaitOp \<and> op_status op = Started"
  using example_ids example_workflow_eval(2,3) example_limits
  by (intro local_lookups_stale [where N = 3, OF example_runner_runs])
    (simp_all only: example_runner_host order_refl not_False_eq_True one_neq_zero)

definition finishing_runner :: "(nat, string, string) runner" where
  "finishing_runner = \<lparr>ru_hosts = (\<lambda>_. example_host), ru_input = text_codec, ru_output = text_codec,
     ru_handler = (\<lambda>i sp. (Inr ''done'', sp)), ru_pause = (\<lambda>w. w)\<rparr>"

lemma finishing_single:
  "case run_single_invocation finishing_runner ''go'' (local_runner_new :: unit local_runner) (20, example_server) of
     (Inl e, lr1, w1) \<Rightarrow> False | (Inr res, lr1, w1) \<Rightarrow> tr_get_result res = Inr ''done'' \<and> \<not> tr_is_running res"
  by code_simp

theorem single_invocation_agrees_witness:
  "\<exists>res lr1 w1 lr2. run_single_invocation finishing_runner ''go'' (local_runner_new :: unit local_runner) (20, example_server) = (Inr res, lr1, w1) \<and>
     tr_get_result res = Inr ''done'' \<and>
     local_run finishing_runner True (Inl []) (Some ''go'') (local_runner_new :: unit local_runner) (20, example_server) = (Inr res, lr2, w1)"
proof -
  obtain res lr1 w1 where r: "run_single_invocation finishing_runner ''go'' (local_runner_new :: unit local_runner) (20, example_server) = (Inr res, lr1, w1)"
    "tr_get_result res = Inr ''done''" "\<not> tr_is_running res"
    using finishing_single by (auto split: prod.splits sum.splits)
  from single_invocation_agrees [OF r(1,3), of True "Inl []"] r show ?thesis by blast
qed

lemma finishing_run:
  "case local_run finishing_runner True (Inl []) (Some ''go'') (local_runner_new :: unit local_runner) (20, example_server) of
     (Inl e, lr1, w1) \<Rightarrow> False | (Inr res, lr1, w1) \<Rightarrow> map op_type (lr_get_all_operations lr1) = [ExecutionOp]"
  by code_simp

lemma local_lookup_is_search_witness:
  "\<exists>res lr' w' op. local_run finishing_runner True (Inl []) (Some ''go'') (local_runner_new :: unit local_runner) (20, example_server) = (Inr res, lr', w') \<and>
     lr_get_operation (ByIndex 0) lr' = Some op \<and> op_type op = ExecutionOp"
proof -
  obtain res lr' w' where r: "local_run finishing_runner True (Inl []) (Some ''go'') (local_runner_new :: unit local_runner) (20, example_server) = (Inr res, lr', w')"
    "map op_type (lr_get_all_operations lr') = [ExecutionOp]"
    using finishing_run by (auto split: prod.splits sum.splits)
  then obtain op where "lr_get_all_operations lr' = [op]" "op_type op = ExecutionOp" by (cases "lr_get_all_operations lr'") auto
  with local_lookup_is_search [OF r(1), of "ByIndex 0"] r(1) show ?thesis by (simp add: match_operation_def)
qed

end
