(* ===== verification/Batcher.thy ===== *)
theory Batcher
  imports Service Operation_Store "HOL-Library.Multiset"
begin

text \<open>
  \<open>sdk/src/state/batcher.rs\<close>: the requests of the checkpoint queue, the collection of a batch
  under its three limits, the order a batch is sent in, one batch's round trip with the
  distribution of its outcome to the waiting callers, and the batcher's main loop.

  A completion channel is its number. The queue is the list of the requests that will arrive before
  it is closed, each with its time of arrival. \<open>slice::sort_by\<close> is the insertion sort that the
  standard library runs on slices of up to twenty elements; on a comparator that is a total order
  every stable sort gives the same result. \<open>is_ancestor\<close> follows parent pointers in a loop that
  has no other bound, so \<open>None\<close> stands for a call that does not return.
\<close>

record batcher_config =
  bc_max_batch_size_bytes :: nat
  bc_max_batch_time_ms :: nat
  bc_max_batch_operations :: nat

definition batcher_config_default :: batcher_config where
  "batcher_config_default = \<lparr>bc_max_batch_size_bytes = 750 * 1024, bc_max_batch_time_ms = 1000,
     bc_max_batch_operations = 2 ^ 64 - 1\<rparr>"

record checkpoint_request =
  rq_operation :: operation_update
  rq_completion :: "nat option"

definition request_sync :: "nat \<Rightarrow> operation_update \<Rightarrow> checkpoint_request" where
  "request_sync k u = \<lparr>rq_operation = u, rq_completion = Some k\<rparr>"

definition request_async :: "operation_update \<Rightarrow> checkpoint_request" where
  "request_async u = \<lparr>rq_operation = u, rq_completion = None\<rparr>"

definition request_is_sync :: "checkpoint_request \<Rightarrow> bool" where
  "request_is_sync rq = (rq_completion rq \<noteq> None)"

definition option_size :: "('a \<Rightarrow> nat) \<Rightarrow> 'a option \<Rightarrow> nat" where
  "option_size f x = (case x of Some y \<Rightarrow> f y | None \<Rightarrow> 0)"

definition estimated_size :: "checkpoint_request \<Rightarrow> nat" where
  "estimated_size rq = (let op = rq_operation rq in
     100 + length (up_id op) + option_size length (up_result op) +
     option_size (\<lambda>e. length (eo_message e) + length (eo_type e)) (up_error op) +
     option_size length (up_parent_id op) + option_size length (up_name op))"

section \<open>Collecting a batch\<close>

fun collect_more ::
  "batcher_config \<Rightarrow> nat \<Rightarrow> nat \<Rightarrow> nat \<Rightarrow> checkpoint_request list \<Rightarrow>
   (nat \<times> checkpoint_request) list \<Rightarrow> checkpoint_request list \<times> (nat \<times> checkpoint_request) list"
where
  "collect_more cfg deadline now batch_size batch [] = (batch, [])"
| "collect_more cfg deadline now batch_size batch ((t, rq) # queue) =
     (if length batch \<ge> bc_max_batch_operations cfg then (batch, (t, rq) # queue)
      else if now \<ge> deadline then (batch, (t, rq) # queue)
      else if t > deadline then (batch, (t, rq) # queue)
      else
        (let request_size = estimated_size rq in
         if batch_size + request_size > bc_max_batch_size_bytes cfg \<and> batch \<noteq> []
         then (batch @ [rq], queue)
         else collect_more cfg deadline (max now t) (batch_size + request_size) (batch @ [rq]) queue))"

definition collect_batch ::
  "batcher_config \<Rightarrow> nat \<Rightarrow> (nat \<times> checkpoint_request) list \<Rightarrow>
   checkpoint_request list \<times> (nat \<times> checkpoint_request) list"
where
  "collect_batch cfg now queue =
     (let deadline = now + bc_max_batch_time_ms cfg in
      case queue of
        [] \<Rightarrow> ([], [])
      | (t, rq) # queue' \<Rightarrow> collect_more cfg deadline (max now t) (estimated_size rq) [rq] queue')"

section \<open>The order of a batch\<close>

definition is_execution_completion :: "operation_update \<Rightarrow> bool" where
  "is_execution_completion u = (up_type u = ExecutionOp \<and> up_action u \<in> {Succeed, Fail})"

definition context_starts :: "checkpoint_request list \<Rightarrow> string list" where
  "context_starts batch = map (\<lambda>rq. up_id (rq_operation rq))
     (filter (\<lambda>rq. up_type (rq_operation rq) = ContextOp \<and> up_action (rq_operation rq) = Start) batch)"

definition parent_map :: "checkpoint_request list \<Rightarrow> (string \<times> string option) list" where
  "parent_map batch = fold (\<lambda>rq m.
     hm_insert (up_id (rq_operation rq)) (up_parent_id (rq_operation rq)) m) batch []"

definition parent_of :: "(string \<times> string option) list \<Rightarrow> string \<Rightarrow> string option" where
  "parent_of pm i = Option.bind (hm_get pm i) id"

partial_function (option) walk_ancestors ::
  "(string \<times> string option) list \<Rightarrow> string \<Rightarrow> string option \<Rightarrow> bool option" where
  "walk_ancestors pm ancestor current = (case current of
     None \<Rightarrow> Some False
   | Some p \<Rightarrow> if p = ancestor then Some True else walk_ancestors pm ancestor (parent_of pm p))"

definition is_ancestor :: "(string \<times> string option) list \<Rightarrow> string \<Rightarrow> string \<Rightarrow> bool option" where
  "is_ancestor pm i ancestor = walk_ancestors pm ancestor (parent_of pm i)"

text \<open>Whether the update \<open>b\<close> is the CONTEXT START of a parent or further ancestor of \<open>a\<close>.\<close>

definition below_context_start ::
  "string list \<Rightarrow> (string \<times> string option) list \<Rightarrow> operation_update \<Rightarrow> operation_update \<Rightarrow> bool option"
where
  "below_context_start starts pm a b =
     (if up_action b = Start \<and> up_id b \<in> set starts then
        (case up_parent_id a of
           Some p \<Rightarrow> if p = up_id b then Some True else is_ancestor pm (up_id a) (up_id b)
         | None \<Rightarrow> Some False)
      else Some False)"

datatype ordering = Less | Equal | Greater

definition compare_nat :: "nat \<Rightarrow> nat \<Rightarrow> ordering" where
  "compare_nat a b = (if a < b then Less else if a = b then Equal else Greater)"

text \<open>The comparator. The first rule that applies decides.\<close>

definition compare_requests ::
  "string list \<Rightarrow> (string \<times> string option) list \<Rightarrow> nat \<times> checkpoint_request \<Rightarrow>
   nat \<times> checkpoint_request \<Rightarrow> ordering option"
where
  "compare_requests starts pm x y =
     (case (x, y) of ((idx_a, ra), (idx_b, rb)) \<Rightarrow>
       let a = rq_operation ra; b = rq_operation rb;
           a_exec = is_execution_completion a; b_exec = is_execution_completion b
       in if a_exec \<and> \<not> b_exec then Some Greater
          else if \<not> a_exec \<and> b_exec then Some Less
          else Option.bind (below_context_start starts pm a b) (\<lambda>a_below.
            if a_below then Some Greater
            else Option.bind (below_context_start starts pm b a) (\<lambda>b_below.
              if b_below then Some Less
              else
                (let a_start = (up_action a = Start); b_start = (up_action b = Start) in
                 if up_id a = up_id b \<and> a_start \<and> \<not> b_start then Some Less
                 else if up_id a = up_id b \<and> \<not> a_start \<and> b_start then Some Greater
                 else Some (compare_nat idx_a idx_b)))))"

text \<open>Insertion from the right end into a sorted prefix, which is kept reversed.\<close>

fun insert_tail :: "('a \<Rightarrow> 'a \<Rightarrow> ordering option) \<Rightarrow> 'a \<Rightarrow> 'a list \<Rightarrow> 'a list option" where
  "insert_tail cmp x [] = Some [x]"
| "insert_tail cmp x (y # ys) = (case cmp x y of
     None \<Rightarrow> None
   | Some Less \<Rightarrow> map_option (\<lambda>zs. y # zs) (insert_tail cmp x ys)
   | Some _ \<Rightarrow> Some (x # y # ys))"

fun sort_by_onto :: "('a \<Rightarrow> 'a \<Rightarrow> ordering option) \<Rightarrow> 'a list \<Rightarrow> 'a list \<Rightarrow> 'a list option" where
  "sort_by_onto cmp acc [] = Some (rev acc)"
| "sort_by_onto cmp acc (x # xs) =
     Option.bind (insert_tail cmp x acc) (\<lambda>acc'. sort_by_onto cmp acc' xs)"

definition sort_by :: "('a \<Rightarrow> 'a \<Rightarrow> ordering option) \<Rightarrow> 'a list \<Rightarrow> 'a list option" where
  "sort_by cmp xs = sort_by_onto cmp [] xs"

definition sort_checkpoint_batch :: "checkpoint_request list \<Rightarrow> checkpoint_request list option" where
  "sort_checkpoint_batch batch =
     (if length batch \<le> 1 then Some batch
      else map_option (map snd)
        (sort_by (compare_requests (context_starts batch) (parent_map batch)) (enumerate 0 batch)))"

section \<open>Sending a batch\<close>

record batcher =
  bt_arn :: string
  bt_token :: string
  bt_initial_token_consumed :: bool
  bt_outcomes :: "(nat \<times> (durable_error + unit)) list"

definition batcher_new :: "string \<Rightarrow> string \<Rightarrow> batcher" where
  "batcher_new arn token = \<lparr>bt_arn = arn, bt_token = token, bt_initial_token_consumed = False,
     bt_outcomes = []\<rparr>"

definition batch_error :: "durable_error \<Rightarrow> durable_error" where
  "batch_error e = Checkpoint
     (if is_invalid_checkpoint_token e
      then ''Invalid checkpoint token - token may have been consumed. '' @
           ''Lambda will retry with a fresh token. Original error: '' @ display_error e
      else display_error e)
     (is_retriable e) None"

definition checkpoint_with_retry ::
  "'w services \<Rightarrow> string \<Rightarrow> string \<Rightarrow> operation_update list \<Rightarrow> 'w \<Rightarrow>
   (durable_error + checkpoint_response) \<times> 'w" where
  "checkpoint_with_retry sv arn token ops w =
     throttle_retry (sv_checkpoint sv arn token ops) (sv_sleep sv) 0 INITIAL_DELAY_MS w"

definition completions_of :: "checkpoint_request list \<Rightarrow> nat list" where
  "completions_of batch = List.map_filter rq_completion batch"

definition process_batch ::
  "'w services \<Rightarrow> checkpoint_request list \<Rightarrow> batcher \<times> 'w \<Rightarrow> (batcher \<times> 'w) option" where
  "process_batch sv batch bw =
     (case bw of (b, w) \<Rightarrow>
       if batch = [] then Some (b, w)
       else Option.bind (sort_checkpoint_batch batch) (\<lambda>sorted.
         case checkpoint_with_retry sv (bt_arn b) (bt_token b) (map rq_operation sorted) w of
           (Inr r, w1) \<Rightarrow> Some
             (b\<lparr>bt_initial_token_consumed := True, bt_token := rsp_checkpoint_token r,
                bt_outcomes := bt_outcomes b @ map (\<lambda>k. (k, Inr ())) (completions_of sorted)\<rparr>, w1)
         | (Inl e, w1) \<Rightarrow> Some
             (b\<lparr>bt_outcomes := bt_outcomes b @
                  map (\<lambda>k. (k, Inl (batch_error e))) (completions_of sorted)\<rparr>, w1)))"

text \<open>\<open>clock\<close> is the time at which the loop comes round to collect the next batch.\<close>

lemma collect_more_length:
  "length (snd (collect_more cfg dl now n batch queue)) \<le> length queue"
  by (induction cfg dl now n batch queue rule: collect_more.induct) (auto simp: Let_def)

lemma collect_batch_shrinks:
  assumes "collect_batch cfg now queue = (batch, rest)" "batch \<noteq> []"
  shows "length rest < length queue"
proof (cases queue)
  case (Cons p queue')
  with assms(1) show ?thesis
    using collect_more_length [of cfg "now + bc_max_batch_time_ms cfg" "max now (fst p)"
        "estimated_size (snd p)" "[snd p]" queue']
    by (simp add: collect_batch_def Let_def split_beta)
qed (use assms in \<open>simp add: collect_batch_def\<close>)

function run_batcher ::
  "batcher_config \<Rightarrow> 'w services \<Rightarrow> ('w \<Rightarrow> nat) \<Rightarrow> (nat \<times> checkpoint_request) list \<Rightarrow>
   batcher \<times> 'w \<Rightarrow> (batcher \<times> 'w) option"
where
  "run_batcher cfg sv clock queue bw =
     (case collect_batch cfg (clock (snd bw)) queue of (batch, rest) \<Rightarrow>
        if batch = [] then Some bw
        else Option.bind (process_batch sv batch bw) (run_batcher cfg sv clock rest))"
  by pat_completeness auto
termination
proof (relation "measure (\<lambda>(cfg, sv, clock, queue, bw). length queue)", goal_cases)
  case 1
  then show ?case by simp
next
  case 2
  then show ?case by (auto dest!: collect_batch_shrinks [OF sym])
qed

declare run_batcher.simps [simp del]

end
