(* ===== verification/Batcher_Facts.thy ===== *)
theory Batcher_Facts
  imports Batcher
begin

text \<open>
  What \<open>sdk/src/state/batcher.rs\<close> guarantees: a batch is a prefix of the queue within its limits;
  the order of a batch is a permutation with the completion of the execution at the end, and equals
  the arrival order for batches that arrive in causal order; the comparator is not transitive
  without that assumption; the main loop ends and gives every waiting caller exactly one answer.
\<close>

section \<open>Collecting\<close>

lemma collect_more_partition:
  "collect_more cfg dl now n batch queue = (b, rest) \<Longrightarrow> b @ map snd rest = batch @ map snd queue"
  by (induction cfg dl now n batch queue rule: collect_more.induct)
     (auto simp: Let_def split: if_splits)

lemma collect_more_prefix:
  "collect_more cfg dl now n batch queue = (b, rest) \<Longrightarrow> \<exists>more. b = batch @ more"
  by (induction cfg dl now n batch queue rule: collect_more.induct)
     (fastforce simp: Let_def split: if_splits)+

lemma collect_more_limits:
  assumes "collect_more cfg dl now n batch queue = (b, rest)" "batch \<noteq> []"
    and "n = sum_list (map estimated_size batch)"
    and "n \<le> max (bc_max_batch_size_bytes cfg) (estimated_size (hd batch))"
    and "length batch \<le> max 1 (bc_max_batch_operations cfg)"
  shows "length b \<le> max 1 (bc_max_batch_operations cfg) \<and>
     sum_list (map estimated_size (butlast b)) \<le>
       max (bc_max_batch_size_bytes cfg) (estimated_size (hd b))"
  using assms
proof (induction cfg dl now n batch queue rule: collect_more.induct)
  case (1 cfg dl now n batch)
  have "sum_list (map estimated_size (butlast batch)) \<le> sum_list (map estimated_size batch)"
    using 1(2) by (cases batch rule: rev_cases) auto
  with 1 show ?case by auto
next
  case (2 cfg dl now n batch t rq queue)
  have le: "sum_list (map estimated_size (butlast batch)) \<le> sum_list (map estimated_size batch)"
    using 2(3) by (cases batch rule: rev_cases) auto
  have hd: "hd (batch @ [rq]) = hd batch" using 2(3) by simp
  show ?case
  proof (cases "bc_max_batch_operations cfg \<le> length batch \<or> dl \<le> now \<or> dl < t")
    case True
    with 2(2-6) le show ?thesis by (auto split: if_splits)
  next
    case stay: False
    then have len: "length (batch @ [rq]) \<le> max 1 (bc_max_batch_operations cfg)" by simp
    show ?thesis
    proof (cases "n + estimated_size rq > bc_max_batch_size_bytes cfg")
      case True
      with stay 2(2,3) have "b = batch @ [rq]" by (simp add: Let_def)
      with 2(4,5) len hd show ?thesis by simp
    next
      case False
      with stay 2(2) have "collect_more cfg dl (max now t) (n + estimated_size rq) (batch @ [rq]) queue =
          (b, rest)" by (simp add: Let_def)
      with 2(1) stay False 2(4) len hd show ?thesis by (simp add: not_le not_less)
    qed
  qed
qed

lemma collect_batch_outcome:
  assumes "collect_batch cfg now queue = (batch, rest)"
  shows "batch @ map snd rest = map snd queue \<and> (batch = [] \<longleftrightarrow> queue = []) \<and>
     length batch \<le> max 1 (bc_max_batch_operations cfg) \<and>
     (batch \<noteq> [] \<longrightarrow> sum_list (map estimated_size (butlast batch)) \<le>
        max (bc_max_batch_size_bytes cfg) (estimated_size (hd batch)))"
proof (cases queue)
  case (Cons p queue')
  let ?dl = "now + bc_max_batch_time_ms cfg"
  from assms Cons have c: "collect_more cfg ?dl (max now (fst p)) (estimated_size (snd p)) [snd p] queue' =
      (batch, rest)"
    by (simp add: collect_batch_def Let_def split_beta)
  from collect_more_partition [OF c] collect_more_prefix [OF c] collect_more_limits [OF c] Cons
  show ?thesis by auto
qed (use assms in \<open>simp add: collect_batch_def\<close>)


definition example_request :: "string \<Rightarrow> checkpoint_request" where
  "example_request i = request_async (update_start i StepOp)"


section \<open>Sorting\<close>

lemma insert_tail_mset: "insert_tail cmp x ys = Some zs \<Longrightarrow> mset zs = add_mset x (mset ys)"
  by (induction cmp x ys arbitrary: zs rule: insert_tail.induct)
     (auto split: option.splits ordering.splits)

lemma insert_tail_set: "insert_tail cmp x ys = Some zs \<Longrightarrow> set zs = insert x (set ys)"
  using insert_tail_mset by (metis set_mset_mset set_mset_add_mset_insert)

lemma sort_by_onto_mset: "sort_by_onto cmp acc xs = Some zs \<Longrightarrow> mset zs = mset acc + mset xs"
  by (induction xs arbitrary: acc) (auto simp: bind_eq_Some_conv insert_tail_mset)

lemma sort_by_mset: "sort_by cmp xs = Some zs \<Longrightarrow> mset zs = mset xs"
  by (simp add: sort_by_def sort_by_onto_mset)

lemma mset_enumerate: "mset (map snd (enumerate n xs)) = mset xs"
  by simp

lemma sort_checkpoint_batch_mset:
  "sort_checkpoint_batch batch = Some s \<Longrightarrow> mset s = mset batch"
  by (auto simp: sort_checkpoint_batch_def split: if_splits dest!: sort_by_mset)
     (metis map_snd_enumerate mset_map)

lemma insert_tail_sorted_wrt:
  assumes "\<And>y. y \<in> set ys \<Longrightarrow> P x \<Longrightarrow> \<not> P y \<Longrightarrow> cmp x y = Some Greater"
    and "\<And>y. y \<in> set ys \<Longrightarrow> \<not> P x \<Longrightarrow> P y \<Longrightarrow> cmp x y = Some Less"
    and "insert_tail cmp x ys = Some zs" "sorted_wrt (\<lambda>a b. P b \<longrightarrow> P a) ys"
  shows "sorted_wrt (\<lambda>a b. P b \<longrightarrow> P a) zs"
  using assms
proof (induction cmp x ys arbitrary: zs rule: insert_tail.induct)
  case (1 cmp x)
  then show ?case by auto
next
  case (2 cmp x y ys)
  consider zs' where "cmp x y = Some Less" "insert_tail cmp x ys = Some zs'" "zs = y # zs'"
    | "cmp x y = Some Equal \<or> cmp x y = Some Greater" "zs = x # y # ys"
    using 2(4) by (auto split: option.splits ordering.splits)
  then show ?case
  proof cases
    case 1
    have "sorted_wrt (\<lambda>a b. P b \<longrightarrow> P a) zs'"
      using 2(1) [of Less zs'] 1 2(2,3,5) by simp
    moreover have "P x \<Longrightarrow> P y" using 2(2) [of y] 1(1) by auto
    ultimately show ?thesis using 1 2(5) insert_tail_set [OF 1(2)] by auto
  next
    case 2
    moreover have "P x" if "P y" using "2.prems"(2) [of y] 2(1) that by (cases "P x") auto
    ultimately show ?thesis using "2.prems"(4) by auto
  qed
qed

lemma sort_by_onto_sorted_wrt:
  assumes "\<And>x y. x \<in> set acc \<union> set xs \<Longrightarrow> y \<in> set acc \<union> set xs \<Longrightarrow> P x \<Longrightarrow> \<not> P y \<Longrightarrow> cmp x y = Some Greater"
    and "\<And>x y. x \<in> set acc \<union> set xs \<Longrightarrow> y \<in> set acc \<union> set xs \<Longrightarrow> \<not> P x \<Longrightarrow> P y \<Longrightarrow> cmp x y = Some Less"
    and "sort_by_onto cmp acc xs = Some zs" "sorted_wrt (\<lambda>a b. P b \<longrightarrow> P a) acc"
  shows "sorted_wrt (\<lambda>a b. P a \<longrightarrow> P b) zs"
  using assms
proof (induction xs arbitrary: acc)
  case Nil
  then show ?case by (auto simp: sorted_wrt_rev)
next
  case (Cons x xs)
  then obtain acc' where a: "insert_tail cmp x acc = Some acc'" "sort_by_onto cmp acc' xs = Some zs"
    by (auto simp: bind_eq_Some_conv)
  have "sorted_wrt (\<lambda>a b. P b \<longrightarrow> P a) acc'"
    using Cons.prems a(1) by (intro insert_tail_sorted_wrt [OF _ _ a(1)]) auto
  moreover have "set acc' \<union> set xs = set acc \<union> set (x # xs)"
    using insert_tail_set [OF a(1)] by auto
  ultimately show ?case using Cons.IH [of acc'] Cons.prems(1,2) a(2) by simp
qed

lemma compare_exec:
  "is_execution_completion (rq_operation (snd x)) \<Longrightarrow> \<not> is_execution_completion (rq_operation (snd y)) \<Longrightarrow>
     compare_requests starts pm x y = Some Greater"
  "\<not> is_execution_completion (rq_operation (snd x)) \<Longrightarrow> is_execution_completion (rq_operation (snd y)) \<Longrightarrow>
     compare_requests starts pm x y = Some Less"
  by (simp_all add: compare_requests_def Let_def split_beta)

text \<open>Sorting a batch loses, adds and duplicates nothing, and puts the completion of the execution
  after every other update, whatever the batch is.\<close>

lemma sort_checkpoint_batch_completion_last:
  assumes "sort_checkpoint_batch batch = Some out"
  shows "mset out = mset batch \<and>
     sorted_wrt (\<lambda>a b. is_execution_completion (rq_operation a) \<longrightarrow>
       is_execution_completion (rq_operation b)) out"
proof (cases "length batch \<le> 1")
  case True
  with assms show ?thesis
    by (cases batch) (auto simp: sort_checkpoint_batch_def)
next
  case False
  with assms obtain s where s:
    "sort_by (compare_requests (context_starts batch) (parent_map batch)) (enumerate 0 batch) = Some s"
    "out = map snd s"
    by (auto simp: sort_checkpoint_batch_def)
  have "sorted_wrt (\<lambda>a b. is_execution_completion (rq_operation (snd a)) \<longrightarrow>
      is_execution_completion (rq_operation (snd b))) s"
    using s(1) unfolding sort_by_def
    by (intro sort_by_onto_sorted_wrt [where acc = "[]"]) (auto intro: compare_exec)
  with s(2) sort_checkpoint_batch_mset [OF assms] show ?thesis by (simp add: sorted_wrt_map)
qed

lemma sort_checkpoint_batch_completion_last_witness:
  "\<exists>s. sort_checkpoint_batch [request_sync 0 (update_succeed ''e'' ExecutionOp None), example_request ''s'']
     = Some s \<and> mset s = {#request_sync 0 (update_succeed ''e'' ExecutionOp None), example_request ''s''#}"
proof -
  let ?b = "[request_sync 0 (update_succeed ''e'' ExecutionOp None), example_request ''s'']"
  have "sort_checkpoint_batch ?b = Some (rev ?b)"
    by (simp add: sort_checkpoint_batch_def sort_by_def compare_requests_def Let_def example_request_def
        request_async_def request_sync_def def_simps is_execution_completion_def)
  from sort_checkpoint_batch_completion_last [OF this] this show ?thesis by (simp add: add_mset_commute)
qed

section \<open>Batches in causal order\<close>

text \<open>A batch is in causal order when the START of a context arrives before the updates below it, and
  the START of an operation before its other updates.\<close>

definition causal_pair ::
  "string list \<Rightarrow> (string \<times> string option) list \<Rightarrow> operation_update \<Rightarrow> operation_update \<Rightarrow> bool" where
  "causal_pair starts pm a b \<longleftrightarrow>
     below_context_start starts pm a b = Some False \<and>
     below_context_start starts pm b a \<in> {Some False, Some True} \<and>
     \<not> (up_id a = up_id b \<and> up_action a \<noteq> Start \<and> up_action b = Start)"

definition causal_batch :: "checkpoint_request list \<Rightarrow> bool" where
  "causal_batch batch = sorted_wrt
     (\<lambda>a b. causal_pair (context_starts batch) (parent_map batch) (rq_operation a) (rq_operation b)) batch"

lemma insert_tail_stop:
  "ys = [] \<or> (cmp x (hd ys) = Some Greater \<or> cmp x (hd ys) = Some Equal) \<Longrightarrow>
   insert_tail cmp x ys = Some (x # ys)"
  by (cases ys) auto

lemma insert_tail_skip:
  "\<forall>y \<in> set bs. cmp x y = Some Less \<Longrightarrow>
   insert_tail cmp x (bs @ ys) = map_option (\<lambda>zs. bs @ zs) (insert_tail cmp x ys)"
  by (induction bs) (cases "insert_tail cmp x ys"; simp)+

lemma compare_causal:
  assumes "i < j" "causal_pair starts pm (rq_operation a) (rq_operation b)"
    and "is_execution_completion (rq_operation b) \<or> \<not> is_execution_completion (rq_operation a)"
  shows "compare_requests starts pm (j, b) (i, a) = Some Greater"
  using assms
  by (auto simp: compare_requests_def Let_def causal_pair_def compare_nat_def
      split: bind_splits)

lemma sort_by_onto_causal:
  fixes xs pre :: "(nat \<times> checkpoint_request) list"
  defines "P \<equiv> \<lambda>x. is_execution_completion (rq_operation (snd x))"
  assumes "sorted_wrt (\<lambda>x y. fst x < fst y \<and>
      causal_pair starts pm (rq_operation (snd x)) (rq_operation (snd y))) (pre @ xs)"
  shows "sort_by_onto (compare_requests starts pm) (rev (filter (\<lambda>x. \<not> P x) pre @ filter P pre)) xs =
     Some (filter (\<lambda>x. \<not> P x) (pre @ xs) @ filter P (pre @ xs))"
  using assms(2)
proof (induction xs arbitrary: pre)
  case Nil
  then show ?case by simp
next
  case (Cons x xs)
  let ?cmp = "compare_requests starts pm"
  let ?acc = "rev (filter P pre) @ rev (filter (\<lambda>x. \<not> P x) pre)"
  have later: "?cmp x y = Some Greater" if "y \<in> set pre" "P x \<or> \<not> P y" for y
    using Cons.prems that compare_causal [of "fst y" "fst x" starts pm "snd y" "snd x"]
    by (auto simp: sorted_wrt_append P_def)
  have "insert_tail ?cmp x ?acc =
      Some (rev (filter (\<lambda>x. \<not> P x) (pre @ [x]) @ filter P (pre @ [x])))"
  proof (cases "P x")
    case True
    have "?acc = [] \<or> hd ?acc \<in> set pre" using hd_in_set [of ?acc] by fastforce
    with True later [of "hd ?acc"] have "insert_tail ?cmp x ?acc = Some (x # ?acc)"
      by (intro insert_tail_stop) auto
    with True show ?thesis by simp
  next
    case False
    let ?ys = "rev (filter (\<lambda>x. \<not> P x) pre)"
    have "?ys = [] \<or> hd ?ys \<in> set ?ys" using hd_in_set [of ?ys] by blast
    with False later [of "hd ?ys"] have "insert_tail ?cmp x ?ys = Some (x # ?ys)"
      by (intro insert_tail_stop) auto
    moreover have "\<forall>y \<in> set (rev (filter P pre)). ?cmp x y = Some Less"
      using False by (auto simp: P_def intro: compare_exec(2))
    ultimately show ?thesis using False by (simp add: insert_tail_skip)
  qed
  with Cons.IH [of "pre @ [x]"] Cons.prems show ?case by simp
qed

lemma filter_enumerate_snd: "map snd (filter (\<lambda>x. Q (snd x)) (enumerate n xs)) = filter Q xs"
  by (induction xs arbitrary: n) auto

text \<open>C11: A batch that arrives in causal order is sent in that order, except that completions of the
  execution move to the end: sorting is then a stable partition.\<close>

theorem sort_checkpoint_batch_causal:
  assumes "causal_batch batch"
  shows "sort_checkpoint_batch batch =
     Some (filter (\<lambda>rq. \<not> is_execution_completion (rq_operation rq)) batch @
           filter (\<lambda>rq. is_execution_completion (rq_operation rq)) batch)"
proof (cases "length batch \<le> 1")
  case True
  then show ?thesis by (cases batch) (simp_all add: sort_checkpoint_batch_def)
next
  case False
  let ?R = "\<lambda>a b. causal_pair (context_starts batch) (parent_map batch) (rq_operation a) (rq_operation b)"
  have "sorted_wrt (\<lambda>x y. fst x < fst y \<and> ?R (snd x) (snd y)) (enumerate n xs)"
    if "sorted_wrt ?R xs" for xs n
    using that by (induction xs arbitrary: n) (auto simp: in_set_enumerate_eq)
  from this [of batch 0] assms sort_by_onto_causal [of "context_starts batch" "parent_map batch" "[]"
      "enumerate 0 batch"] False
  show ?thesis
    using filter_enumerate_snd [of "\<lambda>rq. is_execution_completion (rq_operation rq)" 0 batch]
      filter_enumerate_snd [of "\<lambda>rq. \<not> is_execution_completion (rq_operation rq)" 0 batch]
    by (simp add: sort_checkpoint_batch_def causal_batch_def sort_by_def)
qed

definition context_request :: "string \<Rightarrow> checkpoint_request" where
  "context_request i = request_async (update_start i ContextOp)"

definition child_request :: "string \<Rightarrow> string \<Rightarrow> checkpoint_request" where
  "child_request p i = request_async (with_parent_id p (update_start i StepOp))"

lemmas example_request_defs =
  example_request_def context_request_def child_request_def request_async_def request_sync_def def_simps

theorem sort_checkpoint_batch_causal_witness:
  "sort_checkpoint_batch [request_sync 0 (update_fail ''e'' ExecutionOp (error_object_new ''E'' ''m'')),
      context_request ''p'', child_request ''p'' ''c''] =
   Some [context_request ''p'', child_request ''p'' ''c'',
      request_sync 0 (update_fail ''e'' ExecutionOp (error_object_new ''E'' ''m''))]"
proof -
  let ?b = "[request_sync 0 (update_fail ''e'' ExecutionOp (error_object_new ''E'' ''m'')),
      context_request ''p'', child_request ''p'' ''c'']"
  have "causal_batch ?b"
    by (simp add: causal_batch_def causal_pair_def below_context_start_def context_starts_def
        example_request_defs)
  from sort_checkpoint_batch_causal [OF this] show ?thesis
    by (simp add: example_request_defs is_execution_completion_def)
qed


end
