(* ===== verification/Batcher_Run.thy ===== *)
theory Batcher_Run
  imports Batcher_Facts
begin

text \<open>
  The main loop of \<open>sdk/src/state/batcher.rs\<close>: it ends when the queue is closed, every caller that
  waits for a batch gets exactly one answer, and the token moves on only with an accepted batch.
  Both rest on the parent pointers of a batch being ranked, so that \<open>is_ancestor\<close> returns.
\<close>

section \<open>Ancestor walks\<close>

text \<open>Identifiers of children are longer paths than those of their parents; a rank states that
  without fixing the identifiers.\<close>

definition ranked :: "(string \<Rightarrow> nat) \<Rightarrow> checkpoint_request list \<Rightarrow> bool" where
  "ranked rank batch \<longleftrightarrow> (\<forall>rq \<in> set batch. \<forall>p. up_parent_id (rq_operation rq) = Some p \<longrightarrow>
     rank p < rank (up_id (rq_operation rq)))"

lemma ranked_append [simp]: "ranked rank (xs @ ys) \<longleftrightarrow> ranked rank xs \<and> ranked rank ys"
  by (auto simp: ranked_def)

lemma parent_of_rank:
  assumes "ranked rank batch" "parent_of (parent_map batch) i = Some p"
  shows "rank p < rank i"
proof -
  have "\<forall>i p. hm_get (fold (\<lambda>rq m. hm_insert (up_id (rq_operation rq)) (up_parent_id (rq_operation rq)) m)
      xs []) i = Some (Some p) \<longrightarrow> rank p < rank i" if "ranked rank xs" for xs
    using that
  proof (induction xs rule: rev_induct)
    case Nil
    then show ?case by (simp add: hm_get_def)
  next
    case (snoc x xs)
    then show ?case by (auto simp: hm_get_insert ranked_def)
  qed
  with assms show ?thesis
    by (auto simp: parent_of_def parent_map_def bind_eq_Some_conv)
qed

lemma walk_ancestors_returns:
  assumes "ranked rank batch"
  shows "walk_ancestors (parent_map batch) ancestor current \<noteq> None"
proof (cases current)
  case None
  then show ?thesis by (subst walk_ancestors.simps) (simp del: not_None_eq)
next
  case (Some p)
  have "walk_ancestors (parent_map batch) ancestor (Some p) \<noteq> None" for p
  proof (induction "rank p" arbitrary: p rule: less_induct)
    case less
    show ?case
    proof (cases "parent_of (parent_map batch) p")
      case None
      then show ?thesis
        by (subst walk_ancestors.simps) (simp add: walk_ancestors.simps [of _ _ None] del: not_None_eq)
    next
      case (Some q)
      with less parent_of_rank [OF assms Some] show ?thesis
        by (subst walk_ancestors.simps) (simp del: not_None_eq)
    qed
  qed
  with Some show ?thesis by simp
qed

lemma below_context_start_returns:
  assumes "ranked rank batch"
  shows "below_context_start starts (parent_map batch) a b \<noteq> None"
  using walk_ancestors_returns [OF assms, of "up_id b" "parent_of (parent_map batch) (up_id a)"]
  by (auto simp: below_context_start_def is_ancestor_def split: option.split)

lemma compare_requests_returns:
  "ranked rank batch \<Longrightarrow> compare_requests starts (parent_map batch) x y \<noteq> None"
  using below_context_start_returns [of rank batch starts "rq_operation (snd x)" "rq_operation (snd y)"]
    below_context_start_returns [of rank batch starts "rq_operation (snd y)" "rq_operation (snd x)"]
  by (auto simp: compare_requests_def Let_def split_beta split: bind_splits)

lemma insert_tail_returns:
  "(\<And>y. cmp x y \<noteq> None) \<Longrightarrow> insert_tail cmp x ys \<noteq> None"
  by (induction ys) (auto split: option.split ordering.split)

lemma sort_by_onto_returns:
  "(\<And>x y. cmp x y \<noteq> None) \<Longrightarrow> sort_by_onto cmp acc xs \<noteq> None"
proof (induction xs arbitrary: acc)
  case (Cons x xs)
  then show ?case using insert_tail_returns [of cmp x acc] by auto
qed simp

lemma sort_checkpoint_batch_returns:
  assumes "ranked rank batch"
  shows "\<exists>out. sort_checkpoint_batch batch = Some out"
  using sort_by_onto_returns [of "compare_requests (context_starts batch) (parent_map batch)" "[]"
      "enumerate 0 batch"] compare_requests_returns [OF assms]
  by (auto simp: sort_checkpoint_batch_def sort_by_def)

text \<open>A batch with an operation that is its own parent makes \<open>is_ancestor\<close> loop for ever: the
  comparison of such an operation with the START of another context does not return.\<close>

lemma is_ancestor_diverges_on_cycle:
  assumes "parent_of pm i = Some i" "a \<noteq> i"
  shows "is_ancestor pm i a = None"
proof (rule ccontr)
  assume "is_ancestor pm i a \<noteq> None"
  then obtain b where "walk_ancestors pm a (Some i) = Some b"
    by (auto simp: is_ancestor_def assms(1))
  then have "pm = pm \<longrightarrow> a = a \<longrightarrow> Some i \<noteq> Some i"
    by (rule walk_ancestors.raw_induct [where P = "\<lambda>pm' a' cur b. pm' = pm \<longrightarrow> a' = a \<longrightarrow> cur \<noteq> Some i", rotated])
       (use assms in \<open>auto split: option.splits if_splits\<close>)
  then show False by simp
qed

lemma is_ancestor_diverges_on_cycle_witness:
  "is_ancestor (parent_map [child_request ''i'' ''i'']) ''i'' ''a'' = None"
  by (rule is_ancestor_diverges_on_cycle)
     (simp_all add: parent_of_def parent_map_def example_request_defs hm_get_insert)

section \<open>One batch\<close>

lemma completions_of_Nil [simp]: "completions_of [] = []"
  by (simp add: completions_of_def List.map_filter_def)

lemma completions_of_Cons [simp]:
  "completions_of (rq # rqs) =
     (case rq_completion rq of Some k \<Rightarrow> k # completions_of rqs | None \<Rightarrow> completions_of rqs)"
  by (simp add: completions_of_def List.map_filter_def split: option.split)

lemma completions_of_append [simp]: "completions_of (xs @ ys) = completions_of xs @ completions_of ys"
  by (induction xs) (simp_all split: option.split)

lemma completions_of_mset: "mset xs = mset ys \<Longrightarrow> mset (completions_of xs) = mset (completions_of ys)"
  unfolding completions_of_def List.map_filter_def
  by (metis mset_filter mset_map)

text \<open>The answer every caller of one batch gets.\<close>

definition batch_answer :: "(durable_error + checkpoint_response) \<Rightarrow> durable_error + unit" where
  "batch_answer q = (case q of Inr r \<Rightarrow> Inr () | Inl e \<Rightarrow> Inl (batch_error e))"

lemma process_batch_outcomes:
  assumes "process_batch sv batch (b, w) = Some (b', w')" "batch \<noteq> []"
  shows "\<exists>out q. sort_checkpoint_batch batch = Some out \<and>
     checkpoint_with_retry sv (bt_arn b) (bt_token b) (map rq_operation out) w = (q, w') \<and>
     bt_arn b' = bt_arn b \<and>
     bt_outcomes b' = bt_outcomes b @ map (\<lambda>k. (k, batch_answer q)) (completions_of out) \<and>
     bt_token b' = (case q of Inr r \<Rightarrow> rsp_checkpoint_token r | Inl e \<Rightarrow> bt_token b) \<and>
     bt_initial_token_consumed b' =
       (case q of Inr r \<Rightarrow> True | Inl e \<Rightarrow> bt_initial_token_consumed b)"
  proof -
  obtain out where out: "sort_checkpoint_batch batch = Some out"
    using assms by (auto simp: process_batch_def bind_eq_Some_conv)
  obtain q w1 where q: "checkpoint_with_retry sv (bt_arn b) (bt_token b) (map rq_operation out) w = (q, w1)"
    by (cases "checkpoint_with_retry sv (bt_arn b) (bt_token b) (map rq_operation out) w")
  show ?thesis
    using assms out q
    by (intro exI [of _ out] exI [of _ q]) (cases q; auto simp: process_batch_def batch_answer_def)
qed

lemma process_batch_returns: "ranked rank batch \<Longrightarrow> \<exists>bw'. process_batch sv batch bw = Some bw'"
  using sort_checkpoint_batch_returns [of rank batch]
  by (auto simp: process_batch_def split: prod.split sum.split)

text \<open>The callers of one batch all get the same answer, and each of them exactly one: success if
  the service accepted the batch, in which case the token becomes the one of the response, and a
  \<open>Checkpoint\<close> error otherwise, which leaves the token alone, is retriable exactly if the service's
  error is, and is still recognised as an invalid token if the service's error was one.\<close>

lemma process_batch_answers:
  assumes "process_batch sv batch (b, w) = Some (b', w')" "batch \<noteq> []"
  shows "\<exists>q new. bt_outcomes b' = bt_outcomes b @ new \<and>
     mset (map fst new) = mset (completions_of batch) \<and> (\<forall>a \<in> set new. snd a = batch_answer q) \<and>
     (\<forall>r. q = Inr r \<longrightarrow> batch_answer q = Inr () \<and> bt_token b' = rsp_checkpoint_token r) \<and>
     (\<forall>e. q = Inl e \<longrightarrow> bt_token b' = bt_token b \<and> batch_answer q = Inl (batch_error e) \<and>
        is_retriable (batch_error e) = is_retriable e \<and>
        (is_invalid_checkpoint_token e \<longrightarrow> is_invalid_checkpoint_token (batch_error e)))"
proof -
  obtain out q where o: "sort_checkpoint_batch batch = Some out"
    "bt_outcomes b' = bt_outcomes b @ map (\<lambda>k. (k, batch_answer q)) (completions_of out)"
    "bt_token b' = (case q of Inr r \<Rightarrow> rsp_checkpoint_token r | Inl e \<Rightarrow> bt_token b)"
    using process_batch_outcomes [OF assms] by blast
  have "is_invalid_checkpoint_token (batch_error e)" if "is_invalid_checkpoint_token e" for e
  proof -
    have "str_contains (''Invalid checkpoint token'' @ rest) ''Invalid checkpoint token''" for rest
      by (auto simp: str_contains_def)
    then show ?thesis using that by (simp add: batch_error_def str_contains_def)
  qed
  moreover have "mset (completions_of out) = mset (completions_of batch)"
    by (rule completions_of_mset) (rule sort_checkpoint_batch_mset [OF o(1)])
  moreover have "map fst (map (\<lambda>k. (k, batch_answer q)) (completions_of out)) = completions_of out"
    by (simp add: comp_def)
  ultimately show ?thesis using o(2,3)
    by (intro exI [of _ q] exI [of _ "map (\<lambda>k. (k, batch_answer q)) (completions_of out)"])
       (auto simp: batch_answer_def batch_error_def)
qed

lemma process_batch_answers_witness:
  "\<exists>b' w'. process_batch mock_services [request_sync 7 (update_start ''s'' StepOp)]
       (batcher_new ''arn'' ''t'', mock_world_new) = Some (b', w') \<and>
     mset (map fst (bt_outcomes b')) = {#7#}"
proof -
  let ?rq = "request_sync 7 (update_start ''s'' StepOp)"
  have "ranked length [?rq]" by (simp add: ranked_def request_sync_def def_simps)
  then obtain b' w' where p:
    "process_batch mock_services [?rq] (batcher_new ''arn'' ''t'', mock_world_new) = Some (b', w')"
    using process_batch_returns by fastforce
  from process_batch_answers [OF this] p show ?thesis
    by (auto simp: batcher_new_def request_sync_def)
qed

section \<open>The main loop\<close>

lemma run_batcher_Nil: "run_batcher cfg sv clock [] bw = Some bw"
  by (subst run_batcher.simps) (simp add: collect_batch_def)

lemma run_batcher_outcomes:
  assumes "ranked rank (map snd queue)"
  shows "\<exists>b' w'. run_batcher cfg sv clock queue (b, w) = Some (b', w') \<and>
     mset (map fst (bt_outcomes b')) =
       mset (map fst (bt_outcomes b)) + mset (completions_of (map snd queue))"
  using assms
proof (induction "length queue" arbitrary: queue b w rule: less_induct)
  case less
  obtain batch rest where c: "collect_batch cfg (clock w) queue = (batch, rest)"
    by (cases "collect_batch cfg (clock w) queue")
  note spec = collect_batch_outcome [OF c]
  show ?case
  proof (cases "batch = []")
    case True
    with spec show ?thesis
      by (intro exI [of _ b] exI [of _ w]) (simp add: run_batcher_Nil)
  next
    case False
    have rk: "ranked rank batch" "ranked rank (map snd rest)"
      using spec less.prems by (metis ranked_append)+
    obtain b1 w1 where p: "process_batch sv batch (b, w) = Some (b1, w1)"
      using process_batch_returns [OF rk(1), of sv "(b, w)"] by auto
    have "mset (map fst (bt_outcomes b1)) =
        mset (map fst (bt_outcomes b)) + mset (completions_of batch)"
      using process_batch_answers [OF p False] by auto
    moreover obtain b' w' where "run_batcher cfg sv clock rest (b1, w1) = Some (b', w')"
      "mset (map fst (bt_outcomes b')) =
        mset (map fst (bt_outcomes b1)) + mset (completions_of (map snd rest))"
      using less.hyps [OF _ rk(2), of b1 w1] collect_batch_shrinks [OF c False] by auto
    moreover have "completions_of (map snd queue) = completions_of batch @ completions_of (map snd rest)"
      using spec by (metis completions_of_append)
    ultimately show ?thesis using c p False
      by (subst run_batcher.simps) simp
  qed
qed



end
