(* ===== verification/Concurrency.thy ===== *)
theory Concurrency
  imports Config_Model
begin

text \<open>
  \<open>sdk/src/concurrency.rs\<close>: the counters of a concurrent execution, the decision when it is
  complete, the items and the result of a batch, and \<open>ConcurrentExecutor::execute\<close> as a transition
  system. Every spawned task acquires a permit, checks whether the batch is already decided, runs,
  records its item and counts it; the steps of different tasks interleave freely. The two atomic
  increments of one completion are separate steps, because the check of another task may read the
  counters between them. A task may also panic, which ends it without a record.
\<close>

section \<open>Counters\<close>

record execution_counters =
  ec_total_tasks :: nat
  ec_success_count :: nat
  ec_failure_count :: nat
  ec_completed_count :: nat
  ec_suspended_count :: nat

definition counters_new :: "nat \<Rightarrow> execution_counters" where
  "counters_new n = \<lparr>ec_total_tasks = n, ec_success_count = 0, ec_failure_count = 0,
     ec_completed_count = 0, ec_suspended_count = 0\<rparr>"

definition add_completed :: "execution_counters \<Rightarrow> execution_counters" where
  "add_completed c = c\<lparr>ec_completed_count := ec_completed_count c + 1\<rparr>"

definition add_success :: "execution_counters \<Rightarrow> execution_counters" where
  "add_success c = c\<lparr>ec_success_count := ec_success_count c + 1\<rparr>"

definition add_failure :: "execution_counters \<Rightarrow> execution_counters" where
  "add_failure c = c\<lparr>ec_failure_count := ec_failure_count c + 1\<rparr>"

definition complete_task :: "execution_counters \<Rightarrow> nat \<times> execution_counters" where
  "complete_task c = (let c2 = add_success (add_completed c) in (ec_success_count c2, c2))"

definition fail_task :: "execution_counters \<Rightarrow> nat \<times> execution_counters" where
  "fail_task c = (let c2 = add_failure (add_completed c) in (ec_failure_count c2, c2))"

definition suspend_task :: "execution_counters \<Rightarrow> nat \<times> execution_counters" where
  "suspend_task c = (let c2 = c\<lparr>ec_suspended_count := ec_suspended_count c + 1\<rparr>
     in (ec_suspended_count c2, c2))"

definition pending_count :: "execution_counters \<Rightarrow> nat" where
  "pending_count c = ec_total_tasks c - (ec_completed_count c + ec_suspended_count c)"

definition is_min_successful_reached :: "nat \<Rightarrow> execution_counters \<Rightarrow> bool" where
  "is_min_successful_reached m c = (ec_success_count c \<ge> m)"

definition is_failure_tolerance_exceeded :: "completion_config \<Rightarrow> execution_counters \<Rightarrow> bool" where
  "is_failure_tolerance_exceeded cfg c =
     (let failures = ec_failure_count c; total = ec_total_tasks c in
      if (case cc_tolerated_failure_count cfg of Some m \<Rightarrow> failures > m | None \<Rightarrow> False) then True
      else (case cc_tolerated_failure_percentage cfg of
              Some p \<Rightarrow> total > 0 \<and> f64_gt (f64_div (f64_of_nat failures) (f64_of_nat total)) p
            | None \<Rightarrow> False))"

datatype completion_reason =
  AllCompleted | MinSuccessfulReached | FailureToleranceExceeded | SuspendedReason

definition should_complete :: "completion_config \<Rightarrow> execution_counters \<Rightarrow> completion_reason option" where
  "should_complete cfg c =
     (let total = ec_total_tasks c; completed = ec_completed_count c;
          suspended = ec_suspended_count c; successes = ec_success_count c in
      if (case cc_min_successful cfg of Some m \<Rightarrow> successes \<ge> m | None \<Rightarrow> False)
      then Some MinSuccessfulReached
      else if is_failure_tolerance_exceeded cfg c then Some FailureToleranceExceeded
      else if completed + suspended \<ge> total then
        (if suspended > 0 \<and> completed < total then Some SuspendedReason else Some AllCompleted)
      else None)"

section \<open>Items and results\<close>

datatype batch_item_status =
  ItemSucceeded | ItemFailed | ItemCancelled | ItemPending | ItemSuspended

record 'a batch_item =
  bi_index :: nat
  bi_status :: batch_item_status
  bi_result :: "'a option"
  bi_error :: "error_object option"

definition item_succeeded :: "nat \<Rightarrow> 'a \<Rightarrow> 'a batch_item" where
  "item_succeeded i v = \<lparr>bi_index = i, bi_status = ItemSucceeded, bi_result = Some v, bi_error = None\<rparr>"

definition item_failed :: "nat \<Rightarrow> error_object \<Rightarrow> 'a batch_item" where
  "item_failed i e = \<lparr>bi_index = i, bi_status = ItemFailed, bi_result = None, bi_error = Some e\<rparr>"

definition item_cancelled :: "nat \<Rightarrow> 'a batch_item" where
  "item_cancelled i = \<lparr>bi_index = i, bi_status = ItemCancelled, bi_result = None, bi_error = None\<rparr>"

definition item_pending :: "nat \<Rightarrow> 'a batch_item" where
  "item_pending i = \<lparr>bi_index = i, bi_status = ItemPending, bi_result = None, bi_error = None\<rparr>"

definition item_suspended :: "nat \<Rightarrow> 'a batch_item" where
  "item_suspended i = \<lparr>bi_index = i, bi_status = ItemSuspended, bi_result = None, bi_error = None\<rparr>"

lemmas item_defs =
  item_succeeded_def item_failed_def item_cancelled_def item_pending_def item_suspended_def

record 'a batch_result =
  br_items :: "'a batch_item list"
  br_completion_reason :: completion_reason

definition batch_result_empty :: "'a batch_result" where
  "batch_result_empty = \<lparr>br_items = [], br_completion_reason = AllCompleted\<rparr>"

definition br_succeeded :: "'a batch_result \<Rightarrow> 'a batch_item list" where
  "br_succeeded r = filter (\<lambda>b. bi_status b = ItemSucceeded) (br_items r)"

definition br_failed :: "'a batch_result \<Rightarrow> 'a batch_item list" where
  "br_failed r = filter (\<lambda>b. bi_status b = ItemFailed) (br_items r)"

definition br_get_results :: "'a batch_result \<Rightarrow> durable_error + 'a list" where
  "br_get_results r =
     (if br_completion_reason r = FailureToleranceExceeded then
        (case br_failed r of
           b # _ \<Rightarrow> (case bi_error b of
               Some e \<Rightarrow> Inl (replayed_user_error e)
             | None \<Rightarrow> Inl (err_execution ''Batch operation failed''))
         | [] \<Rightarrow> Inl (err_execution ''Batch operation failed''))
      else Inr (List.map_filter bi_result (br_items r)))"

definition br_is_success :: "'a batch_result \<Rightarrow> bool" where
  "br_is_success r = (br_completion_reason r \<in> {AllCompleted, MinSuccessfulReached})"

definition br_all_succeeded :: "'a batch_result \<Rightarrow> bool" where
  "br_all_succeeded r = list_all (\<lambda>b. bi_status b = ItemSucceeded) (br_items r)"

section \<open>The executor\<close>

text \<open>Where a task is: spawned, admitted by the semaphore, running, holding the lock between its two
  increments (with the kind of the second), or finished.\<close>

datatype task_phase = Spawned | Admitted | Running | CountingSuccess | CountingFailure | Finished

record 'a executor =
  ex_counters :: execution_counters
  ex_slots :: "(task_phase \<times> 'a batch_item) list"
  ex_permits :: "nat option"

definition executor_new :: "nat \<Rightarrow> nat option \<Rightarrow> 'a executor" where
  "executor_new n max_concurrency =
     \<lparr>ex_counters = counters_new n,
      ex_slots = map (\<lambda>i. (Spawned, item_pending i)) [0..<n], ex_permits = max_concurrency\<rparr>"

definition set_slot :: "nat \<Rightarrow> task_phase \<times> 'a batch_item \<Rightarrow> 'a executor \<Rightarrow> 'a executor" where
  "set_slot i s ex = ex\<lparr>ex_slots := (ex_slots ex)[i := s]\<rparr>"

definition acquire_permit :: "'a executor \<Rightarrow> 'a executor" where
  "acquire_permit ex = ex\<lparr>ex_permits := map_option (\<lambda>n. n - 1) (ex_permits ex)\<rparr>"

definition release_permit :: "'a executor \<Rightarrow> 'a executor" where
  "release_permit ex = ex\<lparr>ex_permits := map_option Suc (ex_permits ex)\<rparr>"

definition lock_free :: "'a executor \<Rightarrow> bool" where
  "lock_free ex = list_all (\<lambda>s. fst s \<notin> {CountingSuccess, CountingFailure}) (ex_slots ex)"

definition on_counters :: "(execution_counters \<Rightarrow> execution_counters) \<Rightarrow> 'a executor \<Rightarrow> 'a executor" where
  "on_counters f ex = ex\<lparr>ex_counters := f (ex_counters ex)\<rparr>"

text \<open>What a task does with the result of its function: the item, the first increment, and the second
  one still to come.\<close>

definition record_result :: "nat \<Rightarrow> durable_error + 'a \<Rightarrow> 'a executor \<Rightarrow> 'a executor" where
  "record_result i r ex = (case r of
     Inr v \<Rightarrow> set_slot i (CountingSuccess, item_succeeded i v) (on_counters add_completed ex)
   | Inl (Suspend t) \<Rightarrow> release_permit
       (set_slot i (Finished, item_suspended i) (on_counters (\<lambda>c. snd (suspend_task c)) ex))
   | Inl e \<Rightarrow> set_slot i (CountingFailure, item_failed i (error_object_from e))
       (on_counters add_completed ex))"

text \<open>\<open>may_return i r\<close>: the function of task \<open>i\<close> can return \<open>r\<close>.\<close>

inductive exec_step ::
  "completion_config \<Rightarrow> (nat \<Rightarrow> durable_error + 'a \<Rightarrow> bool) \<Rightarrow> 'a executor \<Rightarrow> 'a executor \<Rightarrow> bool"
  for cfg may_return
where
  exec_acquire:
    "i < length (ex_slots ex) \<Longrightarrow> ex_slots ex ! i = (Spawned, b) \<Longrightarrow> ex_permits ex \<noteq> Some 0 \<Longrightarrow>
     exec_step cfg may_return ex (acquire_permit (set_slot i (Admitted, b) ex))"
| exec_cancel:
    "i < length (ex_slots ex) \<Longrightarrow> ex_slots ex ! i = (Admitted, b) \<Longrightarrow>
     should_complete cfg (ex_counters ex) \<noteq> None \<Longrightarrow> lock_free ex \<Longrightarrow>
     exec_step cfg may_return ex (release_permit (set_slot i (Finished, item_cancelled i) ex))"
| exec_begin:
    "i < length (ex_slots ex) \<Longrightarrow> ex_slots ex ! i = (Admitted, b) \<Longrightarrow>
     should_complete cfg (ex_counters ex) = None \<Longrightarrow>
     exec_step cfg may_return ex (set_slot i (Running, b) ex)"
| exec_record:
    "i < length (ex_slots ex) \<Longrightarrow> ex_slots ex ! i = (Running, b) \<Longrightarrow> may_return i r \<Longrightarrow>
     lock_free ex \<Longrightarrow> exec_step cfg may_return ex (record_result i r ex)"
| exec_count_success:
    "i < length (ex_slots ex) \<Longrightarrow> ex_slots ex ! i = (CountingSuccess, b) \<Longrightarrow>
     exec_step cfg may_return ex (release_permit (set_slot i (Finished, b) (on_counters add_success ex)))"
| exec_count_failure:
    "i < length (ex_slots ex) \<Longrightarrow> ex_slots ex ! i = (CountingFailure, b) \<Longrightarrow>
     exec_step cfg may_return ex (release_permit (set_slot i (Finished, b) (on_counters add_failure ex)))"
| exec_panic:
    "i < length (ex_slots ex) \<Longrightarrow> ex_slots ex ! i = (Running, b) \<Longrightarrow>
     exec_step cfg may_return ex (release_permit (set_slot i (Finished, b) ex))"

inductive exec_reach ::
  "completion_config \<Rightarrow> (nat \<Rightarrow> durable_error + 'a \<Rightarrow> bool) \<Rightarrow> 'a executor \<Rightarrow> 'a executor \<Rightarrow> bool"
  for cfg may_return
where
  exec_refl: "exec_reach cfg may_return ex ex"
| exec_more: "exec_reach cfg may_return ex ex1 \<Longrightarrow> exec_step cfg may_return ex1 ex2 \<Longrightarrow>
     exec_reach cfg may_return ex ex2"

definition all_finished :: "'a executor \<Rightarrow> bool" where
  "all_finished ex = list_all (\<lambda>s. fst s = Finished) (ex_slots ex)"

text \<open>The result that \<open>execute\<close> returns once every task has been joined.\<close>

definition executor_result :: "completion_config \<Rightarrow> 'a executor \<Rightarrow> 'a batch_result" where
  "executor_result cfg ex =
     (if ex_slots ex = [] then batch_result_empty
      else \<lparr>br_items = map snd (ex_slots ex),
            br_completion_reason = (case should_complete cfg (ex_counters ex) of
               Some r \<Rightarrow> r | None \<Rightarrow> AllCompleted)\<rparr>)"

end
