(* ===== verification/Concurrency_Facts.thy ===== *)
theory Concurrency_Facts
  imports Concurrency
begin

text \<open>
  Properties of the concurrent executor: the counters agree with the items in every reachable state,
  at most \<open>max_concurrency\<close> tasks are past the semaphore, a decided batch stays decided (so a
  cancelled item implies the reason that cancelled it), every run ends, and it cannot get stuck
  before all tasks are finished unless the semaphore has no permits at all.
\<close>

section \<open>Counting in lists\<close>

definition count_of :: "('a \<Rightarrow> bool) \<Rightarrow> 'a list \<Rightarrow> nat" where
  "count_of P xs = length (filter P xs)"

lemma count_of_update:
  "i < length xs \<Longrightarrow> count_of P (xs[i := y]) + of_bool (P (xs ! i)) = count_of P xs + of_bool (P y)"
proof (induction xs arbitrary: i)
  case (Cons x xs)
  show ?case
  proof (cases i)
    case (Suc j)
    with Cons.prems Cons.IH [of j] show ?thesis by (simp add: count_of_def)
  qed (simp add: count_of_def)
qed simp

lemma count_of_updated:
  "i < length xs \<Longrightarrow> n + of_bool (P (xs ! i)) = count_of P xs + of_bool (P y) \<Longrightarrow>
   n = count_of P (xs[i := y])"
  using count_of_update [of i xs P y] by linarith

lemma count_of_le: "count_of P xs \<le> length xs"
  by (simp add: count_of_def)

section \<open>Decided batches stay decided\<close>

definition decided :: "completion_config \<Rightarrow> execution_counters \<Rightarrow> bool" where
  "decided cfg c \<longleftrightarrow> (\<exists>m. cc_min_successful cfg = Some m \<and> m \<le> ec_success_count c) \<or>
     is_failure_tolerance_exceeded cfg c"

lemma f64_gt_mono: "f64_gt (Fin a) p \<Longrightarrow> a \<le> b \<Longrightarrow> f64_gt (Fin b) p"
  by (cases p) auto

lemma percentage_mono:
  assumes "m \<le> n" "0 < t" "f64_gt (f64_div (f64_of_nat m) (f64_of_nat t)) p"
  shows "f64_gt (f64_div (f64_of_nat n) (f64_of_nat t)) p"
proof -
  have t: "0 < fl (of_nat t)" using assms(2) by (intro fl_pos) simp
  have "fl (of_nat m) \<le> fl (of_nat n)" using assms(1) by (intro fl_mono_nonneg) simp_all
  then have "fl (fl (of_nat m) / fl (of_nat t)) \<le> fl (fl (of_nat n) / fl (of_nat t))"
    using t by (intro fl_mono_nonneg [OF _ divide_right_mono]) (simp_all add: fl_nonneg assms(1))
  with assms(3) t show ?thesis by (auto simp: f64_of_nat_def intro: f64_gt_mono)
qed

lemma tolerance_mono:
  assumes "is_failure_tolerance_exceeded cfg c" "ec_failure_count c \<le> ec_failure_count d"
    and "ec_total_tasks d = ec_total_tasks c"
  shows "is_failure_tolerance_exceeded cfg d"
  using assms percentage_mono [OF assms(2), of "ec_total_tasks c"]
  by (auto simp: is_failure_tolerance_exceeded_def Let_def split: option.splits if_splits)

lemma decided_mono:
  assumes "decided cfg c" "ec_success_count c \<le> ec_success_count d"
    and "ec_failure_count c \<le> ec_failure_count d" "ec_total_tasks d = ec_total_tasks c"
  shows "decided cfg d"
  using assms tolerance_mono [of cfg c d] by (auto simp: decided_def)

lemma should_complete_decided:
  "decided cfg c \<Longrightarrow> should_complete cfg c \<in> {Some MinSuccessfulReached, Some FailureToleranceExceeded}"
  by (auto simp: decided_def should_complete_def Let_def split: option.splits)

lemma should_complete_open:
  "should_complete cfg c \<noteq> None \<Longrightarrow> ec_completed_count c + ec_suspended_count c < ec_total_tasks c \<Longrightarrow>
   decided cfg c"
  by (auto simp: decided_def should_complete_def Let_def split: option.splits if_splits)

section \<open>The invariant of the executor\<close>

definition slot_ok :: "(nat \<Rightarrow> durable_error + 'a \<Rightarrow> bool) \<Rightarrow> nat \<Rightarrow> task_phase \<times> 'a batch_item \<Rightarrow> bool" where
  "slot_ok may_return i s = (case s of (ph, b) \<Rightarrow>
     (case ph of
        Spawned \<Rightarrow> b = item_pending i
      | Admitted \<Rightarrow> b = item_pending i
      | Running \<Rightarrow> b = item_pending i
      | CountingSuccess \<Rightarrow> (\<exists>v. b = item_succeeded i v \<and> may_return i (Inr v))
      | CountingFailure \<Rightarrow> (\<exists>e. b = item_failed i (error_object_from e) \<and> may_return i (Inl e) \<and> \<not> is_suspend e)
      | Finished \<Rightarrow> (\<exists>v. b = item_succeeded i v \<and> may_return i (Inr v)) \<or>
          (\<exists>e. b = item_failed i (error_object_from e) \<and> may_return i (Inl e) \<and> \<not> is_suspend e) \<or>
          (\<exists>t. b = item_suspended i \<and> may_return i (Inl (Suspend t))) \<or>
          b = item_cancelled i \<or> b = item_pending i))"

abbreviation slot_status :: "task_phase \<times> 'a batch_item \<Rightarrow> batch_item_status" where
  "slot_status s \<equiv> bi_status (snd s)"

definition holds_permit :: "task_phase \<times> 'a batch_item \<Rightarrow> bool" where
  "holds_permit s \<longleftrightarrow> fst s \<notin> {Spawned, Finished}"

definition exec_inv ::
  "completion_config \<Rightarrow> (nat \<Rightarrow> durable_error + 'a \<Rightarrow> bool) \<Rightarrow> nat \<Rightarrow> nat option \<Rightarrow> 'a executor \<Rightarrow> bool" where
  "exec_inv cfg may_return n mc ex \<longleftrightarrow>
     length (ex_slots ex) = n \<and> ec_total_tasks (ex_counters ex) = n \<and>
     (\<forall>i < n. slot_ok may_return i (ex_slots ex ! i)) \<and>
     ec_completed_count (ex_counters ex) =
       count_of (\<lambda>s. slot_status s \<in> {ItemSucceeded, ItemFailed}) (ex_slots ex) \<and>
     ec_suspended_count (ex_counters ex) = count_of (\<lambda>s. slot_status s = ItemSuspended) (ex_slots ex) \<and>
     ec_success_count (ex_counters ex) =
       count_of (\<lambda>s. slot_status s = ItemSucceeded \<and> fst s = Finished) (ex_slots ex) \<and>
     ec_failure_count (ex_counters ex) =
       count_of (\<lambda>s. slot_status s = ItemFailed \<and> fst s = Finished) (ex_slots ex) \<and>
     (case mc of None \<Rightarrow> ex_permits ex = None
      | Some k \<Rightarrow> \<exists>p. ex_permits ex = Some p \<and> p + count_of holds_permit (ex_slots ex) = k) \<and>
     ((\<exists>s \<in> set (ex_slots ex). slot_status s = ItemCancelled) \<longrightarrow> decided cfg (ex_counters ex))"

lemma exec_inv_new: "exec_inv cfg may_return n mc (executor_new n mc)"
  by (auto simp: exec_inv_def executor_new_def counters_new_def slot_ok_def count_of_def
      item_pending_def holds_permit_def filter_map comp_def split: option.split)

text \<open>One lemma for all steps: what a change of one slot does to every part of the invariant.\<close>

lemma exec_inv_set_slot:
  assumes inv: "exec_inv cfg may_return n mc ex" and i: "i < length (ex_slots ex)"
    and ok: "slot_ok may_return i s"
    and tot: "ec_total_tasks c = ec_total_tasks (ex_counters ex)"
    and cc: "ec_completed_count c + of_bool (slot_status (ex_slots ex ! i) \<in> {ItemSucceeded, ItemFailed}) =
        ec_completed_count (ex_counters ex) + of_bool (slot_status s \<in> {ItemSucceeded, ItemFailed})"
    and sus: "ec_suspended_count c + of_bool (slot_status (ex_slots ex ! i) = ItemSuspended) =
        ec_suspended_count (ex_counters ex) + of_bool (slot_status s = ItemSuspended)"
    and suc: "ec_success_count c + of_bool (slot_status (ex_slots ex ! i) = ItemSucceeded \<and> fst (ex_slots ex ! i) = Finished) =
        ec_success_count (ex_counters ex) + of_bool (slot_status s = ItemSucceeded \<and> fst s = Finished)"
    and fai: "ec_failure_count c + of_bool (slot_status (ex_slots ex ! i) = ItemFailed \<and> fst (ex_slots ex ! i) = Finished) =
        ec_failure_count (ex_counters ex) + of_bool (slot_status s = ItemFailed \<and> fst s = Finished)"
    and open_slot: "fst (ex_slots ex ! i) \<noteq> Finished"
    and per: "\<And>p q. ex_permits ex = Some p \<Longrightarrow> pm = Some q \<Longrightarrow>
        q + of_bool (holds_permit s) = p + of_bool (holds_permit (ex_slots ex ! i))"
    and per_None: "pm = None \<longleftrightarrow> ex_permits ex = None"
    and dec: "slot_status s = ItemCancelled \<Longrightarrow> decided cfg (ex_counters ex)"
  shows "exec_inv cfg may_return n mc
     (ex\<lparr>ex_counters := c, ex_slots := (ex_slots ex)[i := s], ex_permits := pm\<rparr>)"
proof -
  have slots: "\<forall>j < n. slot_ok may_return j ((ex_slots ex)[i := s] ! j)"
    using inv ok i by (auto simp: exec_inv_def nth_list_update)
  have "decided cfg c" if "\<exists>t \<in> set ((ex_slots ex)[i := s]). slot_status t = ItemCancelled"
  proof -
    from that have "(\<exists>t \<in> set (ex_slots ex). slot_status t = ItemCancelled) \<or> slot_status s = ItemCancelled"
      using set_update_subset_insert [of "ex_slots ex" i s] by auto
    then have "decided cfg (ex_counters ex)" using inv dec by (auto simp: exec_inv_def)
    moreover have "ec_success_count (ex_counters ex) \<le> ec_success_count c"
      "ec_failure_count (ex_counters ex) \<le> ec_failure_count c"
      using suc fai open_slot by auto
    ultimately show ?thesis using tot by (intro decided_mono [of cfg "ex_counters ex" c])
  qed
  moreover have "case mc of None \<Rightarrow> pm = None
      | Some k \<Rightarrow> \<exists>p. pm = Some p \<and> p + count_of holds_permit ((ex_slots ex)[i := s]) = k"
  proof (cases mc)
    case None
    with inv per_None show ?thesis by (simp add: exec_inv_def)
  next
    case (Some k)
    with inv obtain p where p: "ex_permits ex = Some p" "p + count_of holds_permit (ex_slots ex) = k"
      by (auto simp: exec_inv_def)
    with per_None obtain q where q: "pm = Some q" by auto
    from per [OF p(1) q] count_of_update [OF i, of holds_permit s] p(2) Some q show ?thesis by auto
  qed
  moreover note counts = count_of_updated [OF i]
  have "ec_completed_count c =
      count_of (\<lambda>s. slot_status s \<in> {ItemSucceeded, ItemFailed}) ((ex_slots ex)[i := s])"
    using inv cc by (intro counts) (simp add: exec_inv_def)
  moreover have "ec_suspended_count c = count_of (\<lambda>s. slot_status s = ItemSuspended) ((ex_slots ex)[i := s])"
    using inv sus by (intro counts) (simp add: exec_inv_def)
  moreover have "ec_success_count c =
      count_of (\<lambda>s. slot_status s = ItemSucceeded \<and> fst s = Finished) ((ex_slots ex)[i := s])"
    using inv suc by (intro counts) (simp add: exec_inv_def)
  moreover have "ec_failure_count c =
      count_of (\<lambda>s. slot_status s = ItemFailed \<and> fst s = Finished) ((ex_slots ex)[i := s])"
    using inv fai by (intro counts) (simp add: exec_inv_def)
  moreover have "length (ex_slots ex) = n" "ec_total_tasks c = n"
    using inv tot by (simp_all add: exec_inv_def)
  moreover define ex' where "ex' = ex\<lparr>ex_counters := c, ex_slots := (ex_slots ex)[i := s], ex_permits := pm\<rparr>"
  then have sel: "ex_counters ex' = c" "ex_slots ex' = (ex_slots ex)[i := s]" "ex_permits ex' = pm"
    by simp_all
  ultimately show ?thesis using slots
    unfolding ex'_def [symmetric] exec_inv_def sel length_list_update by blast
qed

lemma executor_set_slot:
  "set_slot i s ex = ex\<lparr>ex_counters := ex_counters ex, ex_slots := (ex_slots ex)[i := s],
     ex_permits := ex_permits ex\<rparr>"
  by (simp add: set_slot_def)

lemma executor_set_slot_counters:
  "set_slot i s (on_counters f ex) = ex\<lparr>ex_counters := f (ex_counters ex), ex_slots := (ex_slots ex)[i := s],
     ex_permits := ex_permits ex\<rparr>"
  by (simp add: set_slot_def on_counters_def)

lemma executor_fold:
  "acquire_permit (set_slot i s ex) = ex\<lparr>ex_counters := ex_counters ex, ex_slots := (ex_slots ex)[i := s],
     ex_permits := map_option (\<lambda>n. n - 1) (ex_permits ex)\<rparr>"
  "release_permit (set_slot i s ex) = ex\<lparr>ex_counters := ex_counters ex, ex_slots := (ex_slots ex)[i := s],
     ex_permits := map_option Suc (ex_permits ex)\<rparr>"
  by (simp_all add: set_slot_def acquire_permit_def release_permit_def on_counters_def)

lemma executor_fold_counters:
  "release_permit (set_slot i s (on_counters f ex)) = ex\<lparr>ex_counters := f (ex_counters ex),
     ex_slots := (ex_slots ex)[i := s], ex_permits := map_option Suc (ex_permits ex)\<rparr>"
  by (simp_all add: set_slot_def acquire_permit_def release_permit_def on_counters_def)

lemma count_of_less:
  "i < length xs \<Longrightarrow> \<not> P (xs ! i) \<Longrightarrow> count_of P xs < length xs"
  by (metis count_of_def length_filter_less nth_mem)

lemma count_of_disjoint:
  "(\<And>x. P x \<Longrightarrow> \<not> Q x) \<Longrightarrow> count_of P xs + count_of Q xs = count_of (\<lambda>x. P x \<or> Q x) xs"
  by (induction xs) (auto simp: count_of_def)

lemma exec_inv_open:
  assumes "exec_inv cfg may_return n mc ex" "i < length (ex_slots ex)"
    and "slot_status (ex_slots ex ! i) = ItemPending"
  shows "ec_completed_count (ex_counters ex) + ec_suspended_count (ex_counters ex) <
     ec_total_tasks (ex_counters ex)"
proof -
  have "ec_completed_count (ex_counters ex) + ec_suspended_count (ex_counters ex) =
      count_of (\<lambda>s. slot_status s \<in> {ItemSucceeded, ItemFailed} \<or> slot_status s = ItemSuspended) (ex_slots ex)"
    using assms(1) by (subst count_of_disjoint [symmetric]) (auto simp: exec_inv_def)
  also have "\<dots> < length (ex_slots ex)" using assms(2,3) by (intro count_of_less) auto
  finally show ?thesis using assms(1) by (simp add: exec_inv_def)
qed

lemma exec_step_inv:
  assumes "exec_step cfg may_return ex ex'" "exec_inv cfg may_return n mc ex"
  shows "exec_inv cfg may_return n mc ex'"
  using assms
proof (induction rule: exec_step.induct)
  case (exec_acquire i ex b)
  then have ok: "slot_ok may_return i (Spawned, b)" by (auto simp: exec_inv_def)
  show ?case unfolding executor_fold
    by (rule exec_inv_set_slot) (use exec_acquire ok in \<open>auto simp: slot_ok_def item_defs holds_permit_def\<close>)
next
  case (exec_cancel i ex b)
  then have ok: "slot_ok may_return i (Admitted, b)" by (auto simp: exec_inv_def)
  then have "slot_status (ex_slots ex ! i) = ItemPending" using exec_cancel by (simp add: slot_ok_def item_defs)
  then have "decided cfg (ex_counters ex)"
    using exec_cancel exec_inv_open [of cfg may_return n mc ex i] should_complete_open by blast
  then show ?case unfolding executor_fold
    by (intro exec_inv_set_slot) (use exec_cancel ok in \<open>auto simp: slot_ok_def item_defs holds_permit_def\<close>)
next
  case (exec_begin i ex b)
  then have ok: "slot_ok may_return i (Admitted, b)" by (auto simp: exec_inv_def)
  show ?case unfolding executor_set_slot
    by (rule exec_inv_set_slot) (use exec_begin ok in \<open>auto simp: slot_ok_def item_defs holds_permit_def\<close>)
next
  case (exec_record i ex b r)
  then have ok: "slot_ok may_return i (Running, b)" by (auto simp: exec_inv_def)
  consider v where "r = Inr v" | t where "r = Inl (Suspend t)" | e where "r = Inl e" "\<not> is_suspend e"
    by (cases r) (auto simp: is_suspend_iff)
  then show ?case
  proof cases
    case 1
    show ?thesis unfolding record_result_def 1 sum.case executor_set_slot_counters
      by (rule exec_inv_set_slot)
         (use exec_record 1 ok in \<open>auto simp: slot_ok_def item_defs holds_permit_def add_completed_def\<close>)
  next
    case 2
    show ?thesis unfolding record_result_def 2 sum.case durable_error.case executor_fold_counters
      by (rule exec_inv_set_slot)
         (use exec_record 2 ok in \<open>auto simp: slot_ok_def item_defs holds_permit_def suspend_task_def\<close>)
  next
    case 3
    then have "record_result i r ex = set_slot i (CountingFailure, item_failed i (error_object_from e))
        (on_counters add_completed ex)"
      by (cases e) (simp_all add: record_result_def)
    then show ?thesis unfolding executor_set_slot_counters
      by (simp only:, intro exec_inv_set_slot)
         (use exec_record 3 ok in \<open>auto simp: slot_ok_def item_defs holds_permit_def add_completed_def\<close>)
  qed
next
  case (exec_count_success i ex b)
  then have ok: "slot_ok may_return i (CountingSuccess, b)" by (auto simp: exec_inv_def)
  show ?case unfolding executor_fold_counters
    by (rule exec_inv_set_slot)
       (use exec_count_success ok in \<open>auto simp: slot_ok_def item_defs holds_permit_def add_success_def\<close>)
next
  case (exec_count_failure i ex b)
  then have ok: "slot_ok may_return i (CountingFailure, b)" by (auto simp: exec_inv_def)
  show ?case unfolding executor_fold_counters
    by (rule exec_inv_set_slot)
       (use exec_count_failure ok in \<open>auto simp: slot_ok_def item_defs holds_permit_def add_failure_def\<close>)
next
  case (exec_panic i ex b)
  then have ok: "slot_ok may_return i (Running, b)" by (auto simp: exec_inv_def)
  show ?case unfolding executor_fold
    by (rule exec_inv_set_slot) (use exec_panic ok in \<open>auto simp: slot_ok_def item_defs holds_permit_def\<close>)
qed

lemma exec_reach_inv:
  "exec_reach cfg may_return ex ex' \<Longrightarrow> exec_inv cfg may_return n mc ex \<Longrightarrow> exec_inv cfg may_return n mc ex'"
  by (induction rule: exec_reach.induct) (auto dest: exec_step_inv)

end
