(* ===== verification/Concurrency_Run.thy ===== *)
theory Concurrency_Run
  imports Concurrency_Facts
begin

text \<open>
  Whole runs of \<open>ConcurrentExecutor::execute\<close> (\<open>sdk/src/concurrency.rs\<close>): the bound on running
  tasks, termination and progress, and what the batch result says about the tasks.
\<close>

inductive_cases exec_stepE: "exec_step cfg may_return ex ex'"

section \<open>Every step brings the run closer to its end\<close>

fun phase_weight :: "task_phase \<Rightarrow> nat" where
  "phase_weight Spawned = 4"
| "phase_weight Admitted = 3"
| "phase_weight Running = 2"
| "phase_weight CountingSuccess = 1"
| "phase_weight CountingFailure = 1"
| "phase_weight Finished = 0"

definition remaining_steps :: "'a executor \<Rightarrow> nat" where
  "remaining_steps ex = sum_list (map (\<lambda>s. phase_weight (fst s)) (ex_slots ex))"

lemma sum_list_map_update:
  "i < length xs \<Longrightarrow> sum_list (map f (xs[i := y])) + f (xs ! i) = sum_list (map f xs) + (f y :: nat)"
proof (induction xs arbitrary: i)
  case (Cons x xs)
  show ?case
  proof (cases i)
    case (Suc j)
    with Cons.prems Cons.IH [of j] show ?thesis by simp
  qed simp
qed simp

lemma remaining_steps_set_slot:
  assumes "i < length (ex_slots ex)" "ex_slots ex' = (ex_slots ex)[i := s]"
    and "phase_weight (fst s) < phase_weight (fst (ex_slots ex ! i))"
  shows "remaining_steps ex' < remaining_steps ex"
  using sum_list_map_update [OF assms(1), of "\<lambda>s. phase_weight (fst s)" s] assms(2,3)
  by (simp add: remaining_steps_def)

lemma slots_sel [simp]:
  "ex_slots (set_slot i s ex) = (ex_slots ex)[i := s]" "ex_slots (acquire_permit ex) = ex_slots ex"
  "ex_slots (release_permit ex) = ex_slots ex" "ex_slots (on_counters f ex) = ex_slots ex"
  by (simp_all add: set_slot_def acquire_permit_def release_permit_def on_counters_def)

lemma record_result_slots:
  "\<exists>ph b. ex_slots (record_result i r ex) = (ex_slots ex)[i := (ph, b)] \<and> phase_weight ph < 2"
proof (cases r)
  case (Inl e)
  then show ?thesis by (cases e) (auto simp: record_result_def)
qed (auto simp: record_result_def)

lemma exec_step_decreases: "exec_step cfg may_return ex ex' \<Longrightarrow> remaining_steps ex' < remaining_steps ex"
proof (induction rule: exec_step.induct)
  case (exec_record i ex b r)
  then show ?case using record_result_slots [of i r ex]
    by (auto intro: remaining_steps_set_slot)
qed (auto intro: remaining_steps_set_slot)

lemma exec_reach_decreases:
  "exec_reach cfg may_return ex ex' \<Longrightarrow> remaining_steps ex' \<le> remaining_steps ex"
  by (induction rule: exec_reach.induct) (auto dest: exec_step_decreases)

lemma remaining_steps_new: "remaining_steps (executor_new n mc) = 4 * n"
  by (simp add: remaining_steps_def executor_new_def comp_def sum_list_triv)

section \<open>A run cannot get stuck\<close>

lemma exec_progress:
  assumes inv: "exec_inv cfg may_return n mc ex" and open_ex: "\<not> all_finished ex"
    and mc: "mc \<noteq> Some 0" and total: "\<And>i. \<exists>r. may_return i r"
  shows "\<exists>ex'. exec_step cfg may_return ex ex'"
proof (cases "lock_free ex")
  case False
  then obtain i where "i < length (ex_slots ex)"
    "fst (ex_slots ex ! i) \<in> {CountingSuccess, CountingFailure}"
    by (auto simp: lock_free_def list_all_length)
  then show ?thesis
    by (cases "ex_slots ex ! i") (auto intro: exec_count_success exec_count_failure)
next
  case free: True
  show ?thesis
  proof (cases "\<exists>i < length (ex_slots ex). holds_permit (ex_slots ex ! i)")
    case True
    then obtain i where i0: "i < length (ex_slots ex)" "holds_permit (ex_slots ex ! i)" by blast
    obtain ph b where s: "ex_slots ex ! i = (ph, b)" by (cases "ex_slots ex ! i")
    have "ph \<notin> {CountingSuccess, CountingFailure}"
      using free i0(1) s by (auto simp: lock_free_def list_all_length)
    then have i: "i < length (ex_slots ex)" "ex_slots ex ! i = (ph, b)" "ph \<in> {Admitted, Running}"
      using i0 s by (cases ph; simp add: holds_permit_def)+
    show ?thesis
    proof (cases "ph = Running")
      case True
      obtain r where "may_return i r" using total by blast
      with i True free show ?thesis by (blast intro: exec_record)
    next
      case False
      with i free show ?thesis
        by (cases "should_complete cfg (ex_counters ex)") (auto intro: exec_begin exec_cancel)
    qed
  next
    case none: False
    then have "\<forall>s \<in> set (ex_slots ex). \<not> holds_permit s" by (metis in_set_conv_nth)
    then have "count_of holds_permit (ex_slots ex) = 0" by (simp add: count_of_def)
    then have per: "ex_permits ex \<noteq> Some 0"
      using inv mc by (cases mc) (auto simp: exec_inv_def)
    obtain i where i: "i < length (ex_slots ex)" "fst (ex_slots ex ! i) \<noteq> Finished"
      using open_ex by (auto simp: all_finished_def list_all_length)
    with none have "fst (ex_slots ex ! i) = Spawned" by (auto simp: holds_permit_def)
    then have "ex_slots ex ! i = (Spawned, snd (ex_slots ex ! i))" by (metis prod.collapse)
    from exec_acquire [OF i(1) this per] show ?thesis by blast
  qed
qed

lemma exec_reach_step_first:
  "exec_reach cfg may_return ex2 ex3 \<Longrightarrow> exec_step cfg may_return ex1 ex2 \<Longrightarrow>
   exec_reach cfg may_return ex1 ex3"
  by (induction rule: exec_reach.induct) (auto intro: exec_reach.intros)

lemma exec_reach_finished:
  assumes "exec_inv cfg may_return n mc ex" "mc \<noteq> Some 0" "\<And>i. \<exists>r. may_return i r"
  shows "\<exists>ex'. exec_reach cfg may_return ex ex' \<and> all_finished ex'"
  using assms(1)
proof (induction "remaining_steps ex" arbitrary: ex rule: less_induct)
  case less
  show ?case
  proof (cases "all_finished ex")
    case False
    from exec_progress [OF less.prems False assms(2,3)]
    obtain ex1 where s: "exec_step cfg may_return ex ex1" by blast
    from less.hyps [OF exec_step_decreases [OF s] exec_step_inv [OF s less.prems]]
      exec_reach_step_first [OF _ s]
    show ?thesis by blast
  qed (blast intro: exec_refl)
qed

text \<open>C14: The executor finishes: no run has more than four steps per task, and a run in which some task
  is not finished can always continue, provided every task function returns and the semaphore, if
  there is one, has at least one permit.\<close>

theorem executor_terminates:
  assumes "exec_reach cfg may_return (executor_new n mc) ex" "mc \<noteq> Some 0" "\<forall>i. \<exists>r. may_return i r"
  shows "remaining_steps ex \<le> 4 * n \<and>
     (\<forall>ex'. exec_step cfg may_return ex ex' \<longrightarrow> remaining_steps ex' < remaining_steps ex) \<and>
     (\<exists>ex'. exec_reach cfg may_return ex ex' \<and> all_finished ex')"
proof (intro conjI allI impI)
  show "remaining_steps ex \<le> 4 * n"
    using exec_reach_decreases [OF assms(1)] remaining_steps_new by metis
next
  fix ex' assume "exec_step cfg may_return ex ex'"
  then show "remaining_steps ex' < remaining_steps ex" by (rule exec_step_decreases)
next
  show "\<exists>ex'. exec_reach cfg may_return ex ex' \<and> all_finished ex'"
    using exec_reach_finished [OF exec_reach_inv [OF assms(1) exec_inv_new] assms(2)] assms(3) by blast
qed

theorem executor_terminates_witness:
  "\<exists>ex. exec_reach all_completed (\<lambda>i r. r = Inr i) (executor_new 3 (Some 2)) ex \<and> all_finished ex"
  using executor_terminates [of all_completed "\<lambda>i r. r = Inr i" 3 "Some 2", OF exec_refl] by auto

text \<open>With a semaphore of no permits no task ever starts: a non-empty batch has no step at all, and
  \<open>execute\<close> waits for its tasks for ever.\<close>

lemma executor_zero_permits_stuck:
  assumes "exec_step cfg may_return (executor_new n (Some 0)) ex"
  shows "False"
  using assms by (rule exec_stepE) (auto simp: executor_new_def)

lemma executor_zero_permits_stuck_witness:
  "\<not> exec_step all_completed (\<lambda>i r. r = Inr i) (executor_new 1 (Some 0)) (executor_new 1 (Some 0)) \<and>
   \<not> all_finished (executor_new 1 (Some 0) :: nat executor)"
  using executor_zero_permits_stuck [of all_completed "\<lambda>i r. r = Inr i" 1 "executor_new 1 (Some 0)"]
  by (auto simp: all_finished_def executor_new_def)

section \<open>Safety and the result\<close>

text \<open>C15: At every moment at most \<open>max_concurrency\<close> tasks are past the semaphore, and the counters are
  exactly the numbers of recorded items: completed those that succeeded or failed, suspended those
  that suspended, and the success and failure counts never run ahead of the items.\<close>

theorem executor_bounds:
  assumes "exec_reach cfg may_return (executor_new n (Some k)) ex"
  shows "count_of holds_permit (ex_slots ex) \<le> k \<and>
     ec_completed_count (ex_counters ex) =
       count_of (\<lambda>s. slot_status s \<in> {ItemSucceeded, ItemFailed}) (ex_slots ex) \<and>
     ec_suspended_count (ex_counters ex) = count_of (\<lambda>s. slot_status s = ItemSuspended) (ex_slots ex) \<and>
     ec_success_count (ex_counters ex) \<le> count_of (\<lambda>s. slot_status s = ItemSucceeded) (ex_slots ex) \<and>
     ec_failure_count (ex_counters ex) \<le> count_of (\<lambda>s. slot_status s = ItemFailed) (ex_slots ex) \<and>
     ec_completed_count (ex_counters ex) + ec_suspended_count (ex_counters ex) \<le> n"
proof -
  have inv: "exec_inv cfg may_return n (Some k) ex"
    using exec_reach_inv [OF assms exec_inv_new] .
  have mono: "count_of (\<lambda>s. P s \<and> Q s) xs \<le> count_of P xs" for P Q and xs :: "'b list"
    by (induction xs) (auto simp: count_of_def)
  have "count_of (\<lambda>s. slot_status s \<in> {ItemSucceeded, ItemFailed}) (ex_slots ex) +
      count_of (\<lambda>s. slot_status s = ItemSuspended) (ex_slots ex) \<le> length (ex_slots ex)"
    by (subst count_of_disjoint) (auto simp: count_of_le)
  then show ?thesis using inv mono by (auto simp: exec_inv_def)
qed

theorem executor_bounds_witness:
  "count_of holds_permit (ex_slots (executor_new 3 (Some 2) :: nat executor)) \<le> 2"
  using executor_bounds [of all_completed "\<lambda>i r. r = Inr i" 3 2, OF exec_refl] by blast



end
