(* ===== verification/Callback_Polling.thy ===== *)
theory Callback_Polling
  imports Orchestrator
begin

text \<open>
  The runner's wait for callbacks. It ends when every pending operation is a callback that ended; the set of
  pending operations is only ever reduced at callbacks, so a wait or a step that was pending once keeps the
  runner polling until it gives up.
\<close>

section \<open>The pending set\<close>

lemma process_operation_pending:
  "i \<in> set pending \<Longrightarrow> op_id op \<noteq> i \<or> op_type op \<noteq> CallbackOp \<Longrightarrow> i \<in> set (snd (process_operation op pending))"
  by (cases "op_type op") (auto simp: process_operation_def handle_wait_update_def handle_step_update_def
      handle_callback_update_def hs_insert_def)

lemma scan_operations_pending:
  assumes "scan_operations ops has earliest pending = (has', earliest', pending')" "i \<in> set pending"
    and "\<And>op. op \<in> set ops \<Longrightarrow> op_id op = i \<Longrightarrow> op_type op \<noteq> CallbackOp"
  shows "i \<in> set pending'"
  using assms
proof (induction ops arbitrary: has earliest pending)
  case (Cons op ops)
  obtain r p where r: "process_operation op pending = (r, p)" by fastforce
  have "i \<in> set (snd (process_operation op pending))"
    by (rule process_operation_pending [OF Cons.prems(2)]) (use Cons.prems(3) [of op] in auto)
  then have p: "i \<in> set p" by (simp add: r)
  show ?case
    using Cons.prems(1,3) r Cons.IH [OF _ p] by (cases r) auto
qed simp

lemma scan_operations_adds:
  assumes "scan_operations ops has earliest pending = (has', earliest', pending')"
    and "op \<in> set ops" "op_type op = WaitOp" "op_status op = Started"
    and "\<And>x. x \<in> set ops \<Longrightarrow> op_id x = op_id op \<Longrightarrow> op_type x \<noteq> CallbackOp"
  shows "op_id op \<in> set pending'"
  using assms
proof (induction ops arbitrary: has earliest pending)
  case (Cons x ops)
  obtain r p where r: "process_operation x pending = (r, p)" by fastforce
  obtain h' t' where scan: "scan_operations ops h' t' p = (has', earliest', pending')"
    using Cons.prems(1) r by (cases r) auto
  show ?case
  proof (cases "op = x")
    case True
    then have "op_id op \<in> set p"
      using r Cons.prems(3,4) by (auto simp: process_operation_def handle_wait_update_def hs_insert_def)
    then show ?thesis by (rule scan_operations_pending [OF scan]) (use Cons.prems(5) in auto)
  next
    case False
    with Cons.prems(2) have "op \<in> set ops" by simp
    from Cons.IH [OF scan this Cons.prems(3,4)] Cons.prems(5) show ?thesis by simp
  qed
qed simp

section \<open>Polling\<close>

text \<open>The server holds an operation under this identifier that is not a callback.\<close>

definition no_callback :: "string \<Rightarrow> string \<Rightarrow> 'u \<times> server \<Rightarrow> bool" where
  "no_callback e i w \<longleftrightarrow> (\<exists>cm op. hm_get (srv_executions (snd w)) e = Some cm \<and> cm_wf cm \<and>
     cm_operation cm i = Some op \<and> op_type op \<noteq> CallbackOp)"

lemma fetch_operations_found:
  assumes "hm_get (srv_executions (snd (rs_world rs))) e = Some cm"
  shows "\<exists>rs'. fetch_operations ru e rs = (Some (cm_get_state cm), rs') \<and>
     rs_orchestrator rs' = rs_orchestrator rs \<and> fst (rs_world rs') = fst (rs_world rs) \<and>
     srv_executions (snd (rs_world rs')) = srv_executions (snd (rs_world rs))"
  using assms
  by (simp add: fetch_operations_def on_server_def client_get_operations_def send_api_request_def handle_get_state_def)

lemma no_callback_not_done:
  assumes "cm_wf cm" "cm_operation cm i = Some op" "op_type op \<noteq> CallbackOp" "i \<in> set pending"
  shows "\<not> all_callbacks_done pending (cm_get_state cm)"
proof
  assume "all_callbacks_done pending (cm_get_state cm)"
  with assms(4) obtain x where "x \<in> set (cm_get_state cm)" "op_id x = i" "op_type x = CallbackOp"
    by (auto simp: all_callbacks_done_def)
  with cm_get_state_found [OF assms(1)] assms(2,3) show False by fastforce
qed

text \<open>Once an operation that is not a callback is pending, such as a wait that has long ended, the wait for
  callbacks can only time out: whatever the rest of the test does in the pauses and however long the
  runner polls, the answer is the time-out error, even when every callback has been answered.\<close>

lemma pending_wait_blocks_callback_polling:
  assumes "\<And>w. no_callback e i w \<Longrightarrow> no_callback e i (ru_pause ru w)"
    and "no_callback e i (rs_world rs)" "i \<in> set (or_pending_operations (rs_orchestrator rs))"
  shows "fst (poll_callbacks ru e n rs) = Inl polling_timed_out"
  using assms(2,3)
proof (induction n arbitrary: rs)
  case (Suc n)
  let ?rs = "rs\<lparr>rs_world := ru_pause ru (rs_world rs)\<rparr>"
  have nc: "no_callback e i (rs_world ?rs)" using assms(1) [OF Suc.prems(1)] by simp
  then obtain cm op where cm: "hm_get (srv_executions (snd (rs_world ?rs))) e = Some cm" "cm_wf cm"
    "cm_operation cm i = Some op" "op_type op \<noteq> CallbackOp"
    unfolding no_callback_def by blast
  obtain rs1 where f: "fetch_operations ru e ?rs = (Some (cm_get_state cm), rs1)" "rs_orchestrator rs1 = rs_orchestrator rs"
    "srv_executions (snd (rs_world rs1)) = srv_executions (snd (rs_world ?rs))"
    using fetch_operations_found [OF cm(1), of ru] by auto
  let ?rs2 = "on_orchestrator (populate_handles (cm_get_state cm)) rs1"
  have pend: "i \<in> set (or_pending_operations (rs_orchestrator ?rs2))"
    using Suc.prems(2) f(2) by (simp add: on_orchestrator_def populate_handles_def)
  moreover have "no_callback e i (rs_world ?rs2)"
    using cm f(3) by (auto simp: no_callback_def on_orchestrator_def)
  ultimately have "fst (poll_callbacks ru e n ?rs2) = Inl polling_timed_out" by (intro Suc.IH)
  with f(1) no_callback_not_done [OF cm(2-4) pend] show ?case by (simp add: Let_def)
qed simp

definition polling_state :: "nat run_state" where
  "polling_state =
     \<lparr>rs_orchestrator = (orchestrator_new True [])\<lparr>or_pending_operations := [''w'']\<rparr>,
      rs_world = (0, \<lparr>srv_executions = [(''e'',
        snd (process_checkpoint example_host [update_start ''w'' WaitOp] example_manager))], srv_commands = 0\<rparr>)\<rparr>"

definition polling_runner :: "(nat, string, string) runner" where
  "polling_runner =
     \<lparr>ru_hosts = (\<lambda>_. example_host), ru_input = text_codec, ru_output = text_codec,
      ru_handler = (\<lambda>_ s. (Inr [], s)), ru_pause = (\<lambda>w. (fst w + 1, snd w))\<rparr>"

lemma pending_wait_blocks_callback_polling_witness:
  "fst (poll_callbacks polling_runner ''e'' MAX_CALLBACK_POLLS polling_state) = Inl polling_timed_out"
proof (rule pending_wait_blocks_callback_polling)
  let ?cm = "snd (process_checkpoint example_host [update_start ''w'' WaitOp] example_manager)"
  have "cm_wf ?cm" by (rule cm_wf_process_checkpoint [OF example_manager_wf])
  moreover have "map_option op_type (cm_operation ?cm ''w'') = Some WaitOp" by code_simp
  ultimately show "no_callback ''e'' ''w'' (rs_world polling_state)"
    by (auto simp: no_callback_def polling_state_def hm_get_def)
qed (simp_all add: polling_state_def polling_runner_def no_callback_def)

end
