(* ===== verification/Fan_Out.thy ===== *)
theory Fan_Out
  imports Context_Operations Concurrency_Run
begin

text \<open>
  \<open>map\<close> and \<open>parallel\<close>: \<open>sdk/src/handlers/map.rs\<close> and \<open>sdk/src/handlers/parallel.rs\<close> on top of the
  executor. Both take the identifiers of their children from one context that all tasks share, at the
  moment a task begins. The order in which the tasks run is a parameter, the schedule: each task runs
  to its end before the next begins, which is one of the interleavings of the step relation of the
  executor.
\<close>

section \<open>Tasks\<close>

definition child_task ::
  "(u8 list \<Rightarrow> u8 list) \<Rightarrow> 'w services \<Rightarrow> 'a codec \<Rightarrow> operation_identifier \<Rightarrow> string \<Rightarrow>
   ('w, 'a) child_function \<Rightarrow> ('w scope, durable_error, 'a) cmd"
where
  "child_task blake2b sv c oi name func sp =
     (case next_id blake2b (dc_generator (sp_context sp)) of
        (i, g) \<Rightarrow> in_env (child_handler sv c func
            (identifier_new i (Some (oi_operation_id oi)) (Some name)) child_config_default)
          (sp\<lparr>sp_context := (sp_context sp)\<lparr>dc_generator := g\<rparr>\<rparr>))"

definition map_task ::
  "(u8 list \<Rightarrow> u8 list) \<Rightarrow> 'w services \<Rightarrow> 'a codec \<Rightarrow> operation_identifier \<Rightarrow>
   (durable_context \<Rightarrow> 't \<Rightarrow> nat \<Rightarrow> ('w env, durable_error, 'a) cmd) \<Rightarrow> nat \<times> 't list \<Rightarrow>
   ('w scope, durable_error, 'a) cmd"
where
  "map_task blake2b sv c oi func b = (case b of (original_index, batch) \<Rightarrow>
     (case batch of
        [] \<Rightarrow> throwE (Validation ''Empty batch in map operation'')
      | item # _ \<Rightarrow> child_task blake2b sv c oi (''map-item-'' @ show_nat original_index)
          (\<lambda>ctx. func ctx item original_index)))"

definition parallel_task ::
  "(u8 list \<Rightarrow> u8 list) \<Rightarrow> 'w services \<Rightarrow> 'a codec \<Rightarrow> operation_identifier \<Rightarrow>
   nat \<times> ('w, 'a) child_function \<Rightarrow> ('w scope, durable_error, 'a) cmd"
where
  "parallel_task blake2b sv c oi b = (case b of (index, branch) \<Rightarrow>
     child_task blake2b sv c oi (''parallel-branch-'' @ show_nat index) branch)"

section \<open>Execution under a schedule\<close>

definition settle :: "nat \<Rightarrow> 'a executor \<Rightarrow> 'a executor" where
  "settle i ex = (case ex_slots ex ! i of
     (CountingSuccess, b) \<Rightarrow> release_permit (set_slot i (Finished, b) (on_counters add_success ex))
   | (CountingFailure, b) \<Rightarrow> release_permit (set_slot i (Finished, b) (on_counters add_failure ex))
   | _ \<Rightarrow> ex)"

definition run_task ::
  "completion_config \<Rightarrow> ('w scope, durable_error, 'a) cmd list \<Rightarrow> nat \<Rightarrow>
   'a executor \<times> 'w scope \<Rightarrow> 'a executor \<times> 'w scope"
where
  "run_task cfg tasks i = (\<lambda>(ex, sp).
     let b = snd (ex_slots ex ! i);
         ex1 = acquire_permit (set_slot i (Admitted, b) ex) in
     if should_complete cfg (ex_counters ex1) \<noteq> None
     then (release_permit (set_slot i (Finished, item_cancelled i) ex1), sp)
     else (case (tasks ! i) sp of
        (r, sp1) \<Rightarrow> (settle i (record_result i r (set_slot i (Running, b) ex1)), sp1)))"

text \<open>\<open>execute\<close>: with no permit at all and a task to run it does not return.\<close>

definition execute ::
  "completion_config \<Rightarrow> nat option \<Rightarrow> ('w scope, durable_error, 'a) cmd list \<Rightarrow> nat list \<Rightarrow> 'w scope \<Rightarrow>
   ('a batch_result \<times> 'w scope) option"
where
  "execute cfg max_concurrency tasks schedule sp =
     (if tasks = [] then Some (batch_result_empty, sp)
      else if max_concurrency = Some 0 then None
      else (case fold (run_task cfg tasks) schedule (executor_new (length tasks) max_concurrency, sp) of
         (ex, sp1) \<Rightarrow> Some (executor_result cfg ex, sp1)))"

section \<open>The handlers\<close>

record map_config =
  mp_max_concurrency :: "nat option"
  mp_item_batcher :: "item_batcher option"
  mp_completion_config :: completion_config

record parallel_config =
  pl_max_concurrency :: "nat option"
  pl_completion_config :: completion_config

definition fan_out_start_update :: "operation_identifier \<Rightarrow> operation_update" where
  "fan_out_start_update oi = apply_to oi (update_start (oi_operation_id oi) ContextOp)"

definition fan_out_succeed_update :: "operation_identifier \<Rightarrow> string option \<Rightarrow> operation_update" where
  "fan_out_succeed_update oi r = apply_to oi (update_succeed (oi_operation_id oi) ContextOp r)"

text \<open>The replay of a finished operation; \<open>lower\<close> and \<open>upper\<close> are its name in the messages.\<close>

definition fan_out_replay ::
  "string \<Rightarrow> string \<Rightarrow> 'b codec \<Rightarrow> checkpointed_result \<Rightarrow> operation_identifier \<Rightarrow>
   ('w env, durable_error, 'b option) cmd"
where
  "fan_out_replay lower upper bc r oi =
     (case cr_operation_type r of
        None \<Rightarrow> retE None
      | Some ty \<Rightarrow>
          if ty \<noteq> ContextOp then throwE (non_deterministic_error ContextOp ty (oi_operation_id oi))
          else
            (case (if cr_is_succeeded r then cr_result r else None) of
               Some s \<Rightarrow>
                 bindE (liftE (deserialize_or (''Failed to deserialize '' @ lower @ '' result: '') bc s)) (\<lambda>x.
                 bindE (track (oi_operation_id oi)) (\<lambda>_. retE (Some x)))
             | None \<Rightarrow>
                 if cr_is_failed r then
                   bindE (track (oi_operation_id oi)) (\<lambda>_. throwE (case cr_error r of
                     Some e \<Rightarrow> replayed_user_error e
                   | None \<Rightarrow> err_execution (upper @ '' operation failed with unknown error'')))
                 else if cr_is_terminal r then
                   bindE (track (oi_operation_id oi)) (\<lambda>_.
                     throwE (err_execution (upper @ '' operation was '' @ status_text r)))
                 else retE None))"

definition fan_out_empty ::
  "'w services \<Rightarrow> string \<Rightarrow> 'a batch_result codec \<Rightarrow> operation_identifier \<Rightarrow>
   ('w env, durable_error, 'a batch_result) cmd"
where
  "fan_out_empty sv lower bc oi =
     bindE (liftE (serialize_or (''Failed to serialize '' @ lower @ '' result: '') bc batch_result_empty)) (\<lambda>s.
     bindE (create_checkpoint sv (fan_out_succeed_update oi (Some s)) True) (\<lambda>_. retE batch_result_empty))"

definition fan_out_finish ::
  "'w services \<Rightarrow> string \<Rightarrow> 'a batch_result codec \<Rightarrow> operation_identifier \<Rightarrow> 'a batch_result \<Rightarrow>
   ('w env, durable_error, 'a batch_result) cmd"
where
  "fan_out_finish sv lower bc oi result =
     (if br_completion_reason result \<noteq> SuspendedReason then
        bindE (liftE (serialize_or (''Failed to serialize '' @ lower @ '' result: '') bc result)) (\<lambda>s.
        bindE (create_checkpoint sv (fan_out_succeed_update oi (Some s)) True) (\<lambda>_.
        bindE (on_state (mark_parent_done (oi_operation_id oi))) (\<lambda>_. retE result)))
      else retE result)"

definition fan_out ::
  "string \<Rightarrow> string \<Rightarrow> 'w services \<Rightarrow> 'a batch_result codec \<Rightarrow> operation_identifier \<Rightarrow> completion_config \<Rightarrow>
   nat option \<Rightarrow> ('w scope, durable_error, 'a) cmd list \<Rightarrow> nat list \<Rightarrow> 'w env \<Rightarrow>
   ((durable_error + 'a batch_result) \<times> 'w env) option"
where
  "fan_out lower upper sv bc oi cfg max_concurrency tasks schedule v =
     (case fan_out_replay lower upper bc
         (get_checkpoint_result (env_state v) (oi_operation_id oi)) oi v of
        (Inl e, v1) \<Rightarrow> Some (Inl e, v1)
      | (Inr (Some x), v1) \<Rightarrow> Some (Inr x, v1)
      | (Inr None, v1) \<Rightarrow>
          if tasks = [] then Some (fan_out_empty sv lower bc oi v1)
          else (case create_checkpoint sv (fan_out_start_update oi) True v1 of
             (Inl e, v2) \<Rightarrow> Some (Inl e, v2)
           | (Inr _, v2) \<Rightarrow>
               map_option (\<lambda>(result, sp). fan_out_finish sv lower bc oi result (sp_env sp))
                 (execute cfg max_concurrency tasks schedule
                    \<lparr>sp_env = v2, sp_context = create_child_context (oi_operation_id oi)\<rparr>)))"

text \<open>\<open>item_size\<close> is the length of the JSON text of an item.\<close>

definition map_handler ::
  "(u8 list \<Rightarrow> u8 list) \<Rightarrow> 'w services \<Rightarrow> 'a codec \<Rightarrow> 'a batch_result codec \<Rightarrow> ('t \<Rightarrow> nat) \<Rightarrow> 't list \<Rightarrow>
   (durable_context \<Rightarrow> 't \<Rightarrow> nat \<Rightarrow> ('w env, durable_error, 'a) cmd) \<Rightarrow> nat list \<Rightarrow>
   operation_identifier \<Rightarrow> map_config \<Rightarrow> 'w env \<Rightarrow> ((durable_error + 'a batch_result) \<times> 'w env) option"
where
  "map_handler blake2b sv c bc item_size items func schedule oi cfg =
     (let batched = (case mp_item_batcher cfg of
          Some b \<Rightarrow> batch_items b item_size items
        | None \<Rightarrow> map (\<lambda>(i, x). (i, [x])) (List.enumerate 0 items))
      in fan_out ''map'' ''Map'' sv bc oi (mp_completion_config cfg) (mp_max_concurrency cfg)
           (map (map_task blake2b sv c oi func) batched) schedule)"

definition parallel_handler ::
  "(u8 list \<Rightarrow> u8 list) \<Rightarrow> 'w services \<Rightarrow> 'a codec \<Rightarrow> 'a batch_result codec \<Rightarrow>
   ('w, 'a) child_function list \<Rightarrow> nat list \<Rightarrow> operation_identifier \<Rightarrow> parallel_config \<Rightarrow> 'w env \<Rightarrow>
   ((durable_error + 'a batch_result) \<times> 'w env) option"
where
  "parallel_handler blake2b sv c bc branches schedule oi cfg =
     fan_out ''parallel'' ''Parallel'' sv bc oi (pl_completion_config cfg) (pl_max_concurrency cfg)
       (map (parallel_task blake2b sv c oi) (List.enumerate 0 branches)) schedule"

section \<open>The operations of the context\<close>

text \<open>\<open>map\<close> and \<open>parallel\<close> of the context: as the other operations, with an execution that may not return.\<close>

definition fan_out_operation ::
  "(u8 list \<Rightarrow> u8 list) \<Rightarrow> string \<Rightarrow>
   (operation_identifier \<Rightarrow> 'w env \<Rightarrow> ((durable_error + 'b) \<times> 'w env) option) \<Rightarrow>
   'w scope \<Rightarrow> ((durable_error + 'b) \<times> 'w scope) option"
where
  "fan_out_operation blake2b name handler sp =
     (case next_operation_identifier blake2b (Some name) (sp_context sp) of (oi, ctx) \<Rightarrow>
        map_option (\<lambda>(r, v). (r, sp\<lparr>sp_context := ctx, sp_env :=
            (case r of Inr x \<Rightarrow> v\<lparr>env_state := track_replay (oi_operation_id oi) (env_state v)\<rparr> | Inl e \<Rightarrow> v)\<rparr>))
          (handler oi (sp_env sp)))"

definition ctx_map ::
  "(u8 list \<Rightarrow> u8 list) \<Rightarrow> 'w services \<Rightarrow> 'a codec \<Rightarrow> 'a batch_result codec \<Rightarrow> ('t \<Rightarrow> nat) \<Rightarrow> 't list \<Rightarrow>
   (durable_context \<Rightarrow> 't \<Rightarrow> nat \<Rightarrow> ('w env, durable_error, 'a) cmd) \<Rightarrow> nat list \<Rightarrow> map_config option \<Rightarrow>
   'w scope \<Rightarrow> ((durable_error + 'a batch_result) \<times> 'w scope) option"
where
  "ctx_map blake2b sv c bc item_size items func schedule config =
     fan_out_operation blake2b ''map'' (\<lambda>oi. map_handler blake2b sv c bc item_size items func schedule oi
       (case config of Some cfg \<Rightarrow> cfg
        | None \<Rightarrow> \<lparr>mp_max_concurrency = None, mp_item_batcher = None, mp_completion_config = all_completed\<rparr>))"

definition ctx_parallel ::
  "(u8 list \<Rightarrow> u8 list) \<Rightarrow> 'w services \<Rightarrow> 'a codec \<Rightarrow> 'a batch_result codec \<Rightarrow>
   ('w, 'a) child_function list \<Rightarrow> nat list \<Rightarrow> parallel_config option \<Rightarrow>
   'w scope \<Rightarrow> ((durable_error + 'a batch_result) \<times> 'w scope) option"
where
  "ctx_parallel blake2b sv c bc branches schedule config =
     fan_out_operation blake2b ''parallel'' (\<lambda>oi. parallel_handler blake2b sv c bc branches schedule oi
       (case config of Some cfg \<Rightarrow> cfg
        | None \<Rightarrow> \<lparr>pl_max_concurrency = None, pl_completion_config = all_completed\<rparr>))"

end
