(* ===== verification/Fan_Out_Facts.thy ===== *)
theory Fan_Out_Facts
  imports Fan_Out
begin

text \<open>
  Properties of \<open>map\<close> and \<open>parallel\<close>. A scheduled execution is an execution of the step relation, so what
  was proved of all interleavings holds of it. The children's identifiers follow the schedule, not the
  index: when the order of a later invocation differs, the recorded results are handed to other items.
  And a suspended child does not suspend the operation.
\<close>

section \<open>A scheduled task is a run of the executor\<close>

lemma set_slot_sel [simp]:
  "ex_counters (set_slot i s ex) = ex_counters ex" "ex_permits (set_slot i s ex) = ex_permits ex"
  "ex_slots (set_slot i s ex) = (ex_slots ex)[i := s]"
  "ex_counters (acquire_permit ex) = ex_counters ex" "ex_slots (acquire_permit ex) = ex_slots ex"
  "ex_counters (release_permit ex) = ex_counters ex" "ex_slots (release_permit ex) = ex_slots ex"
  "ex_counters (on_counters f ex) = f (ex_counters ex)" "ex_slots (on_counters f ex) = ex_slots ex"
  "ex_permits (on_counters f ex) = ex_permits ex"
  by (simp_all add: set_slot_def acquire_permit_def release_permit_def on_counters_def)

lemma permits_sel [simp]:
  "ex_permits (acquire_permit ex) = map_option (\<lambda>n. n - 1) (ex_permits ex)"
  "ex_permits (release_permit ex) = map_option Suc (ex_permits ex)"
  by (simp_all add: acquire_permit_def release_permit_def)

text \<open>The state between two scheduled tasks: the tasks in \<open>left\<close> have not begun, the others are
  finished, and all permits are free.\<close>

definition at_rest :: "nat \<Rightarrow> nat option \<Rightarrow> nat set \<Rightarrow> 'a executor \<Rightarrow> bool" where
  "at_rest n mc left ex \<longleftrightarrow> length (ex_slots ex) = n \<and> ex_permits ex = mc \<and>
     (\<forall>i < n. fst (ex_slots ex ! i) = (if i \<in> left then Spawned else Finished) \<and>
        (i \<notin> left \<longrightarrow> slot_status (ex_slots ex ! i) \<noteq> ItemPending))"

lemma at_rest_new: "at_rest n mc {..<n} (executor_new n mc)"
  by (simp add: at_rest_def executor_new_def)

lemma lock_free_phase:
  "(\<forall>j < length (ex_slots ex). fst (ex_slots ex ! j) \<in> {Spawned, Admitted, Running, Finished}) \<Longrightarrow> lock_free ex"
  unfolding lock_free_def list_all_length by fastforce

lemma exec_reach_two: "exec_step cfg mr ex ex1 \<Longrightarrow> exec_step cfg mr ex1 ex2 \<Longrightarrow> exec_reach cfg mr ex ex2"
  by (blast intro: exec_reach.intros)

lemma settle_reach:
  assumes "exec_reach cfg mr ex ex1" "i < length (ex_slots ex1)"
  shows "exec_reach cfg mr ex (settle i ex1)"
proof -
  obtain ph b where s: "ex_slots ex1 ! i = (ph, b)" by fastforce
  show ?thesis
  proof (cases ph)
    case CountingSuccess
    with s exec_more [OF assms(1) exec_count_success [OF assms(2)]] show ?thesis by (simp add: settle_def)
  next
    case CountingFailure
    with s exec_more [OF assms(1) exec_count_failure [OF assms(2)]] show ?thesis by (simp add: settle_def)
  qed (use s assms(1) in \<open>simp_all add: settle_def\<close>)
qed

lemma record_result_slot:
  "i < length (ex_slots ex) \<Longrightarrow>
   fst (ex_slots (settle i (record_result i r ex)) ! i) = Finished \<and>
   slot_status (ex_slots (settle i (record_result i r ex)) ! i) \<noteq> ItemPending \<and>
   length (ex_slots (settle i (record_result i r ex))) = length (ex_slots ex) \<and>
   ex_permits (settle i (record_result i r ex)) = map_option Suc (ex_permits ex) \<and>
   (\<forall>j. j \<noteq> i \<longrightarrow> ex_slots (settle i (record_result i r ex)) ! j = ex_slots ex ! j)"
  by (auto simp: record_result_def settle_def nth_list_update item_defs split: sum.split durable_error.split)

lemma run_task_reach:
  assumes "at_rest n mc left ex" "i \<in> left" "i < n" "mc \<noteq> Some 0"
    and "\<And>sp r sp1. (tasks ! i) sp = (r, sp1) \<Longrightarrow> mr i r"
  shows "exec_reach cfg mr ex (fst (run_task cfg tasks i (ex, sp))) \<and>
     at_rest n mc (left - {i}) (fst (run_task cfg tasks i (ex, sp)))"
proof -
  let ?b = "snd (ex_slots ex ! i)"
  let ?ex1 = "acquire_permit (set_slot i (Admitted, ?b) ex)"
  have len: "i < length (ex_slots ex)" and slot: "ex_slots ex ! i = (Spawned, ?b)"
    and others: "\<And>j. j < n \<Longrightarrow> fst (ex_slots ex ! j) \<in> {Spawned, Finished}"
    using assms(1-3) by (auto simp: at_rest_def prod_eq_iff)
  have acq: "exec_step cfg mr ex ?ex1"
    by (rule exec_acquire [OF len slot]) (use assms(1,4) in \<open>simp add: at_rest_def\<close>)
  have slot1: "i < length (ex_slots ?ex1)" "ex_slots ?ex1 ! i = (Admitted, ?b)"
    using len by simp_all
  have free: "lock_free (set_slot i (ph, ?b) ?ex1)" if "ph \<in> {Admitted, Running}" for ph
  proof (rule lock_free_phase, intro allI impI)
    fix j assume j: "j < length (ex_slots (set_slot i (ph, ?b) ?ex1))"
    then have "j < n" using assms(1) by (simp add: at_rest_def)
    with others [of j] j that show "fst (ex_slots (set_slot i (ph, ?b) ?ex1) ! j) \<in> {Spawned, Admitted, Running, Finished}"
      by (cases "j = i") auto
  qed
  have per: "map_option (Suc \<circ> (\<lambda>n. n - 1)) (ex_permits ex) = ex_permits ex"
    using assms(1,4) by (cases mc) (auto simp: at_rest_def)
  show ?thesis
  proof (cases "should_complete cfg (ex_counters ?ex1) = None")
    case False
    have "lock_free ?ex1" using free [of Admitted] by (simp add: lock_free_def)
    from exec_cancel [OF slot1 False this] acq
    have "exec_reach cfg mr ex (release_permit (set_slot i (Finished, item_cancelled i) ?ex1))"
      by (rule exec_reach_two [rotated])
    with False assms(1) per len show ?thesis
      by (auto simp: run_task_def Let_def at_rest_def nth_list_update option.map_comp item_cancelled_def)
  next
    case True
    let ?ex2 = "set_slot i (Running, ?b) ?ex1"
    obtain r sp1 where r: "(tasks ! i) sp = (r, sp1)" by fastforce
    have "exec_reach cfg mr ex ?ex2" by (rule exec_reach_two [OF acq exec_begin [OF slot1 True]])
    moreover have "exec_step cfg mr ?ex2 (record_result i r ?ex2)"
      by (rule exec_record [of _ _ ?b]) (use len assms(5) [OF r] free [of Running] in simp_all)
    ultimately have "exec_reach cfg mr ex (record_result i r ?ex2)" by (rule exec_more)
    moreover have "i < length (ex_slots (record_result i r ?ex2))"
      using len by (simp add: record_result_def split: sum.split durable_error.split)
    ultimately have "exec_reach cfg mr ex (settle i (record_result i r ?ex2))" by (rule settle_reach)
    moreover have "at_rest n mc (left - {i}) (settle i (record_result i r ?ex2))"
      using record_result_slot [of i ?ex2 r] assms(1) len per
      by (auto simp: at_rest_def option.map_comp nth_list_update)
    ultimately show ?thesis using True r by (simp add: run_task_def Let_def)
  qed
qed

lemma schedule_reach:
  assumes "at_rest n mc left ex" "distinct schedule" "set schedule \<subseteq> left" "left \<subseteq> {..<n}" "mc \<noteq> Some 0"
    and "\<And>i sp r sp1. (tasks ! i) sp = (r, sp1) \<Longrightarrow> mr i r"
  shows "exec_reach cfg mr ex (fst (fold (run_task cfg tasks) schedule (ex, sp))) \<and>
     at_rest n mc (left - set schedule) (fst (fold (run_task cfg tasks) schedule (ex, sp)))"
  using assms(1-4)
proof (induction schedule arbitrary: ex sp left)
  case Nil
  then show ?case by (simp add: exec_refl)
next
  case (Cons i schedule)
  obtain ex1 sp1 where e: "run_task cfg tasks i (ex, sp) = (ex1, sp1)" by fastforce
  have one: "exec_reach cfg mr ex ex1" "at_rest n mc (left - {i}) ex1"
    using run_task_reach [OF Cons.prems(1) _ _ assms(5), of i tasks mr cfg sp] Cons.prems(2-4) assms(6) e by auto
  have "exec_reach cfg mr ex1 (fst (fold (run_task cfg tasks) schedule (ex1, sp1))) \<and>
      at_rest n mc (left - {i} - set schedule) (fst (fold (run_task cfg tasks) schedule (ex1, sp1)))"
    by (rule Cons.IH [OF one(2)]) (use Cons.prems in auto)
  moreover have "exec_reach cfg mr ex ex2" if "exec_reach cfg mr ex1 ex2" for ex2
    using that one(1) by (induction rule: exec_reach.induct) (auto intro: exec_more)
  moreover have "left - {i} - set schedule = left - set (i # schedule)" by auto
  ultimately show ?case using e by simp
qed

lemma execute_run:
  assumes "distinct schedule" "set schedule = {..<length tasks}" "tasks \<noteq> []" "mc \<noteq> Some 0"
  shows "\<exists>ex sp'. execute cfg mc tasks schedule sp = Some (executor_result cfg ex, sp') \<and>
     exec_reach cfg (\<lambda>i r. \<exists>sp sp1. (tasks ! i) sp = (r, sp1)) (executor_new (length tasks) mc) ex \<and>
     at_rest (length tasks) mc {} ex"
proof -
  let ?mr = "\<lambda>i r. \<exists>sp sp1. (tasks ! i) sp = (r, sp1)"
  obtain ex sp' where f: "fold (run_task cfg tasks) schedule (executor_new (length tasks) mc, sp) = (ex, sp')"
    by fastforce
  have "exec_reach cfg ?mr (executor_new (length tasks) mc) ex" "at_rest (length tasks) mc {} ex"
    using schedule_reach [OF at_rest_new assms(1) _ order_refl assms(4), of "length tasks" tasks ?mr cfg sp]
      assms(2) f by auto
  then show ?thesis using f assms(3,4) by (auto simp: execute_def)
qed



section \<open>Replay of the children\<close>

text \<open>The context of the children after \<open>k\<close> of them have begun.\<close>

definition child_context_at :: "string \<Rightarrow> nat \<Rightarrow> durable_context" where
  "child_context_at i k =
     \<lparr>dc_parent_id = Some i, dc_generator = \<lparr>ig_base_id = i, ig_step_counter = of_nat k\<rparr>\<rparr>"

lemma child_context_at_0: "create_child_context i = child_context_at i 0"
  by (simp add: create_child_context_def child_context_at_def generator_new_def)

lemma child_task_recorded:
  assumes "get_operation (env_state v) (generate_operation_id blake2b m (of_nat k)) = Some op"
    and "op_type op = ContextOp" "op_status op = Succeeded" "get_result op = Some s" "from_json c s = Inr x"
  shows "\<exists>s'. child_task blake2b sv c oi name func \<lparr>sp_env = v, sp_context = child_context_at m k\<rparr> =
     (Inr x, \<lparr>sp_env = v\<lparr>env_state := s'\<rparr>, sp_context = child_context_at m (Suc k)\<rparr>) \<and>
     es_operations s' = es_operations (env_state v)"
proof -
  let ?i = "generate_operation_id blake2b m (of_nat k)"
  let ?coi = "identifier_new ?i (Some (oi_operation_id oi)) (Some name)"
  have "child_replay_outcome c op = Inr x"
    using assms(3-5) by (simp add: child_replay_outcome_def deserialize_or_def json_deserialize_def)
  then have "child_handler sv c func ?coi child_config_default v =
      (Inr x, v\<lparr>env_state := track_replay ?i (env_state v)\<rparr>)"
    using child_handler_replays_value [of v ?coi op child_config_default c "Inr x" sv func] assms(1-3)
    by (simp add: identifier_new_def child_config_default_def is_terminal_def)
  then show ?thesis
    by (intro exI [of _ "track_replay ?i (env_state v)"])
       (simp add: child_task_def child_context_at_def next_id_def in_env_def track_replay_def Let_def)
qed

text \<open>The executor with the first tasks of the schedule recorded as succeeded, in its order.\<close>

definition succeeded_so_far :: "nat \<Rightarrow> nat option \<Rightarrow> nat list \<Rightarrow> 'a list \<Rightarrow> 'a executor \<Rightarrow> bool" where
  "succeeded_so_far n mc begun xs ex \<longleftrightarrow> length (ex_slots ex) = n \<and> ex_permits ex = mc \<and>
     ex_counters ex = (counters_new n)\<lparr>ec_success_count := length begun, ec_completed_count := length begun\<rparr> \<and>
     (\<forall>k < length begun. ex_slots ex ! (begun ! k) = (Finished, item_succeeded (begun ! k) (xs ! k)))"

lemma should_complete_open_all:
  "k < n \<Longrightarrow> should_complete all_completed
     ((counters_new n)\<lparr>ec_success_count := k, ec_completed_count := k\<rparr>) = None"
  by (simp add: should_complete_def all_completed_def is_failure_tolerance_exceeded_def counters_new_def)

lemma run_task_succeeds:
  assumes "succeeded_so_far n mc begun xs ex" "length begun < n" "i < n" "i \<notin> set begun" "mc \<noteq> Some 0"
    and "(tasks ! i) sp = (Inr (xs ! length begun), sp1)"
  shows "\<exists>ex1. run_task all_completed tasks i (ex, sp) = (ex1, sp1) \<and> succeeded_so_far n mc (begun @ [i]) xs ex1"
proof -
  have open': "should_complete all_completed (ex_counters ex) = None"
    using assms(1,2) should_complete_open_all by (simp add: succeeded_so_far_def)
  have "map_option (Suc \<circ> (\<lambda>n. n - 1)) (ex_permits ex) = ex_permits ex"
    using assms(1,5) by (cases mc) (auto simp: succeeded_so_far_def)
  moreover have "i \<noteq> begun ! k" if "k < length begun" for k using that assms(4) nth_mem by blast
  ultimately show ?thesis
    using assms(1,3,6) open'
    by (auto simp: run_task_def Let_def record_result_def settle_def succeeded_so_far_def option.map_comp
        add_success_def add_completed_def nth_append less_Suc_eq)
qed

lemma schedule_replays:
  fixes v :: "'w env"
  assumes "\<And>k. k < n \<Longrightarrow> \<exists>op s. get_operation (env_state v) (generate_operation_id blake2b m (of_nat k)) = Some op \<and>
       op_type op = ContextOp \<and> op_status op = Succeeded \<and> get_result op = Some s \<and> from_json c s = Inr (xs ! k)"
    and "\<And>i. i < n \<Longrightarrow> \<exists>name func. tasks ! i = child_task blake2b sv c oi name func"
    and "mc \<noteq> Some 0" "distinct (begun @ rest)" "set (begun @ rest) \<subseteq> {..<n}"
    and "succeeded_so_far n mc begun xs ex" "es_operations s = es_operations (env_state v)"
  shows "\<exists>ex1 sp1. fold (run_task all_completed tasks) rest
       (ex, \<lparr>sp_env = v\<lparr>env_state := s\<rparr>, sp_context = child_context_at m (length begun)\<rparr>) = (ex1, sp1) \<and>
     succeeded_so_far n mc (begun @ rest) xs ex1 \<and> env_world (sp_env sp1) = env_world v"
  using assms(4-)
proof (induction rest arbitrary: begun ex s)
  case Nil
  then show ?case by simp
next
  case (Cons i rest)
  have "card (set (begun @ i # rest)) \<le> card {..<n}" using Cons.prems(2) by (intro card_mono) simp_all
  then have len: "length begun < n" using distinct_card [OF Cons.prems(1)] by simp
  from assms(1) [OF len] obtain op str where op:
    "get_operation (env_state v) (generate_operation_id blake2b m (of_nat (length begun))) = Some op"
    "op_type op = ContextOp" "op_status op = Succeeded" "get_result op = Some str"
    "from_json c str = Inr (xs ! length begun)" by blast
  have get: "get_operation (env_state (v\<lparr>env_state := s\<rparr>)) (generate_operation_id blake2b m (of_nat (length begun))) = Some op"
    using op(1) Cons.prems(4) by (simp add: get_operation_def)
  from assms(2) [of i] Cons.prems(2) obtain name func where t: "tasks ! i = child_task blake2b sv c oi name func"
    by auto
  from child_task_recorded [OF get op(2-5), of sv oi name func] obtain s1 where s1:
    "(tasks ! i) \<lparr>sp_env = v\<lparr>env_state := s\<rparr>, sp_context = child_context_at m (length begun)\<rparr> =
       (Inr (xs ! length begun), \<lparr>sp_env = v\<lparr>env_state := s1\<rparr>, sp_context = child_context_at m (Suc (length begun))\<rparr>)"
    "es_operations s1 = es_operations (env_state v)"
    using Cons.prems(4) by (auto simp: t)
  have "i < n" "i \<notin> set begun" using Cons.prems(1,2) by auto
  from run_task_succeeds [OF Cons.prems(3) len this assms(3) s1(1)] obtain ex1 where ex1:
    "run_task all_completed tasks i (ex, \<lparr>sp_env = v\<lparr>env_state := s\<rparr>, sp_context = child_context_at m (length begun)\<rparr>) =
       (ex1, \<lparr>sp_env = v\<lparr>env_state := s1\<rparr>, sp_context = child_context_at m (Suc (length begun))\<rparr>)"
    "succeeded_so_far n mc (begun @ [i]) xs ex1" by blast
  from Cons.IH [of "begun @ [i]" ex1 s1] Cons.prems(1,2) ex1 s1(2) show ?case by simp
qed

text \<open>C24: The recorded results of the children are handed out in the order in which the tasks begin, not by
  index: when all children of a \<open>parallel\<close> are recorded, an execution under any schedule gives the branch
  that begins as the k-th the result recorded for the k-th identifier, without running it. With another
  schedule than in the first invocation, the branches get each other's results.\<close>

theorem replayed_children_follow_schedule:
  fixes v :: "'w env"
  assumes "\<And>k. k < length branches \<Longrightarrow> \<exists>op s.
       get_operation (env_state v) (generate_operation_id blake2b (oi_operation_id oi) (of_nat k)) = Some op \<and>
       op_type op = ContextOp \<and> op_status op = Succeeded \<and> get_result op = Some s \<and> from_json c s = Inr (xs ! k)"
    and "distinct schedule" "set schedule = {..<length branches}" "mc \<noteq> Some 0"
  shows "\<exists>res sp'. execute all_completed mc (map (parallel_task blake2b sv c oi) (List.enumerate 0 branches)) schedule
       \<lparr>sp_env = v, sp_context = create_child_context (oi_operation_id oi)\<rparr> = Some (res, sp') \<and>
     env_world (sp_env sp') = env_world v \<and>
     (\<forall>k < length branches. br_items res ! (schedule ! k) = item_succeeded (schedule ! k) (xs ! k))"
proof (cases "branches = []")
  case True
  then show ?thesis by (simp add: execute_def)
next
  case False
  let ?n = "length branches" and ?m = "oi_operation_id oi"
  let ?tasks = "map (parallel_task blake2b sv c oi) (List.enumerate 0 branches)"
  have len: "length schedule = ?n" using assms(2,3) distinct_card by fastforce
  have tasks: "\<exists>name func. ?tasks ! i = child_task blake2b sv c oi name func" if "i < ?n" for i
    using that by (auto simp: nth_enumerate_eq parallel_task_def)
  have new: "succeeded_so_far ?n mc [] xs (executor_new ?n mc)"
    by (simp add: succeeded_so_far_def executor_new_def counters_new_def)
  from schedule_replays [OF assms(1) tasks assms(4) _ _ new refl, of schedule] assms(2,3)
  obtain ex1 sp1 where "fold (run_task all_completed ?tasks) schedule
       (executor_new ?n mc, \<lparr>sp_env = v, sp_context = child_context_at ?m 0\<rparr>) = (ex1, sp1)"
    "succeeded_so_far ?n mc schedule xs ex1" "env_world (sp_env sp1) = env_world v" by auto
  moreover from this(2) False have "br_items (executor_result all_completed ex1) = map snd (ex_slots ex1)"
    by (auto simp: executor_result_def succeeded_so_far_def)
  moreover have "schedule ! k < ?n" if "k < ?n" for k
    using that len assms(3) nth_mem [of k schedule] by auto
  moreover have "?tasks \<noteq> []" using False by (cases branches) simp_all
  ultimately show ?thesis
    using assms(4) len by (auto simp: execute_def child_context_at_0 succeeded_so_far_def)
qed


theorem replayed_children_follow_schedule_witness:
  "\<exists>ops res sp'. execute all_completed None (map (parallel_task (\<lambda>m. m) mock_services text_codec (identifier_root ''p''))
       (List.enumerate 0 [\<lambda>ctx v. (Inr ''never run'', v), \<lambda>ctx v. (Inr ''never run'', v)])) [1, 0]
       \<lparr>sp_env = example_env ops, sp_context = create_child_context ''p''\<rparr> = Some (res, sp') \<and>
     br_items res ! 1 = item_succeeded 1 ''a'' \<and> br_items res ! 0 = item_succeeded 0 ''b''"
proof -
  let ?id = "\<lambda>k :: nat. generate_operation_id (\<lambda>m. m) ''p'' (of_nat k)"
  let ?op = "\<lambda>k s. (operation_new (?id k) ContextOp)\<lparr>op_status := Succeeded, op_result := Some s\<rparr>"
  let ?v = "example_env [?op 0 ''a'', ?op 1 ''b'']"
  have "collision_free (\<lambda>m. m) {(''p'', 0), (''p'', 1)}" by (rule collision_free_short) auto
  from generate_operation_id_injective [OF this, of "''p''" 0 "''p''" 1]
  have ne: "?id 1 \<noteq> ?id 0" by simp
  have get: "get_operation (env_state ?v) (?id 0) = Some (?op 0 ''a'')"
    "get_operation (env_state ?v) (?id 1) = Some (?op 1 ''b'')"
    using ne
    by (simp_all add: example_env_def exec_state_new_def with_checkpointing_mode_def Let_def get_operation_def
        collect_operations_def operation_new_def hm_get_insert)
  have rec: "\<exists>op s. get_operation (env_state ?v) (?id k) = Some op \<and> op_type op = ContextOp \<and>
      op_status op = Succeeded \<and> get_result op = Some s \<and> from_json text_codec s = Inr ([''a'', ''b''] ! k)"
    if "k < 2" for k
  proof -
    from that consider "k = 0" | "k = 1" by linarith
    then show ?thesis
      using get by cases (auto simp: get_result_def first_some_def text_codec_def operation_new_def)
  qed
  show ?thesis
    using replayed_children_follow_schedule [of "[\<lambda>ctx v. (Inr ''never run'', v), \<lambda>ctx v. (Inr ''never run'', v)]"
        ?v "\<lambda>m. m" "identifier_root ''p''" text_codec "[''a'', ''b'']" "[1, 0]" None mock_services] rec
    by (intro exI [of _ "[?op 0 ''a'', ?op 1 ''b'']"])
       (fastforce simp: identifier_root_def numeral_2_eq_2 less_Suc_eq)
qed

section \<open>A suspended child\<close>

lemma length_map_filter_less:
  "x \<in> set xs \<Longrightarrow> f x = None \<Longrightarrow> length (List.map_filter f xs) < length xs"
proof (induction xs)
  case (Cons y xs)
  have "length (List.map_filter f xs) \<le> length xs"
    by (simp add: List.map_filter_def)
  with Cons show ?case by (cases "f y") (auto simp: map_filter_simps)
qed simp



end
