(* ===== verification/Promise.thy ===== *)
theory Promise
  imports Context_Operations Concurrency
begin

text \<open>
  The promise combinators \<open>all\<close>, \<open>all_settled\<close>, \<open>race\<close> and \<open>any\<close> of \<open>sdk/src/handlers/promise.rs\<close>. A
  future is user code on a scope: an \<open>async fn\<close> of the context takes its identifier when it is first
  polled, which here is inside the task spawned for it. The order in which the spawned futures end is a
  parameter, the schedule; a future that is not in it has panicked, or is still running when the
  combinator goes on.
\<close>

section \<open>Checkpoints of a combinator\<close>

definition promise_check_replay ::
  "'a codec \<Rightarrow> operation_identifier \<Rightarrow> ('w env, durable_error, 'a option) cmd" where
  "promise_check_replay c oi v =
     (let r = get_checkpoint_result (env_state v) (oi_operation_id oi) in
      case cr_operation_type r of
        None \<Rightarrow> (Inr None, v)
      | Some ty \<Rightarrow>
          if ty \<noteq> StepOp then (Inl (non_deterministic_error StepOp ty (oi_operation_id oi)), v)
          else if cr_is_succeeded r then
            bindE (track (oi_operation_id oi)) (\<lambda>_. case cr_result r of
              Some s \<Rightarrow> liftE (map_sum id Some
                (deserialize_or ''Failed to deserialize checkpointed result: '' c s))
            | None \<Rightarrow> retE None) v
          else if cr_is_failed r then
            bindE (track (oi_operation_id oi)) (\<lambda>_. throwE (case cr_error r of
                Some e \<Rightarrow> replayed_user_error e
              | None \<Rightarrow> err_execution ''Promise combinator failed with unknown error'')) v
          else (Inr None, v))"

definition promise_start_update :: "operation_identifier \<Rightarrow> operation_update" where
  "promise_start_update oi =
     with_sub_type ''PromiseCombinator'' (apply_to oi (update_start (oi_operation_id oi) StepOp))"

definition promise_start :: "'w services \<Rightarrow> operation_identifier \<Rightarrow> ('w env, durable_error, unit) cmd" where
  "promise_start sv oi = create_checkpoint sv (promise_start_update oi) True"

definition promise_succeed ::
  "'w services \<Rightarrow> 'a codec \<Rightarrow> operation_identifier \<Rightarrow> 'a \<Rightarrow> ('w env, durable_error, unit) cmd" where
  "promise_succeed sv c oi x =
     bindE (liftE (serialize_or ''Failed to serialize result: '' c x)) (\<lambda>s.
     create_checkpoint sv (apply_to oi (update_succeed (oi_operation_id oi) StepOp (Some s))) True)"

definition promise_fail ::
  "'w services \<Rightarrow> operation_identifier \<Rightarrow> error_object \<Rightarrow> ('w env, durable_error, unit) cmd" where
  "promise_fail sv oi e =
     create_checkpoint sv (apply_to oi (update_fail (oi_operation_id oi) StepOp e)) True"

section \<open>Futures\<close>

primrec run_futures ::
  "('w scope, durable_error, 'a) cmd list \<Rightarrow> nat list \<Rightarrow> 'w scope \<Rightarrow>
   (nat \<times> (durable_error + 'a)) list \<times> 'w scope"
where
  "run_futures futures [] sp = ([], sp)"
| "run_futures futures (i # schedule) sp =
     (case (futures ! i) sp of (r, sp1) \<Rightarrow>
        (case run_futures futures schedule sp1 of (ended, sp2) \<Rightarrow> ((i, r) # ended, sp2)))"

text \<open>The outcome of a combinator: a value, or the error object it records and the error it returns.\<close>

type_synonym 'a promise_outcome = "(error_object \<times> durable_error) + 'a"

definition promise_finish ::
  "'w services \<Rightarrow> 'a codec \<Rightarrow> operation_identifier \<Rightarrow> 'a promise_outcome \<Rightarrow> ('w env, durable_error, 'a) cmd"
where
  "promise_finish sv c oi out = (case out of
     Inr x \<Rightarrow> bindE (promise_succeed sv c oi x) (\<lambda>_. retE x)
   | Inl (eo, e) \<Rightarrow> bindE (promise_fail sv oi eo) (\<lambda>_. throwE e))"

text \<open>\<open>all\<close>: the results by index; the first one that is not a value decides.\<close>

primrec all_outcome :: "nat \<Rightarrow> (durable_error + 'a) option list \<Rightarrow> 'a list promise_outcome" where
  "all_outcome i [] = Inr []"
| "all_outcome i (r # rs) = (case r of
     Some (Inr x) \<Rightarrow> map_sum id (\<lambda>xs. x # xs) (all_outcome (Suc i) rs)
   | Some (Inl e) \<Rightarrow> Inl (error_object_from e,
       UserCode (''Promise at index '' @ show_nat i @ '' failed: '' @ display_error e) ''AllCombinatorError'' None)
   | None \<Rightarrow> Inl (error_object_new ''InternalError'' ''Promise result missing'',
       err_execution ''Promise result missing''))"

definition received :: "nat \<Rightarrow> (nat \<times> (durable_error + 'a)) list \<Rightarrow> (durable_error + 'a) option list" where
  "received n ended = map (map_of ended) [0..<n]"

definition settled_item :: "nat \<Rightarrow> (durable_error + 'a) option \<Rightarrow> 'a batch_item" where
  "settled_item i r = (case r of
     Some (Inr x) \<Rightarrow> item_succeeded i x
   | Some (Inl e) \<Rightarrow> item_failed i (error_object_from e)
   | None \<Rightarrow> item_pending i)"

definition all_settled_result ::
  "nat \<Rightarrow> (nat \<times> (durable_error + 'a)) list \<Rightarrow> 'a batch_result" where
  "all_settled_result n ended =
     \<lparr>br_items = map (\<lambda>i. settled_item i (map_of ended i)) [0..<n], br_completion_reason = AllCompleted\<rparr>"

definition race_outcome :: "(nat \<times> (durable_error + 'a)) list \<Rightarrow> 'a promise_outcome" where
  "race_outcome ended = (case ended of
     (i, Inr x) # _ \<Rightarrow> Inr x
   | (i, Inl e) # _ \<Rightarrow> Inl (error_object_from e, e)
   | [] \<Rightarrow> Inl (error_object_new ''InternalError'' ''No futures completed'', err_execution ''No futures completed''))"

definition any_outcome :: "nat \<Rightarrow> (nat \<times> (durable_error + 'a)) list \<Rightarrow> 'a promise_outcome" where
  "any_outcome n ended =
     (case List.map_filter (\<lambda>(i, r). case r of Inr x \<Rightarrow> Some x | Inl e \<Rightarrow> None) ended of
        x # _ \<Rightarrow> Inr x
      | [] \<Rightarrow>
          let m = ''All '' @ show_nat n @ '' futures failed: '' @
                join_strings ''; '' (List.map_filter (\<lambda>(i, r). case r of
                   Inl e \<Rightarrow> Some (''Future '' @ show_nat i @ '': '' @ display_error e) | Inr x \<Rightarrow> None) ended)
          in Inl (error_object_new ''AnyCombinatorError'' m, UserCode m ''AnyCombinatorError'' None))"

section \<open>The handlers\<close>

text \<open>What the four handlers share: the replay, the START, the answer for no futures, the execution and
  the outcome.\<close>

definition promise_handler ::
  "'w services \<Rightarrow> 'b codec \<Rightarrow> operation_identifier \<Rightarrow> 'b promise_outcome \<Rightarrow>
   ((nat \<times> (durable_error + 'a)) list \<Rightarrow> 'b promise_outcome) \<Rightarrow>
   ('w scope, durable_error, 'a) cmd list \<Rightarrow> nat list \<Rightarrow> ('w scope, durable_error, 'b) cmd"
where
  "promise_handler sv c oi on_empty outcome futures schedule =
     bindE (in_env (promise_check_replay c oi)) (\<lambda>replayed. case replayed of
       Some x \<Rightarrow> retE x
     | None \<Rightarrow>
         bindE (in_env (promise_start sv oi)) (\<lambda>_.
           if futures = [] then in_env (promise_finish sv c oi on_empty)
           else (\<lambda>sp. case run_futures futures schedule sp of (ended, sp1) \<Rightarrow>
             in_env (promise_finish sv c oi (outcome ended)) sp1)))"

definition all_handler ::
  "'w services \<Rightarrow> 'a list codec \<Rightarrow> ('w scope, durable_error, 'a) cmd list \<Rightarrow> nat list \<Rightarrow>
   operation_identifier \<Rightarrow> ('w scope, durable_error, 'a list) cmd"
where
  "all_handler sv c futures schedule oi =
     promise_handler sv c oi (Inr [])
       (\<lambda>ended. all_outcome 0 (received (length futures) ended)) futures schedule"

definition all_settled_handler ::
  "'w services \<Rightarrow> 'a batch_result codec \<Rightarrow> ('w scope, durable_error, 'a) cmd list \<Rightarrow> nat list \<Rightarrow>
   operation_identifier \<Rightarrow> ('w scope, durable_error, 'a batch_result) cmd"
where
  "all_settled_handler sv c futures schedule oi =
     promise_handler sv c oi (Inr batch_result_empty)
       (\<lambda>ended. Inr (all_settled_result (length futures) ended)) futures schedule"

definition needs_future :: "string \<Rightarrow> 'a promise_outcome" where
  "needs_future name = (let m = name @ '' requires at least one future''
     in Inl (error_object_new ''ValidationError'' m, Validation m))"

definition race_handler ::
  "'w services \<Rightarrow> 'a codec \<Rightarrow> ('w scope, durable_error, 'a) cmd list \<Rightarrow> nat list \<Rightarrow>
   operation_identifier \<Rightarrow> ('w scope, durable_error, 'a) cmd"
where
  "race_handler sv c futures schedule oi =
     promise_handler sv c oi (needs_future ''race'') race_outcome futures schedule"

definition any_handler ::
  "'w services \<Rightarrow> 'a codec \<Rightarrow> ('w scope, durable_error, 'a) cmd list \<Rightarrow> nat list \<Rightarrow>
   operation_identifier \<Rightarrow> ('w scope, durable_error, 'a) cmd"
where
  "any_handler sv c futures schedule oi =
     promise_handler sv c oi (needs_future ''any'') (any_outcome (length futures)) futures schedule"

section \<open>The operations of the context\<close>

definition promise_operation ::
  "(u8 list \<Rightarrow> u8 list) \<Rightarrow> string \<Rightarrow> (operation_identifier \<Rightarrow> ('w scope, durable_error, 'b) cmd) \<Rightarrow>
   ('w scope, durable_error, 'b) cmd"
where
  "promise_operation blake2b name handler =
     bindE (take_identifier blake2b (Some name)) (\<lambda>oi.
     bindE (handler oi) (\<lambda>x. bindE (in_env (track (oi_operation_id oi))) (\<lambda>_. retE x)))"

definition ctx_all ::
  "(u8 list \<Rightarrow> u8 list) \<Rightarrow> 'w services \<Rightarrow> 'a list codec \<Rightarrow> ('w scope, durable_error, 'a) cmd list \<Rightarrow>
   nat list \<Rightarrow> ('w scope, durable_error, 'a list) cmd" where
  "ctx_all blake2b sv c futures schedule =
     promise_operation blake2b ''all'' (all_handler sv c futures schedule)"

definition ctx_all_settled ::
  "(u8 list \<Rightarrow> u8 list) \<Rightarrow> 'w services \<Rightarrow> 'a batch_result codec \<Rightarrow> ('w scope, durable_error, 'a) cmd list \<Rightarrow>
   nat list \<Rightarrow> ('w scope, durable_error, 'a batch_result) cmd" where
  "ctx_all_settled blake2b sv c futures schedule =
     promise_operation blake2b ''all_settled'' (all_settled_handler sv c futures schedule)"

definition ctx_race ::
  "(u8 list \<Rightarrow> u8 list) \<Rightarrow> 'w services \<Rightarrow> 'a codec \<Rightarrow> ('w scope, durable_error, 'a) cmd list \<Rightarrow>
   nat list \<Rightarrow> ('w scope, durable_error, 'a) cmd" where
  "ctx_race blake2b sv c futures schedule =
     promise_operation blake2b ''race'' (race_handler sv c futures schedule)"

definition ctx_any ::
  "(u8 list \<Rightarrow> u8 list) \<Rightarrow> 'w services \<Rightarrow> 'a codec \<Rightarrow> ('w scope, durable_error, 'a) cmd list \<Rightarrow>
   nat list \<Rightarrow> ('w scope, durable_error, 'a) cmd" where
  "ctx_any blake2b sv c futures schedule =
     promise_operation blake2b ''any'' (any_handler sv c futures schedule)"

end
