(* ===== verification/Promise_Facts.thy ===== *)
theory Promise_Facts
  imports Promise Child_Facts "HOL-Library.Multiset"
begin

text \<open>
  Properties of the promise combinators: the outcome of a combinator is durable, \<open>all\<close> and \<open>all_settled\<close>
  do not depend on the order in which the futures end, and a future that suspends is an outcome like any
  other error: the combinator records it as its failure, for good.
\<close>

section \<open>Durable outcomes\<close>

definition promise_result :: "'a promise_outcome \<Rightarrow> durable_error + 'a" where
  "promise_result out = map_sum snd id out"

definition promise_replayed :: "'a promise_outcome \<Rightarrow> durable_error + 'a" where
  "promise_replayed out = map_sum (\<lambda>(eo, e). replayed_user_error eo) id out"

text \<open>The update that records an outcome.\<close>

definition promise_update ::
  "'a codec \<Rightarrow> operation_identifier \<Rightarrow> 'a promise_outcome \<Rightarrow> operation_update \<Rightarrow> bool" where
  "promise_update c oi out u = (case out of
     Inr x \<Rightarrow> \<exists>s. to_json c x = Inr s \<and> u = create_succeed_update oi (Some s)
   | Inl (eo, e) \<Rightarrow> u = create_fail_update oi eo)"

lemma promise_finish_accepted:
  assumes "promise_update c oi out u" "accepts sv (env_state v) u (env_world v) t w"
  shows "promise_finish sv c oi out v = (promise_result out, v\<lparr>
     env_state := update_local_cache_from_update u (set_checkpoint_token t (env_state v)), env_world := w\<rparr>)"
  using assms create_checkpoint_accepted [OF assms(2)]
  by (auto simp: promise_update_def promise_finish_def promise_result_def promise_succeed_def promise_fail_def
      bindE_def serialize_or_def json_serialize_def create_succeed_update_def create_fail_update_def
      split: sum.splits)

lemma promise_cached:
  assumes "promise_update c oi out u" "codec_roundtrip c" "op_type old = StepOp" "op_step_details old = None"
    and "op_callback_details old = None" "op_chained_invoke_details old = None" "op_context_details old = None"
    and "get_operation (env_state v) (oi_operation_id oi) = Some (cached_operation u (Some old))"
  shows "\<exists>q. promise_check_replay c oi v =
     (q, v\<lparr>env_state := track_replay (oi_operation_id oi) (env_state v)\<rparr>) \<and>
     q = map_sum id Some (promise_replayed out)"
  using assms
  by (auto simp: promise_update_def promise_check_replay_def promise_replayed_def get_checkpoint_result_def
      get_operation_def cached_operation_def track_def bindE_def codec_roundtrip_def deserialize_or_def
      json_deserialize_def get_result_def first_some_def Let_def split: sum.splits)

lemma in_env_apply: "in_env m sp = (case m (sp_env sp) of (r, v) \<Rightarrow> (r, sp\<lparr>sp_env := v\<rparr>))"
  by (simp add: in_env_def)

lemma promise_handler_fresh:
  assumes "get_operation (env_state (sp_env sp)) (oi_operation_id oi) = None"
    and "promise_start sv oi (sp_env sp) = (Inr (), v1)" "futures \<noteq> []"
    and "run_futures futures schedule (sp\<lparr>sp_env := v1\<rparr>) = (ended, sp1)"
    and "promise_update c oi (outcome ended) u"
    and "accepts sv (env_state (sp_env sp1)) u (env_world (sp_env sp1)) t w"
  shows "promise_handler sv c oi on_empty outcome futures schedule sp =
     (promise_result (outcome ended), sp1\<lparr>sp_env := (sp_env sp1)\<lparr>
        env_state := update_local_cache_from_update u (set_checkpoint_token t (env_state (sp_env sp1))),
        env_world := w\<rparr>\<rparr>)"
  using assms promise_finish_accepted [OF assms(5,6)]
  by (simp add: promise_handler_def bindE_def in_env_apply promise_check_replay_def get_checkpoint_result_def
      get_operation_def Let_def)

lemma promise_handler_replays:
  assumes "promise_check_replay c oi (sp_env sp) = (map_sum id Some q, v)"
  shows "promise_handler sv c oi on_empty outcome futures schedule sp = (q, sp\<lparr>sp_env := v\<rparr>)"
  using assms by (cases q) (simp_all add: promise_handler_def bindE_def in_env_apply)

lemma promise_outcome_fresh_later:
  fixes sp :: "'w scope" and outcome :: "(nat \<times> (durable_error + 'a)) list \<Rightarrow> 'b promise_outcome"
  assumes "codec_roundtrip c" "get_operation (env_state (sp_env sp)) (oi_operation_id oi) = None"
    and "promise_start sv oi (sp_env sp) = (Inr (), v1)" "futures \<noteq> []"
    and "run_futures futures schedule (sp\<lparr>sp_env := v1\<rparr>) = (ended, sp1)"
    and "get_operation (env_state (sp_env sp1)) (oi_operation_id oi) = Some (fresh_operation (promise_start_update oi))"
    and "promise_update c oi (outcome ended) u"
    and "accepts sv (env_state (sp_env sp1)) u (env_world (sp_env sp1)) t w"
  shows "\<exists>sp2 op. promise_handler sv c oi on_empty outcome futures schedule sp =
       (promise_result (outcome ended), sp2) \<and> env_world (sp_env sp2) = w \<and>
     get_operation (env_state (sp_env sp2)) (oi_operation_id oi) = Some op \<and>
     (\<forall>(sp3 :: 'w scope) sv' outcome' futures' schedule'.
        get_operation (env_state (sp_env sp3)) (oi_operation_id oi) = Some op \<longrightarrow>
        promise_handler sv' c oi on_empty outcome' (futures' :: ('w scope, durable_error, 'a) cmd list) schedule' sp3 =
          (promise_replayed (outcome ended), sp3\<lparr>sp_env := (sp_env sp3)\<lparr>
             env_state := track_replay (oi_operation_id oi) (env_state (sp_env sp3))\<rparr>\<rparr>))"
proof -
  let ?old = "fresh_operation (promise_start_update oi)"
  let ?op = "cached_operation u (Some ?old)"
  let ?sp2 = "sp1\<lparr>sp_env := (sp_env sp1)\<lparr>
     env_state := update_local_cache_from_update u (set_checkpoint_token t (env_state (sp_env sp1))),
     env_world := w\<rparr>\<rparr>"
  have id: "up_id u = oi_operation_id oi"
    using assms(7) by (auto simp: promise_update_def split: sum.splits)
  have old: "op_type ?old = StepOp" "op_step_details ?old = None" "op_callback_details ?old = None"
    "op_chained_invoke_details ?old = None" "op_context_details ?old = None"
    by (simp_all add: fresh_operation_def operation_new_def promise_start_update_def apply_to_def def_simps Let_def
        split: option.split)
  have "promise_handler sv' c oi on_empty outcome' futures' schedule' sp3 =
      (promise_replayed (outcome ended), sp3\<lparr>sp_env := (sp_env sp3)\<lparr>
         env_state := track_replay (oi_operation_id oi) (env_state (sp_env sp3))\<rparr>\<rparr>)"
    if "get_operation (env_state (sp_env sp3)) (oi_operation_id oi) = Some ?op"
    for sp3 :: "'w scope" and sv' and outcome' :: "(nat \<times> (durable_error + 'a)) list \<Rightarrow> 'b promise_outcome"
      and futures' schedule'
    using promise_cached [OF assms(7,1) old that] by (auto intro: promise_handler_replays)
  moreover note promise_handler_fresh [where outcome = outcome and on_empty = on_empty, OF assms(2-5,7,8)]
  moreover have "get_operation (env_state (sp_env ?sp2)) (oi_operation_id oi) = Some ?op"
    using assms(6) id by (simp add: get_update_local_cache)
  ultimately show ?thesis by (intro exI [of _ ?sp2] exI [of _ ?op]) simp
qed

text \<open>C26: The outcome of a combinator is durable. When its START is accepted, its futures have ended and
  its outcome is accepted, the outcome is returned and recorded; and in every later state that holds the
  recorded operation the combinator returns the recorded outcome, whatever futures it is given, without
  running one and without touching the world. A value is the same value; an error is the error that was
  recorded, as a \<open>UserCode\<close> error.\<close>

theorem promise_outcome_durable:
  fixes sp :: "'w scope" and outcome :: "(nat \<times> (durable_error + 'a)) list \<Rightarrow> 'b promise_outcome"
  assumes "codec_roundtrip c" "get_operation (env_state (sp_env sp)) (oi_operation_id oi) = None"
    and "promise_start sv oi (sp_env sp) = (Inr (), v1)" "futures \<noteq> []"
    and "run_futures futures schedule (sp\<lparr>sp_env := v1\<rparr>) = (ended, sp1)"
    and "get_operation (env_state (sp_env sp1)) (oi_operation_id oi) = Some (fresh_operation (promise_start_update oi))"
    and "promise_update c oi (outcome ended) u"
    and "accepts sv (env_state (sp_env sp1)) u (env_world (sp_env sp1)) t w"
  shows "\<exists>sp2 op. promise_handler sv c oi on_empty outcome futures schedule sp =
       (promise_result (outcome ended), sp2) \<and> env_world (sp_env sp2) = w \<and>
     get_operation (env_state (sp_env sp2)) (oi_operation_id oi) = Some op \<and>
     (\<forall>(sp3 :: 'w scope) sv' outcome' futures' schedule'.
        get_operation (env_state (sp_env sp3)) (oi_operation_id oi) = Some op \<longrightarrow>
        promise_handler sv' c oi on_empty outcome' (futures' :: ('w scope, durable_error, 'a) cmd list) schedule' sp3 =
          (promise_replayed (outcome ended), sp3\<lparr>sp_env := (sp_env sp3)\<lparr>
             env_state := track_replay (oi_operation_id oi) (env_state (sp_env sp3))\<rparr>\<rparr>))"
  using promise_outcome_fresh_later [where outcome = outcome, OF assms] .

text \<open>An example: a START and an outcome on a service that accepts everything.\<close>

definition example_scope :: "mock_world scope" where
  "example_scope = \<lparr>sp_env = example_env [], sp_context = context_new (env_state (example_env []))\<rparr>"

definition example_started :: "mock_world env" where
  "example_started = (example_env [])\<lparr>env_state :=
     update_local_cache_from_update (promise_start_update (identifier_root ''p'')) (env_state (example_env []))\<rparr>"

lemma example_env_plain:
  "\<not> es_has_sender (env_state (example_env []))" "get_operation (env_state (example_env [])) i = None"
  by (simp_all add: example_env_def exec_state_new_def with_checkpointing_mode_def Let_def get_operation_def
      collect_operations_def)

lemma example_promise:
  "get_operation (env_state (sp_env example_scope)) (oi_operation_id (identifier_root ''p'')) = None"
  "promise_start accepting_services (identifier_root ''p'') (sp_env example_scope) = (Inr (), example_started)"
  "get_operation (env_state example_started) (oi_operation_id (identifier_root ''p'')) =
     Some (fresh_operation (promise_start_update (identifier_root ''p'')))"
  "up_parent_id u = None \<Longrightarrow> accepts accepting_services (env_state example_started) u
     (env_world example_started) (es_token (env_state example_started)) (env_world example_started)"
proof -
  have tok: "set_checkpoint_token (es_token s) s = s" for s by (simp add: set_checkpoint_token_def)
  have u: "up_parent_id (promise_start_update (identifier_root ''p'')) = None"
    "up_id (promise_start_update (identifier_root ''p'')) = ''p''"
    "up_action (promise_start_update (identifier_root ''p'')) = Start"
    by (simp_all add: promise_start_update_def apply_to_def identifier_root_def def_simps)
  have "orphan_check (promise_start_update (identifier_root ''p'')) (env_state (example_env [])) = None"
    using u by (simp add: orphan_check_def)
  from create_checkpoint_accepted [OF accepting_accepts [OF this]]
  show "promise_start accepting_services (identifier_root ''p'') (sp_env example_scope) = (Inr (), example_started)"
    using tok [of "env_state (example_env [])"]
    by (simp add: promise_start_def example_scope_def example_started_def)
  show "get_operation (env_state (sp_env example_scope)) (oi_operation_id (identifier_root ''p'')) = None"
    by (simp add: example_scope_def example_env_plain)
  show "get_operation (env_state example_started) (oi_operation_id (identifier_root ''p'')) =
     Some (fresh_operation (promise_start_update (identifier_root ''p'')))"
    using u by (simp add: example_started_def get_update_local_cache cached_operation_def identifier_root_def)
  show "up_parent_id u = None \<Longrightarrow> accepts accepting_services (env_state example_started) u
     (env_world example_started) (es_token (env_state example_started)) (env_world example_started)"
    by (intro accepting_accepts) (simp add: example_started_def orphan_check_def)
qed

theorem promise_outcome_durable_witness:
  "fst (promise_handler accepting_services text_codec (identifier_root ''p'') (needs_future ''race'') race_outcome
     [\<lambda>sp. (Inr ''a'', sp), \<lambda>sp. (Inr ''b'', sp)] [1, 0] example_scope) = Inr ''b''"
proof -
  let ?fs = "[\<lambda>sp. (Inr ''a'', sp), \<lambda>sp. (Inr ''b'', sp)]"
  let ?u = "create_succeed_update (identifier_root ''p'') (Some ''b'')"
  have run: "run_futures ?fs [1, 0] (example_scope\<lparr>sp_env := example_started\<rparr>) =
      ([(1, Inr ''b''), (0, Inr ''a'')], example_scope\<lparr>sp_env := example_started\<rparr>)"
    by simp
  have out: "race_outcome [(1, Inr ''b''), (0, Inr ''a'')] = Inr ''b''" by (simp add: race_outcome_def)
  have upd: "promise_update text_codec (identifier_root ''p'') (race_outcome [(1, Inr ''b''), (0, Inr ''a'')]) ?u"
    unfolding out by (simp add: promise_update_def text_codec_def)
  have "up_parent_id ?u = None"
    by (simp add: create_succeed_update_def apply_to_def identifier_root_def def_simps)
  note acc = example_promise(4) [OF this]
  let ?sp1 = "example_scope\<lparr>sp_env := example_started\<rparr>"
  have sp1: "sp_env ?sp1 = example_started" by simp
  have ne: "?fs \<noteq> []" by simp
  note th = promise_outcome_durable [where outcome = race_outcome and on_empty = "needs_future ''race''",
      OF text_codec_roundtrip example_promise(1,2) ne run _ upd, unfolded sp1, OF example_promise(3) acc]
  then obtain sp2 where "promise_handler accepting_services text_codec (identifier_root ''p'')
      (needs_future ''race'') race_outcome ?fs [1, 0] example_scope =
      (promise_result (race_outcome [(1, Inr ''b''), (0, Inr ''a'')]), sp2)" by blast
  then show ?thesis unfolding out by (simp add: promise_result_def)
qed

section \<open>The outcomes\<close>

lemma map_of_perm:
  assumes "mset ended = mset ended'" "distinct (map fst ended)"
  shows "map_of ended = map_of ended'"
proof -
  have "mset (map fst ended) = mset (map fst ended')" using assms(1) by (simp only: mset_map)
  then have "distinct (map fst ended')" using assms(2) mset_eq_imp_distinct_iff by blast
  moreover have "set ended = set ended'" using assms(1) mset_eq_setD by blast
  ultimately show ?thesis using assms(2) by (simp add: map_of_inject_set)
qed

text \<open>C27: The outcomes of \<open>all\<close> and \<open>all_settled\<close> do not depend on the order in which the futures end, and
  neither does whether \<open>any\<close> succeeds; the outcome of \<open>race\<close> is the one of the future that ended first.\<close>

theorem promise_order:
  assumes "mset ended = mset ended'" "distinct (map fst ended)"
  shows "all_outcome 0 (received n ended) = all_outcome 0 (received n ended') \<and>
     all_settled_result n ended = all_settled_result n ended' \<and>
     (isl (any_outcome n ended) \<longleftrightarrow> isl (any_outcome n ended')) \<and>
     (isl (any_outcome n ended) \<longleftrightarrow> (\<forall>(i, r) \<in> set ended. isl r)) \<and>
     promise_result (race_outcome ((i, r) # ended)) = r"
proof -
  have any: "isl (any_outcome n e) \<longleftrightarrow> (\<forall>(i, r) \<in> set e. isl r)" for e :: "(nat \<times> (durable_error + 'a)) list"
  proof -
    have "List.map_filter (\<lambda>(i, r). case r of Inr x \<Rightarrow> Some x | Inl e \<Rightarrow> None) e = [] \<longleftrightarrow>
        (\<forall>(i, r) \<in> set e. isl r)"
      by (induction e) (auto simp: map_filter_simps split: sum.splits)
    then show ?thesis by (auto simp: any_outcome_def Let_def split: list.split)
  qed
  show ?thesis
    using map_of_perm [OF assms] mset_eq_setD [OF assms(1)]
    by (cases r) (simp_all add: any received_def all_settled_result_def race_outcome_def promise_result_def)
qed

theorem promise_order_witness:
  "all_outcome 0 (received 2 [(1, Inr ''b''), (0, Inr ''a'')]) =
   all_outcome 0 (received 2 [(0, Inr ''a''), (1, Inr ''b'')])"
  using promise_order [of "[(1, Inr ''b''), (0, Inr ''a'')]" "[(0, Inr ''a''), (1, Inr ''b'')]" 2] by simp

text \<open>The least index with an error decides the outcome of \<open>all\<close>.\<close>

lemma all_outcome_first_error:
  assumes "j < length rs" "rs ! j = Some (Inl e)" "\<forall>i < j. \<exists>x. rs ! i = Some (Inr x)"
  shows "all_outcome k rs = Inl (error_object_from e,
     UserCode (''Promise at index '' @ show_nat (k + j) @ '' failed: '' @ display_error e) ''AllCombinatorError'' None)"
  using assms
proof (induction rs arbitrary: j k)
  case (Cons r rs)
  show ?case
  proof (cases j)
    case 0
    with Cons.prems show ?thesis by simp
  next
    case (Suc i)
    with Cons.prems(3) obtain x where "r = Some (Inr x)" by fastforce
    moreover have "all_outcome (Suc k) rs = Inl (error_object_from e,
        UserCode (''Promise at index '' @ show_nat (Suc k + i) @ '' failed: '' @ display_error e) ''AllCombinatorError'' None)"
      by (rule Cons.IH) (use Cons.prems Suc in fastforce)+
    ultimately show ?thesis using Suc by simp
  qed
qed simp

section \<open>Suspension\<close>

text \<open>C28: A future that suspends fails the combinator for good. When a future of \<open>all\<close> suspends (because
  it waits, for instance) and all futures before it have values, \<open>all\<close> does not suspend: it records a
  failure and returns an error, and every later invocation returns the recorded failure, also when all
  its futures would have values.\<close>

theorem suspended_future_fails_all:
  fixes sp :: "'w scope" and futures :: "('w scope, durable_error, 'a) cmd list"
  assumes "codec_roundtrip c" "get_operation (env_state (sp_env sp)) (oi_operation_id oi) = None"
    and "promise_start sv oi (sp_env sp) = (Inr (), v1)" "j < length futures"
    and "run_futures futures schedule (sp\<lparr>sp_env := v1\<rparr>) = (ended, sp1)"
    and "get_operation (env_state (sp_env sp1)) (oi_operation_id oi) = Some (fresh_operation (promise_start_update oi))"
    and "map_of ended j = Some (Inl (Suspend ts))" "\<forall>i < j. \<exists>x. map_of ended i = Some (Inr x)"
    and "accepts sv (env_state (sp_env sp1))
       (create_fail_update oi (error_object_new ''SuspendExecution'' ''Execution suspended''))
       (env_world (sp_env sp1)) t w"
  shows "\<exists>sp2 op. all_handler sv c futures schedule oi sp =
       (Inl (UserCode (''Promise at index '' @ show_nat j @ '' failed: Suspend execution'')
          ''AllCombinatorError'' None), sp2) \<and>
     get_operation (env_state (sp_env sp2)) (oi_operation_id oi) = Some op \<and>
     (\<forall>sp3 sv' (futures' :: ('w scope, durable_error, 'a) cmd list) schedule'.
        get_operation (env_state (sp_env sp3)) (oi_operation_id oi) = Some op \<longrightarrow>
        fst (all_handler sv' c futures' schedule' oi sp3) =
          Inl (UserCode ''Execution suspended'' ''SuspendExecution'' None))"
proof -
  let ?out = "\<lambda>ended. all_outcome 0 (received (length futures) ended)"
  have out: "?out ended = Inl (error_object_new ''SuspendExecution'' ''Execution suspended'',
      UserCode (''Promise at index '' @ show_nat j @ '' failed: Suspend execution'') ''AllCombinatorError'' None)"
    using all_outcome_first_error [of j "received (length futures) ended" "Suspend ts" 0] assms(4,7,8)
    by (simp add: received_def)
  have ne: "futures \<noteq> []" using assms(4) by auto
  have upd: "promise_update c oi (?out ended) (create_fail_update oi (error_object_new ''SuspendExecution'' ''Execution suspended''))"
    unfolding out by (simp add: promise_update_def)
  have res: "promise_result (?out ended) =
      Inl (UserCode (''Promise at index '' @ show_nat j @ '' failed: Suspend execution'') ''AllCombinatorError'' None)"
    "promise_replayed (?out ended) = Inl (UserCode ''Execution suspended'' ''SuspendExecution'' None)"
    unfolding out
    by (simp_all add: promise_result_def promise_replayed_def replayed_user_error_def error_object_new_def)
  from promise_outcome_fresh_later [where outcome = ?out and on_empty = "Inr []", OF assms(1-3) ne assms(5,6) upd assms(9)]
  show ?thesis unfolding res all_handler_def by fastforce
qed

theorem suspended_future_fails_all_witness:
  "fst (all_handler accepting_services \<lparr>to_json = \<lambda>_. Inl ''unused'', from_json = \<lambda>_. Inl ''unused''\<rparr>
     [\<lambda>sp. (Inr ''a'', sp), \<lambda>sp. (Inl (Suspend None), sp)] [0, 1] (identifier_root ''p'') example_scope) =
   Inl (UserCode ''Promise at index 1 failed: Suspend execution'' ''AllCombinatorError'' None)"
proof -
  let ?fs = "[\<lambda>sp. (Inr ''a'', sp), \<lambda>sp. (Inl (Suspend None), sp)]"
  let ?c = "\<lparr>to_json = \<lambda>_. Inl ''unused'', from_json = \<lambda>_. Inl ''unused''\<rparr> :: string list codec"
  let ?u = "create_fail_update (identifier_root ''p'') (error_object_new ''SuspendExecution'' ''Execution suspended'')"
  have rt: "codec_roundtrip ?c" by (simp add: codec_roundtrip_def)
  have run: "run_futures ?fs [0, 1] (example_scope\<lparr>sp_env := example_started\<rparr>) =
      ([(0, Inr ''a''), (1, Inl (Suspend None))], example_scope\<lparr>sp_env := example_started\<rparr>)"
    by simp
  have "up_parent_id ?u = None"
    by (simp add: create_fail_update_def apply_to_def identifier_root_def def_simps)
  note acc = example_promise(4) [OF this]
  let ?sp1 = "example_scope\<lparr>sp_env := example_started\<rparr>"
  have sp1: "sp_env ?sp1 = example_started" by simp
  have j: "1 < length ?fs" "map_of [(0 :: nat, Inr ''a''), (1, Inl (Suspend None))] 1 = Some (Inl (Suspend None))"
    "\<forall>i < 1. \<exists>x. map_of [(0 :: nat, Inr ''a''), (1, Inl (Suspend None))] i = Some (Inr x)"
    by auto
  have "show_nat 1 = ''1''" by code_simp
  with suspended_future_fails_all [OF rt example_promise(1,2) j(1) run _ j(2,3), unfolded sp1,
      OF example_promise(3) acc]
  show ?thesis by auto
qed

end
