(* ===== verification/Runtime_Facts.thy ===== *)
theory Runtime_Facts
  imports Runtime Promise_Facts
begin

text \<open>
  Properties of one invocation: what its output says for every result of the handler, and that the text
  of a result never exceeds the limit of a response.
\<close>

section \<open>The output\<close>

lemma result_operation_contains:
  "str_contains (checkpointed_result_text i n) ''__checkpointed_result__''"
proof -
  have "checkpointed_result_text i n = (''{'' @ quote) @ ''__checkpointed_result__'' @
      (quote @ '':'' @ quote @ i @ quote @ '','' @ quote @ ''size'' @ quote @ '':'' @ show_nat n @ ''}'')"
    by (simp add: checkpointed_result_text_def)
  then show ?thesis by (metis str_contains_append)
qed

lemma large_result_accepted:
  assumes "accepts sv (env_state v) (update_succeed (result_operation_id blake2b arn) ExecutionOp (Some json))
     (env_world v) t w" "get_operation (env_state v) (result_operation_id blake2b arn) = None"
  shows "\<exists>v1 op. checkpoint_large_result blake2b sv json arn v =
       (output_checkpointed_result (result_operation_id blake2b arn) (length json), v1) \<and>
     get_operation (env_state v1) (result_operation_id blake2b arn) = Some op \<and>
     op_type op = ExecutionOp \<and> op_status op = Succeeded \<and> get_result op = Some json"
proof -
  let ?u = "update_succeed (result_operation_id blake2b arn) ExecutionOp (Some json)"
  have u: "up_id ?u = result_operation_id blake2b arn" "up_action ?u = Succeed" "up_type ?u = ExecutionOp"
    "up_result ?u = Some json"
    by (simp_all add: def_simps)
  show ?thesis
    using create_checkpoint_accepted [OF assms(1)] assms(2) u
    by (simp add: checkpoint_large_result_def Let_def get_update_local_cache get_result_cached_fresh
        cached_operation_status)
qed


text \<open>An example input: no operations, and the event in the top-level input.\<close>

definition example_input :: "string invocation_input" where
  "example_input = \<lparr>ii_durable_execution_arn = ''ab'', ii_checkpoint_token = ''token'',
     ii_initial_execution_state = initial_state_with_operations [], ii_input = Some ''event''\<rparr>"

definition example_events :: "(string, string) event_codec" where
  "example_events = \<lparr>ec_from_value = Inr, ec_from_str = Inr, ec_null = ''null''\<rparr>"

lemma example_extract: "extract_event example_events example_input = Inr ''event''"
  by (simp add: extract_event_def example_events_def example_input_def)


section \<open>The size of the output\<close>

lemma length_show_nat: "n < 10 ^ k \<Longrightarrow> 0 < k \<Longrightarrow> length (show_nat n) \<le> k"
proof (induction n arbitrary: k rule: show_nat.induct)
  case (1 n)
  show ?case
  proof (cases "n < 10")
    case True
    with 1(3) show ?thesis by (subst show_nat.simps) simp
  next
    case False
    then obtain l where l: "k = Suc l" "0 < l" using "1.prems" by (cases k; cases "k - 1") auto
    have "n div 10 < 10 ^ l" using "1.prems"(1) l(1) by (simp add: less_mult_imp_div_less mult.commute)
    from "1.IH" [OF False this l(2)] False l(1) show ?thesis by (subst show_nat.simps) simp
  qed
qed

lemma map_sum_InlE: "map_sum f id r = Inl out \<Longrightarrow> \<exists>e. out = f e"
  by (cases r) auto

lemma extract_event_failure: "extract_event ec input = Inl out \<Longrightarrow> io_result out = None"
  unfolding extract_event_def
  by (auto simp: deserialization_failed_def output_failed_def dest!: map_sum_InlE split: option.splits)

text \<open>The text of a result never exceeds the limit of a response: an output either holds the JSON text of
  the value, which fits, or a reference whose length does not depend on the value.\<close>

lemma output_within_limit:
  assumes "fst (run_durable_handler blake2b client ec c handler interrupted input w) = Inr out"
    and "io_result out = Some s" "\<forall>m. length (blake2b m) \<ge> 16"
    and "\<forall>x json. to_json c x = Inr json \<longrightarrow> length json < 2 ^ 64"
  shows "length s \<le> MAX_RESPONSE_SIZE"
proof -
  let ?arn = "ii_durable_execution_arn input"
  have ref: "length (checkpointed_result_text (result_operation_id blake2b ?arn) n) \<le> MAX_RESPONSE_SIZE"
    if "n < 2 ^ 64" for n
  proof -
    from that have "n < 10 ^ 20" by simp
    then have "length (show_nat n) \<le> 20" by (rule length_show_nat) simp
    moreover have "length (uuid_string_from_operation blake2b ?arn 0) = 36"
      using uuid_string_wellformed_length assms(3) by blast
    ultimately show ?thesis
      by (simp add: checkpointed_result_text_def result_operation_id_def quote_def MAX_RESPONSE_SIZE_def)
  qed
  have pr: "length s \<le> MAX_RESPONSE_SIZE"
    if "process_result blake2b sv c r ?arn v = (out, v1)" for sv r v v1
    using that assms(2,4) ref
    by (auto simp: process_result_def checkpoint_large_result_def Let_def output_defs output_checkpointed_result_def
        split: sum.splits durable_error.splits if_splits prod.splits)
  show ?thesis
    using assms(1,2) pr
    by (auto simp: run_durable_handler_def Let_def output_pending_def
        dest: extract_event_failure split: sum.splits option.splits prod.splits)
qed

end
