(* ===== verification/Calendar.thy ===== *)
theory Calendar
  imports Prelude
begin

text \<open>
  The date of a log line: \<open>iso8601_now\<close> and \<open>days_to_ymd\<close> of \<open>sdk/src/structured_json_logger.rs\<close>, on natural numbers
  (the seconds since 1970 are a \<open>u64\<close>, so their days are below \<open>2 ^ 48\<close> and no operation overflows). The reference is the
  Gregorian calendar, day after day.
\<close>

section \<open>The code\<close>

definition year_of_era :: "nat \<Rightarrow> nat" where
  "year_of_era doe = (doe - doe div 1460 + doe div 36524 - doe div 146096) div 365"

definition month_day :: "nat \<Rightarrow> nat \<times> nat" where
  "month_day doy =
     (let mp = (5 * doy + 2) div 153; d = doy - (153 * mp + 2) div 5 + 1; m = (if mp < 10 then mp + 3 else mp - 9) in (m, d))"

definition days_to_ymd :: "nat \<Rightarrow> nat \<times> nat \<times> nat" where
  "days_to_ymd days =
     (let z = days + 719468; era = z div 146097; doe = z - era * 146097; yoe = year_of_era doe;
          y = yoe + era * 400; doy = doe - (365 * yoe + yoe div 4 - yoe div 100); (m, d) = month_day doy
      in (if m \<le> 2 then y + 1 else y, m, d))"

definition zero_pad :: "nat \<Rightarrow> nat \<Rightarrow> string" where
  "zero_pad width n = replicate (width - length (show_nat n)) CHR ''0'' @ show_nat n"

definition iso8601 :: "nat \<Rightarrow> nat \<Rightarrow> string" where
  "iso8601 secs millis =
     (let (year, month, day) = days_to_ymd (secs div 86400); time = secs mod 86400
      in zero_pad 4 year @ ''-'' @ zero_pad 2 month @ ''-'' @ zero_pad 2 day @ ''T'' @ zero_pad 2 (time div 3600) @ '':'' @
         zero_pad 2 (time mod 3600 div 60) @ '':'' @ zero_pad 2 (time mod 60) @ ''.'' @ zero_pad 3 millis @ ''Z'')"

section \<open>The calendar\<close>

definition leap :: "nat \<Rightarrow> bool" where
  "leap y \<longleftrightarrow> 4 dvd y \<and> (\<not> 100 dvd y \<or> 400 dvd y)"

definition month_length :: "nat \<Rightarrow> nat \<Rightarrow> nat" where
  "month_length y m = (if m = 2 then (if leap y then 29 else 28) else if m \<in> {4, 6, 9, 11} then 30 else 31)"

fun next_day :: "nat \<times> nat \<times> nat \<Rightarrow> nat \<times> nat \<times> nat" where
  "next_day (y, m, d) =
     (if d < month_length y m then (y, m, d + 1) else if m < 12 then (y, m + 1, 1) else (y + 1, 1, 1))"

section \<open>Years of an era\<close>

text \<open>An era has 400 years that begin in March.\<close>

definition year_start :: "nat \<Rightarrow> nat" where
  "year_start y = 365 * y + y div 4 - y div 100"

definition year_days :: "nat \<Rightarrow> nat" where
  "year_days y = (if leap (y + 1) then 366 else 365)"

definition weight :: "nat \<Rightarrow> nat" where
  "weight doe = doe - doe div 1460 + doe div 36524 - doe div 146096"

lemma weight_Suc:
  assumes "doe < 146096"
  shows "weight doe \<le> weight (Suc doe)"
proof -
  have "Suc doe div 1460 \<le> doe div 1460 + 1" by (simp add: div_Suc)
  moreover have "Suc doe div 146096 \<le> (if Suc doe = 146096 then 1 else 0)" using assms by auto
  moreover have "doe div 146096 = 0" using assms by simp
  moreover have "doe div 36524 \<le> Suc doe div 36524" by (simp add: div_le_mono)
  moreover have "doe = 146095 \<Longrightarrow> doe div 36524 + 1 = Suc doe div 36524" by simp
  moreover have "doe div 1460 \<le> doe" by simp
  ultimately show ?thesis unfolding weight_def by (cases "Suc doe = 146096") auto
qed

lemma weight_mono:
  assumes "a \<le> b" "b \<le> 146096"
  shows "weight a \<le> weight b"
  using assms
proof (induction rule: dec_induct)
  case (step n)
  from step.IH step.prems weight_Suc [of n] step.hyps show ?case by simp
qed simp

lemma div_exact: "k * m \<le> x \<Longrightarrow> x < (k + 1) * m \<Longrightarrow> x div m = (k :: nat)"
  by (rule div_nat_eqI) (simp_all add: mult.commute)

text \<open>A year of an era by its century, its group of four and its place in it.\<close>

lemma year_parts:
  assumes "y < 400"
  obtains c a b where "y = 100 * c + 4 * a + b" "c < 4" "a < 25" "b < (4 :: nat)"
proof -
  have "y = 100 * (y div 100) + 4 * (y mod 100 div 4) + y mod 100 mod 4" by simp
  moreover have "y div 100 < 4" "y mod 100 div 4 < 25" "y mod 100 mod 4 < 4" using assms by simp_all
  ultimately show thesis by (rule that)
qed

lemma year_start_parts:
  assumes "a < 25" "b < 4"
  shows "year_start (100 * c + 4 * a + b) = 36524 * c + 1461 * a + 365 * b"
proof -
  have "(100 * c + 4 * a + b) div 4 = 25 * c + a" by (rule div_exact) (use assms in auto)
  moreover have "(100 * c + 4 * a + b) div 100 = c" by (rule div_exact) (use assms in auto)
  ultimately show ?thesis by (simp add: year_start_def)
qed

lemma leap_parts:
  assumes "c < 4" "a < 25" "b < 4"
  shows "leap (100 * c + 4 * a + b + 1) \<longleftrightarrow> b = 3 \<and> (a < 24 \<or> c = 3)"
proof -
  have "4 dvd 4 * (25 * c + a) + (b + 1) \<longleftrightarrow> 4 dvd b + 1" by (rule dvd_add_right_iff) simp
  then have "4 dvd 100 * c + 4 * a + b + 1 \<longleftrightarrow> b = 3" using assms(3) by (auto simp: algebra_simps dest: dvd_imp_le)
  moreover have "100 dvd 100 * c + 4 * a + b + 1 \<longleftrightarrow> a = 24" if "b = 3"
  proof -
    have "100 dvd 100 * c + (4 * a + 4) \<longleftrightarrow> 100 dvd 4 * a + 4" by (rule dvd_add_right_iff) simp
    also have "\<dots> \<longleftrightarrow> a = 24" using assms(2) by (auto dest: dvd_imp_le)
    finally show ?thesis using that by (simp add: algebra_simps)
  qed
  moreover have "400 dvd 100 * c + 4 * a + b + 1 \<longleftrightarrow> c = 3" if "b = 3" "a = 24"
    using that assms(1) by (auto dest: dvd_imp_le)
  ultimately show ?thesis using assms(2) unfolding leap_def by auto
qed

lemma weight_start:
  assumes "y < 400"
  shows "weight (year_start y) = 365 * y \<and> year_start y < 146097"
proof -
  obtain c a b where y: "y = 100 * c + 4 * a + b" "c < 4" "a < 25" "b < 4" by (rule year_parts [OF assms])
  let ?s = "36524 * c + 1461 * a + 365 * b"
  have 1: "?s div 1460 = 25 * c + a" by (rule div_exact) (use y in auto)
  have 2: "?s div 36524 = c" by (rule div_exact) (use y in auto)
  have 3: "?s div 146096 = 0" using y by auto
  have "?s - (25 * c + a) + c - 0 = 365 * y" using y by simp
  then show ?thesis using y year_start_parts [OF y(3,4), of c] by (simp add: weight_def 1 2 3)
qed

lemma weight_end:
  assumes "y < 400"
  shows "weight (year_start y + year_days y - 1) < 365 * (y + 1) \<and>
    year_start y + year_days y = (if y = 399 then 146097 else year_start (y + 1))"
proof -
  obtain c a b where y: "y = 100 * c + 4 * a + b" "c < 4" "a < 25" "b < 4" by (rule year_parts [OF assms])
  have st: "year_start y = 36524 * c + 1461 * a + 365 * b" using y year_start_parts by simp
  have lp: "leap (y + 1) \<longleftrightarrow> b = 3 \<and> (a < 24 \<or> c = 3)" unfolding y(1) by (rule leap_parts [OF y(2-4)])
  have nx: "year_start (y + 1) = (if b < 3 then 36524 * c + 1461 * a + 365 * (b + 1)
      else if a < 24 then 36524 * c + 1461 * (a + 1) else 36524 * (c + 1))"
  proof -
    consider "b < 3" | "b = 3" "a < 24" | "b = 3" "a = 24" using y by linarith
    then show ?thesis
    proof cases
      case 1
      have "y + 1 = 100 * c + 4 * a + (b + 1)" using y(1) by simp
      then have "year_start (y + 1) = 36524 * c + 1461 * a + 365 * (b + 1)" using year_start_parts [of a "b + 1" c] 1 y(3) by simp
      then show ?thesis using 1 by simp
    next
      case 2
      have "y + 1 = 100 * c + 4 * (a + 1) + 0" using y(1) 2 by simp
      then have "year_start (y + 1) = 36524 * c + 1461 * (a + 1) + 365 * 0" using year_start_parts [of "a + 1" 0 c] 2 by (simp only:)
      then show ?thesis using 2 by simp
    next
      case 3
      have "y + 1 = 100 * (c + 1) + 4 * 0 + 0" using y(1) 3 by simp
      then have "year_start (y + 1) = 36524 * (c + 1) + 1461 * 0 + 365 * 0" using year_start_parts [of 0 0 "c + 1"] by (simp only:)
      then show ?thesis using 3 by simp
    qed
  qed
  show ?thesis
  proof (cases "leap (y + 1)")
    case False
    let ?e = "36524 * c + 1461 * a + 365 * b + 364"
    have "?e div 36524 = c" by (rule div_exact) (use y False lp in auto)
    moreover have "25 * c + a \<le> ?e div 1460" using y by (simp add: less_eq_div_iff_mult_less_eq)
    moreover have "?e div 1460 \<le> ?e" by simp
    ultimately have "weight ?e < 365 * (y + 1)" using y by (simp add: weight_def)
    moreover have "year_start y + year_days y - 1 = ?e" using False st by (simp add: year_days_def)
    ultimately have "weight (year_start y + year_days y - 1) < 365 * (y + 1)" by (simp only:)
    moreover have "year_start y + year_days y = (if y = 399 then 146097 else year_start (y + 1))"
      using False nx lp y unfolding st by (auto simp: year_days_def)
    ultimately show ?thesis by (rule conjI)
  next
    case True
    then have b: "b = 3" "a < 24 \<or> c = 3" using lp by auto
    let ?e = "36524 * c + 1461 * a + 1460"
    have 1: "?e div 1460 = 25 * c + a + 1" by (rule div_exact) (use y in auto)
    have "weight ?e < 365 * (y + 1)"
    proof (cases "a < 24")
      case True
      have 2: "?e div 36524 = c" by (rule div_exact) (use y True in auto)
      show ?thesis using y b by (simp add: weight_def 1 2)
    next
      case False
      then have "a = 24" "c = 3" using b y by auto
      then show ?thesis using y b by (simp add: weight_def)
    qed
    moreover have "year_start y + year_days y - 1 = ?e" using True st b by (simp add: year_days_def)
    ultimately have "weight (year_start y + year_days y - 1) < 365 * (y + 1)" by (simp only:)
    moreover have "year_start y + year_days y = (if y = 399 then 146097 else year_start (y + 1))"
      using True nx b y unfolding st by (auto simp: year_days_def)
    ultimately show ?thesis by (rule conjI)
  qed
qed

lemma year_of_era:
  assumes "y < 400" "doy < year_days y"
  shows "year_of_era (year_start y + doy) = y \<and> year_start y + doy < 146097"
proof -
  let ?d = "year_start y + doy"
  have e: "year_start y + year_days y \<le> 146097"
    using weight_end [OF assms(1)] weight_start [of "y + 1"] assms(1) by (cases "y = 399") auto
  have "weight (year_start y) \<le> weight ?d" by (rule weight_mono) (use e assms(2) in auto)
  moreover have "weight ?d \<le> weight (year_start y + year_days y - 1)" by (rule weight_mono) (use e assms(2) in auto)
  ultimately have "365 * y \<le> weight ?d" "weight ?d < 365 * (y + 1)"
    using weight_start [OF assms(1)] weight_end [OF assms(1)] by auto
  then have "weight ?d div 365 = y" by (intro div_exact) simp_all
  with e assms(2) show ?thesis by (simp add: year_of_era_def weight_def)
qed

section \<open>Days of a year\<close>

text \<open>The length of a month, and of a February in a leap year.\<close>

definition long_month :: "nat \<Rightarrow> nat" where
  "long_month m = (if m = 2 then 29 else if m \<in> {4, 6, 9, 11} then 30 else 31)"

definition month_step :: "nat \<Rightarrow> bool" where
  "month_step doy = (case month_day doy of (m, d) \<Rightarrow> 1 \<le> m \<and> m \<le> 12 \<and> (m = 2 \<longleftrightarrow> 337 \<le> doy) \<and> (m = 2 \<longrightarrow> d + 336 = doy) \<and>
     month_day (Suc doy) = (if d < long_month m then (m, d + 1) else if m < 12 then (m + 1, 1) else (1, 1)))"

lemma month_step_tables:
  "list_all month_step [2..<100]" "list_all month_step [100..<200]" "list_all month_step [200..<300]" "list_all month_step [300..<365]"
  by (simp_all add: upt_rec_numeral month_step_def month_day_def long_month_def)

lemma month_step_all:
  assumes "doy < 365"
  shows "month_step doy"
proof -
  consider "doy = 0" | "doy = 1" | "doy \<in> set [2..<100]" | "doy \<in> set [100..<200]" | "doy \<in> set [200..<300]" | "doy \<in> set [300..<365]"
    using assms by (auto simp del: upt_rec_numeral) linarith
  then show ?thesis
  proof cases
    case 1 show ?thesis by (simp add: 1 month_step_def month_day_def long_month_def)
  next
    case 2 show ?thesis by (simp add: 2 month_step_def month_day_def long_month_def)
  qed (use month_step_tables in \<open>simp_all only: list_all_iff\<close>)
qed

section \<open>Days of the epoch\<close>

text \<open>A day as its era, the year of the era and the day of that year.\<close>

definition day_at :: "nat \<Rightarrow> nat \<Rightarrow> nat \<Rightarrow> nat \<Rightarrow> bool" where
  "day_at n era y doy \<longleftrightarrow> n + 719468 = era * 146097 + year_start y + doy \<and> y < 400 \<and> doy < year_days y"

lemma days_to_ymd_at:
  assumes "day_at n era y doy"
  shows "days_to_ymd n = (case month_day doy of (m, d) \<Rightarrow> (if m \<le> 2 then y + era * 400 + 1 else y + era * 400, m, d))"
proof -
  have yr: "year_of_era (year_start y + doy) = y" "year_start y + doy < 146097" using assms year_of_era by (auto simp: day_at_def)
  have z: "n + 719468 = era * 146097 + (year_start y + doy)" using assms by (simp add: day_at_def)
  have e: "(era * 146097 + (year_start y + doy)) div 146097 = era" using yr(2) by (intro div_exact) simp_all
  have "days_to_ymd n = (let yy = y + era * 400; doy' = year_start y + doy - year_start y; (m, d) = month_day doy'
      in (if m \<le> 2 then yy + 1 else yy, m, d))"
    unfolding days_to_ymd_def Let_def z e add_diff_cancel_left' yr(1) year_start_def [symmetric] ..
  then show ?thesis by (simp add: Let_def)
qed

lemma leap_era: "leap (y + era * 400 + 1) = leap (y + 1)"
proof -
  have d: "k dvd y + era * 400 + 1 \<longleftrightarrow> k dvd y + 1" if "k dvd 400" for k
    using dvd_add_right_iff [of k "era * 400" "y + 1"] that by (simp add: ac_simps)
  have "4 dvd (400 :: nat)" "100 dvd (400 :: nat)" by simp_all
  then show ?thesis unfolding leap_def by (simp only: d dvd_refl)
qed

lemma day_at_Suc:
  assumes "day_at n era y doy"
  obtains era' y' doy' where "day_at (Suc n) era' y' doy'" "days_to_ymd (Suc n) = next_day (days_to_ymd n)"
proof (cases "Suc doy < year_days y")
  case True
  obtain m d where md: "month_day doy = (m, d)" by (rule prod.exhaust)
  have at: "day_at (Suc n) era y (Suc doy)" using assms True by (simp add: day_at_def)
  have lt: "doy < 365" using True by (auto simp: year_days_def split: if_splits)
  have st: "1 \<le> m" "m \<le> 12" "m = 2 \<longleftrightarrow> 337 \<le> doy" "m = 2 \<Longrightarrow> d + 336 = doy"
    "month_day (Suc doy) = (if d < long_month m then (m, d + 1) else if m < 12 then (m + 1, 1) else (1, 1))"
    using month_step_all [OF lt] by (simp_all add: month_step_def md)
  have "days_to_ymd (Suc n) = next_day (days_to_ymd n)"
  proof (cases "m = 2")
    case m: True
    then have "d < (if leap (y + 1) then 29 else 28)" using True st by (auto simp: year_days_def)
    then show ?thesis using m st leap_era [of y era]
      by (auto simp: days_to_ymd_at [OF at] days_to_ymd_at [OF assms] md month_length_def long_month_def split: if_splits)
  next
    case m: False
    then have "long_month m = month_length Y m" for Y by (simp add: long_month_def month_length_def)
    then show ?thesis using m st by (auto simp: days_to_ymd_at [OF at] days_to_ymd_at [OF assms] md)
  qed
  with at show thesis by (rule that)
next
  case False
  then have doy: "Suc doy = year_days y" and y: "y < 400" using assms by (auto simp: day_at_def)
  have md: "month_day doy = (2, month_length (y + era * 400 + 1) 2)"
    using doy leap_era [of y era] by (auto simp: year_days_def month_day_def month_length_def split: if_splits)
  let ?e = "if y = 399 then era + 1 else era" and ?y = "if y = 399 then 0 else y + 1"
  have "Suc n + 719468 = era * 146097 + (year_start y + year_days y)" using assms doy by (simp add: day_at_def)
  then have "Suc n + 719468 = ?e * 146097 + year_start ?y + 0" using weight_end [OF y]
    by (cases "y = 399") (simp_all add: year_start_def [of 0])
  then have at: "day_at (Suc n) ?e ?y 0" using y by (simp add: day_at_def year_days_def)
  have "days_to_ymd (Suc n) = (y + era * 400 + 1, 3, 1)"
    unfolding days_to_ymd_at [OF at] by (simp add: month_day_def)
  then have "days_to_ymd (Suc n) = next_day (days_to_ymd n)"
    by (simp add: days_to_ymd_at [OF assms] md)
  with at show thesis by (rule that)
qed

text \<open>C37: The date of a log line is right: \<open>days_to_ymd\<close> gives the date that the Gregorian calendar reaches from
  1 January 1970 after that many days.\<close>

theorem days_to_ymd_calendar: "days_to_ymd n = (next_day ^^ n) (1970, 1, 1)"
proof -
  have "\<exists>era y doy. day_at n era y doy" and "days_to_ymd n = (next_day ^^ n) (1970, 1, 1)"
  proof (induction n)
    case 0
    have at: "day_at 0 4 369 306" by (simp add: day_at_def year_start_def year_days_def)
    case 1 show ?case using at by blast
    case 2 show ?case by (simp add: days_to_ymd_at [OF at] month_day_def)
  next
    case (Suc n)
    then obtain era y doy where at: "day_at n era y doy" by blast
    case 1 show ?case by (rule day_at_Suc [OF at]) blast
    case 2 show ?case by (rule day_at_Suc [OF at]) (simp add: Suc)
  qed
  then show "days_to_ymd n = (next_day ^^ n) (1970, 1, 1)" by blast
qed

end
