(* ===== verification/Logging.thy ===== *)
theory Logging
  imports Calendar Child_Handler Loading
begin

text \<open>
  The loggers of \<open>sdk/src/context.rs\<close> and \<open>sdk/src/structured_json_logger.rs\<close>: the structured information of
  a message, the tracing logger, the logger that is silent in replay, loggers of closures, the logger of JSON lines, and
  the logging operations of a context. The outside world is a parameter \<open>'w\<close> with the sinks the loggers write to: the
  macros of the \<open>tracing\<close> crate, standard output, and the clock. The text of a JSON object is made by \<open>serde_json\<close>, a
  parameter; what is given to it, the fields in the order of the struct without those that are skipped, is modelled.
\<close>

section \<open>What is logged\<close>

record log_info =
  li_durable_execution_arn :: "string option"
  li_operation_id :: "string option"
  li_parent_id :: "string option"
  li_is_replay :: bool
  li_extra :: "(string \<times> string) list"

definition log_info_default :: log_info where
  "log_info_default =
     \<lparr>li_durable_execution_arn = None, li_operation_id = None, li_parent_id = None, li_is_replay = False, li_extra = []\<rparr>"

definition log_info_new :: "string \<Rightarrow> log_info" where
  "log_info_new arn = log_info_default\<lparr>li_durable_execution_arn := Some arn\<rparr>"

definition li_with_operation_id :: "string \<Rightarrow> log_info \<Rightarrow> log_info" where
  "li_with_operation_id i info = info\<lparr>li_operation_id := Some i\<rparr>"

definition li_with_parent_id :: "string \<Rightarrow> log_info \<Rightarrow> log_info" where
  "li_with_parent_id p info = info\<lparr>li_parent_id := Some p\<rparr>"

definition li_with_replay :: "bool \<Rightarrow> log_info \<Rightarrow> log_info" where
  "li_with_replay b info = info\<lparr>li_is_replay := b\<rparr>"

definition li_with_extra :: "string \<Rightarrow> string \<Rightarrow> log_info \<Rightarrow> log_info" where
  "li_with_extra k v info = info\<lparr>li_extra := li_extra info @ [(k, v)]\<rparr>"

record operation_span =
  os_operation_type :: string
  os_operation_id :: string
  os_parent_id :: "string option"
  os_name :: "string option"
  os_durable_execution_arn :: string
  os_status :: "string option"

definition create_operation_span :: "string \<Rightarrow> operation_identifier \<Rightarrow> string \<Rightarrow> operation_span" where
  "create_operation_span operation_type oi arn =
     \<lparr>os_operation_type = operation_type, os_operation_id = oi_operation_id oi, os_parent_id = oi_parent_id oi,
      os_name = oi_name oi, os_durable_execution_arn = arn, os_status = None\<rparr>"

section \<open>JSON lines\<close>

datatype json_log_level = JsonDebug | JsonInfo | JsonWarn | JsonError

fun json_level_number :: "json_log_level \<Rightarrow> nat" where
  "json_level_number JsonDebug = 2" | "json_level_number JsonInfo = 3"
| "json_level_number JsonWarn = 4" | "json_level_number JsonError = 5"

record json_log_context =
  jc_request_id :: string
  jc_durable_execution_arn :: string
  jc_tenant_id :: "string option"

record json_log_entry =
  je_level :: string
  je_timestamp :: string
  je_request_id :: string
  je_execution_arn :: string
  je_message :: string
  je_tenant_id :: "string option"
  je_operation_id :: "string option"
  je_attempt :: "u32 option"
  je_error_type :: "string option"
  je_error_message :: "string option"

text \<open>The derived serialization of an entry: its fields in order, the optional ones only when present.\<close>

datatype json_field = JsonText string | JsonNumber nat

definition optional_field :: "string \<Rightarrow> ('a \<Rightarrow> json_field) \<Rightarrow> 'a option \<Rightarrow> (string \<times> json_field) list" where
  "optional_field name f v = (case v of Some x \<Rightarrow> [(name, f x)] | None \<Rightarrow> [])"

definition entry_fields :: "json_log_entry \<Rightarrow> (string \<times> json_field) list" where
  "entry_fields e =
     [(''level'', JsonText (je_level e)), (''timestamp'', JsonText (je_timestamp e)),
      (''requestId'', JsonText (je_request_id e)), (''executionArn'', JsonText (je_execution_arn e)),
      (''message'', JsonText (je_message e))] @
     optional_field ''tenantId'' JsonText (je_tenant_id e) @
     optional_field ''operationId'' JsonText (je_operation_id e) @
     optional_field ''attempt'' (\<lambda>n. JsonNumber (unat n)) (je_attempt e) @
     optional_field ''errorType'' JsonText (je_error_type e) @
     optional_field ''errorMessage'' JsonText (je_error_message e)"

record structured_json_logger =
  sj_execution_context :: "json_log_context option"
  sj_min_level :: json_log_level

definition structured_json_logger_new :: "json_log_level \<Rightarrow> structured_json_logger" where
  "structured_json_logger_new min_level = \<lparr>sj_execution_context = None, sj_min_level = min_level\<rparr>"

text \<open>
  \<open>to_uppercase\<close> of the standard library on the UTF-8 bytes of a value, as far as it can give one of the four names: of
  the characters beyond ASCII only the dotless i has one of their letters as its upper case.
\<close>

fun to_uppercase :: "string \<Rightarrow> string" where
  "to_uppercase [] = []"
| "to_uppercase (c # cs) =
     (case cs of d # ds \<Rightarrow>
        if (of_char c :: nat) = 196 \<and> (of_char d :: nat) = 177 then CHR ''I'' # to_uppercase ds
        else (if 97 \<le> (of_char c :: nat) \<and> (of_char c :: nat) \<le> 122 then char_of (of_char c - 32 :: nat) else c) # to_uppercase cs
      | [] \<Rightarrow> [if 97 \<le> (of_char c :: nat) \<and> (of_char c :: nat) \<le> 122 then char_of (of_char c - 32 :: nat) else c])"

definition level_of_name :: "string \<Rightarrow> json_log_level option" where
  "level_of_name val =
     (if to_uppercase val = ''DEBUG'' then Some JsonDebug else if to_uppercase val = ''INFO'' then Some JsonInfo
      else if to_uppercase val = ''WARN'' then Some JsonWarn else if to_uppercase val = ''ERROR'' then Some JsonError else None)"

definition structured_json_logger_from_env :: "string option \<Rightarrow> structured_json_logger" where
  "structured_json_logger_from_env level_var =
     \<lparr>sj_execution_context = None,
      sj_min_level = (case Option.bind level_var level_of_name of Some l \<Rightarrow> l | None \<Rightarrow> JsonDebug)\<rparr>"

definition sj_set_context :: "json_log_context \<Rightarrow> structured_json_logger \<Rightarrow> structured_json_logger" where
  "sj_set_context ctx l = l\<lparr>sj_execution_context := Some ctx\<rparr>"

definition should_log :: "structured_json_logger \<Rightarrow> json_log_level \<Rightarrow> bool" where
  "should_log l level \<longleftrightarrow> json_level_number (sj_min_level l) \<le> json_level_number level"

text \<open>\<open>parse\<close> of a \<open>u32\<close>: an optional plus sign, then one digit or more, without overflow.\<close>

definition digit_of :: "char \<Rightarrow> nat option" where
  "digit_of c = (let k = (of_char c :: nat) in if 48 \<le> k \<and> k \<le> 57 then Some (k - 48) else None)"

fun parse_digits :: "nat \<Rightarrow> string \<Rightarrow> nat option" where
  "parse_digits acc [] = Some acc"
| "parse_digits acc (c # cs) = (case digit_of c of
     None \<Rightarrow> None | Some k \<Rightarrow> (let n = 10 * acc + k in if n < 2 ^ 32 then parse_digits n cs else None))"

definition parse_u32 :: "string \<Rightarrow> u32 option" where
  "parse_u32 s = (case s of
     [] \<Rightarrow> None
   | c # cs \<Rightarrow> map_option of_nat (if c = CHR ''+'' then if cs = [] then None else parse_digits 0 cs else parse_digits 0 s))"

definition read_extra ::
  "string \<times> string \<Rightarrow> u32 option \<times> string option \<times> string option \<Rightarrow> u32 option \<times> string option \<times> string option"
where
  "read_extra kv st = (case (kv, st) of ((key, v), (attempt, error_type, error_message)) \<Rightarrow>
     if key = ''attempt'' then (parse_u32 v, error_type, error_message)
     else if key = ''errorType'' then (attempt, Some v, error_message)
     else if key = ''errorMessage'' then (attempt, error_type, Some v)
     else st)"

definition json_entry :: "structured_json_logger \<Rightarrow> string \<Rightarrow> string \<Rightarrow> string \<Rightarrow> log_info \<Rightarrow> json_log_entry" where
  "json_entry l timestamp level_str message info =
     (let (request_id, execution_arn, tenant_id) = (case sj_execution_context l of
          Some ctx \<Rightarrow> (jc_request_id ctx, jc_durable_execution_arn ctx, jc_tenant_id ctx)
        | None \<Rightarrow> ([], [], None));
        (attempt, error_type, error_message) = fold read_extra (li_extra info) (None, None, None)
      in \<lparr>je_level = level_str, je_timestamp = timestamp, je_request_id = request_id, je_execution_arn = execution_arn,
          je_message = message, je_tenant_id = tenant_id, je_operation_id = li_operation_id info, je_attempt = attempt,
          je_error_type = error_type, je_error_message = error_message\<rparr>)"

section \<open>Loggers\<close>

type_synonym 'w log_function = "string \<Rightarrow> log_info \<Rightarrow> 'w \<Rightarrow> 'w"

record tracing_event =
  te_level :: log_level
  te_durable_execution_arn :: "string option"
  te_operation_id :: "string option"
  te_parent_id :: "string option"
  te_is_replay :: bool
  te_extra :: string
  te_message :: string

record 'w log_sinks =
  ls_tracing :: "tracing_event \<Rightarrow> 'w \<Rightarrow> 'w"
  ls_println :: "string \<Rightarrow> 'w \<Rightarrow> 'w"
  ls_clock :: "'w \<Rightarrow> nat \<times> nat"
  ls_to_string :: "(string \<times> json_field) list \<Rightarrow> string option"

text \<open>The implementations of the sealed trait \<open>Logger\<close>.\<close>

datatype 'w logger =
    Tracing_Logger
  | Replay_Aware_Logger (inner: "'w logger") (config: replay_logging_config)
  | Custom_Logger (debug_fn: "'w log_function") (info_fn: "'w log_function") (warn_fn: "'w log_function")
      (error_fn: "'w log_function")
  | Structured_Json_Logger structured_json_logger

definition format_extra_fields :: "(string \<times> string) list \<Rightarrow> string" where
  "format_extra_fields extra =
     (if extra = [] then [] else join_strings '', '' (map (\<lambda>(k, v). k @ ''='' @ v) extra))"

definition tracing_log :: "'w log_sinks \<Rightarrow> log_level \<Rightarrow> 'w log_function" where
  "tracing_log ls level message info =
     ls_tracing ls \<lparr>te_level = level, te_durable_execution_arn = li_durable_execution_arn info,
       te_operation_id = li_operation_id info, te_parent_id = li_parent_id info, te_is_replay = li_is_replay info,
       te_extra = format_extra_fields (li_extra info), te_message = message\<rparr>"

definition build_json :: "'w log_sinks \<Rightarrow> structured_json_logger \<Rightarrow> string \<Rightarrow> string \<Rightarrow> log_info \<Rightarrow> 'w \<Rightarrow> string option" where
  "build_json ls l level_str message info w =
     (case ls_clock ls w of (secs, millis) \<Rightarrow>
        ls_to_string ls (entry_fields (json_entry l (iso8601 secs millis) level_str message info)))"

definition json_emit :: "'w log_sinks \<Rightarrow> structured_json_logger \<Rightarrow> string \<Rightarrow> json_log_level \<Rightarrow> 'w log_function" where
  "json_emit ls l level_str level message info w =
     (if \<not> should_log l level then w
      else (case build_json ls l level_str message info w of Some json \<Rightarrow> ls_println ls json w | None \<Rightarrow> w))"

definition json_log :: "'w log_sinks \<Rightarrow> structured_json_logger \<Rightarrow> log_level \<Rightarrow> 'w log_function" where
  "json_log ls l level = (case level of
     Debug \<Rightarrow> json_emit ls l ''DEBUG'' JsonDebug
   | Info \<Rightarrow> json_emit ls l ''INFO'' JsonInfo
   | Warn \<Rightarrow> json_emit ls l ''WARN'' JsonWarn
   | Error \<Rightarrow> json_emit ls l ''ERROR'' JsonError)"

text \<open>A call of one of the four methods of a logger.\<close>

primrec log_at :: "'w log_sinks \<Rightarrow> log_level \<Rightarrow> 'w logger \<Rightarrow> 'w log_function" where
  "log_at ls level Tracing_Logger = tracing_log ls level"
| "log_at ls level (Replay_Aware_Logger l cfg) =
     (\<lambda>message info w. if \<not> should_suppress cfg (li_is_replay info) level then log_at ls level l message info w else w)"
| "log_at ls level (Custom_Logger d i w e) = (case level of Debug \<Rightarrow> d | Info \<Rightarrow> i | Warn \<Rightarrow> w | Error \<Rightarrow> e)"
| "log_at ls level (Structured_Json_Logger l) = json_log ls l level"

definition suppress_replay :: "'w logger \<Rightarrow> 'w logger" where
  "suppress_replay l = Replay_Aware_Logger l SuppressAll"

definition allow_all :: "'w logger \<Rightarrow> 'w logger" where
  "allow_all l = Replay_Aware_Logger l AllowAll"

definition custom_logger ::
  "'w log_function \<Rightarrow> 'w log_function \<Rightarrow> 'w log_function \<Rightarrow> 'w log_function \<Rightarrow> 'w logger" where
  "custom_logger d i w e = Custom_Logger d i w e"

definition simple_custom_logger :: "(string \<Rightarrow> 'w log_function) \<Rightarrow> 'w logger" where
  "simple_custom_logger f = custom_logger (f ''DEBUG'') (f ''INFO'') (f ''WARN'') (f ''ERROR'')"

section \<open>Logging from a context\<close>

text \<open>
  A context holds its logger behind a lock that it shares with the contexts below it: the loggers in use are a list, and
  a context has the index of its own.
\<close>

record 'l logging_context =
  lc_context :: durable_context
  lc_lambda_context :: "'l option"
  lc_logger :: nat

definition logging_context_new :: "exec_state \<Rightarrow> 'w logger list \<Rightarrow> 'l logging_context \<times> 'w logger list" where
  "logging_context_new s ls =
     (\<lparr>lc_context = context_new s, lc_lambda_context = None, lc_logger = length ls\<rparr>, ls @ [Tracing_Logger])"

definition logging_context_from_lambda :: "exec_state \<Rightarrow> 'l \<Rightarrow> 'w logger list \<Rightarrow> 'l logging_context \<times> 'w logger list" where
  "logging_context_from_lambda s lambda ls =
     (\<lparr>lc_context = context_new s, lc_lambda_context = Some lambda, lc_logger = length ls\<rparr>, ls @ [Tracing_Logger])"

definition create_child_logging_context :: "string \<Rightarrow> 'l logging_context \<Rightarrow> 'l logging_context" where
  "create_child_logging_context i lc =
     \<lparr>lc_context = create_child_context i, lc_lambda_context = lc_lambda_context lc, lc_logger = lc_logger lc\<rparr>"

definition set_logger :: "'l logging_context \<Rightarrow> 'w logger \<Rightarrow> 'w logger list \<Rightarrow> 'w logger list" where
  "set_logger lc l ls = ls[lc_logger lc := l]"

definition with_logger :: "'l logging_context \<Rightarrow> 'w logger \<Rightarrow> 'w logger list \<Rightarrow> 'l logging_context \<times> 'w logger list" where
  "with_logger lc l ls = (lc, ls[lc_logger lc := l])"

definition configure_logger :: "'l logging_context \<Rightarrow> 'w logger \<Rightarrow> 'w logger list \<Rightarrow> 'w logger list" where
  "configure_logger lc l ls = ls[lc_logger lc := l]"

definition logger_of :: "'l logging_context \<Rightarrow> 'w logger list \<Rightarrow> 'w logger" where
  "logger_of lc ls = ls ! lc_logger lc"

definition create_log_info :: "exec_state \<Rightarrow> 'l logging_context \<Rightarrow> log_info" where
  "create_log_info s lc =
     (let info = log_info_new (es_arn s);
          info = (case dc_parent_id (lc_context lc) of Some p \<Rightarrow> li_with_parent_id p info | None \<Rightarrow> info)
      in li_with_replay (is_replay s) info)"

definition create_log_info_with_operation :: "exec_state \<Rightarrow> string \<Rightarrow> 'l logging_context \<Rightarrow> log_info" where
  "create_log_info_with_operation s i lc = li_with_operation_id i (create_log_info s lc)"

definition create_log_info_with_replay :: "exec_state \<Rightarrow> string \<Rightarrow> bool \<Rightarrow> 'l logging_context \<Rightarrow> log_info" where
  "create_log_info_with_replay s i b lc =
     (let info = log_info_new (es_arn s);
          info = (case dc_parent_id (lc_context lc) of Some p \<Rightarrow> li_with_parent_id p info | None \<Rightarrow> info)
      in li_with_replay b (li_with_operation_id i info))"

definition log_with_level ::
  "'w log_sinks \<Rightarrow> exec_state \<Rightarrow> 'l logging_context \<Rightarrow> 'w logger list \<Rightarrow> log_level \<Rightarrow> string \<Rightarrow>
   (string \<times> string) list \<Rightarrow> 'w \<Rightarrow> 'w"
where
  "log_with_level ls s lc loggers level message extra =
     (let log_info = fold (\<lambda>(key, value). li_with_extra key value) extra (create_log_info s lc)
      in log_at ls level (loggers ! lc_logger lc) message log_info)"

definition ctx_log_info where "ctx_log_info ls s lc loggers message = log_with_level ls s lc loggers Info message []"
definition ctx_log_debug where "ctx_log_debug ls s lc loggers message = log_with_level ls s lc loggers Debug message []"
definition ctx_log_warn where "ctx_log_warn ls s lc loggers message = log_with_level ls s lc loggers Warn message []"
definition ctx_log_error where "ctx_log_error ls s lc loggers message = log_with_level ls s lc loggers Error message []"

definition ctx_log_info_with where "ctx_log_info_with ls s lc loggers message extra = log_with_level ls s lc loggers Info message extra"
definition ctx_log_debug_with where "ctx_log_debug_with ls s lc loggers message extra = log_with_level ls s lc loggers Debug message extra"
definition ctx_log_warn_with where "ctx_log_warn_with ls s lc loggers message extra = log_with_level ls s lc loggers Warn message extra"
definition ctx_log_error_with where "ctx_log_error_with ls s lc loggers message extra = log_with_level ls s lc loggers Error message extra"

end
