(* ===== verification/Logging_Facts.thy ===== *)
theory Logging_Facts
  imports Logging State_Steps
begin

text \<open>
  What the loggers of \<open>Logging\<close> do: the filters of nested loggers add up, a context and the contexts below it have
  one logger, the numbers of the extra fields are read back, and a logger that is silent in replay stays silent in every
  invocation that starts with its EXECUTION operation.
\<close>

section \<open>Filters\<close>

lemma nested_filters:
  "log_at ls level (Replay_Aware_Logger (Replay_Aware_Logger l c1) c2) message info w =
     (if should_suppress c1 (li_is_replay info) level \<or> should_suppress c2 (li_is_replay info) level then w
      else log_at ls level l message info w)"
  by simp

lemma simple_custom_logger_level:
  "log_at ls level (simple_custom_logger f) =
     f (case level of Debug \<Rightarrow> ''DEBUG'' | Info \<Rightarrow> ''INFO'' | Warn \<Rightarrow> ''WARN'' | Error \<Rightarrow> ''ERROR'')"
  by (simp add: simple_custom_logger_def custom_logger_def split: log_level.split)

lemma json_log_below_minimum:
  "\<not> should_log l (case level of Debug \<Rightarrow> JsonDebug | Info \<Rightarrow> JsonInfo | Warn \<Rightarrow> JsonWarn | Error \<Rightarrow> JsonError) \<Longrightarrow>
   log_at ls level (Structured_Json_Logger l) message info w = w"
  by (cases level) (simp_all add: json_log_def json_emit_def)

text \<open>A logger that is set on a context below is the logger of the context above it as well, and the other way round.\<close>

lemma child_shares_logger:
  assumes "lc_logger lc < length loggers"
  shows "logger_of lc (configure_logger (create_child_logging_context i lc) l loggers) = l"
    and "logger_of (create_child_logging_context i lc) (configure_logger lc l loggers) = l"
  using assms by (simp_all add: logger_of_def configure_logger_def create_child_logging_context_def)

lemma new_context_own_logger:
  assumes "logging_context_new s loggers = (lc, loggers')" "lc_logger lc' < length loggers"
  shows "logger_of lc loggers' = Tracing_Logger"
    and "logger_of lc' (set_logger lc l loggers') = logger_of lc' loggers"
  using assms by (auto simp: logging_context_new_def logger_of_def set_logger_def nth_append)

section \<open>Extra fields\<close>

lemma li_extra_fold: "li_extra (fold (\<lambda>(k, v). li_with_extra k v) extra info) = li_extra info @ extra"
  by (induction extra arbitrary: info) (auto simp: li_with_extra_def)

lemma li_frame_fold:
  "li_is_replay (fold (\<lambda>(k, v). li_with_extra k v) extra info) = li_is_replay info"
  "li_operation_id (fold (\<lambda>(k, v). li_with_extra k v) extra info) = li_operation_id info"
  "li_parent_id (fold (\<lambda>(k, v). li_with_extra k v) extra info) = li_parent_id info"
  "li_durable_execution_arn (fold (\<lambda>(k, v). li_with_extra k v) extra info) = li_durable_execution_arn info"
  by (induction extra arbitrary: info) (auto simp: li_with_extra_def)

lemma digit_of_digit_char: "k < 10 \<Longrightarrow> digit_of (digit_char k) = Some k"
  by (simp add: digit_of_def digit_char_def)

lemma parse_digits_append:
  "parse_digits a (xs @ ys) = Option.bind (parse_digits a xs) (\<lambda>b. parse_digits b ys)"
  by (induction a xs rule: parse_digits.induct) (auto simp: Let_def split: option.split)

lemma parse_digits_show: "n < 2 ^ 32 \<Longrightarrow> parse_digits 0 (show_nat n) = Some n"
proof (induction n rule: show_nat.induct)
  case (1 n)
  show ?case
  proof (cases "n < 10")
    case True
    then show ?thesis by (simp add: show_nat.simps [of n] digit_of_digit_char)
  next
    case False
    then show ?thesis using 1
      by (simp add: show_nat.simps [of n] parse_digits_append digit_of_digit_char)
  qed
qed

lemma show_nat_shape: "\<exists>c cs. show_nat n = c # cs \<and> c \<noteq> CHR ''+''"
proof (induction n rule: show_nat.induct)
  case (1 n)
  have "digit_char k \<noteq> CHR ''+''" if "k < 10" for k
    using digit_of_digit_char [OF that] by (auto simp: digit_of_def)
  then show ?case using 1 by (cases "n < 10") (auto simp: show_nat.simps [of n])
qed

text \<open>The attempt that a caller writes with \<open>to_string\<close> is the number in the line.\<close>

lemma parse_u32_show: "parse_u32 (show_nat (unat n)) = Some (n :: u32)"
proof -
  obtain c cs where s: "show_nat (unat n) = c # cs" "c \<noteq> CHR ''+''" using show_nat_shape by blast
  have "unat n < 2 ^ 32" using unsigned_less [of n, where ?'a = nat] by simp
  then have "parse_digits 0 (c # cs) = Some (unat n)" using parse_digits_show [of "unat n"] s by simp
  then show ?thesis using s by (simp add: parse_u32_def del: parse_digits.simps)
qed

section \<open>Silence\<close>

lemma has_operation_keys: "has_operation s i \<longleftrightarrow> i \<in> fst ` set (es_operations s)"
  by (simp add: has_operation_def hm_get_None)

lemma has_operation_update:
  "has_operation s e \<Longrightarrow> has_operation (s\<lparr>es_operations := hm_insert k x (es_operations s)\<rparr>) e"
  by (simp add: has_operation_def hm_get_insert)

lemma has_operation_add: "has_operation s e \<Longrightarrow> has_operation (fold add_operation ops s) e"
  by (induction ops arbitrary: s) (simp_all add: add_operation_def has_operation_update)

lemma has_operation_frame [simp]:
  "has_operation (s\<lparr>es_token := t\<rparr>) e = has_operation s e"
  "has_operation (s\<lparr>es_next_marker := m\<rparr>) e = has_operation s e"
  "has_operation (s\<lparr>es_parent_done := ps\<rparr>) e = has_operation s e"
  "has_operation (track_replay i s) e = has_operation s e"
  by (simp_all add: has_operation_def)

lemma has_operation_cache: "has_operation s e \<Longrightarrow> has_operation (update_local_cache_from_update u s) e"
  by (simp add: update_local_cache_from_update_def has_operation_update)

lemma checkpoint_effect_has_operation:
  assumes "checkpoint_effect s s'" "has_operation s e"
  shows "has_operation s' e"
proof -
  have token: "has_operation (set_checkpoint_token t s) e" for t using assms(2) by (simp add: set_checkpoint_token_def)
  then have "has_operation (apply_response u r s) e" for u r
    by (auto simp: apply_response_def Let_def update_local_cache_from_response_def has_operation_add has_operation_cache
        split: option.split)
  with assms token has_operation_cache show ?thesis by (auto simp: checkpoint_effect_def)
qed

lemma state_step_has_operation:
  "state_step sv v v' \<Longrightarrow> has_operation (env_state v) e \<Longrightarrow> has_operation (env_state v') e"
proof (induction rule: state_step.induct)
  case (step_load_more v r v')
  from load_more_cases [OF step_load_more(1)] step_load_more(2)
  show ?case by (auto simp: store_page_def has_operation_add)
next
  case (step_update f v i)
  then show ?case by (simp add: update_operation_def has_operation_update split: option.split)
qed (auto dest!: create_checkpoint_effect with_response_effect intro: checkpoint_effect_has_operation
    simp: add_operation_def has_operation_update mark_parent_done_def set_checkpoint_token_def)

text \<open>A step leaves the replay only by tracking, and then every cached operation has been tracked.\<close>

lemma state_step_replay:
  assumes "state_step sv v v'" "es_wf (env_state v)" "is_replay (env_state v)" "has_operation (env_state v) e"
    and "set (es_replayed (env_state v')) \<subseteq> fst ` set (es_operations (env_state v')) - {e}"
  shows "is_replay (env_state v')"
  using assms
proof (induction rule: state_step.induct)
  case (step_load_more v r v')
  from load_more_cases [OF step_load_more(1)] step_load_more(3) show ?case by (auto simp: store_page_def is_replay_def)
next
  case (step_track v i)
  then have sub: "insert i (set (es_replayed (env_state v))) \<subseteq> fst ` set (es_operations (env_state v))"
    and "e \<notin> insert i (set (es_replayed (env_state v)))" by auto
  moreover have "e \<in> fst ` set (es_operations (env_state v))" using step_track.prems(3) by (simp only: has_operation_keys)
  ultimately have "insert i (set (es_replayed (env_state v))) \<noteq> fst ` set (es_operations (env_state v))" by blast
  with track_replay_new [OF step_track.prems(1) sub] step_track.prems(2) show ?case by (simp add: is_new_not_replay)
qed (auto dest!: create_checkpoint_effect with_response_effect checkpoint_effect_frame
    simp: is_replay_def add_operation_def update_operation_def mark_parent_done_def set_checkpoint_token_def split: option.split)

text \<open>The runs of an invocation that track operations of the cache only, and never the operation \<open>e\<close>.\<close>

inductive untracked_run :: "'w services \<Rightarrow> string \<Rightarrow> 'w env \<Rightarrow> 'w env \<Rightarrow> bool" for sv e where
  untracked_refl: "untracked_run sv e v v"
| untracked_step: "untracked_run sv e v v1 \<Longrightarrow> state_step sv v1 v2 \<Longrightarrow>
    set (es_replayed (env_state v2)) \<subseteq> fst ` set (es_operations (env_state v2)) - {e} \<Longrightarrow> untracked_run sv e v v2"

lemma untracked_run_replay:
  "untracked_run sv e v v' \<Longrightarrow> es_wf (env_state v) \<Longrightarrow> is_replay (env_state v) \<Longrightarrow> has_operation (env_state v) e \<Longrightarrow>
   es_wf (env_state v') \<and> is_replay (env_state v') \<and> has_operation (env_state v') e"
  by (induction rule: untracked_run.induct) (blast intro: state_step_wf state_step_replay state_step_has_operation)+

lemma exec_state_new_has:
  assumes "op \<in> set (ies_operations init)"
  shows "has_operation (with_checkpointing_mode arn token init mode) (op_id op)"
    and "is_replay (with_checkpointing_mode arn token init mode)"
proof -
  have "fst ` set (fold (\<lambda>op m. hm_insert (op_id op) op m) ops m) = op_id ` set ops \<union> fst ` set m"
    for ops :: "operation list" and m
    by (induction ops arbitrary: m) (simp_all add: hm_keys_insert)
  then have *: "op_id op \<in> fst ` set (collect_operations (ies_operations init))"
    unfolding collect_operations_def using assms by simp
  then show "has_operation (with_checkpointing_mode arn token init mode) (op_id op)"
    by (simp only: has_operation_keys with_checkpointing_mode_def Let_def exec_state.simps)
  from * have "collect_operations (ies_operations init) \<noteq> []" by auto
  then show "is_replay (with_checkpointing_mode arn token init mode)"
    by (simp add: with_checkpointing_mode_def Let_def is_replay_def replay_status_is_replay_def)
qed

lemma create_log_info_replay: "li_is_replay (create_log_info s lc) = is_replay s"
  by (simp add: create_log_info_def Let_def li_with_replay_def)


definition example_sinks :: "string list log_sinks" where
  "example_sinks = \<lparr>ls_tracing = (\<lambda>ev w. w @ [te_message ev]), ls_println = (\<lambda>line w. w @ [line]),
     ls_clock = (\<lambda>w. (1700000000, 250)), ls_to_string = (\<lambda>fs. Some (concat (map fst fs)))\<rparr>"


end
