(* ===== verification/Http_Client.thy ===== *)
theory Http_Client
  imports Checkpointing
begin

text \<open>
  The client of the service, \<open>LambdaDurableServiceClient\<close> of \<open>sdk/src/client.rs\<close>: a request is built, signed and
  sent, and the answer becomes a response or an error. What the AWS crates, \<open>reqwest\<close> and \<open>serde_json\<close> do is a
  parameter, the transport; the order of the stages, the errors and their classification are the client's. Bodies are
  given as their text.
\<close>

section \<open>Configuration\<close>

record lambda_client_config =
  lcc_region :: string
  lcc_endpoint_url :: "string option"

definition lambda_client_config_default :: lambda_client_config where
  "lambda_client_config_default = \<lparr>lcc_region = ''us-east-1'', lcc_endpoint_url = None\<rparr>"

definition lambda_client_with_region :: "string \<Rightarrow> lambda_client_config" where
  "lambda_client_with_region region = \<lparr>lcc_region = region, lcc_endpoint_url = None\<rparr>"

definition config_from_aws_config :: "string option \<Rightarrow> lambda_client_config" where
  "config_from_aws_config region =
     \<lparr>lcc_region = (case region of Some r \<Rightarrow> r | None \<Rightarrow> ''us-east-1''), lcc_endpoint_url = None\<rparr>"

definition endpoint_url :: "lambda_client_config \<Rightarrow> string" where
  "endpoint_url cfg = (case lcc_endpoint_url cfg of
     Some u \<Rightarrow> u | None \<Rightarrow> ''https://lambda.'' @ lcc_region cfg @ ''.amazonaws.com'')"

section \<open>The transport\<close>

record checkpoint_request_body =
  crb_checkpoint_token :: string
  crb_updates :: "operation_update list"

record get_operations_request_body =
  grb_next_marker :: string

record http_request =
  hq_uri :: string
  hq_headers :: "(string \<times> string) list"
  hq_body :: string

record send_error =
  snd_message :: string
  snd_is_timeout :: bool
  snd_is_connect :: bool

record http_response =
  hr_status :: nat
  hr_body :: "string + string"

text \<open>
  Credentials, signing parameters, the signable request, the signature and the temporary request it is applied to each
  can fail. A header value that is not text reads as \<open>None\<close>. Sending ends with an error or a status and the outcome
  of reading the body.
\<close>

record ('w, 'c, 'p, 'r, 'i, 'h) transport =
  tp_credentials :: "'w \<Rightarrow> (string + 'c) \<times> 'w"
  tp_signing_params :: "'c \<Rightarrow> string \<Rightarrow> string \<Rightarrow> 'w \<Rightarrow> string + 'p"
  tp_signable :: "string \<Rightarrow> string \<Rightarrow> string \<Rightarrow> string + 'r"
  tp_sign :: "'r \<Rightarrow> 'p \<Rightarrow> string + 'i"
  tp_temp_request :: "string \<Rightarrow> string \<Rightarrow> string + 'h"
  tp_apply :: "'i \<Rightarrow> 'h \<Rightarrow> (string \<times> string option) list"
  tp_send :: "http_request \<Rightarrow> 'w \<Rightarrow> (send_error + http_response) \<times> 'w"
  tp_urlencode :: "string \<Rightarrow> string"
  tp_status_text :: "nat \<Rightarrow> string"
  tp_checkpoint_json :: "checkpoint_request_body \<Rightarrow> string + string"
  tp_operations_json :: "get_operations_request_body \<Rightarrow> string + string"
  tp_read_checkpoint :: "string \<Rightarrow> string + checkpoint_response"
  tp_read_operations :: "string \<Rightarrow> string + get_operations_response"

definition http_status_is_success :: "nat \<Rightarrow> bool" where
  "http_status_is_success s \<longleftrightarrow> 200 \<le> s \<and> s < 300"

definition http_status_is_server_error :: "nat \<Rightarrow> bool" where
  "http_status_is_server_error s \<longleftrightarrow> 500 \<le> s \<and> s < 600"

section \<open>Signing\<close>

definition or_checkpoint_error :: "string \<Rightarrow> bool \<Rightarrow> string + 'a \<Rightarrow> ('w, durable_error, 'a) cmd" where
  "or_checkpoint_error m retriable r = liftE (map_sum (\<lambda>e. Checkpoint (m @ e) retriable None) id r)"

definition sign_request ::
  "('w, 'c, 'p, 'r, 'i, 'h) transport \<Rightarrow> lambda_client_config \<Rightarrow> string \<Rightarrow> string \<Rightarrow> string \<Rightarrow>
   ('w, durable_error, (string \<times> string) list) cmd"
where
  "sign_request tp cfg meth uri body =
     bindE (\<lambda>w. case tp_credentials tp w of (r, w1) \<Rightarrow> or_checkpoint_error ''Failed to get AWS credentials: '' True r w1) (\<lambda>credentials.
     bindE (\<lambda>w. or_checkpoint_error ''Failed to build signing params: '' False
         (tp_signing_params tp credentials (lcc_region cfg) ''lambda'' w) w) (\<lambda>params.
     bindE (or_checkpoint_error ''Failed to create signable request: '' False (tp_signable tp meth uri body)) (\<lambda>signable.
     bindE (or_checkpoint_error ''Failed to sign request: '' False (tp_sign tp signable params)) (\<lambda>instructions.
     bindE (or_checkpoint_error ''Failed to build temp request: '' False (tp_temp_request tp meth uri)) (\<lambda>temp.
     retE (map (\<lambda>(name, value). (name, case value of Some v \<Rightarrow> v | None \<Rightarrow> [])) (tp_apply tp instructions temp)))))))"

definition http_request_of :: "string \<Rightarrow> string \<Rightarrow> (string \<times> string) list \<Rightarrow> http_request" where
  "http_request_of uri body headers =
     \<lparr>hq_uri = uri, hq_headers = (''Content-Type'', ''application/json'') # headers, hq_body = body\<rparr>"

section \<open>Checkpoints\<close>

definition says_too_large :: "nat \<Rightarrow> string \<Rightarrow> bool" where
  "says_too_large status text \<longleftrightarrow> status = 413 \<or> str_contains text ''RequestEntityTooLarge'' \<or>
     str_contains text ''Payload size exceeded'' \<or> str_contains text ''Request too large''"

definition says_not_found :: "nat \<Rightarrow> string \<Rightarrow> bool" where
  "says_not_found status text \<longleftrightarrow>
     status = 404 \<or> str_contains text ''ResourceNotFoundException'' \<or> str_contains text ''not found''"

definition says_throttled :: "nat \<Rightarrow> string \<Rightarrow> bool" where
  "says_throttled status text \<longleftrightarrow> status = 429 \<or> str_contains text ''ThrottlingException'' \<or>
     str_contains text ''TooManyRequestsException'' \<or> str_contains text ''Rate exceeded''"

definition checkpoint_error :: "(nat \<Rightarrow> string) \<Rightarrow> string \<Rightarrow> nat \<Rightarrow> string \<Rightarrow> durable_error" where
  "checkpoint_error show_status arn status text =
     (if says_too_large status text then SizeLimit (''Checkpoint payload size exceeded: '' @ text) None None
      else if says_not_found status text then ResourceNotFound (''Durable execution not found: '' @ text) (Some arn)
      else if says_throttled status text then Throttling (''Rate limit exceeded: '' @ text) None
      else
        (let is_invalid_token = str_contains text ''Invalid checkpoint token'';
             retriable = http_status_is_server_error status \<or> is_invalid_token
         in Checkpoint (''Checkpoint API returned '' @ show_status status @ '': '' @ text) retriable
              (Some \<lparr>ae_code = (if is_invalid_token then ''InvalidParameterValueException'' else show_status status),
                 ae_message = text, ae_request_id = None\<rparr>)))"

definition lambda_checkpoint ::
  "('w, 'c, 'p, 'r, 'i, 'h) transport \<Rightarrow> lambda_client_config \<Rightarrow> string \<Rightarrow> string \<Rightarrow> operation_update list \<Rightarrow>
   ('w, durable_error, checkpoint_response) cmd"
where
  "lambda_checkpoint tp cfg arn token operations =
     bindE (liftE (map_sum (\<lambda>e. SerDes (''Failed to serialize checkpoint request: '' @ e)) id
       (tp_checkpoint_json tp \<lparr>crb_checkpoint_token = token, crb_updates = operations\<rparr>))) (\<lambda>body.
     let uri = endpoint_url cfg @ ''/2025-12-01/durable-executions/'' @ tp_urlencode tp arn @ ''/checkpoint'' in
     bindE (sign_request tp cfg ''POST'' uri body) (\<lambda>signed_headers.
     bindE (\<lambda>w. case tp_send tp (http_request_of uri body signed_headers) w of
         (Inl e, w1) \<Rightarrow> (Inl (Checkpoint (''HTTP request failed: '' @ snd_message e) (snd_is_timeout e \<or> snd_is_connect e) None), w1)
       | (Inr r, w1) \<Rightarrow> (Inr r, w1)) (\<lambda>response.
     bindE (or_checkpoint_error ''Failed to read response body: '' True (hr_body response)) (\<lambda>response_body.
     if \<not> http_status_is_success (hr_status response)
     then throwE (checkpoint_error (tp_status_text tp) arn (hr_status response) response_body)
     else liftE (map_sum (\<lambda>e. SerDes (''Failed to deserialize checkpoint response: '' @ e)) id
            (tp_read_checkpoint tp response_body))))))"

section \<open>Pages of operations\<close>

definition get_operations_error :: "(nat \<Rightarrow> string) \<Rightarrow> string \<Rightarrow> nat \<Rightarrow> string \<Rightarrow> durable_error" where
  "get_operations_error show_status arn status text =
     (if says_not_found status text then ResourceNotFound (''Durable execution not found: '' @ text) (Some arn)
      else if says_throttled status text then Throttling (''Rate limit exceeded: '' @ text) None
      else Invocation (''GetDurableExecutionState API returned '' @ show_status status @ '': '' @ text) InvocationError)"

definition lambda_get_operations ::
  "('w, 'c, 'p, 'r, 'i, 'h) transport \<Rightarrow> lambda_client_config \<Rightarrow> string \<Rightarrow> string \<Rightarrow>
   ('w, durable_error, get_operations_response) cmd"
where
  "lambda_get_operations tp cfg arn next_marker =
     bindE (liftE (map_sum (\<lambda>e. SerDes (''Failed to serialize get_operations request: '' @ e)) id
       (tp_operations_json tp \<lparr>grb_next_marker = next_marker\<rparr>))) (\<lambda>body.
     let uri = endpoint_url cfg @ ''/2025-12-01/durable-executions/'' @ tp_urlencode tp arn @ ''/state'' in
     bindE (sign_request tp cfg ''POST'' uri body) (\<lambda>signed_headers.
     bindE (\<lambda>w. case tp_send tp (http_request_of uri body signed_headers) w of
         (Inl e, w1) \<Rightarrow> (Inl (Invocation (''HTTP request failed: '' @ snd_message e) InvocationError), w1)
       | (Inr r, w1) \<Rightarrow> (Inr r, w1)) (\<lambda>response.
     bindE (liftE (map_sum (\<lambda>e. Invocation (''Failed to read response body: '' @ e) InvocationError) id
         (hr_body response))) (\<lambda>response_body.
     if \<not> http_status_is_success (hr_status response)
     then throwE (get_operations_error (tp_status_text tp) arn (hr_status response) response_body)
     else liftE (map_sum (\<lambda>e. SerDes (''Failed to deserialize get_operations response: '' @ e)) id
            (tp_read_operations tp response_body))))))"

text \<open>The client as the service of an execution, with the timer and the queue of the others.\<close>

definition lambda_services ::
  "('w, 'c, 'p, 'r, 'i, 'h) transport \<Rightarrow> lambda_client_config \<Rightarrow> 'w services \<Rightarrow> 'w services" where
  "lambda_services tp cfg sv =
     sv\<lparr>sv_checkpoint := lambda_checkpoint tp cfg, sv_get_operations := lambda_get_operations tp cfg\<rparr>"

end
