(* ===== verification/Http_Client_Facts.thy ===== *)
theory Http_Client_Facts
  imports Http_Client
begin

text \<open>
  What the client of the service makes of an answer, for the parts of the SDK that look at its errors: the loop that
  retries throttled calls, the batcher, and the output of an invocation.
\<close>

section \<open>Answers\<close>

text \<open>The request could be built, signed and sent from the world \<open>w\<close>, and was answered with a status and a body.\<close>

definition checkpoint_answer ::
  "('w, 'c, 'p, 'r, 'i, 'h) transport \<Rightarrow> lambda_client_config \<Rightarrow> string \<Rightarrow> string \<Rightarrow> operation_update list \<Rightarrow> 'w \<Rightarrow>
   nat \<Rightarrow> string \<Rightarrow> 'w \<Rightarrow> bool"
where
  "checkpoint_answer tp cfg arn token ops w status text w' \<longleftrightarrow>
     (\<exists>body headers w1 uri. uri = endpoint_url cfg @ ''/2025-12-01/durable-executions/'' @ tp_urlencode tp arn @ ''/checkpoint'' \<and>
        tp_checkpoint_json tp \<lparr>crb_checkpoint_token = token, crb_updates = ops\<rparr> = Inr body \<and>
        sign_request tp cfg ''POST'' uri body w = (Inr headers, w1) \<and>
        tp_send tp (http_request_of uri body headers) w1 = (Inr \<lparr>hr_status = status, hr_body = Inr text\<rparr>, w'))"

definition operations_answer ::
  "('w, 'c, 'p, 'r, 'i, 'h) transport \<Rightarrow> lambda_client_config \<Rightarrow> string \<Rightarrow> string \<Rightarrow> 'w \<Rightarrow> nat \<Rightarrow> string \<Rightarrow> 'w \<Rightarrow> bool"
where
  "operations_answer tp cfg arn marker w status text w' \<longleftrightarrow>
     (\<exists>body headers w1 uri. uri = endpoint_url cfg @ ''/2025-12-01/durable-executions/'' @ tp_urlencode tp arn @ ''/state'' \<and>
        tp_operations_json tp \<lparr>grb_next_marker = marker\<rparr> = Inr body \<and>
        sign_request tp cfg ''POST'' uri body w = (Inr headers, w1) \<and>
        tp_send tp (http_request_of uri body headers) w1 = (Inr \<lparr>hr_status = status, hr_body = Inr text\<rparr>, w'))"

lemma lambda_checkpoint_answer:
  assumes "checkpoint_answer tp cfg arn token ops w status text w'"
  shows "lambda_checkpoint tp cfg arn token ops w =
    (if http_status_is_success status
     then (map_sum (\<lambda>e. SerDes (''Failed to deserialize checkpoint response: '' @ e)) id (tp_read_checkpoint tp text), w')
     else (Inl (checkpoint_error (tp_status_text tp) arn status text), w'))"
  using assms
  by (auto simp: checkpoint_answer_def lambda_checkpoint_def bindE_def Let_def or_checkpoint_error_def)

lemma lambda_get_operations_answer:
  assumes "operations_answer tp cfg arn marker w status text w'"
  shows "lambda_get_operations tp cfg arn marker w =
    (if http_status_is_success status
     then (map_sum (\<lambda>e. SerDes (''Failed to deserialize get_operations response: '' @ e)) id (tp_read_operations tp text), w')
     else (Inl (get_operations_error (tp_status_text tp) arn status text), w'))"
  using assms
  by (auto simp: operations_answer_def lambda_get_operations_def bindE_def Let_def)

section \<open>Classification\<close>

lemma checkpoint_error_classes:
  "is_size_limit (checkpoint_error st arn status text) \<longleftrightarrow> says_too_large status text"
  "is_resource_not_found (checkpoint_error st arn status text) \<longleftrightarrow> \<not> says_too_large status text \<and> says_not_found status text"
  "is_throttling (checkpoint_error st arn status text) \<longleftrightarrow>
     \<not> says_too_large status text \<and> \<not> says_not_found status text \<and> says_throttled status text"
  "is_retriable (checkpoint_error st arn status text) \<longleftrightarrow>
     \<not> says_too_large status text \<and> \<not> says_not_found status text \<and> \<not> says_throttled status text \<and>
     (http_status_is_server_error status \<or> str_contains text ''Invalid checkpoint token'')"
  "is_invalid_checkpoint_token (checkpoint_error st arn status text) \<longleftrightarrow>
     \<not> says_too_large status text \<and> \<not> says_not_found status text \<and> \<not> says_throttled status text \<and>
     str_contains text ''Invalid checkpoint token''"
  by (auto simp: checkpoint_error_def Let_def)

text \<open>What the rest of the SDK sees of a refused checkpoint: the first of too large, not found and throttled that
  the status or the text of the answer names decides, and only an answer that names none of them can be retriable, or be
  recognised as a used token. So an answer about a used token that says \<open>not found\<close> anywhere is neither.\<close>

lemma refused_checkpoint_classified:
  assumes "checkpoint_answer tp cfg arn token ops w status text w'" "\<not> http_status_is_success status"
  shows "\<exists>e. lambda_checkpoint tp cfg arn token ops w = (Inl e, w') \<and>
    (is_size_limit e \<longleftrightarrow> says_too_large status text) \<and>
    (is_resource_not_found e \<longleftrightarrow> \<not> says_too_large status text \<and> says_not_found status text) \<and>
    (is_throttling e \<longleftrightarrow> \<not> says_too_large status text \<and> \<not> says_not_found status text \<and> says_throttled status text) \<and>
    (is_retriable e \<longleftrightarrow> \<not> is_size_limit e \<and> \<not> is_resource_not_found e \<and> \<not> is_throttling e \<and>
       (http_status_is_server_error status \<or> str_contains text ''Invalid checkpoint token'')) \<and>
    (is_invalid_checkpoint_token e \<longleftrightarrow> \<not> is_size_limit e \<and> \<not> is_resource_not_found e \<and> \<not> is_throttling e \<and>
       str_contains text ''Invalid checkpoint token'')"
  using lambda_checkpoint_answer [OF assms(1)] assms(2)
  by (auto simp: checkpoint_error_classes)

text \<open>A transport that answers every request from a list of answers and remembers how long it slept.\<close>

definition scripted_transport :: "((nat \<times> string) list \<times> nat list, unit, unit, unit, unit, unit) transport" where
  "scripted_transport = \<lparr>
     tp_credentials = (\<lambda>w. (Inr (), w)), tp_signing_params = (\<lambda>_ _ _ _. Inr ()), tp_signable = (\<lambda>_ _ _. Inr ()),
     tp_sign = (\<lambda>_ _. Inr ()), tp_temp_request = (\<lambda>_ _. Inr ()), tp_apply = (\<lambda>_ _. [(''authorization'', Some ''x'')]),
     tp_send = (\<lambda>q w. case w of
         ([], ms) \<Rightarrow> (Inl \<lparr>snd_message = ''closed'', snd_is_timeout = False, snd_is_connect = True\<rparr>, w)
       | ((status, text) # rest, ms) \<Rightarrow> (Inr \<lparr>hr_status = status, hr_body = Inr text\<rparr>, (rest, ms))),
     tp_urlencode = id, tp_status_text = show_nat,
     tp_checkpoint_json = (\<lambda>b. Inr (crb_checkpoint_token b)), tp_operations_json = (\<lambda>b. Inr (grb_next_marker b)),
     tp_read_checkpoint = (\<lambda>s. Inr (checkpoint_response_new s)),
     tp_read_operations = (\<lambda>s. Inr \<lparr>gor_operations = [], gor_next_marker = None\<rparr>)\<rparr>"

lemma scripted_answers:
  "checkpoint_answer scripted_transport cfg arn token ops ((status, text) # rest, ms) status text (rest, ms)"
  "operations_answer scripted_transport cfg arn marker ((status, text) # rest, ms) status text (rest, ms)"
  by (auto simp: checkpoint_answer_def operations_answer_def scripted_transport_def sign_request_def bindE_def
      or_checkpoint_error_def)

lemma refused_checkpoint_classified_witness:
  "\<exists>e. lambda_checkpoint scripted_transport lambda_client_config_default ''arn'' ''t'' []
      ([(400, ''Invalid checkpoint token: token not found'')], []) = (Inl e, ([], [])) \<and>
    \<not> is_retriable e \<and> \<not> is_invalid_checkpoint_token e"
proof -
  let ?t = "''Invalid checkpoint token: token not found''"
  have "says_not_found 400 ?t" "\<not> says_too_large 400 ?t" by code_simp+
  then show ?thesis
    using refused_checkpoint_classified [OF scripted_answers(1) [of lambda_client_config_default "''arn''" "''t''" "[]" 400 ?t "[]" "[]"]]
    by (auto simp: http_status_is_success_def)
qed

section \<open>Throttled calls\<close>

text \<open>The retry loop of the SDK sleeps 100, 200, 400, 800 and 1600 milliseconds.\<close>

lemma throttle_retry_sequence:
  assumes "\<And>j. j < k \<Longrightarrow> \<exists>e. call (ws j) = (Inl e, ws' j) \<and> is_throttling e \<and> get_retry_after_ms e = None"
    and "\<And>j. j < k \<Longrightarrow> ws (Suc j) = sleep (100 * 2 ^ j) (ws' j)"
    and "call (ws k) = (q, w)" "k \<le> MAX_RETRIES" "k = MAX_RETRIES \<or> (\<forall>e. q = Inl e \<longrightarrow> \<not> is_throttling e)"
    and "i \<le> k"
  shows "throttle_retry call sleep i (100 * 2 ^ i) (ws i) = (q, w)"
  using assms(6)
proof (induction "k - i" arbitrary: i)
  case 0
  then have "i = k" by simp
  with assms(3-5) show ?case by (auto intro!: throttle_retry_stop)
next
  case (Suc n)
  then have i: "i < k" "n = k - Suc i" "Suc i \<le> k" by auto
  then obtain e where e: "call (ws i) = (Inl e, ws' i)" "is_throttling e" "get_retry_after_ms e = None"
    using assms(1) by blast
  have lt: "i < 5" using i(1) assms(4) by (simp add: retry_consts)
  then have "(2 :: nat) ^ i \<le> 2 ^ 4" by (intro power_increasing) simp_all
  then have d: "min (100 * 2 ^ i * BACKOFF_MULTIPLIER) MAX_DELAY_MS = 100 * 2 ^ Suc i"
    by (simp add: retry_consts)
  have "actual_delay e (100 * 2 ^ i) = 100 * 2 ^ i" using e(3) by (simp add: actual_delay_def)
  then show ?case
    using throttle_retry_again [of call "ws i" e "ws' i" i sleep "100 * 2 ^ i", OF e(1,2)] lt d assms(2) [OF i(1)]
      Suc.hyps(1) [OF i(2,3)] by (simp add: retry_consts)
qed

text \<open>C38: When the service throttles the first \<open>k\<close> requests for a page of operations, at most five, the client and
  the retry loop together sleep 100 milliseconds, then twice as long each time, and give the answer to the next request.\<close>

theorem throttled_page_backs_off:
  assumes "\<And>j. j < k \<Longrightarrow> operations_answer tp cfg (es_arn s) marker (ws j) (status j) (text j) (ws' j)"
    and "\<And>j. j < k \<Longrightarrow> \<not> http_status_is_success (status j) \<and> \<not> says_not_found (status j) (text j) \<and> says_throttled (status j) (text j)"
    and "\<And>j. j < k \<Longrightarrow> ws (Suc j) = sv_sleep sv (100 * 2 ^ j) (ws' j)"
    and "k \<le> 5" "lambda_get_operations tp cfg (es_arn s) marker (ws k) = (q, w)"
    and "k = 5 \<or> (\<forall>e. q = Inl e \<longrightarrow> \<not> is_throttling e)"
  shows "get_operations_with_retry (lambda_services tp cfg sv) marker \<lparr>env_state = s, env_world = ws 0\<rparr> =
    (q, \<lparr>env_state = s, env_world = w\<rparr>)"
proof -
  let ?call = "lambda_get_operations tp cfg (es_arn s) marker"
  have "\<exists>e. ?call (ws j) = (Inl e, ws' j) \<and> is_throttling e \<and> get_retry_after_ms e = None" if "j < k" for j
    using lambda_get_operations_answer [OF assms(1) [OF that]] assms(2) [OF that] by (simp add: get_operations_error_def)
  from throttle_retry_sequence [of k ?call ws ws' "sv_sleep sv" q w 0, OF this assms(3,5)] assms(4,6)
  have "throttle_retry ?call (sv_sleep sv) 0 100 (ws 0) = (q, w)" by (simp add: MAX_RETRIES_def)
  then show ?thesis
    by (simp add: get_operations_with_retry_def on_world_def lambda_services_def INITIAL_DELAY_MS_def)
qed

definition scripted_services :: "((nat \<times> string) list \<times> nat list) services" where
  "scripted_services = lambda_services scripted_transport lambda_client_config_default
     \<lparr>sv_checkpoint = \<lambda>_ _ _ w. (Inl (Configuration ''none''), w), sv_get_operations = \<lambda>_ _ w. (Inl (Configuration ''none''), w),
      sv_sleep = \<lambda>ms (script, slept). (script, slept @ [ms]), sv_send = \<lambda>_ _ t w. (Inl (Configuration ''none''), t, w)\<rparr>"

theorem throttled_page_backs_off_witness:
  "get_operations_with_retry scripted_services ''m''
     \<lparr>env_state = exec_state_new ''arn'' ''t'' \<lparr>ies_operations = [], ies_next_marker = None\<rparr>,
      env_world = ([(429, ''x''), (503, ''Rate exceeded''), (200, ''page'')], [])\<rparr> =
   (Inr \<lparr>gor_operations = [], gor_next_marker = None\<rparr>,
     \<lparr>env_state = exec_state_new ''arn'' ''t'' \<lparr>ies_operations = [], ies_next_marker = None\<rparr>, env_world = ([], [100, 200])\<rparr>)"
proof -
  let ?s = "exec_state_new ''arn'' ''t'' \<lparr>ies_operations = [], ies_next_marker = None\<rparr>"
  let ?script = "[(429, ''x''), (503, ''Rate exceeded''), (200, ''page'')] :: (nat \<times> string) list"
  let ?ws = "\<lambda>j. (drop j ?script, map (\<lambda>i. 100 * 2 ^ i :: nat) [0..<j])"
  let ?ws' = "\<lambda>j. (drop (Suc j) ?script, map (\<lambda>i. 100 * 2 ^ i :: nat) [0..<j])"
  let ?cfg = lambda_client_config_default
  let ?sv = "\<lparr>sv_checkpoint = \<lambda>_ _ _ w. (Inl (Configuration ''none''), w), sv_get_operations = \<lambda>_ _ w. (Inl (Configuration ''none''), w),
      sv_sleep = \<lambda>ms (script, slept). (script, slept @ [ms]), sv_send = \<lambda>_ _ t w. (Inl (Configuration ''none''), t, w)\<rparr>
      :: ((nat \<times> string) list \<times> nat list) services"
  have j: "j = 0 \<or> j = 1" if "j < 2" for j :: nat using that by auto
  have a: "operations_answer scripted_transport ?cfg (es_arn ?s) ''m'' (?ws j) (fst (?script ! j)) (snd (?script ! j)) (?ws' j)"
    if "j < 2" for j
    using j [OF that] scripted_answers(2) [of ?cfg "es_arn ?s" "''m''"] by auto
  have "says_throttled 429 ''x''" "\<not> says_not_found 429 ''x''"
    "says_throttled 503 ''Rate exceeded''" "\<not> says_not_found 503 ''Rate exceeded''" by code_simp+
  then have b: "\<not> http_status_is_success (fst (?script ! j)) \<and> \<not> says_not_found (fst (?script ! j)) (snd (?script ! j)) \<and>
      says_throttled (fst (?script ! j)) (snd (?script ! j))" if "j < 2" for j
    using j [OF that] by (auto simp: http_status_is_success_def)
  have c: "?ws (Suc j) = sv_sleep ?sv (100 * 2 ^ j) (?ws' j)" if "j < 2" for j by simp
  have ws2: "?ws 2 = ([(200, ''page'')], [100, 200])" by (simp add: upt_rec)
  have tp: "tp_read_operations scripted_transport = (\<lambda>s. Inr \<lparr>gor_operations = [], gor_next_marker = None\<rparr>)"
    by (simp add: scripted_transport_def)
  have d: "lambda_get_operations scripted_transport ?cfg (es_arn ?s) ''m'' (?ws 2) =
      (Inr \<lparr>gor_operations = [], gor_next_marker = None\<rparr>, ([], [100, 200]))"
    unfolding ws2 using lambda_get_operations_answer [OF scripted_answers(2) [of ?cfg "es_arn ?s" "''m''" 200 "''page''" "[]" "[100, 200]"]]
    by (simp add: http_status_is_success_def tp)
  show ?thesis
    using throttled_page_backs_off [of 2 scripted_transport ?cfg ?s "''m''" ?ws "\<lambda>j. fst (?script ! j)" "\<lambda>j. snd (?script ! j)" ?ws' ?sv,
        OF a b c _ d] by (simp add: scripted_services_def)
qed

end
