(* ===== verification/Config_Builders.thy ===== *)
theory Config_Builders
  imports Config_Facts Child_Handler Concurrency_Facts
begin

text \<open>
  How user code makes the configurations of \<open>sdk/src/config.rs\<close> and the presets of \<open>sdk/src/retry_presets.rs\<close>, and how
  it reads the result of a batch in \<open>sdk/src/concurrency.rs\<close>: builders, setters, the retry strategy of a closure, the
  views of an item and of a result, and the recording of outcomes outside \<open>execute\<close>.
\<close>

section \<open>Builders of retry strategies\<close>

text \<open>The builder has the fields of the strategy it builds.\<close>

type_synonym exponential_backoff_builder = exponential_backoff

definition exponential_builder :: exponential_backoff_builder where
  "exponential_builder = exponential_backoff_default"

definition builder_max_attempts :: "u32 \<Rightarrow> exponential_backoff_builder \<Rightarrow> exponential_backoff_builder" where
  "builder_max_attempts n b = b\<lparr>eb_max_attempts := n\<rparr>"

definition builder_base_delay :: "duration \<Rightarrow> exponential_backoff_builder \<Rightarrow> exponential_backoff_builder" where
  "builder_base_delay d b = b\<lparr>eb_base_delay := d\<rparr>"

definition builder_max_delay :: "duration \<Rightarrow> exponential_backoff_builder \<Rightarrow> exponential_backoff_builder" where
  "builder_max_delay d b = b\<lparr>eb_max_delay := d\<rparr>"

definition builder_multiplier :: "f64 \<Rightarrow> exponential_backoff_builder \<Rightarrow> exponential_backoff_builder" where
  "builder_multiplier m b = b\<lparr>eb_multiplier := m\<rparr>"

definition builder_jitter :: "jitter_strategy \<Rightarrow> exponential_backoff_builder \<Rightarrow> exponential_backoff_builder" where
  "builder_jitter j b = b\<lparr>eb_jitter := j\<rparr>"

definition builder_build :: "exponential_backoff_builder \<Rightarrow> exponential_backoff" where
  "builder_build b = \<lparr>eb_max_attempts = eb_max_attempts b, eb_base_delay = eb_base_delay b, eb_max_delay = eb_max_delay b,
     eb_multiplier = eb_multiplier b, eb_jitter = eb_jitter b\<rparr>"

lemmas builder_defs = exponential_builder_def builder_max_attempts_def builder_base_delay_def builder_max_delay_def
  builder_multiplier_def builder_jitter_def builder_build_def exponential_backoff_default_def

definition fixed_with_jitter :: "jitter_strategy \<Rightarrow> fixed_delay \<Rightarrow> fixed_delay" where
  "fixed_with_jitter j fd = fd\<lparr>fd_jitter := j\<rparr>"

definition linear_with_max_delay :: "duration \<Rightarrow> linear_backoff \<Rightarrow> linear_backoff" where
  "linear_with_max_delay d lb = lb\<lparr>lb_max_delay := d\<rparr>"

definition linear_with_jitter :: "jitter_strategy \<Rightarrow> linear_backoff \<Rightarrow> linear_backoff" where
  "linear_with_jitter j lb = lb\<lparr>lb_jitter := j\<rparr>"

text \<open>A closure is a strategy as it is.\<close>

definition custom_retry :: "(u32 \<Rightarrow> string \<Rightarrow> duration option) \<Rightarrow> retry_strategy" where
  "custom_retry f attempt error = f attempt error"

definition default_retry :: exponential_backoff where
  "default_retry = builder_build (builder_jitter FullJitter (builder_multiplier (Fin 2)
     (builder_max_delay (from_seconds 60) (builder_base_delay (from_seconds 5) (builder_max_attempts 6 exponential_builder)))))"

definition no_retry :: retry_strategy where
  "no_retry = no_retry_next_delay"

lemma default_retry_fields:
  "default_retry = \<lparr>eb_max_attempts = 6, eb_base_delay = from_seconds 5, eb_max_delay = from_seconds 60,
     eb_multiplier = Fin 2, eb_jitter = FullJitter\<rparr>"
  by (simp add: default_retry_def builder_defs)

lemma default_retry_gives_up: "6 \<le> attempt \<Longrightarrow> exponential_next_delay blake2b powi_fn default_retry attempt err = None"
  by (simp add: exponential_next_delay_def default_retry_fields)

section \<open>Other configurations\<close>

definition checkpointing_mode_default :: checkpointing_mode where
  "checkpointing_mode_default = Batched"

definition checkpointing_mode_description :: "checkpointing_mode \<Rightarrow> string" where
  "checkpointing_mode_description m = (case m of
     Eager \<Rightarrow> ''Checkpoint after every operation (maximum durability)''
   | Batched \<Rightarrow> ''Batch operations before checkpointing (balanced)''
   | Optimistic \<Rightarrow> ''Execute multiple operations before checkpointing (best performance)'')"

definition child_config_new :: child_config where
  "child_config_new = child_config_default"

definition with_replay_children :: child_config where
  "with_replay_children = child_config_default\<lparr>ch_replay_children := True\<rparr>"

definition set_replay_children :: "bool \<Rightarrow> child_config \<Rightarrow> child_config" where
  "set_replay_children b cfg = cfg\<lparr>ch_replay_children := b\<rparr>"

definition set_error_mapper :: "(durable_error \<Rightarrow> durable_error) \<Rightarrow> child_config \<Rightarrow> child_config" where
  "set_error_mapper f cfg = cfg\<lparr>ch_error_mapper := Some f\<rparr>"

definition set_summary_generator :: "(string \<Rightarrow> string) \<Rightarrow> child_config \<Rightarrow> child_config" where
  "set_summary_generator g cfg = cfg\<lparr>ch_summary_generator := Some g\<rparr>"

definition item_batcher_new :: "nat \<Rightarrow> nat \<Rightarrow> item_batcher" where
  "item_batcher_new max_items max_bytes = \<lparr>ib_max_items_per_batch = max_items, ib_max_bytes_per_batch = max_bytes\<rparr>"

section \<open>Counters\<close>

definition counters_default :: execution_counters where
  "counters_default = counters_new 0"

definition counters_all_completed :: "execution_counters \<Rightarrow> bool" where
  "counters_all_completed c \<longleftrightarrow> ec_total_tasks c \<le> ec_completed_count c"

definition has_pending :: "execution_counters \<Rightarrow> bool" where
  "has_pending c \<longleftrightarrow> 0 < pending_count c"

fun display_completion_reason :: "completion_reason \<Rightarrow> string" where
  "display_completion_reason AllCompleted = ''AllCompleted''"
| "display_completion_reason MinSuccessfulReached = ''MinSuccessfulReached''"
| "display_completion_reason FailureToleranceExceeded = ''FailureToleranceExceeded''"
| "display_completion_reason SuspendedReason = ''Suspended''"

text \<open>Recording an outcome outside \<open>execute\<close>: the counters, and how often the waiters were notified.\<close>

record recorder =
  rc_counters :: execution_counters
  rc_completion_config :: completion_config
  rc_notified :: nat

definition recorder_should_complete :: "recorder \<Rightarrow> completion_reason option" where
  "recorder_should_complete r = should_complete (rc_completion_config r) (rc_counters r)"

definition after_recording :: "(execution_counters \<Rightarrow> nat \<times> execution_counters) \<Rightarrow> recorder \<Rightarrow> completion_reason option \<times> recorder" where
  "after_recording f r =
     (let r1 = r\<lparr>rc_counters := snd (f (rc_counters r))\<rparr>; reason = recorder_should_complete r1
      in (reason, if reason \<noteq> None then r1\<lparr>rc_notified := rc_notified r1 + 1\<rparr> else r1))"

definition record_success :: "recorder \<Rightarrow> completion_reason option \<times> recorder" where
  "record_success = after_recording complete_task"

definition record_failure :: "recorder \<Rightarrow> completion_reason option \<times> recorder" where
  "record_failure = after_recording fail_task"

definition record_suspend :: "recorder \<Rightarrow> completion_reason option \<times> recorder" where
  "record_suspend = after_recording suspend_task"

lemma record_keeps_pending:
  "ec_total_tasks (rc_counters (snd (record_success r))) = ec_total_tasks (rc_counters r)"
  "pending_count (rc_counters (snd (record_success r))) = pending_count (rc_counters r) - 1"
  "pending_count (rc_counters (snd (record_failure r))) = pending_count (rc_counters r) - 1"
  "pending_count (rc_counters (snd (record_suspend r))) = pending_count (rc_counters r) - 1"
  by (simp_all add: record_success_def record_failure_def record_suspend_def after_recording_def Let_def complete_task_def
      fail_task_def suspend_task_def add_success_def add_failure_def add_completed_def pending_count_def)

text \<open>Once no task is pending, every further outcome is complete and notifies the waiters.\<close>

lemma record_completes:
  assumes "pending_count (rc_counters r) \<le> 1" "f \<in> {complete_task, fail_task, suspend_task}"
  shows "fst (after_recording f r) \<noteq> None \<and> rc_notified (snd (after_recording f r)) = Suc (rc_notified r)"
proof -
  have "recorder_should_complete (r\<lparr>rc_counters := snd (f (rc_counters r))\<rparr>) \<noteq> None"
    using assms
    by (auto simp: recorder_should_complete_def should_complete_def Let_def complete_task_def fail_task_def suspend_task_def
        add_success_def add_failure_def add_completed_def pending_count_def split: option.splits)
  then show ?thesis by (auto simp: after_recording_def Let_def)
qed

section \<open>Views of items and results\<close>

definition item_status_is_success :: "batch_item_status \<Rightarrow> bool" where
  "item_status_is_success s \<longleftrightarrow> s = ItemSucceeded"

definition item_status_is_failure :: "batch_item_status \<Rightarrow> bool" where
  "item_status_is_failure s \<longleftrightarrow> s = ItemFailed"

definition item_status_is_terminal :: "batch_item_status \<Rightarrow> bool" where
  "item_status_is_terminal s \<longleftrightarrow> s \<in> {ItemSucceeded, ItemFailed, ItemCancelled}"

definition item_status_is_pending :: "batch_item_status \<Rightarrow> bool" where
  "item_status_is_pending s \<longleftrightarrow> s \<in> {ItemPending, ItemSuspended}"

fun display_item_status :: "batch_item_status \<Rightarrow> string" where
  "display_item_status ItemSucceeded = ''Succeeded''" | "display_item_status ItemFailed = ''Failed''"
| "display_item_status ItemCancelled = ''Cancelled''" | "display_item_status ItemPending = ''Pending''"
| "display_item_status ItemSuspended = ''Suspended''"

definition batch_result_new :: "'a batch_item list \<Rightarrow> completion_reason \<Rightarrow> 'a batch_result" where
  "batch_result_new items reason = \<lparr>br_items = items, br_completion_reason = reason\<rparr>"

definition br_success_count :: "'a batch_result \<Rightarrow> nat" where
  "br_success_count r = length (br_succeeded r)"

definition br_failure_count :: "'a batch_result \<Rightarrow> nat" where
  "br_failure_count r = length (br_failed r)"

definition br_total_count :: "'a batch_result \<Rightarrow> nat" where
  "br_total_count r = length (br_items r)"

definition br_has_failures :: "'a batch_result \<Rightarrow> bool" where
  "br_has_failures r \<longleftrightarrow> (\<exists>b \<in> set (br_items r). item_status_is_failure (bi_status b))"

definition br_is_failure :: "'a batch_result \<Rightarrow> bool" where
  "br_is_failure r \<longleftrightarrow> br_completion_reason r = FailureToleranceExceeded"

lemma item_status_partition: "item_status_is_terminal s \<longleftrightarrow> \<not> item_status_is_pending s"
  by (cases s) (simp_all add: item_status_is_terminal_def item_status_is_pending_def)

lemma br_counts:
  "br_success_count r + br_failure_count r + length (filter (\<lambda>b. bi_status b \<notin> {ItemSucceeded, ItemFailed}) (br_items r)) =
     br_total_count r"
proof -
  have "length (filter (\<lambda>b. bi_status b = ItemSucceeded) bs) + length (filter (\<lambda>b. bi_status b = ItemFailed) bs) +
      length (filter (\<lambda>b. bi_status b \<notin> {ItemSucceeded, ItemFailed}) bs) = length bs" for bs :: "'a batch_item list"
    by (induction bs) auto
  then show ?thesis by (simp add: br_success_count_def br_failure_count_def br_total_count_def br_succeeded_def br_failed_def)
qed

lemma br_all_succeeded_count: "br_all_succeeded r \<longleftrightarrow> br_success_count r = br_total_count r"
proof -
  have "list_all P bs \<longleftrightarrow> length (filter P bs) = length bs" for P and bs :: "'a batch_item list"
    using length_filter_less [of _ bs P] by (auto simp: list_all_iff dest: less_not_refl3)
  then show ?thesis by (simp add: br_all_succeeded_def br_success_count_def br_total_count_def br_succeeded_def)
qed

lemma br_has_failures_count: "br_has_failures r \<longleftrightarrow> 0 < br_failure_count r"
  by (auto simp: br_has_failures_def br_failure_count_def br_failed_def item_status_is_failure_def filter_empty_conv)

end
