(* ===== verification/Typed_Values.thy ===== *)
theory Typed_Values
  imports Context_Ids Child_Facts
begin

text \<open>
  The validated identifiers of \<open>sdk/src/types.rs\<close> and the summaries of \<open>sdk/src/summary_generators.rs\<close>, which a child
  context stores instead of a large result. JSON values are those of \<open>serde_json::Value\<close>; reading and writing their
  text is a parameter.
\<close>

section \<open>Identifiers\<close>

record validation_error =
  ve_type_name :: string
  ve_message :: string

definition display_validation_error :: "validation_error \<Rightarrow> string" where
  "display_validation_error e = ve_type_name e @ '': '' @ ve_message e"

datatype operation_id = OperationId string
datatype execution_arn = ExecutionArn string
datatype callback_id = CallbackId string

definition operation_id_new :: "string \<Rightarrow> validation_error + operation_id" where
  "operation_id_new i =
     (if i = [] then Inl \<lparr>ve_type_name = ''OperationId'', ve_message = ''value cannot be empty''\<rparr> else Inr (OperationId i))"

definition operation_id_new_unchecked :: "string \<Rightarrow> operation_id" where
  "operation_id_new_unchecked i = OperationId i"

fun operation_id_into_inner :: "operation_id \<Rightarrow> string" where
  "operation_id_into_inner (OperationId i) = i"

definition quoted :: "string \<Rightarrow> string" where
  "quoted s = [CHR 0x27] @ s @ [CHR 0x27]"

definition validate_execution_arn :: "string \<Rightarrow> validation_error + unit" where
  "validate_execution_arn value =
     (let failed = (\<lambda>m. Inl \<lparr>ve_type_name = ''ExecutionArn'', ve_message = m\<rparr>)
      in if value = [] then failed ''value cannot be empty''
         else if take 4 value \<noteq> ''arn:'' then failed (''must start with '' @ quoted ''arn:'')
         else if \<not> str_contains value '':lambda:'' then failed (''must contain '' @ quoted '':lambda:'' @ '' service identifier'')
         else if \<not> str_contains value '':durable:'' then failed (''must contain '' @ quoted '':durable:'' @ '' segment'')
         else Inr ())"

definition execution_arn_new :: "string \<Rightarrow> validation_error + execution_arn" where
  "execution_arn_new arn = (case validate_execution_arn arn of Inl e \<Rightarrow> Inl e | Inr _ \<Rightarrow> Inr (ExecutionArn arn))"

definition execution_arn_new_unchecked :: "string \<Rightarrow> execution_arn" where
  "execution_arn_new_unchecked arn = ExecutionArn arn"

fun execution_arn_into_inner :: "execution_arn \<Rightarrow> string" where
  "execution_arn_into_inner (ExecutionArn arn) = arn"

definition callback_id_new :: "string \<Rightarrow> validation_error + callback_id" where
  "callback_id_new i =
     (if i = [] then Inl \<lparr>ve_type_name = ''CallbackId'', ve_message = ''value cannot be empty''\<rparr> else Inr (CallbackId i))"

definition callback_id_new_unchecked :: "string \<Rightarrow> callback_id" where
  "callback_id_new_unchecked i = CallbackId i"

fun callback_id_into_inner :: "callback_id \<Rightarrow> string" where
  "callback_id_into_inner (CallbackId i) = i"

text \<open>The typed reading of an operation identifier is unchecked.\<close>

definition operation_id_typed :: "operation_identifier \<Rightarrow> operation_id" where
  "operation_id_typed oi = operation_id_new_unchecked (oi_operation_id oi)"

definition parent_id_typed :: "operation_identifier \<Rightarrow> operation_id option" where
  "parent_id_typed oi = map_option operation_id_new_unchecked (oi_parent_id oi)"

lemma new_into_inner:
  "operation_id_new s = Inr i \<Longrightarrow> operation_id_into_inner i = s"
  "execution_arn_new s = Inr a \<Longrightarrow> execution_arn_into_inner a = s"
  "callback_id_new s = Inr c \<Longrightarrow> callback_id_into_inner c = s"
  by (auto simp: operation_id_new_def execution_arn_new_def callback_id_new_def split: if_splits sum.splits)

lemma execution_arn_valid:
  "(\<exists>a. execution_arn_new s = Inr a) \<longleftrightarrow>
     take 4 s = ''arn:'' \<and> str_contains s '':lambda:'' \<and> str_contains s '':durable:''"
  by (cases s) (auto simp: execution_arn_new_def validate_execution_arn_def Let_def)

text \<open>The two segments may share their colon, and nothing but their presence is asked for.\<close>

lemma degenerate_arn_accepted: "execution_arn_new ''arn:lambda:durable:'' = Inr (ExecutionArn ''arn:lambda:durable:'')"
  by code_simp

lemma generated_identifier_valid:
  assumes "16 \<le> length (blake2b (id_message base n))"
  shows "operation_id_new (generate_operation_id blake2b base n) = Inr (OperationId (generate_operation_id blake2b base n))"
proof -
  have "length (generate_operation_id blake2b base n) = 32" using assms by (simp add: generate_operation_id_def hex_encode_length)
  then show ?thesis by (auto simp: operation_id_new_def)
qed

section \<open>Summaries\<close>

datatype json_doc =
    DocNull | DocBool bool | DocNumber string | DocString string | DocArray "json_doc list"
  | DocObject "(string \<times> json_doc) list"

definition item_failed_doc :: "json_doc \<Rightarrow> bool" where
  "item_failed_doc d = (case d of DocObject fs \<Rightarrow> map_of fs ''error'' \<noteq> None | _ \<Rightarrow> False)"

definition summary_fields :: "string \<Rightarrow> json_doc list \<Rightarrow> (string \<times> json_doc) list" where
  "summary_fields summary_type items =
     (let total_count = length items; failure_count = length (filter item_failed_doc items);
          success_count = total_count - failure_count;
          status = (if total_count = 0 \<or> failure_count = total_count then ''failed''
                    else if failure_count = 0 then ''completed'' else ''partial'')
      in [(''type'', DocString summary_type), (''totalCount'', DocNumber (show_nat total_count)),
          (''successCount'', DocNumber (show_nat success_count)), (''failureCount'', DocNumber (show_nat failure_count)),
          (''status'', DocString status)])"

text \<open>Reading as a list of values fails for a text that is not one, and then the default, no items, is taken.\<close>

definition build_summary ::
  "(string \<Rightarrow> string + json_doc) \<Rightarrow> (json_doc \<Rightarrow> string) \<Rightarrow> string \<Rightarrow> string \<Rightarrow> string" where
  "build_summary read_json write_json summary_type serialized =
     (let items = (case read_json serialized of Inr (DocArray ds) \<Rightarrow> ds | _ \<Rightarrow> [])
      in write_json (DocObject (summary_fields summary_type items)))"

definition parallel_summary where
  "parallel_summary read_json write_json = build_summary read_json write_json ''parallel''"

definition map_summary where
  "map_summary read_json write_json = build_summary read_json write_json ''map''"

lemma summary_status:
  "map_of (summary_fields k items) ''status'' = Some (DocString
     (if list_all item_failed_doc items then ''failed''
      else if list_ex item_failed_doc items then ''partial'' else ''completed''))"
proof -
  have "length (filter item_failed_doc items) = length items \<longleftrightarrow> list_all item_failed_doc items"
    using length_filter_less [of _ items item_failed_doc] by (auto simp: list_all_iff dest: less_not_refl3)
  moreover have "length (filter item_failed_doc items) = 0 \<longleftrightarrow> \<not> list_ex item_failed_doc items"
    by (auto simp: list_ex_iff filter_empty_conv)
  ultimately show ?thesis by (auto simp: summary_fields_def Let_def)
qed

text \<open>A text that is not an array, such as that of a \<open>BatchResult\<close>, which is an object with its items in a field, has
  the summary of an empty array: no items, failed.\<close>

lemma summary_of_object:
  assumes "read_json s = Inr (DocObject fs)"
  shows "build_summary read_json write_json k s = write_json (DocObject
    [(''type'', DocString k), (''totalCount'', DocNumber ''0''), (''successCount'', DocNumber ''0''),
     (''failureCount'', DocNumber ''0''), (''status'', DocString ''failed'')])"
proof -
  have "show_nat 0 = ''0''" by code_simp
  with assms show ?thesis by (simp add: build_summary_def summary_fields_def)
qed

text \<open>A child whose large result is replaced by such a summary reads the summary in replay: a codec of the result type
  that rejects it makes the replay fail although the first invocation succeeded.\<close>

lemma summarised_child_fails_in_replay:
  assumes "to_json c x = Inr s" "length s > SUMMARY_THRESHOLD"
    and "cfg = child_config_default\<lparr>ch_summary_generator := Some (map_summary read_json write_json)\<rparr>"
    and "from_json c (map_summary read_json write_json s) = Inl m"
    and "child_outcome_update c oi cfg (Inr x) u" "op_type old = ContextOp" "op_context_details old = None"
  shows "child_outcome cfg (Inr x) = Inr x \<and> (\<exists>e. child_replay_outcome c (cached_operation u (Some old)) = Inl e)"
proof -
  have g: "ch_summary_generator cfg = Some (map_summary read_json write_json)" using assms(3) by simp
  show ?thesis
    using large_child_result_replayed_from_summary [OF g assms(1,2,5,6,7)] assms(4)
    by (simp add: deserialize_or_def json_deserialize_def)
qed

end
