(* ===== verification/Scheduling.thy ===== *)
theory Scheduling
  imports Orchestrator Checkpoint_Manager_Facts
begin

text \<open>
  The parts of the test runner for schedules and single invocations, which a run of \<open>Orchestrator\<close> does not use: the timer
  scheduler of \<open>testing/src/checkpoint_server/scheduler.rs\<close>, whose functions are tasks of their own, and
  \<open>schedule_invocation_at_timestamp\<close>, \<open>schedule_invocation_with_update\<close> and \<open>invoke_handler\<close> of \<open>orchestrator.rs\<close>. The
  clock of \<open>tokio\<close> is not advanced; the time at which a task runs is an argument of its step.
\<close>

section \<open>The timer scheduler\<close>

text \<open>A task sleeps until its time, runs its function, then takes the lock on the counter.\<close>

datatype 'w timer_task = TimerWaiting "'w scheduled_function" | TimerRan | TimerFinished | TimerAborted

text \<open>The handles of the tasks that were not drained yet are indices into the tasks; an increment of the counter is a
  task without a handle, and it may still be waiting for the lock.\<close>

record 'w timer_scheduler =
  tm_scheduled_tasks :: "nat list"
  tm_tasks :: "'w timer_task list"
  tm_increments :: nat
  tm_pending_count :: nat

definition timer_scheduler_new :: "'w timer_scheduler" where
  "timer_scheduler_new = \<lparr>tm_scheduled_tasks = [], tm_tasks = [], tm_increments = 0, tm_pending_count = 0\<rparr>"

definition timer_schedule_function :: "'w scheduled_function \<Rightarrow> 'w timer_scheduler \<Rightarrow> 'w timer_scheduler" where
  "timer_schedule_function f t = t\<lparr>tm_scheduled_tasks := tm_scheduled_tasks t @ [length (tm_tasks t)],
     tm_tasks := tm_tasks t @ [TimerWaiting f], tm_increments := Suc (tm_increments t)\<rparr>"

definition timer_is_finished :: "'w timer_task \<Rightarrow> bool" where
  "timer_is_finished x = (case x of TimerFinished \<Rightarrow> True | TimerAborted \<Rightarrow> True | _ \<Rightarrow> False)"

definition timer_has_scheduled_function :: "'w timer_scheduler \<Rightarrow> bool" where
  "timer_has_scheduled_function t \<longleftrightarrow> list_ex (\<lambda>k. \<not> timer_is_finished (tm_tasks t ! k)) (tm_scheduled_tasks t)"

definition abort_task :: "nat \<Rightarrow> 'w timer_task list \<Rightarrow> 'w timer_task list" where
  "abort_task k ts = (if timer_is_finished (ts ! k) then ts else ts[k := TimerAborted])"

definition timer_flush_timers :: "'w timer_scheduler \<Rightarrow> 'w timer_scheduler" where
  "timer_flush_timers t = t\<lparr>tm_scheduled_tasks := [], tm_tasks := fold abort_task (tm_scheduled_tasks t) (tm_tasks t)\<rparr>"

definition timer_process_next :: "'w timer_scheduler \<Rightarrow> bool \<times> 'w timer_scheduler" where
  "timer_process_next t =
     (let kept = filter (\<lambda>k. \<not> timer_is_finished (tm_tasks t ! k)) (tm_scheduled_tasks t)
      in (kept \<noteq> [], t\<lparr>tm_scheduled_tasks := kept\<rparr>))"

text \<open>What the tasks do by themselves, at a time \<open>now\<close>.\<close>

definition timer_due :: "int \<Rightarrow> 'w scheduled_function \<Rightarrow> bool" where
  "timer_due now f = (case sf_timestamp f of Some ts \<Rightarrow> ts \<le> now | None \<Rightarrow> True)"

inductive timer_step :: "int \<Rightarrow> 'w timer_scheduler \<times> 'w \<Rightarrow> 'w timer_scheduler \<times> 'w \<Rightarrow> bool" where
  timer_increment: "tm_increments t = Suc n \<Longrightarrow>
     timer_step now (t, w) (t\<lparr>tm_increments := n, tm_pending_count := Suc (tm_pending_count t)\<rparr>, w)"
| timer_fire: "k < length (tm_tasks t) \<Longrightarrow> tm_tasks t ! k = TimerWaiting f \<Longrightarrow> timer_due now f \<Longrightarrow>
     timer_step now (t, w) (t\<lparr>tm_tasks := (tm_tasks t)[k := TimerRan]\<rparr>, run_scheduled f w)"
| timer_decrement: "k < length (tm_tasks t) \<Longrightarrow> tm_tasks t ! k = TimerRan \<Longrightarrow>
     timer_step now (t, w)
       (t\<lparr>tm_tasks := (tm_tasks t)[k := TimerFinished], tm_pending_count := tm_pending_count t - 1\<rparr>, w)"

inductive_cases timer_stepE: "timer_step now (t, w) (t', w')"

text \<open>Steps of the tasks at times that do not decrease.\<close>

inductive timer_run :: "int \<Rightarrow> 'w timer_scheduler \<times> 'w \<Rightarrow> int \<Rightarrow> 'w timer_scheduler \<times> 'w \<Rightarrow> bool" where
  timer_run_refl: "timer_run now c now c"
| timer_run_step: "timer_run now c now1 c1 \<Longrightarrow> now1 \<le> now2 \<Longrightarrow> timer_step now2 c1 c2 \<Longrightarrow> timer_run now c now2 c2"

definition timer_waiting :: "'w timer_scheduler \<Rightarrow> 'w scheduled_function list" where
  "timer_waiting t = List.map_filter (\<lambda>x. case x of TimerWaiting f \<Rightarrow> Some f | _ \<Rightarrow> None) (tm_tasks t)"

text \<open>Every handle belongs to a task, and every task that still waits has its handle.\<close>

definition timer_wf :: "'w timer_scheduler \<Rightarrow> bool" where
  "timer_wf t \<longleftrightarrow> (\<forall>k \<in> set (tm_scheduled_tasks t). k < length (tm_tasks t)) \<and>
     (\<forall>k f. k < length (tm_tasks t) \<longrightarrow> tm_tasks t ! k = TimerWaiting f \<longrightarrow> k \<in> set (tm_scheduled_tasks t))"

lemma timer_wf_new: "timer_wf timer_scheduler_new"
  by (simp add: timer_wf_def timer_scheduler_new_def)

lemma timer_wf_schedule: "timer_wf t \<Longrightarrow> timer_wf (timer_schedule_function f t)"
  by (auto simp: timer_wf_def timer_schedule_function_def nth_append less_Suc_eq split: if_splits)

lemma timer_wf_process_next: "timer_wf t \<Longrightarrow> timer_wf (snd (timer_process_next t))"
  by (auto simp: timer_wf_def timer_process_next_def Let_def timer_is_finished_def)

lemma timer_wf_step: "timer_step now c c' \<Longrightarrow> timer_wf (fst c) \<Longrightarrow> timer_wf (fst c')"
  by (induction rule: timer_step.induct) (auto simp: timer_wf_def nth_list_update split: if_splits)

lemma abort_tasks_length [simp]: "length (fold abort_task ks ts) = length ts"
  by (induction ks arbitrary: ts) (simp_all add: abort_task_def)

lemma abort_tasks_waiting:
  "k < length ts \<Longrightarrow> fold abort_task ks ts ! k = TimerWaiting f \<Longrightarrow> ts ! k = TimerWaiting f \<and> k \<notin> set ks"
proof (induction ks arbitrary: ts)
  case (Cons j ks)
  have "length (abort_task j ts) = length ts" by (simp add: abort_task_def)
  with Cons.IH [of "abort_task j ts"] Cons.prems have "abort_task j ts ! k = TimerWaiting f \<and> k \<notin> set ks" by simp
  with Cons.prems(1) show ?case
    by (cases "j = k") (auto simp: abort_task_def timer_is_finished_def split: if_splits)
qed simp

lemma timer_wf_flush: "timer_wf t \<Longrightarrow> timer_wf (timer_flush_timers t)"
  by (auto simp: timer_wf_def timer_flush_timers_def dest: abort_tasks_waiting)

text \<open>After a flush no function is left that could run.\<close>

lemma flush_none_waiting:
  assumes "timer_wf t" "k < length (tm_tasks (timer_flush_timers t))"
  shows "tm_tasks (timer_flush_timers t) ! k \<noteq> TimerWaiting f"
proof
  assume "tm_tasks (timer_flush_timers t) ! k = TimerWaiting f"
  then have "tm_tasks t ! k = TimerWaiting f \<and> k \<notin> set (tm_scheduled_tasks t)"
    using assms(2) abort_tasks_waiting [of k "tm_tasks t" "tm_scheduled_tasks t" f] by (simp add: timer_flush_timers_def)
  with assms show False by (auto simp: timer_flush_timers_def timer_wf_def)
qed

lemma timer_run_silent:
  "timer_run now c now' c' \<Longrightarrow> (\<forall>k f. k < length (tm_tasks (fst c)) \<longrightarrow> tm_tasks (fst c) ! k \<noteq> TimerWaiting f) \<Longrightarrow>
   snd c' = snd c \<and> (\<forall>k f. k < length (tm_tasks (fst c')) \<longrightarrow> tm_tasks (fst c') ! k \<noteq> TimerWaiting f)"
proof (induction rule: timer_run.induct)
  case (timer_run_step now c now1 c1 now2 c2)
  from timer_run_step.hyps(3) timer_run_step.IH [OF timer_run_step.prems]
  show ?case by (cases rule: timer_step.cases) (auto simp: nth_list_update)
qed simp

lemma flushed_timers_never_run:
  assumes "timer_wf t" "timer_run now (timer_flush_timers t, w) now' (t', w')"
  shows "w' = w"
  using timer_run_silent [OF assms(2)] flush_none_waiting [OF assms(1)] by simp

text \<open>A function runs at its time or later, and at most once: running takes it out of the waiting ones.\<close>

lemma timer_waiting_update:
  assumes "k < length xs"
  shows "timer_waiting (t\<lparr>tm_tasks := xs[k := y]\<rparr>) =
    timer_waiting (t\<lparr>tm_tasks := take k xs\<rparr>) @ timer_waiting (t\<lparr>tm_tasks := [y]\<rparr>) @
    timer_waiting (t\<lparr>tm_tasks := drop (Suc k) xs\<rparr>)"
  using assms by (simp add: timer_waiting_def upd_conv_take_nth_drop map_filter_def)

lemma timer_step_world:
  assumes "timer_step now (t, w) (t', w')"
  shows "(w' = w \<and> timer_waiting t' = timer_waiting t) \<or>
    (\<exists>f fs gs. timer_due now f \<and> w' = run_scheduled f w \<and> timer_waiting t = fs @ f # gs \<and> timer_waiting t' = fs @ gs)"
  using assms
proof (cases rule: timer_step.cases)
  case (timer_fire k f)
  have "timer_waiting t = timer_waiting (t\<lparr>tm_tasks := (tm_tasks t)[k := TimerWaiting f]\<rparr>)"
    using timer_fire by (metis (no_types) list_update_id prod.inject timer_scheduler.surjective timer_scheduler.update_convs(2))
  with timer_fire timer_waiting_update [of k "tm_tasks t" "TimerWaiting f" t] timer_waiting_update [of k "tm_tasks t" TimerRan t]
  show ?thesis by (auto simp: timer_waiting_def [of "_\<lparr>tm_tasks := [_]\<rparr>"] map_filter_def)
next
  case (timer_decrement k)
  then have "timer_waiting t = timer_waiting (t\<lparr>tm_tasks := (tm_tasks t)[k := TimerRan]\<rparr>)"
    by (metis (no_types) list_update_id prod.inject timer_scheduler.surjective timer_scheduler.update_convs(2))
  moreover have "timer_waiting t' = timer_waiting (t\<lparr>tm_tasks := (tm_tasks t)[k := TimerFinished]\<rparr>)"
    using timer_decrement by (simp add: timer_waiting_def)
  ultimately show ?thesis
    using timer_decrement timer_waiting_update [of k "tm_tasks t" TimerFinished t] timer_waiting_update [of k "tm_tasks t" TimerRan t]
    by (auto simp: timer_waiting_def [of "_\<lparr>tm_tasks := [_]\<rparr>"] map_filter_def)
qed (simp add: timer_waiting_def)

text \<open>The counter can stay too high for ever: when a function ends before the task that counts it gets the lock, the
  decrement stops at zero and the increment comes after it.\<close>

lemma pending_count_leaks:
  assumes "sf_timestamp f = None"
  shows "\<exists>t. timer_run 0 (timer_schedule_function f timer_scheduler_new, w) 0 (t, run_scheduled f w) \<and>
       \<not> timer_has_scheduled_function t \<and> tm_increments t = 0 \<and> tm_pending_count t = 1"
proof -
  let ?t0 = "timer_schedule_function f timer_scheduler_new"
  let ?t1 = "?t0\<lparr>tm_tasks := (tm_tasks ?t0)[0 := TimerRan]\<rparr>"
  let ?t2 = "?t1\<lparr>tm_tasks := (tm_tasks ?t1)[0 := TimerFinished], tm_pending_count := tm_pending_count ?t1 - 1\<rparr>"
  let ?t3 = "?t2\<lparr>tm_increments := 0, tm_pending_count := Suc (tm_pending_count ?t2)\<rparr>"
  have "timer_step 0 (?t0, w) (?t1, run_scheduled f w)"
    by (rule timer_fire) (use assms in \<open>simp_all add: timer_schedule_function_def timer_scheduler_new_def timer_due_def\<close>)
  moreover have "timer_step 0 (?t1, run_scheduled f w) (?t2, run_scheduled f w)"
    by (rule timer_decrement) (simp_all add: timer_schedule_function_def timer_scheduler_new_def)
  moreover have "timer_step 0 (?t2, run_scheduled f w) (?t3, run_scheduled f w)"
    by (rule timer_increment) (simp add: timer_schedule_function_def timer_scheduler_new_def)
  ultimately have "timer_run 0 (?t0, w) 0 (?t3, run_scheduled f w)"
    by (meson timer_run_refl timer_run_step order_refl)
  then show ?thesis
    by (intro exI [of _ ?t3]) (simp add: timer_schedule_function_def timer_scheduler_new_def
        timer_has_scheduled_function_def timer_is_finished_def)
qed

section \<open>Scheduled invocations\<close>

text \<open>The scheduler of a runner is one of the two.\<close>

datatype 'w scheduler = QueueSched "'w queue_scheduler" | TimerSched "'w timer_scheduler"

fun sched_schedule :: "'w scheduled_function \<Rightarrow> 'w scheduler \<Rightarrow> 'w scheduler" where
  "sched_schedule f (QueueSched q) = QueueSched (schedule_function f q)"
| "sched_schedule f (TimerSched t) = TimerSched (timer_schedule_function f t)"

fun has_scheduled_functions :: "'w scheduler \<Rightarrow> bool" where
  "has_scheduled_functions (QueueSched q) = has_scheduled_function q"
| "has_scheduled_functions (TimerSched t) = timer_has_scheduled_function t"

fun flush_scheduled_functions :: "'w scheduler \<Rightarrow> 'w scheduler" where
  "flush_scheduled_functions (QueueSched q) = QueueSched (flush_timers q)"
| "flush_scheduled_functions (TimerSched t) = TimerSched (timer_flush_timers t)"

text \<open>The update reports a wait that has just the identifier and the new status.\<close>

definition scheduled_wait :: "host \<Rightarrow> string \<Rightarrow> operation" where
  "scheduled_wait h i = (operation_new i WaitOp)\<lparr>op_status := Succeeded, op_end_timestamp := Some (ho_now h)\<rparr>"

definition scheduled_update ::
  "('u, 'i, 'o) runner \<Rightarrow> string \<Rightarrow> string \<Rightarrow> ('u \<times> server, test_error, unit) cmd" where
  "scheduled_update ru e i w =
     (case on_server (send_api_request (ru_hosts ru)
         (UpdateCheckpointData e i (scheduled_wait (ru_hosts ru (srv_commands (snd w))) i))) w of
        (Inl err, w1) \<Rightarrow> (Inl (CheckpointServerError err), w1)
      | (Inr _, w1) \<Rightarrow> (Inr (), w1))"

definition schedule_invocation_at_timestamp ::
  "('u, 'i, 'o) runner \<Rightarrow> int \<Rightarrow> string \<Rightarrow> string \<Rightarrow> ('u \<times> server) scheduler \<Rightarrow> ('u \<times> server) scheduler" where
  "schedule_invocation_at_timestamp ru ts e i = sched_schedule
     \<lparr>sf_start_invocation = (\<lambda>w. w), sf_on_error = (\<lambda>err w. w), sf_timestamp = Some ts,
      sf_update_checkpoint = Some (scheduled_update ru e i)\<rparr>"

definition schedule_invocation_with_update ::
  "bool \<Rightarrow> int option \<Rightarrow> ('w, test_error, unit) cmd option \<Rightarrow> 'w scheduler \<Rightarrow> 'w scheduler" where
  "schedule_invocation_with_update skip ts update = sched_schedule
     \<lparr>sf_start_invocation = (\<lambda>w. w), sf_on_error = (\<lambda>err w. w), sf_timestamp = ts,
      sf_update_checkpoint =
        (if skip \<and> ts \<noteq> None
         then Some (case update of Some f \<Rightarrow> bindE f (\<lambda>_. retE ()) | None \<Rightarrow> retE ())
         else update)\<rparr>"

text \<open>Whatever the operation was, after its scheduled update the server has an operation without name, parent, times
  and details in its place.\<close>

lemma scheduled_update_forgets:
  assumes "hm_get (srv_executions s) e = Some cm"
  shows "\<exists>s' cm' ev h. scheduled_update ru e i (u, s) = (Inr (), (u, s')) \<and> hm_get (srv_executions s') e = Some cm' \<and>
    get_operation_data cm' i = Some ev \<and> oe_operation ev = scheduled_wait h i \<and>
    op_name (oe_operation ev) = None \<and> op_parent_id (oe_operation ev) = None \<and> op_wait_details (oe_operation ev) = None"
proof -
  let ?h = "ru_hosts ru (srv_commands s)"
  let ?op = "scheduled_wait ?h i"
  let ?cm = "update_operation_data ?h i ?op cm"
  let ?s = "\<lparr>srv_executions = hm_insert e ?cm (srv_executions s), srv_commands = Suc (srv_commands s)\<rparr>"
  have "scheduled_update ru e i (u, s) = (Inr (), (u, ?s))"
    using assms by (simp add: scheduled_update_def on_server_def send_api_request_def handle_update_checkpoint_data_def
        with_execution_def)
  moreover have "\<exists>ev. get_operation_data ?cm i = Some ev \<and> oe_operation ev = ?op"
    by (cases "get_operation_data cm i") (auto simp: update_operation_data_def Let_def get_operation_data_def hm_get_insert)
  moreover have "op_name ?op = None" "op_parent_id ?op = None" "op_wait_details ?op = None"
    by (simp_all add: scheduled_wait_def operation_new_def)
  ultimately show ?thesis by (fastforce simp: hm_get_insert)
qed

section \<open>One invocation\<close>

datatype 'o invoke_handler_result =
    InvokeSucceeded 'o "operation list" test_invocation
  | InvokeFailed test_result_error "operation list" test_invocation
  | InvokePending "operation list" test_invocation bool "nat option"

definition concurrent_invocation :: test_error where
  "concurrent_invocation = CheckpointServerError (''Concurrent invocation detected in time-skip mode. '' @
     ''Only one invocation can be active at a time.'')"

definition invocation_token_for ::
  "('u, 'i, 'o) runner \<Rightarrow> 'i \<Rightarrow> string \<Rightarrow> bool \<Rightarrow> ('u, string) run" where
  "invocation_token_for ru payload e is_initial rs =
     (let i = ho_uuid (current_host ru rs) 3 in
      if is_initial then
        (case to_json (ru_input ru) payload of
           Inl err \<Rightarrow> (Inl (TestSerializationError err), rs)
         | Inr json \<Rightarrow> (case api ru (StartDurableExecution (Some json) i) rs of
             (r, rs1) \<Rightarrow> (case expect_invocation r of
                Inl err \<Rightarrow> (Inl err, rs1)
              | Inr ir \<Rightarrow> (Inr (ir_checkpoint_token ir), on_orchestrator (\<lambda>o'. o'\<lparr>or_execution_id := Some (ir_execution_id ir),
                  or_checkpoint_token := Some (ir_checkpoint_token ir)\<rparr>) rs1))))
      else
        (case api ru (StartInvocation e i) rs of
           (r, rs1) \<Rightarrow> (case expect_invocation r of
              Inl err \<Rightarrow> (Inl err, rs1)
            | Inr ir \<Rightarrow> (Inr (ir_checkpoint_token ir),
                on_orchestrator (\<lambda>o'. o'\<lparr>or_checkpoint_token := Some (ir_checkpoint_token ir)\<rparr>) rs1))))"

definition execution_completed :: "'u run_state \<Rightarrow> 'u run_state" where
  "execution_completed = on_orchestrator (\<lambda>o'. o'\<lparr>or_execution_complete := True\<rparr>)"

definition invoke_outcome ::
  "('u, 'i, 'o) runner \<Rightarrow> durable_error + 'o \<Rightarrow> test_invocation \<Rightarrow> operation list \<Rightarrow> 'u run_state \<Rightarrow>
   'o invoke_handler_result \<times> 'u run_state"
where
  "invoke_outcome ru q iv ops rs = (case q of
     Inr x \<Rightarrow> (InvokeSucceeded x ops iv, execution_completed rs)
   | Inl err \<Rightarrow>
       if is_suspend err then
         (case process_operations (ho_now (current_host ru rs)) ops (rs_orchestrator rs) of (p, o1) \<Rightarrow>
            (let rs1 = rs\<lparr>rs_orchestrator := o1\<rparr> in
             case p of
               ExecutionHasSucceeded result_str \<Rightarrow>
                 ((case from_json (ru_output ru) result_str of
                     Inr x \<Rightarrow> InvokeSucceeded x ops iv | Inl _ \<Rightarrow> InvokePending ops iv False None),
                  execution_completed rs1)
             | ExecutionHasFailed e \<Rightarrow> (InvokeFailed e ops iv, execution_completed rs1)
             | NoPendingOperations \<Rightarrow> (InvokePending ops iv False None, rs1)
             | ShouldReinvoke advance \<Rightarrow> (InvokePending ops iv True advance, rs1)))
       else (InvokeFailed (handler_error err) ops (invocation_with_error (handler_error err) iv), execution_completed rs))"

definition test_invoke_handler ::
  "('u, 'i, 'o) runner \<Rightarrow> 'i \<Rightarrow> string \<Rightarrow> bool \<Rightarrow> ('u, 'o invoke_handler_result) run" where
  "test_invoke_handler ru payload e is_initial rs =
     (if or_skip_time (rs_orchestrator rs) \<and> or_invocation_active (rs_orchestrator rs)
      then (Inl concurrent_invocation, rs)
      else
        (case invocation_token_for ru payload e is_initial rs of
           (Inl err, rs1) \<Rightarrow> (Inl err, rs1)
         | (Inr token, rs1) \<Rightarrow>
             (let s = exec_state_new e token (initial_state_with_operations []);
                  (q, iv, rs2) = run_handler ru payload s (on_orchestrator (\<lambda>o'. o'\<lparr>or_invocation_active := True\<rparr>) rs1);
                  (ops, rs3) = fetch_and_store ru e rs2;
                  (result, rs4) = invoke_outcome ru q iv ops rs3
              in (Inr result, rs4))))"

text \<open>An active invocation in time-skip mode refuses a second one, without any effect.\<close>

lemma concurrent_invocation_refused:
  assumes "or_skip_time (rs_orchestrator rs)" "or_invocation_active (rs_orchestrator rs)"
  shows "test_invoke_handler ru payload e b rs = (Inl concurrent_invocation, rs)"
  using assms by (simp add: test_invoke_handler_def)

text \<open>After every invocation that was started, none is active.\<close>

lemma run_handler_inactive: "run_handler ru payload s rs = (q, iv, rs') \<Longrightarrow> \<not> or_invocation_active (rs_orchestrator rs')"
  by (auto simp: run_handler_def Let_def on_orchestrator_def split: prod.splits)

lemma fetch_and_store_active:
  "fetch_and_store ru e rs = (ops, rs') \<Longrightarrow>
   or_invocation_active (rs_orchestrator rs') = or_invocation_active (rs_orchestrator rs)"
  by (auto simp: fetch_and_store_def fetch_operations_def on_orchestrator_def split: prod.splits sum.splits option.splits)

lemma process_operations_active:
  "process_operations now ops o1 = (p, o2) \<Longrightarrow> or_invocation_active o2 = or_invocation_active o1"
  by (auto simp: process_operations_def split: option.splits prod.splits)

lemma invoke_outcome_active:
  "invoke_outcome ru q iv ops rs = (x, rs') \<Longrightarrow>
   or_invocation_active (rs_orchestrator rs') = or_invocation_active (rs_orchestrator rs)"
  by (auto simp: invoke_outcome_def execution_completed_def on_orchestrator_def Let_def dest: process_operations_active
      split: sum.splits if_splits prod.splits process_operations_result.splits)

lemma invoke_handler_inactive:
  assumes "test_invoke_handler ru payload e b rs = (Inr x, rs')"
  shows "\<not> or_invocation_active (rs_orchestrator rs')"
  using assms
  by (auto simp: test_invoke_handler_def Let_def split: if_splits prod.splits sum.splits
      dest!: run_handler_inactive fetch_and_store_active invoke_outcome_active)

text \<open>The handler is run on a state without operations, whatever the server has recorded: no operation has a checkpoint
  for it, and its identifier is the one of the caller, even when a new execution was started.\<close>

lemma invoked_handler_sees_nothing:
  assumes "s = exec_state_new e token (initial_state_with_operations [])"
  shows "get_operation s i = None" "es_arn s = e" "is_new s"
  using assms
  by (simp_all add: exec_state_new_def with_checkpointing_mode_def Let_def initial_state_with_operations_def
      collect_operations_def get_operation_def is_new_def replay_status_is_new_def)

end
