(* ===== verification/Timestamps.thy ===== *)
theory Timestamps
  imports Float64_Ops Serialization
begin

text \<open>
  How values of the service's JSON are read: the timestamps of \<open>sdk/src/operation.rs\<close>, which may be integers, floating
  point numbers or texts, and the serializers of closures of \<open>sdk/src/serdes.rs\<close>. The parsers of the \<open>chrono\<close> crate
  are parameters: each gives the milliseconds of a text or fails.
\<close>

section \<open>Timestamps\<close>

text \<open>What a JSON value is to the visitor: absent or null, a number by its form (\<open>serde_json\<close> gives one without a sign
  or fraction as unsigned), a text, or anything else. An error is the part of its text the visitor gives; \<open>serde\<close>
  adds what it found and where.\<close>

datatype timestamp_value =
    TsAbsent | TsInt "64 word" | TsUnsigned u64 | TsFloat f64 | TsText string | TsOther

record date_parsers =
  dp_rfc3339 :: "string \<rightharpoonup> int"
  dp_fixed_fraction :: "string \<rightharpoonup> int"
  dp_fixed :: "string \<rightharpoonup> int"
  dp_naive_fraction :: "string \<rightharpoonup> int"
  dp_naive :: "string \<rightharpoonup> int"

text \<open>The parsers that accept nothing.\<close>

definition dp_none :: date_parsers where
  "dp_none = \<lparr>dp_rfc3339 = Map.empty, dp_fixed_fraction = Map.empty, dp_fixed = Map.empty,
     dp_naive_fraction = Map.empty, dp_naive = Map.empty\<rparr>"

definition normalize_separator :: "string \<Rightarrow> string" where
  "normalize_separator s = map (\<lambda>c. if c = CHR '' '' then CHR ''T'' else c) s"

definition parse_iso8601_to_millis :: "date_parsers \<Rightarrow> string \<Rightarrow> string + int" where
  "parse_iso8601_to_millis dp s =
     (let normalized = normalize_separator s in
      case dp_rfc3339 dp normalized of Some t \<Rightarrow> Inr t | None \<Rightarrow>
      case dp_fixed_fraction dp normalized of Some t \<Rightarrow> Inr t | None \<Rightarrow>
      case dp_fixed dp normalized of Some t \<Rightarrow> Inr t | None \<Rightarrow>
      case dp_naive_fraction dp normalized of Some t \<Rightarrow> Inr t | None \<Rightarrow>
      case dp_naive dp normalized of Some t \<Rightarrow> Inr t | None \<Rightarrow>
        Inl ''unable to parse as ISO 8601 datetime'')"

text \<open>The cast to \<open>i64\<close> saturates.\<close>

fun f64_to_i64 :: "f64 \<Rightarrow> int" where
  "f64_to_i64 (Fin a) = max (- (2 ^ 63)) (min (2 ^ 63 - 1) (if 0 \<le> a then \<lfloor>a\<rfloor> else \<lceil>a\<rceil>))"
| "f64_to_i64 PosInf = 2 ^ 63 - 1"
| "f64_to_i64 NegInf = - (2 ^ 63)"
| "f64_to_i64 NaN = 0"

definition visit_f64 :: "f64 \<Rightarrow> int" where
  "visit_f64 x = f64_to_i64 (f64_round (f64_mul x (Fin 1000)))"

definition deserialize_timestamp :: "date_parsers \<Rightarrow> timestamp_value \<Rightarrow> string + int option" where
  "deserialize_timestamp dp v = (case v of
     TsAbsent \<Rightarrow> Inr None
   | TsInt n \<Rightarrow> Inr (Some (sint n))
   | TsUnsigned n \<Rightarrow> Inr (Some (sint n))
   | TsFloat x \<Rightarrow> Inr (Some (visit_f64 x))
   | TsText s \<Rightarrow> (case parse_iso8601_to_millis dp s of
       Inr t \<Rightarrow> Inr (Some t)
     | Inl e \<Rightarrow> Inl (''invalid timestamp string '' @ [CHR 0x27] @ s @ [CHR 0x27] @ '': '' @ e))
   | TsOther \<Rightarrow> Inl ''an integer timestamp, floating point timestamp, or ISO 8601 string'')"

section \<open>The error of one rounding\<close>

lemma round_half_even_error: "\<bar>of_int (round_half_even q) - q\<bar> \<le> 1 / 2"
proof -
  have "of_int \<lfloor>q\<rfloor> \<le> q" "q < of_int \<lfloor>q\<rfloor> + 1" by linarith+
  then show ?thesis by (auto simp: round_half_even_def Let_def)
qed

lemma fl_error: "\<bar>fl x - x\<bar> \<le> \<bar>x\<bar> / 2 ^ 53"
proof (cases "x = 0")
  case False
  obtain n d where q: "quotient_of \<bar>x\<bar> = (n, d)" by (rule prod.exhaust)
  define e0 where "e0 = bitlen n - bitlen d - 53"
  define e where "e = (if \<bar>x\<bar> / 2 powi e0 < 2 ^ 53 then e0 else e0 + 1)"
  let ?m = "\<bar>x\<bar> / 2 powi e"
  have pos: "0 < (2 :: rat) powi e" by simp
  have ge: "2 ^ 52 \<le> ?m"
  proof (cases "\<bar>x\<bar> / 2 powi e0 < 2 ^ 53")
    case True
    then show ?thesis using fl_scaled_ge [OF q] False by (simp add: e_def e0_def)
  next
    case False
    then show ?thesis by (simp add: e_def power_int_add field_simps)
  qed
  have fl: "fl x = sgn x * of_int (round_half_even ?m) * 2 powi e"
    using False q unfolding e_def e0_def by (simp add: fl_def Let_def del: power_numeral)
  have x: "x = sgn x * ?m * 2 powi e" using pos by (simp add: mult_sgn_abs)
  have "fl x - x = sgn x * of_int (round_half_even ?m) * 2 powi e - sgn x * ?m * 2 powi e"
    unfolding fl using x by simp
  also have "\<dots> = sgn x * ((of_int (round_half_even ?m) - ?m) * 2 powi e)"
    by (simp only: left_diff_distrib right_diff_distrib mult.assoc)
  finally have d: "fl x - x = sgn x * ((of_int (round_half_even ?m) - ?m) * 2 powi e)" .
  have s: "\<bar>sgn x\<bar> = 1" using False by (simp add: abs_sgn_eq)
  have "\<bar>fl x - x\<bar> = \<bar>of_int (round_half_even ?m) - ?m\<bar> * 2 powi e"
    unfolding d abs_mult s using pos by (simp only: mult_1 abs_of_pos)
  also have "\<dots> \<le> 1 / 2 * 2 powi e" using round_half_even_error pos by (intro mult_right_mono) simp_all
  also have "\<dots> \<le> \<bar>x\<bar> / 2 ^ 53" using ge pos by (simp add: field_simps)
  finally show ?thesis .
qed simp

section \<open>A count of milliseconds sent as seconds is read back\<close>

lemma seconds_error:
  fixes n :: rat
  assumes n: "0 \<le> n" "n \<le> 2 ^ 51 - 1"
  shows "\<bar>fl (fl (n / 1000) * 1000) - n\<bar> < 1 / 2"
proof -
  let ?y = "fl (n / 1000)"
  let ?z = "fl (?y * 1000)"
  have "\<bar>?y - n / 1000\<bar> \<le> (n / 1000) / 2 ^ 53" using fl_error [of "n / 1000"] n by simp
  then have y: "\<bar>?y * 1000 - n\<bar> \<le> n / 2 ^ 53" unfolding abs_le_iff by (simp add: field_simps)
  then have y': "\<bar>?y * 1000\<bar> \<le> n + n / 2 ^ 53" using n by linarith
  have "\<bar>?z - ?y * 1000\<bar> \<le> (n + n / 2 ^ 53) / 2 ^ 53"
    using fl_error [of "?y * 1000"] divide_right_mono [OF y', of "2 ^ 53"] by simp
  with y have "\<bar>?z - n\<bar> \<le> n / 2 ^ 53 + (n + n / 2 ^ 53) / 2 ^ 53" by linarith
  also have "\<dots> < 1 / 2" using n by (simp add: field_simps)
  finally show ?thesis .
qed

lemma floor_near:
  fixes z :: rat
  assumes "\<bar>z - of_int n\<bar> < 1 / 2"
  shows "\<lfloor>z + 1 / 2\<rfloor> = n"
  by (rule floor_unique) (use assms in linarith)+

text \<open>C39: A time of up to 2^51 milliseconds (some 71,000 years) that the service sends as a JSON number of seconds with a
  fraction is read back as exactly that time. The quotient by 1000 is rounded to a double once by the sender and the
  product with 1000 once by the reader; the two errors stay below half a millisecond, so the final \<open>round\<close>
  recovers the count.\<close>

theorem timestamp_seconds_roundtrip:
  assumes "n < 2 ^ 51"
  shows "deserialize_timestamp dp (TsFloat (f64_div (Fin (of_nat n)) (Fin 1000))) = Inr (Some (int n))"
proof -
  define z where "z = fl (fl (of_nat n / 1000) * 1000)"
  from assms have "n \<le> 2251799813685247" by simp
  then have "(of_nat n :: rat) \<le> of_nat 2251799813685247" by (simp only: of_nat_le_iff)
  then have le: "(of_nat n :: rat) \<le> 2 ^ 51 - 1" by simp
  have z: "\<bar>z - of_int (int n)\<bar> < 1 / 2" unfolding z_def using seconds_error [OF _ le] by simp
  have "0 \<le> z" unfolding z_def by (intro fl_nonneg mult_nonneg_nonneg) simp_all
  have "z < of_nat n + 1" using z unfolding abs_less_iff by simp
  moreover have "(2 :: rat) ^ 51 - 1 + 1 < 2 ^ 52" by simp
  ultimately have small: "z < 2 ^ 52" using le by linarith
  have big: "(2 :: rat) ^ 52 \<le> 2 ^ 1024" by (rule power_increasing) simp_all
  have "(0 :: rat) < 2 ^ 1024" by (rule zero_less_power) simp
  then have "\<not> 2 ^ 1024 \<le> z" "\<not> z \<le> - (2 ^ 1024)"
    using order.strict_trans2 [OF small big] \<open>0 \<le> z\<close> by linarith+
  then have m: "f64_mul (Fin (fl (of_nat n / 1000))) (Fin 1000) = Fin z"
    unfolding f64_mul.simps f64_of_rat_def z_def [symmetric] Let_def by (simp only: if_False)
  have d: "f64_div (Fin (of_nat n)) (Fin 1000) = Fin (fl (of_nat n / 1000))" by simp
  have "visit_f64 (Fin (fl (of_nat n / 1000))) = int n"
    unfolding visit_f64_def m using floor_near [OF z] \<open>0 \<le> z\<close> assms by simp
  then show ?thesis unfolding d by (simp add: deserialize_timestamp_def)
qed

theorem timestamp_seconds_roundtrip_witness:
  "deserialize_timestamp dp_none (TsFloat (f64_div (Fin (of_nat 1768279889004)) (Fin 1000)))
   = Inr (Some (int 1768279889004))"
  by (rule timestamp_seconds_roundtrip) simp

text \<open>
  The same instant sent as a whole number of seconds, with no fraction, is taken as milliseconds: the unit a
  number is read in depends on whether its text has a decimal point. An unsigned number above the largest
  \<open>i64\<close> becomes negative.
\<close>

lemma whole_seconds_read_as_millis:
  assumes "n < 2 ^ 51" "0 < s" "n = 1000 * s" "v \<in> {TsInt (word_of_nat s), TsUnsigned (word_of_nat s)}"
  shows "deserialize_timestamp dp v = Inr (Some (int s))" "deserialize_timestamp dp v \<noteq> Inr (Some (int n))"
proof -
  from assms have "s < 2 ^ 63" by simp
  then have "sint (word_of_nat s :: 64 word) = int s"
    by (simp add: signed_of_nat signed_take_bit_int_eq_self)
  with assms show "deserialize_timestamp dp v = Inr (Some (int s))" "deserialize_timestamp dp v \<noteq> Inr (Some (int n))"
    by (auto simp: deserialize_timestamp_def)
qed

lemma unsigned_timestamp_wraps:
  "2 ^ 63 \<le> uint (n :: u64) \<Longrightarrow> deserialize_timestamp dp (TsUnsigned n) = Inr (Some (uint n - 2 ^ 64))"
proof -
  assume "2 ^ 63 \<le> uint n"
  moreover have "uint n < 2 ^ 64" using uint_bounded [of n] by simp
  ultimately have "(uint n + 2 ^ 63) mod 2 ^ 64 = uint n + 2 ^ 63 - 2 ^ 64"
    using mod_pos_pos_trivial [of "uint n + 2 ^ 63 - 2 ^ 64" "2 ^ 64"]
      minus_mod_self2 [of "uint n + 2 ^ 63" "2 ^ 64"] by simp
  then show ?thesis
    by (simp add: deserialize_timestamp_def sint_uint signed_take_bit_eq_take_bit_shift take_bit_eq_mod)
qed

text \<open>A text is tried as RFC 3339 first; the naive formats are only tried when no zone is given.\<close>

lemma rfc3339_wins:
  "dp_rfc3339 dp (normalize_separator s) = Some t \<Longrightarrow> parse_iso8601_to_millis dp s = Inr t"
  by (simp add: parse_iso8601_to_millis_def)

lemma normalize_separator_idem [simp]: "normalize_separator (normalize_separator s) = normalize_separator s"
  by (simp add: normalize_separator_def)

lemma space_or_T: "parse_iso8601_to_millis dp (normalize_separator s) = parse_iso8601_to_millis dp s"
  by (simp add: parse_iso8601_to_millis_def)

section \<open>Serializers of closures\<close>

text \<open>What a serializer is told about the operation it serves, and the pair of closures.\<close>

record ser_des_context =
  sx_operation_id :: string
  sx_durable_execution_arn :: string

definition ser_des_context_new :: "string \<Rightarrow> string \<Rightarrow> ser_des_context" where
  "ser_des_context_new i a = \<lparr>sx_operation_id = i, sx_durable_execution_arn = a\<rparr>"

record 'a custom_ser_des =
  cs_serialize_fn :: "'a \<Rightarrow> ser_des_context \<Rightarrow> serdes_error + string"
  cs_deserialize_fn :: "string \<Rightarrow> ser_des_context \<Rightarrow> serdes_error + 'a"

definition custom_serdes ::
  "('a \<Rightarrow> ser_des_context \<Rightarrow> serdes_error + string)
   \<Rightarrow> (string \<Rightarrow> ser_des_context \<Rightarrow> serdes_error + 'a) \<Rightarrow> 'a custom_ser_des" where
  "custom_serdes f g = \<lparr>cs_serialize_fn = f, cs_deserialize_fn = g\<rparr>"

definition custom_serialize :: "'a custom_ser_des \<Rightarrow> 'a \<Rightarrow> ser_des_context \<Rightarrow> serdes_error + string" where
  "custom_serialize c v x = cs_serialize_fn c v x"

definition custom_deserialize :: "'a custom_ser_des \<Rightarrow> string \<Rightarrow> ser_des_context \<Rightarrow> serdes_error + 'a" where
  "custom_deserialize c s x = cs_deserialize_fn c s x"

text \<open>The JSON serializer is the closure pair that ignores the context: a custom serializer can stand in for it.\<close>

lemma custom_of_json:
  "custom_serialize (custom_serdes (\<lambda>v x. json_serialize k v) (\<lambda>s x. json_deserialize k s)) v x
     = json_serialize k v"
  "custom_deserialize (custom_serdes (\<lambda>v x. json_serialize k v) (\<lambda>s x. json_deserialize k s)) s x
     = json_deserialize k s"
  by (simp_all add: custom_serdes_def custom_serialize_def custom_deserialize_def)

end
