(* ===== verification/Macros.thy ===== *)
theory Macros
  imports Runtime Promise_Facts
begin

text \<open>
  The macros: the attribute \<open>durable_execution\<close> of \<open>macros/src/lib.rs\<close>, a function from the parsed handler to two
  generated functions or a compile error, and the four macros of \<open>sdk/src/macros.rs\<close> that box their futures and call
  the combinator of the context. The syntax tree has the parts the macro reads; types, attributes, visibility and
  the block are token texts it only copies.
\<close>

section \<open>The syntax the attribute reads\<close>

text \<open>A pattern that is an identifier, with its \<open>mut\<close>, or any other; an argument is \<open>self\<close> or a typed pattern.\<close>

datatype fn_pat = PatIdent bool string | PatOther string

datatype fn_arg = Receiver | Typed fn_pat string

record item_fn =
  if_attrs :: "string list"
  if_vis :: string
  if_async :: bool
  if_ident :: string
  if_generics :: string
  if_inputs :: "fn_arg list"
  if_output :: "string option"
  if_block :: string

text \<open>A generated function either holds the user's block or delegates to \<open>run_durable_handler\<close> with the event and
  the function it names.\<close>

datatype gen_body = UserBlock string | Delegates string

record generated_fn =
  gf_attrs :: "string list"
  gf_vis :: string
  gf_ident :: string
  gf_params :: "(string \<times> string) list"
  gf_return :: string
  gf_body :: gen_body

section \<open>The attribute\<close>

definition inner_fn_name :: "string \<Rightarrow> string" where
  "inner_fn_name i = ''__'' @ i @ ''_inner''"

definition context_type :: string where
  "context_type = ''::durable_execution_sdk::DurableContext''"

definition lambda_event_type :: string where
  "lambda_event_type = ''::lambda_runtime::LambdaEvent<::durable_execution_sdk::DurableExecutionInvocationInput>''"

definition handler_return_type :: string where
  "handler_return_type = ''::std::result::Result<::durable_execution_sdk::DurableExecutionInvocationOutput,'' @
     '' ::lambda_runtime::Error>''"

definition event_type_of :: "fn_arg \<Rightarrow> string + string" where
  "event_type_of a = (case a of
     Typed p ty \<Rightarrow> Inr ty
   | Receiver \<Rightarrow> Inl ''durable_execution handler cannot have self parameter'')"

definition event_param_name :: "fn_arg \<Rightarrow> string + string" where
  "event_param_name a = (case a of
     Typed (PatIdent m x) ty \<Rightarrow> Inr x
   | Typed (PatOther q) ty \<Rightarrow> Inl ''event parameter must be a simple identifier''
   | Receiver \<Rightarrow> Inl ''durable_execution handler cannot have self parameter'')"

definition ctx_param_name :: "fn_arg \<Rightarrow> string + string" where
  "ctx_param_name a = (case a of
     Typed (PatIdent m x) ty \<Rightarrow> Inr x
   | Typed (PatOther q) ty \<Rightarrow> Inl ''context parameter must be a simple identifier''
   | Receiver \<Rightarrow> Inl ''durable_execution handler cannot have self parameter'')"

definition return_type_of :: "item_fn \<Rightarrow> string + string" where
  "return_type_of f = (case if_output f of
     Some ty \<Rightarrow> Inr ty
   | None \<Rightarrow> Inl ''durable_execution handler must return Result<T, DurableError>'')"

definition inner_fn :: "item_fn \<Rightarrow> string \<Rightarrow> string \<Rightarrow> string \<Rightarrow> string \<Rightarrow> generated_fn" where
  "inner_fn f event ty ctx ret =
     \<lparr>gf_attrs = if_attrs f, gf_vis = '''', gf_ident = inner_fn_name (if_ident f),
      gf_params = [(event, ty), (ctx, context_type)], gf_return = ret, gf_body = UserBlock (if_block f)\<rparr>"

definition wrapper_fn :: "item_fn \<Rightarrow> generated_fn" where
  "wrapper_fn f =
     \<lparr>gf_attrs = [], gf_vis = if_vis f, gf_ident = if_ident f,
      gf_params = [(''lambda_event'', lambda_event_type)], gf_return = handler_return_type,
      gf_body = Delegates (inner_fn_name (if_ident f))\<rparr>"

text \<open>The checks in their order; the first that fails is the compile error.\<close>

definition durable_execution :: "item_fn \<Rightarrow> string + generated_fn \<times> generated_fn" where
  "durable_execution f =
     (if \<not> if_async f then Inl ''durable_execution handler must be an async function''
      else (case if_inputs f of
        [a0, a1] \<Rightarrow>
          (case event_type_of a0 of Inl e \<Rightarrow> Inl e | Inr ty \<Rightarrow>
           case event_param_name a0 of Inl e \<Rightarrow> Inl e | Inr event \<Rightarrow>
           case ctx_param_name a1 of Inl e \<Rightarrow> Inl e | Inr ctx \<Rightarrow>
           case return_type_of f of Inl e \<Rightarrow> Inl e | Inr ret \<Rightarrow>
             Inr (inner_fn f event ty ctx ret, wrapper_fn f))
      | _ \<Rightarrow> Inl (''durable_execution handler must have exactly 2 arguments: '' @
                  ''(event: EventType, ctx: DurableContext)'')))"

lemmas durable_execution_defs =
  durable_execution_def event_type_of_def event_param_name_def ctx_param_name_def return_type_of_def

section \<open>What is accepted, and what is generated\<close>

definition simple_arg :: "fn_arg \<Rightarrow> bool" where
  "simple_arg a = (case a of Typed (PatIdent m x) ty \<Rightarrow> True | _ \<Rightarrow> False)"

definition valid_handler :: "item_fn \<Rightarrow> bool" where
  "valid_handler f = (if_async f \<and> length (if_inputs f) = 2 \<and> list_all simple_arg (if_inputs f) \<and>
     if_output f \<noteq> None)"

lemma durable_execution_accepts:
  "(\<exists>fs. durable_execution f = Inr fs) \<longleftrightarrow> valid_handler f"
  by (auto simp: durable_execution_defs valid_handler_def simple_arg_def
      split: list.splits fn_arg.splits fn_pat.splits option.splits)

lemma durable_execution_Inr:
  assumes "durable_execution f = Inr (g, h)"
  obtains m event ty m' ctx cty ret where
    "if_inputs f = [Typed (PatIdent m event) ty, Typed (PatIdent m' ctx) cty]" "if_output f = Some ret"
    "g = inner_fn f event ty ctx ret" "h = wrapper_fn f"
  using assms
  by (auto simp: durable_execution_defs split: if_splits list.splits fn_arg.splits fn_pat.splits option.splits)

lemma inner_fn_name_inject: "inner_fn_name a = inner_fn_name b \<longleftrightarrow> a = b"
  by (simp add: inner_fn_name_def)

lemma inner_fn_name_fresh: "inner_fn_name a \<noteq> a"
proof
  assume "inner_fn_name a = a"
  then have "length (inner_fn_name a) = length a" by simp
  then show False by (simp add: inner_fn_name_def)
qed

lemma generated_names_distinct:
  assumes "distinct (map if_ident fs)" "\<forall>f \<in> set fs. \<forall>f' \<in> set fs. if_ident f \<noteq> inner_fn_name (if_ident f')"
  shows "distinct (map if_ident fs @ map (inner_fn_name \<circ> if_ident) fs)"
  using assms by (induction fs) (auto simp: inner_fn_name_inject)

text \<open>The type written for the context is not looked at: the context is whatever the user called it, of the SDK's
  type. Generic parameters and \<open>mut\<close> are dropped, and the attributes go to the inner function only.\<close>

lemma generated_update [simp]:
  "return_type_of (f\<lparr>if_generics := g\<rparr>) = return_type_of f" "inner_fn (f\<lparr>if_generics := g\<rparr>) = inner_fn f"
  "wrapper_fn (f\<lparr>if_generics := g\<rparr>) = wrapper_fn f"
  "return_type_of (f\<lparr>if_inputs := as\<rparr>) = return_type_of f" "inner_fn (f\<lparr>if_inputs := as\<rparr>) = inner_fn f"
  "wrapper_fn (f\<lparr>if_inputs := as\<rparr>) = wrapper_fn f"
  by (simp_all add: return_type_of_def inner_fn_def wrapper_fn_def fun_eq_iff)

lemma context_type_not_checked:
  "if_inputs f = [a, Typed p ty] \<Longrightarrow>
   durable_execution (f\<lparr>if_inputs := [a, Typed p ty']\<rparr>) = durable_execution f"
  unfolding durable_execution_def generated_update
  by (simp add: ctx_param_name_def split: fn_pat.split cong: sum.case_cong)

lemma generics_dropped: "durable_execution (f\<lparr>if_generics := g\<rparr>) = durable_execution f"
  unfolding durable_execution_def generated_update by simp

lemma mut_dropped:
  "if_inputs f = [Typed (PatIdent m x) ty, a] \<Longrightarrow>
   durable_execution (f\<lparr>if_inputs := [Typed (PatIdent m' x) ty, a]\<rparr>) = durable_execution f"
  unfolding durable_execution_def generated_update
  by (simp add: event_type_of_def event_param_name_def cong: sum.case_cong)

section \<open>Calling what was generated\<close>

text \<open>The functions of a program, and the call of one of them as a Lambda handler: one that delegates is
  \<open>run_durable_handler\<close> with the user's block of the function it names, as a function of the event and the context.
  \<open>None\<close> is a name the compiler does not resolve, or a call of a block.\<close>

definition find_fn :: "generated_fn list \<Rightarrow> string \<Rightarrow> generated_fn option" where
  "find_fn fs i = find (\<lambda>g. gf_ident g = i) fs"

definition user_function ::
  "(string \<Rightarrow> string \<Rightarrow> string \<Rightarrow> 'e \<Rightarrow> ('w scope, durable_error, 'a) cmd) \<Rightarrow> generated_fn \<Rightarrow>
   ('e \<Rightarrow> ('w scope, durable_error, 'a) cmd) option" where
  "user_function sem g = (case (gf_body g, gf_params g) of
     (UserBlock b, [(event, _), (ctx, _)]) \<Rightarrow> Some (sem event ctx b) | _ \<Rightarrow> None)"

definition call_handler ::
  "(string \<Rightarrow> string \<Rightarrow> string \<Rightarrow> 'e \<Rightarrow> ('w scope, durable_error, 'a) cmd) \<Rightarrow> generated_fn list \<Rightarrow> string \<Rightarrow>
   (u8 list \<Rightarrow> u8 list) \<Rightarrow> durable_error + 'w services \<Rightarrow> ('j, 'e) event_codec \<Rightarrow> 'a codec \<Rightarrow>
   'w env option \<Rightarrow> 'j invocation_input \<Rightarrow> 'w \<Rightarrow> ((durable_error + invocation_output) \<times> 'w env) option"
where
  "call_handler sem fs i blake2b client ec c interrupted input w =
     (case find_fn fs i of
        None \<Rightarrow> None
      | Some h \<Rightarrow>
          (case gf_body h of
             UserBlock b \<Rightarrow> None
           | Delegates j \<Rightarrow>
               (case Option.bind (find_fn fs j) (user_function sem) of
                  None \<Rightarrow> None
                | Some body \<Rightarrow>
                    Some (run_durable_handler blake2b client ec c body interrupted input w))))"

text \<open>Several handlers in one module: each expands on its own.\<close>

definition expand_module :: "item_fn list \<Rightarrow> generated_fn list" where
  "expand_module fs = concat (map (\<lambda>f. case durable_execution f of Inl e \<Rightarrow> [] | Inr (g, h) \<Rightarrow> [g, h]) fs)"

definition names_apart :: "item_fn list \<Rightarrow> bool" where
  "names_apart fs = (distinct (map if_ident fs) \<and>
     list_all (\<lambda>f. list_all (\<lambda>f'. if_ident f \<noteq> inner_fn_name (if_ident f')) fs) fs)"

lemma find_fn_append:
  "find_fn (as @ bs) i = (case find_fn as i of Some g \<Rightarrow> Some g | None \<Rightarrow> find_fn bs i)"
  unfolding find_fn_def by (induction as) auto

lemma expand_module_Cons:
  "expand_module (f # fs) = (case durable_execution f of Inl e \<Rightarrow> [] | Inr (g, h) \<Rightarrow> [g, h]) @ expand_module fs"
  by (simp add: expand_module_def)

lemma generated_idents:
  "durable_execution f = Inr (g, h) \<Longrightarrow> gf_ident g = inner_fn_name (if_ident f) \<and> gf_ident h = if_ident f"
  by (elim durable_execution_Inr) (simp add: inner_fn_def wrapper_fn_def)

lemma find_fn_apart:
  assumes "names_apart fs" "f \<in> set fs" "durable_execution f = Inr (g, h)"
  shows "find_fn (expand_module fs) (if_ident f) = Some h"
    and "find_fn (expand_module fs) (inner_fn_name (if_ident f)) = Some g"
proof -
  have "find_fn (expand_module fs) (if_ident f) = Some h \<and>
        find_fn (expand_module fs) (inner_fn_name (if_ident f)) = Some g"
    using assms
  proof (induction fs)
    case (Cons x fs)
    have apart: "names_apart fs" using Cons.prems(1) by (auto simp: names_apart_def list_all_iff)
    show ?case
    proof (cases "x = f")
      case True
      then show ?thesis
        using generated_idents [OF Cons.prems(3)] Cons.prems(3)
        by (simp add: expand_module_Cons find_fn_def inner_fn_name_fresh)
    next
      case False
      with Cons.prems have in': "f \<in> set fs" by simp
      have ne: "if_ident x \<noteq> if_ident f" "if_ident x \<noteq> inner_fn_name (if_ident f)"
        "if_ident f \<noteq> inner_fn_name (if_ident x)"
        using Cons.prems(1) in' by (auto simp: names_apart_def list_all_iff)
      have "find_fn (case durable_execution x of Inl e \<Rightarrow> [] | Inr (g, h) \<Rightarrow> [g, h]) j = None"
        if "j = if_ident f \<or> j = inner_fn_name (if_ident f)" for j
      proof (cases "durable_execution x")
        case (Inr gh)
        obtain g' h' where gh: "gh = (g', h')" by (rule prod.exhaust)
        show ?thesis using that ne generated_idents [OF Inr [unfolded gh]]
          by (auto simp: Inr gh find_fn_def inner_fn_name_inject)
      qed (simp add: find_fn_def)
      then show ?thesis using Cons.IH [OF apart in' Cons.prems(3)]
        by (simp only: expand_module_Cons find_fn_append option.case simp_thms)
    qed
  qed simp
  then show "find_fn (expand_module fs) (if_ident f) = Some h"
    and "find_fn (expand_module fs) (inner_fn_name (if_ident f)) = Some g" by auto
qed


definition example_handler :: item_fn where
  "example_handler = \<lparr>if_attrs = [''doc''], if_vis = ''pub'', if_async = True, if_ident = ''handler'', if_generics = '''',
     if_inputs = [Typed (PatIdent False ''event'') ''MyEvent'', Typed (PatIdent False ''ctx'') ''DurableContext''],
     if_output = Some ''Result<MyResult, DurableError>'', if_block = ''{ Ok(x) }''\<rparr>"


section \<open>The combinator macros\<close>

text \<open>The macros take at least one future: with none, no rule matches (\<open>None\<close>, a compile error). Boxing a future
  does not change what it does.\<close>

definition box_pin :: "('w scope, durable_error, 'a) cmd \<Rightarrow> ('w scope, durable_error, 'a) cmd" where
  "box_pin fut = fut"

definition macro_futures ::
  "('w scope, durable_error, 'a) cmd list \<Rightarrow> ('w scope, durable_error, 'a) cmd list option" where
  "macro_futures futs = (if futs = [] then None else Some (map box_pin futs))"

definition all_macro ::
  "(u8 list \<Rightarrow> u8 list) \<Rightarrow> 'w services \<Rightarrow> 'a list codec \<Rightarrow> ('w scope, durable_error, 'a) cmd list \<Rightarrow>
   nat list \<Rightarrow> ('w scope, durable_error, 'a list) cmd option" where
  "all_macro blake2b sv c futs schedule =
     map_option (\<lambda>futures. ctx_all blake2b sv c futures schedule) (macro_futures futs)"

definition any_macro ::
  "(u8 list \<Rightarrow> u8 list) \<Rightarrow> 'w services \<Rightarrow> 'a codec \<Rightarrow> ('w scope, durable_error, 'a) cmd list \<Rightarrow>
   nat list \<Rightarrow> ('w scope, durable_error, 'a) cmd option" where
  "any_macro blake2b sv c futs schedule =
     map_option (\<lambda>futures. ctx_any blake2b sv c futures schedule) (macro_futures futs)"

definition race_macro ::
  "(u8 list \<Rightarrow> u8 list) \<Rightarrow> 'w services \<Rightarrow> 'a codec \<Rightarrow> ('w scope, durable_error, 'a) cmd list \<Rightarrow>
   nat list \<Rightarrow> ('w scope, durable_error, 'a) cmd option" where
  "race_macro blake2b sv c futs schedule =
     map_option (\<lambda>futures. ctx_race blake2b sv c futures schedule) (macro_futures futs)"

definition all_settled_macro ::
  "(u8 list \<Rightarrow> u8 list) \<Rightarrow> 'w services \<Rightarrow> 'a batch_result codec \<Rightarrow> ('w scope, durable_error, 'a) cmd list \<Rightarrow>
   nat list \<Rightarrow> ('w scope, durable_error, 'a batch_result) cmd option" where
  "all_settled_macro blake2b sv c futs schedule =
     map_option (\<lambda>futures. ctx_all_settled blake2b sv c futures schedule) (macro_futures futs)"

lemmas promise_macro_defs =
  all_macro_def any_macro_def race_macro_def all_settled_macro_def macro_futures_def box_pin_def

lemma map_box_pin [simp]: "map box_pin futs = futs"
  by (induction futs) (simp_all add: box_pin_def)

text \<open>A macro that compiles is its method; so the outcome of the methods for no futures, an error of the first run and
  of every replay, cannot come from a macro.\<close>

lemma promise_macros_are_methods:
  assumes "futs \<noteq> []"
  shows "all_macro blake2b sv c futs schedule = Some (ctx_all blake2b sv c futs schedule)"
    and "any_macro blake2b sv d futs schedule = Some (ctx_any blake2b sv d futs schedule)"
    and "race_macro blake2b sv d futs schedule = Some (ctx_race blake2b sv d futs schedule)"
    and "all_settled_macro blake2b sv e futs schedule = Some (ctx_all_settled blake2b sv e futs schedule)"
  using assms by (simp_all add: all_macro_def any_macro_def race_macro_def all_settled_macro_def macro_futures_def)

lemma promise_handler_nonempty:
  "futs \<noteq> [] \<Longrightarrow> promise_handler sv c oi a oc futs schedule = promise_handler sv c oi b oc futs schedule"
  by (simp add: promise_handler_def)

lemma race_macro_ignores_empty_outcome:
  assumes "race_macro blake2b sv c futs schedule = Some m"
  shows "m = promise_operation blake2b ''race''
     (\<lambda>oi. promise_handler sv c oi on_empty race_outcome futs schedule)"
proof -
  from assms have ne: "futs \<noteq> []" and m: "m = ctx_race blake2b sv c futs schedule"
    by (auto simp: race_macro_def macro_futures_def split: if_splits)
  have "race_handler sv c futs schedule =
        (\<lambda>oi. promise_handler sv c oi on_empty race_outcome futs schedule)"
    unfolding race_handler_def fun_eq_iff by (metis promise_handler_nonempty [OF ne])
  then show ?thesis unfolding m ctx_race_def by simp
qed

end
