(* ===== verification/Worker_Manager.thy ===== *)
theory Worker_Manager
  imports Checkpoint_Server "HOL-Library.Sublist"
begin

text \<open>
  The thread of the checkpoint server (\<open>worker_manager.rs\<close>): the process-wide instance, the bounded channel its
  callers send commands over, the loop that answers them and the shutdown. The server model lets one call of
  \<open>send_api_request\<close> be one step of the server; here callers and worker interleave, and the theorem is that what any
  caller gets is what those atomic steps give in the order of the sends. The simulated delay only takes time.
\<close>

section \<open>The instance of the process\<close>

record worker_params =
  wp_checkpoint_delay :: "u64 option"

definition worker_params_default :: worker_params where
  "worker_params_default = \<lparr>wp_checkpoint_delay = None\<rparr>"

definition debug_worker_params :: "worker_params \<Rightarrow> string" where
  "debug_worker_params p = ''CheckpointWorkerParams { checkpoint_delay: '' @
     (case wp_checkpoint_delay p of None \<Rightarrow> ''None'' | Some d \<Rightarrow> ''Some('' @ show_nat (unat d) @ '')'') @ '' }''"

text \<open>The cell of the process holds the parameters of the instance it has, if any.\<close>

definition different_params :: "worker_params \<Rightarrow> worker_params \<Rightarrow> test_error" where
  "different_params existing requested =
     CheckpointServerError (''CheckpointWorkerManager singleton already exists with different params. '' @
       ''Existing: '' @ debug_worker_params existing @ '', Requested: '' @ debug_worker_params requested @
       ''. Call reset_instance_for_testing() first to reconfigure.'')"

definition get_instance :: "worker_params option \<Rightarrow> (worker_params option, test_error, worker_params) cmd" where
  "get_instance params cell = (case cell of
     Some existing \<Rightarrow>
       (case params of
          Some requested \<Rightarrow>
            if requested \<noteq> existing then (Inl (different_params existing requested), cell)
            else (Inr existing, cell)
        | None \<Rightarrow> (Inr existing, cell))
   | None \<Rightarrow>
       (let p = (case params of Some p \<Rightarrow> p | None \<Rightarrow> worker_params_default) in (Inr p, Some p)))"

text \<open>The reset empties the cell. It waits for the thread to end only when nobody else refers to the instance and it is
  not called from a runtime (the first component); a shared instance lives on with its other owners.\<close>

definition reset_instance_for_testing :: "bool \<Rightarrow> bool \<Rightarrow> worker_params option \<Rightarrow> bool \<times> worker_params option" where
  "reset_instance_for_testing shared in_runtime cell = (case cell of
     None \<Rightarrow> (False, None)
   | Some existing \<Rightarrow> (\<not> shared \<and> \<not> in_runtime, None))"

text \<open>An instance asked for with parameters has them, or the request fails and changes nothing; without parameters
  whatever is there is accepted, so a runner that asks for the default may get a server with a delay.\<close>

lemma get_instance_params:
  "get_instance (Some p) cell = (Inr q, cell') \<Longrightarrow> q = p \<and> cell' = Some p"
  by (auto simp: get_instance_def Let_def split: option.splits if_splits)

lemma get_instance_conflict:
  "existing \<noteq> p \<Longrightarrow> get_instance (Some p) (Some existing) = (Inl (different_params existing p), Some existing)"
  by (auto simp: get_instance_def)

lemma get_instance_any: "get_instance None (Some existing) = (Inr existing, Some existing)"
  by (simp add: get_instance_def)

lemma reset_then_get:
  "get_instance (Some p) (snd (reset_instance_for_testing shared rt cell)) = (Inr p, Some p)"
  by (simp add: get_instance_def reset_instance_for_testing_def Let_def split: option.split)

section \<open>The channel and the loop\<close>

datatype worker_message = WorkerCommand api_request nat | WorkerShutdown

text \<open>A caller is known by the number of its answer channel. What a call returns is an error of the communication or
  the answer of the server.\<close>

type_synonym call_result = "test_error + string + api_payload"

record worker_system =
  ws_queue :: "worker_message list"
  ws_running :: bool
  ws_server :: server
  ws_answers :: "nat \<Rightarrow> call_result option"

definition channel_capacity :: nat where
  "channel_capacity = 100"

definition worker_new :: "server \<Rightarrow> worker_system" where
  "worker_new srv = \<lparr>ws_queue = [], ws_running = True, ws_server = srv, ws_answers = Map.empty\<rparr>"

definition send_failed :: call_result where
  "send_failed = Inl (CheckpointCommunicationError ''Failed to send command: channel closed'')"

definition receive_failed :: call_result where
  "receive_failed = Inl (CheckpointCommunicationError ''Failed to receive response: channel closed'')"

fun message_ticket :: "worker_message \<Rightarrow> nat option" where
  "message_ticket (WorkerCommand req t) = Some t"
| "message_ticket WorkerShutdown = None"

definition queued_tickets :: "worker_message list \<Rightarrow> nat list" where
  "queued_tickets q = List.map_filter message_ticket q"

text \<open>One turn of the loop: answer a command, or stop and drop what is still queued with its answer channels.\<close>

definition run_worker_turn :: "(nat \<Rightarrow> host) \<Rightarrow> worker_system \<Rightarrow> worker_system" where
  "run_worker_turn hosts s = (case ws_queue s of
     [] \<Rightarrow> s
   | WorkerCommand req t # q \<Rightarrow>
       (case send_api_request hosts req (ws_server s) of
          (r, srv) \<Rightarrow> s\<lparr>ws_queue := q, ws_server := srv, ws_answers := (ws_answers s)(t \<mapsto> Inr r)\<rparr>)
   | WorkerShutdown # q \<Rightarrow>
       s\<lparr>ws_queue := [], ws_running := False,
         ws_answers := (\<lambda>t. if t \<in> set (queued_tickets q) then Some receive_failed else ws_answers s t)\<rparr>)"

section \<open>Callers and worker interleaved\<close>

datatype worker_label = Sent nat api_request | Refused nat | ShutdownSent | Turn "(nat \<times> api_request) option"

definition ticket_fresh :: "worker_system \<Rightarrow> nat \<Rightarrow> bool" where
  "ticket_fresh s t = (ws_answers s t = None \<and> t \<notin> set (queued_tickets (ws_queue s)))"

text \<open>A send waits while the channel is full; it fails once the worker has stopped. A shutdown is a message like any
  other.\<close>

inductive worker_step :: "(nat \<Rightarrow> host) \<Rightarrow> worker_system \<Rightarrow> worker_label \<Rightarrow> worker_system \<Rightarrow> bool" for hosts where
  step_send: "ws_running s \<Longrightarrow> length (ws_queue s) < channel_capacity \<Longrightarrow> ticket_fresh s t \<Longrightarrow>
    worker_step hosts s (Sent t req) (s\<lparr>ws_queue := ws_queue s @ [WorkerCommand req t]\<rparr>)"
| step_refused: "\<not> ws_running s \<Longrightarrow> ticket_fresh s t \<Longrightarrow>
    worker_step hosts s (Refused t) (s\<lparr>ws_answers := (ws_answers s)(t \<mapsto> send_failed)\<rparr>)"
| step_shutdown: "ws_running s \<Longrightarrow> length (ws_queue s) < channel_capacity \<Longrightarrow>
    worker_step hosts s ShutdownSent (s\<lparr>ws_queue := ws_queue s @ [WorkerShutdown]\<rparr>)"
| step_command: "ws_running s \<Longrightarrow> ws_queue s = WorkerCommand req t # q \<Longrightarrow>
    worker_step hosts s (Turn (Some (t, req))) (run_worker_turn hosts s)"
| step_stop: "ws_running s \<Longrightarrow> ws_queue s = WorkerShutdown # q \<Longrightarrow>
    worker_step hosts s (Turn None) (run_worker_turn hosts s)"

inductive worker_run :: "(nat \<Rightarrow> host) \<Rightarrow> worker_system \<Rightarrow> worker_label list \<Rightarrow> worker_system \<Rightarrow> bool" for hosts where
  run_nil: "worker_run hosts s [] s"
| run_snoc: "worker_run hosts s ls s1 \<Longrightarrow> worker_step hosts s1 l s2 \<Longrightarrow> worker_run hosts s (ls @ [l]) s2"

lemma worker_run_append:
  "worker_run hosts s1 ls' s2 \<Longrightarrow> worker_run hosts s ls s1 \<Longrightarrow> worker_run hosts s (ls @ ls') s2"
  by (induction rule: worker_run.induct) (auto simp flip: append_assoc intro: worker_run.intros)

fun sent_of :: "worker_label \<Rightarrow> (nat \<times> api_request) option" where
  "sent_of (Sent t req) = Some (t, req)"
| "sent_of l = None"

fun handled_of :: "worker_label \<Rightarrow> (nat \<times> api_request) option" where
  "handled_of (Turn x) = x"
| "handled_of l = None"

definition sent_calls :: "worker_label list \<Rightarrow> (nat \<times> api_request) list" where
  "sent_calls ls = List.map_filter sent_of ls"

definition handled_calls :: "worker_label list \<Rightarrow> (nat \<times> api_request) list" where
  "handled_calls ls = List.map_filter handled_of ls"

fun queued_call :: "worker_message \<Rightarrow> (nat \<times> api_request) option" where
  "queued_call (WorkerCommand req t) = Some (t, req)"
| "queued_call WorkerShutdown = None"

definition queued_calls :: "worker_message list \<Rightarrow> (nat \<times> api_request) list" where
  "queued_calls q = List.map_filter queued_call q"

lemmas call_lists = sent_calls_def handled_calls_def queued_calls_def queued_tickets_def map_filter_simps

lemma map_filter_append: "List.map_filter f (xs @ ys) = List.map_filter f xs @ List.map_filter f ys"
  by (induction xs) (simp_all add: map_filter_simps split: option.split)

lemma call_lists_append [simp]:
  "sent_calls (xs @ ys) = sent_calls xs @ sent_calls ys"
  "handled_calls (xs @ ys) = handled_calls xs @ handled_calls ys"
  "queued_calls (p @ q) = queued_calls p @ queued_calls q"
  "queued_tickets (p @ q) = queued_tickets p @ queued_tickets q"
  by (simp_all add: sent_calls_def handled_calls_def queued_calls_def queued_tickets_def map_filter_append)

lemma queued_tickets_calls: "queued_tickets q = map fst (queued_calls q)"
proof (induction q)
  case (Cons m q)
  then show ?case by (cases m) (simp_all add: call_lists)
qed (simp add: call_lists)

section \<open>The atomic server\<close>

text \<open>The calls answered one after the other, each by one step of the server.\<close>

fun serve_calls ::
  "(nat \<Rightarrow> host) \<Rightarrow> (nat \<times> api_request) list \<Rightarrow> server \<Rightarrow> (nat \<times> (string + api_payload)) list \<times> server" where
  "serve_calls hosts [] srv = ([], srv)"
| "serve_calls hosts ((t, req) # cs) srv =
     (case send_api_request hosts req srv of (r, srv1) \<Rightarrow>
      case serve_calls hosts cs srv1 of (rs, srv2) \<Rightarrow> ((t, r) # rs, srv2))"

lemma serve_calls_snoc:
  "serve_calls hosts (cs @ [(t, req)]) srv =
     (case serve_calls hosts cs srv of (rs, srv1) \<Rightarrow>
      case send_api_request hosts req srv1 of (r, srv2) \<Rightarrow> (rs @ [(t, r)], srv2))"
  by (induction hosts cs srv rule: serve_calls.induct) (simp_all split: prod.splits)

lemma serve_calls_tickets: "map fst (fst (serve_calls hosts cs srv)) = map fst cs"
proof (induction cs arbitrary: srv)
  case (Cons c cs)
  obtain t req where c: "c = (t, req)" by (rule prod.exhaust)
  obtain r srv1 where s: "send_api_request hosts req srv = (r, srv1)" by (rule prod.exhaust)
  show ?case using Cons.IH [of srv1] by (cases "serve_calls hosts cs srv1") (simp add: c s)
qed simp

text \<open>What holds at every point of a run: the calls sent are those handled, then those queued, then (after a stop)
  those dropped.\<close>

definition linearized :: "(nat \<Rightarrow> host) \<Rightarrow> server \<Rightarrow> worker_label list \<Rightarrow> worker_system \<Rightarrow> bool" where
  "linearized hosts srv ls s = (
     distinct (map fst (sent_calls ls)) \<and>
     (\<exists>dropped. sent_calls ls = handled_calls ls @ queued_calls (ws_queue s) @ dropped \<and>
        (ws_running s \<longrightarrow> dropped = []) \<and>
        (\<not> ws_running s \<longrightarrow> ws_queue s = []) \<and>
        (\<forall>c \<in> set dropped. ws_answers s (fst c) = Some receive_failed)) \<and>
     ws_server s = snd (serve_calls hosts (handled_calls ls) srv) \<and>
     (\<forall>(t, r) \<in> set (fst (serve_calls hosts (handled_calls ls) srv)). ws_answers s t = Some (Inr r)))"

lemma linearized_answered:
  assumes "linearized hosts srv ls s" "c \<in> set (sent_calls ls)"
  shows "ws_answers s (fst c) \<noteq> None \<or> fst c \<in> set (queued_tickets (ws_queue s))"
proof -
  obtain dropped where s: "sent_calls ls = handled_calls ls @ queued_calls (ws_queue s) @ dropped"
    and d: "\<forall>c \<in> set dropped. ws_answers s (fst c) = Some receive_failed"
    using assms(1) by (auto simp: linearized_def)
  consider "c \<in> set (handled_calls ls)" | "c \<in> set (queued_calls (ws_queue s))" | "c \<in> set dropped"
    using assms(2) s by auto
  then show ?thesis
  proof cases
    case 1
    then have "fst c \<in> set (map fst (fst (serve_calls hosts (handled_calls ls) srv)))"
      by (simp add: serve_calls_tickets)
    then show ?thesis using assms(1) by (fastforce simp: linearized_def)
  next
    case 2
    then show ?thesis by (simp add: queued_tickets_calls)
  next
    case 3
    then show ?thesis using d by simp
  qed
qed

lemma linearized_fresh:
  assumes "linearized hosts srv ls s" "ticket_fresh s t"
  shows "t \<notin> fst ` set (sent_calls ls)"
  using linearized_answered [OF assms(1)] assms(2) by (fastforce simp: ticket_fresh_def)

lemma ws_update [simp]:
  "s\<lparr>ws_queue := ws_queue s\<rparr> = (s :: worker_system)"
  by simp

lemma linearized_nil: "linearized hosts srv [] (worker_new srv)"
  by (simp add: linearized_def worker_new_def call_lists)

lemma linearized_step:
  assumes inv: "linearized hosts srv ls s" and step: "worker_step hosts s l s'"
  shows "linearized hosts srv (ls @ [l]) s'"
proof -
  obtain dropped where dist: "distinct (map fst (sent_calls ls))"
    and sent: "sent_calls ls = handled_calls ls @ queued_calls (ws_queue s) @ dropped"
    and live: "ws_running s \<longrightarrow> dropped = []" and dead: "\<not> ws_running s \<longrightarrow> ws_queue s = []"
    and drop: "\<forall>c \<in> set dropped. ws_answers s (fst c) = Some receive_failed"
    and srv: "ws_server s = snd (serve_calls hosts (handled_calls ls) srv)"
    and ans: "\<forall>(t, r) \<in> set (fst (serve_calls hosts (handled_calls ls) srv)). ws_answers s t = Some (Inr r)"
    using inv by (auto simp: linearized_def)
  have handled_tickets: "fst ` set (fst (serve_calls hosts (handled_calls ls) srv)) = fst ` set (handled_calls ls)"
    using arg_cong [OF serve_calls_tickets, of set] by (metis image_set)
  from step show ?thesis
  proof cases
    case (step_send t req)
    then show ?thesis using dist sent live srv ans linearized_fresh [OF inv, of t]
      by (auto simp: linearized_def sent_calls_def handled_calls_def queued_calls_def map_filter_simps map_filter_append)
  next
    case (step_refused t)
    have "t \<notin> fst ` set (sent_calls ls)" using inv step_refused by (auto dest: linearized_fresh)
    then have t: "t \<notin> fst ` set (handled_calls ls)" "t \<notin> fst ` set dropped" using sent by auto
    have "ws_answers s' t' = Some (Inr r)" if "(t', r) \<in> set (fst (serve_calls hosts (handled_calls ls) srv))" for t' r
      using that ans t(1) handled_tickets step_refused by force
    moreover have "ws_answers s' (fst c) = Some receive_failed" if "c \<in> set dropped" for c
      using that drop t(2) step_refused by auto
    ultimately show ?thesis using step_refused dist sent dead srv
      by (auto simp: linearized_def call_lists map_filter_append intro!: exI [of _ dropped])
  next
    case step_shutdown
    then show ?thesis using dist sent live srv ans
      by (auto simp: linearized_def sent_calls_def handled_calls_def queued_calls_def map_filter_simps map_filter_append)
  next
    case (step_command req t q)
    obtain r srv1 where r: "send_api_request hosts req (ws_server s) = (r, srv1)" by (rule prod.exhaust)
    obtain rs srv0 where rs: "serve_calls hosts (handled_calls ls) srv = (rs, srv0)" by (rule prod.exhaust)
    have t: "t \<notin> fst ` set (handled_calls ls)" using dist sent step_command by (auto simp: call_lists)
    have "((ws_answers s)(t \<mapsto> Inr r)) t' = Some (Inr r')" if "(t', r') \<in> set rs" for t' r'
      using that ans t handled_tickets rs by force
    then show ?thesis using step_command dist sent live srv r rs
      by (auto simp: linearized_def run_worker_turn_def sent_calls_def handled_calls_def queued_calls_def
          map_filter_simps map_filter_append serve_calls_snoc)
  next
    case (step_stop q)
    have d: "dropped = []" using live step_stop by simp
    have "t \<notin> set (queued_tickets q)" if "t \<in> fst ` set (handled_calls ls)" for t
      using that dist sent step_stop by (auto simp: queued_tickets_calls queued_calls_def map_filter_simps)
    moreover have "t \<in> fst ` set (handled_calls ls) \<and> ws_answers s t = Some (Inr r)"
      if "(t, r) \<in> set (fst (serve_calls hosts (handled_calls ls) srv))" for t r
    proof
      have "fst (t, r) \<in> fst ` set (fst (serve_calls hosts (handled_calls ls) srv))" using that by (rule imageI)
      then show "t \<in> fst ` set (handled_calls ls)" unfolding handled_tickets by simp
      show "ws_answers s t = Some (Inr r)" using bspec [OF ans that] by simp
    qed
    ultimately have "ws_answers s' t = Some (Inr r)" if "(t, r) \<in> set (fst (serve_calls hosts (handled_calls ls) srv))" for t r
      using that step_stop by (simp add: run_worker_turn_def)
    moreover have "ws_answers s' (fst c) = Some receive_failed" if "c \<in> set (queued_calls q)" for c
      using that step_stop by (auto simp: run_worker_turn_def queued_tickets_calls)
    moreover have "sent_calls (ls @ [l]) = handled_calls (ls @ [l]) @ queued_calls (ws_queue s') @ queued_calls q"
      "map fst (sent_calls (ls @ [l])) = map fst (sent_calls ls)" "handled_calls (ls @ [l]) = handled_calls ls"
      using step_stop sent d
      by (simp_all add: run_worker_turn_def sent_calls_def handled_calls_def queued_calls_def
          map_filter_simps map_filter_append)
    moreover have "\<not> ws_running s'" "ws_queue s' = []" "ws_server s' = ws_server s"
      using step_stop by (simp_all add: run_worker_turn_def)
    ultimately show ?thesis unfolding linearized_def using dist srv by auto
  qed
qed

lemma worker_run_linearized: "worker_run hosts (worker_new srv) ls s \<Longrightarrow> linearized hosts srv ls s"
proof (induction "worker_new srv" ls s rule: worker_run.induct)
  case run_nil
  then show ?case by (rule linearized_nil)
next
  case (run_snoc ls s1 l s2)
  then show ?case by (blast intro: linearized_step)
qed

section \<open>What callers get\<close>

text \<open>C6: The worker thread is linearizable. However callers and worker interleave, the commands are answered in the
  order they were sent: those answered so far are a first part of those sent, the server is where the atomic server
  of \<open>send_api_request\<close> is after exactly these calls in this order, and each of their callers has the answer that
  server gave. This is what lets the other theories treat a call as one step.\<close>

theorem worker_linearizes:
  assumes "worker_run hosts (worker_new srv) ls s"
  shows "(\<exists>rest. sent_calls ls = handled_calls ls @ rest) \<and> distinct (map fst (sent_calls ls)) \<and>
     ws_server s = snd (serve_calls hosts (handled_calls ls) srv) \<and>
     (\<forall>(t, r) \<in> set (fst (serve_calls hosts (handled_calls ls) srv)). ws_answers s t = Some (Inr r))"
  using worker_run_linearized [OF assms] by (auto simp: linearized_def)

theorem worker_linearizes_witness:
  "\<forall>hosts. \<exists>s. worker_run hosts (worker_new \<lparr>srv_executions = [], srv_commands = 0\<rparr>)
       [Sent 0 (PollCheckpointData ''e''), Turn (Some (0, PollCheckpointData ''e''))] s \<and>
     ws_answers s 0 = Some (Inr (Inl ''Unsupported API type: PollCheckpointData'')) \<and>
     ws_server s = \<lparr>srv_executions = [], srv_commands = 1\<rparr>"
proof
  fix hosts
  let ?srv = "\<lparr>srv_executions = [], srv_commands = 0\<rparr>" and ?req = "PollCheckpointData ''e''"
  let ?s1 = "(worker_new ?srv)\<lparr>ws_queue := ws_queue (worker_new ?srv) @ [WorkerCommand ?req 0]\<rparr>"
  have "worker_step hosts (worker_new ?srv) (Sent 0 ?req) ?s1"
    by (rule step_send) (simp_all add: worker_new_def channel_capacity_def ticket_fresh_def queued_tickets_def map_filter_simps)
  moreover have "worker_step hosts ?s1 (Turn (Some (0, ?req))) (run_worker_turn hosts ?s1)"
    by (rule step_command [of _ _ _ "[]"]) (simp_all add: worker_new_def)
  ultimately have run: "worker_run hosts (worker_new ?srv) ([] @ [Sent 0 ?req] @ [Turn (Some (0, ?req))]) (run_worker_turn hosts ?s1)"
    using run_snoc [OF run_snoc [OF run_nil]] by (simp only: append_assoc append_Nil)
  have "ws_server (run_worker_turn hosts ?s1) = \<lparr>srv_executions = [], srv_commands = 1\<rparr> \<and>
      ws_answers (run_worker_turn hosts ?s1) 0 = Some (Inr (Inl ''Unsupported API type: PollCheckpointData''))"
    using worker_linearizes [OF run] by (simp add: call_lists send_api_request_def)
  with run show "\<exists>s. worker_run hosts (worker_new ?srv) [Sent 0 ?req, Turn (Some (0, ?req))] s \<and>
     ws_answers s 0 = Some (Inr (Inl ''Unsupported API type: PollCheckpointData'')) \<and>
     ws_server s = \<lparr>srv_executions = [], srv_commands = 1\<rparr>" by auto
qed

lemma worker_turn_step:
  assumes "ws_running s" "ws_queue s = m # q"
  obtains x where "worker_step hosts s (Turn x) (run_worker_turn hosts s)"
  using assms by (cases m) (auto intro: worker_step.intros)

lemma run_worker_turn_shorter:
  "ws_queue s \<noteq> [] \<Longrightarrow> length (ws_queue (run_worker_turn hosts s)) < length (ws_queue s)"
  by (auto simp: run_worker_turn_def split: list.split worker_message.split prod.split)

lemma worker_empties:
  assumes "worker_run hosts (worker_new srv) ls s"
  shows "\<exists>ls' s'. worker_run hosts s ls' s' \<and> length ls' \<le> length (ws_queue s) \<and> sent_calls ls' = [] \<and> ws_queue s' = []"
  using assms
proof (induction "length (ws_queue s)" arbitrary: s ls rule: less_induct)
  case less
  show ?case
  proof (cases "ws_queue s")
    case Nil
    then show ?thesis by (intro exI [of _ "[]"] exI [of _ s]) (auto simp: call_lists intro: worker_run.intros)
  next
    case (Cons m q)
    have "ws_running s" using worker_run_linearized [OF less.prems] Cons by (auto simp: linearized_def)
    then obtain x where x: "worker_step hosts s (Turn x) (run_worker_turn hosts s)"
      using Cons by (rule worker_turn_step)
    have short: "length (ws_queue (run_worker_turn hosts s)) < length (ws_queue s)"
      using Cons by (intro run_worker_turn_shorter) simp
    obtain ls' s' where IH: "worker_run hosts (run_worker_turn hosts s) ls' s'"
      "length ls' \<le> length (ws_queue (run_worker_turn hosts s))" "sent_calls ls' = []" "ws_queue s' = []"
      using less.hyps [OF short run_snoc [OF less.prems x]] by auto
    have "worker_run hosts s [Turn x] (run_worker_turn hosts s)" using run_snoc [OF run_nil x] by simp
    from worker_run_append [OF IH(1) this] IH short show ?thesis
      by (intro exI [of _ "[Turn x] @ ls'"] exI [of _ s']) (auto simp: call_lists)
  qed
qed

text \<open>No caller waits for ever: within as many turns of the worker as there are messages queued, every call sent has
  its answer, or the error that the worker stopped before it.\<close>

lemma every_caller_answered:
  assumes "worker_run hosts (worker_new srv) ls s"
  shows "\<exists>ls' s'. worker_run hosts s ls' s' \<and> length ls' \<le> length (ws_queue s) \<and>
     (\<forall>c \<in> set (sent_calls ls). ws_answers s' (fst c) \<noteq> None)"
proof -
  obtain ls' s' where r: "worker_run hosts s ls' s'" "length ls' \<le> length (ws_queue s)" "ws_queue s' = []"
    using worker_empties [OF assms] by auto
  have "linearized hosts srv (ls @ ls') s'" by (rule worker_run_linearized [OF worker_run_append [OF r(1) assms]])
  then have "ws_answers s' (fst c) \<noteq> None" if "c \<in> set (sent_calls ls)" for c
    using linearized_answered [of hosts srv "ls @ ls'" s' c] that r(3) by (simp add: queued_tickets_def map_filter_simps)
  with r(1,2) show ?thesis by (intro exI [of _ ls'] exI [of _ s'] conjI ballI) blast+
qed

text \<open>A caller alone with an idle worker: its send and one turn are one step of the server.\<close>

lemma lone_call_is_atomic:
  assumes "ws_running s" "ws_queue s = []" "ticket_fresh s t"
  shows "\<exists>s'. worker_run hosts s [Sent t req, Turn (Some (t, req))] s' \<and>
     ws_answers s' t = Some (Inr (fst (send_api_request hosts req (ws_server s)))) \<and>
     ws_server s' = snd (send_api_request hosts req (ws_server s)) \<and> ws_queue s' = []"
proof -
  let ?s1 = "s\<lparr>ws_queue := ws_queue s @ [WorkerCommand req t]\<rparr>"
  have "worker_step hosts s (Sent t req) ?s1"
    using assms by (intro step_send) (simp_all add: channel_capacity_def)
  moreover have "worker_step hosts ?s1 (Turn (Some (t, req))) (run_worker_turn hosts ?s1)"
    using assms by (intro step_command [of _ _ _ "[]"]) simp_all
  ultimately have "worker_run hosts s ([] @ [Sent t req] @ [Turn (Some (t, req))]) (run_worker_turn hosts ?s1)"
    using run_snoc [OF run_snoc [OF run_nil]] by (simp only: append_assoc append_Nil)
  then show ?thesis using assms(2)
    by (intro exI [of _ "run_worker_turn hosts ?s1"]) (simp add: run_worker_turn_def split: prod.split)
qed

text \<open>After the worker has stopped nothing is answered any more: every later call fails at its send.\<close>

lemma stopped_refuses:
  assumes "worker_step hosts s l s'" "\<not> ws_running s"
  obtains t where "l = Refused t" "ws_answers s' t = Some send_failed" "ws_server s' = ws_server s"
  using assms by (cases rule: worker_step.cases) auto

end
