(* ===== verification/Time_Control.thy ===== *)
theory Time_Control
  imports Local_Runner
begin

text \<open>
  The control of time in tests (\<open>testing/src/time_control.rs\<close>) and the future a test run returns
  (\<open>testing/src/run_future.rs\<close>). One flag of the process says that time is controlled; what is paused is the clock
  of the \<open>tokio\<close> runtime the caller is in. The clock is a parameter: pausing, resuming and advancing it work or
  panic with a message. \<open>'r\<close> names the runtimes of the process, \<open>'c\<close> is the state of a clock.
\<close>

section \<open>The clock\<close>

record 'c tokio_time =
  tk_pause :: "'c \<Rightarrow> string option \<times> 'c"
  tk_resume :: "'c \<Rightarrow> string option \<times> 'c"
  tk_advance :: "nat \<Rightarrow> 'c \<Rightarrow> string option \<times> 'c"

text \<open>What \<open>tokio\<close> documents: only a runtime with one thread (\<open>ct\<close>) can pause; a frozen clock cannot be paused
  again; only a frozen clock can be resumed. A panic leaves the clock as it is.\<close>

definition tokio_laws :: "'c tokio_time \<Rightarrow> ('c \<Rightarrow> bool) \<Rightarrow> ('c \<Rightarrow> bool) \<Rightarrow> bool" where
  "tokio_laws tk frozen ct =
     ((\<forall>c. ct c \<and> \<not> frozen c \<longrightarrow> (\<exists>c'. tk_pause tk c = (None, c') \<and> frozen c' \<and> ct c')) \<and>
      (\<forall>c. frozen c \<longrightarrow> ct c \<and> (\<exists>m. tk_pause tk c = (Some m, c) \<and> \<not> str_contains m ''current_thread'')) \<and>
      (\<forall>c. \<not> ct c \<longrightarrow> (\<exists>m. tk_pause tk c = (Some m, c) \<and> str_contains m ''current_thread'')) \<and>
      (\<forall>c. frozen c \<longrightarrow> (\<exists>c'. tk_resume tk c = (None, c') \<and> \<not> frozen c' \<and> ct c')) \<and>
      (\<forall>c. \<not> frozen c \<longrightarrow> (\<exists>m. tk_resume tk c = (Some m, c))))"

section \<open>The operations\<close>

record ('r, 'c) time_world =
  tw_active :: bool
  tw_clocks :: "'r \<Rightarrow> 'c"

definition on_clock :: "'r \<Rightarrow> ('c \<Rightarrow> string option \<times> 'c) \<Rightarrow> ('r, 'c) time_world \<Rightarrow> string option \<times> ('r, 'c) time_world" where
  "on_clock r f w = (case f (tw_clocks w r) of (p, c) \<Rightarrow> (p, w\<lparr>tw_clocks := (tw_clocks w)(r := c)\<rparr>))"

definition resume_time_safely :: "'c tokio_time \<Rightarrow> 'r \<Rightarrow> ('r, 'c) time_world \<Rightarrow> ('r, 'c) time_world" where
  "resume_time_safely tk r w = snd (on_clock r (tk_resume tk) w)"

text \<open>The probe pauses the clock to see whether that panics, and undoes it; a panic of that resume is not caught
  (\<open>Inl\<close>).\<close>

definition is_time_paused_internal ::
  "'c tokio_time \<Rightarrow> 'r \<Rightarrow> (('r, 'c) time_world, string, bool) cmd" where
  "is_time_paused_internal tk r w = (case on_clock r (tk_pause tk) w of
     (None, w1) \<Rightarrow> (case on_clock r (tk_resume tk) w1 of
        (None, w2) \<Rightarrow> (Inr False, w2) | (Some m, w2) \<Rightarrow> (Inl m, w2))
   | (Some m, w1) \<Rightarrow> (Inr (\<not> str_contains m ''current_thread''), w1))"

definition time_control_enable ::
  "'c tokio_time \<Rightarrow> 'r \<Rightarrow> (('r, 'c) time_world, string, test_error + unit) cmd" where
  "time_control_enable tk r w =
     (if tw_active w then (Inr (Inr ()), w)
      else (case is_time_paused_internal tk r w of
        (Inl m, w1) \<Rightarrow> (Inl m, w1)
      | (Inr True, w1) \<Rightarrow> (Inr (Inr ()), w1\<lparr>tw_active := True\<rparr>)
      | (Inr False, w1) \<Rightarrow> (case on_clock r (tk_pause tk) w1 of
          (None, w2) \<Rightarrow> (Inr (Inr ()), w2\<lparr>tw_active := True\<rparr>)
        | (Some m, w2) \<Rightarrow>
            (Inr (Inl (InvalidConfiguration (if str_contains m ''current_thread''
               then ''Time control requires current_thread Tokio runtime''
               else ''Failed to pause Tokio time: unexpected panic''))), w2))))"

definition time_control_disable :: "'c tokio_time \<Rightarrow> 'r \<Rightarrow> ('r, 'c) time_world \<Rightarrow> ('r, 'c) time_world" where
  "time_control_disable tk r w =
     (if tw_active w then (resume_time_safely tk r w)\<lparr>tw_active := False\<rparr> else w)"

definition time_control_is_enabled :: "('r, 'c) time_world \<Rightarrow> bool" where
  "time_control_is_enabled w = tw_active w"

definition time_control_advance ::
  "'c tokio_time \<Rightarrow> 'r \<Rightarrow> nat \<Rightarrow> ('r, 'c) time_world \<Rightarrow> string option \<times> ('r, 'c) time_world" where
  "time_control_advance tk r ms w = on_clock r (tk_advance tk ms) w"

definition time_control_advance_secs ::
  "'c tokio_time \<Rightarrow> 'r \<Rightarrow> u64 \<Rightarrow> ('r, 'c) time_world \<Rightarrow> string option \<times> ('r, 'c) time_world" where
  "time_control_advance_secs tk r s = time_control_advance tk r (1000 * unat s)"

definition time_control_advance_millis ::
  "'c tokio_time \<Rightarrow> 'r \<Rightarrow> u64 \<Rightarrow> ('r, 'c) time_world \<Rightarrow> string option \<times> ('r, 'c) time_world" where
  "time_control_advance_millis tk r ms = time_control_advance tk r (unat ms)"

definition time_control_reset :: "'c tokio_time \<Rightarrow> 'r \<Rightarrow> ('r, 'c) time_world \<Rightarrow> ('r, 'c) time_world" where
  "time_control_reset tk r w = time_control_disable tk r w"

text \<open>The guard is a value without a part; its end disables what its creation enabled.\<close>

definition time_guard_new :: "'c tokio_time \<Rightarrow> 'r \<Rightarrow> (('r, 'c) time_world, string, test_error + unit) cmd" where
  "time_guard_new tk r w = time_control_enable tk r w"

definition time_guard_drop :: "'c tokio_time \<Rightarrow> 'r \<Rightarrow> ('r, 'c) time_world \<Rightarrow> ('r, 'c) time_world" where
  "time_guard_drop tk r w = (if tw_active w then (resume_time_safely tk r w)\<lparr>tw_active := False\<rparr> else w)"

text \<open>What the teardown of the test environment does to the clock: a panic of the probe or the resume is caught.\<close>

definition teardown_clock :: "'c tokio_time \<Rightarrow> 'r \<Rightarrow> test_environment \<Rightarrow> ('r, 'c) time_world \<Rightarrow> ('r, 'c) time_world" where
  "teardown_clock tk r te w =
     (if te_setup te \<and> te_time_skipping te
      then (case is_time_paused_internal tk r w of
              (Inr True, w1) \<Rightarrow> resume_time_safely tk r w1 | (_, w1) \<Rightarrow> w1)
      else w)"

section \<open>Under the laws of the clock\<close>

lemma clocks_upd [simp]: "w\<lparr>tw_clocks := (tw_clocks w)(r := tw_clocks w r)\<rparr> = w"
  by simp

lemma probe_frozen:
  assumes "tokio_laws tk frozen ct" "frozen (tw_clocks w r)"
  shows "is_time_paused_internal tk r w = (Inr True, w)"
proof -
  from assms obtain m where "tk_pause tk (tw_clocks w r) = (Some m, tw_clocks w r)" "\<not> str_contains m ''current_thread''"
    unfolding tokio_laws_def by metis
  then show ?thesis by (simp add: is_time_paused_internal_def on_clock_def)
qed

lemma probe_threads:
  assumes "tokio_laws tk frozen ct" "\<not> ct (tw_clocks w r)"
  shows "is_time_paused_internal tk r w = (Inr False, w)"
proof -
  from assms obtain m where "tk_pause tk (tw_clocks w r) = (Some m, tw_clocks w r)" "str_contains m ''current_thread''"
    unfolding tokio_laws_def by metis
  then show ?thesis by (simp add: is_time_paused_internal_def on_clock_def)
qed

lemma probe_running:
  assumes "tokio_laws tk frozen ct" "ct (tw_clocks w r)" "\<not> frozen (tw_clocks w r)"
  obtains c where "is_time_paused_internal tk r w = (Inr False, w\<lparr>tw_clocks := (tw_clocks w)(r := c)\<rparr>)"
    "ct c" "\<not> frozen c"
proof -
  from assms obtain c1 where c1: "tk_pause tk (tw_clocks w r) = (None, c1)" "frozen c1"
    unfolding tokio_laws_def by metis
  with assms(1) obtain c2 where "tk_resume tk c1 = (None, c2)" "\<not> frozen c2" "ct c2"
    unfolding tokio_laws_def by metis
  with c1 that show ?thesis by (simp add: is_time_paused_internal_def on_clock_def)
qed

text \<open>The probe says whether the clock is frozen, and it does not change that.\<close>

lemma probe_correct:
  assumes "tokio_laws tk frozen ct"
  obtains c where "is_time_paused_internal tk r w = (Inr (frozen (tw_clocks w r)), w\<lparr>tw_clocks := (tw_clocks w)(r := c)\<rparr>)"
    "frozen c = frozen (tw_clocks w r)" "ct c = ct (tw_clocks w r)"
proof -
  consider "frozen (tw_clocks w r)" | "\<not> ct (tw_clocks w r)" "\<not> frozen (tw_clocks w r)"
    | "ct (tw_clocks w r)" "\<not> frozen (tw_clocks w r)" by blast
  then show ?thesis
  proof cases
    case 1
    have "is_time_paused_internal tk r w =
      (Inr (frozen (tw_clocks w r)), w\<lparr>tw_clocks := (tw_clocks w)(r := tw_clocks w r)\<rparr>)"
      using probe_frozen [OF assms 1] 1 by simp
    then show ?thesis by (rule that) simp_all
  next
    case 2
    have "is_time_paused_internal tk r w =
      (Inr (frozen (tw_clocks w r)), w\<lparr>tw_clocks := (tw_clocks w)(r := tw_clocks w r)\<rparr>)"
      using probe_threads [OF assms 2(1)] 2 by simp
    then show ?thesis by (rule that) simp_all
  next
    case 3
    then show ?thesis by (rule probe_running [OF assms]) (use 3 that in auto)
  qed
qed

lemma resume_frozen:
  assumes "tokio_laws tk frozen ct" "frozen (tw_clocks w r)"
  obtains c where "resume_time_safely tk r w = w\<lparr>tw_clocks := (tw_clocks w)(r := c)\<rparr>" "\<not> frozen c" "ct c"
proof -
  from assms obtain c where "tk_resume tk (tw_clocks w r) = (None, c)" "\<not> frozen c" "ct c"
    unfolding tokio_laws_def by metis
  then show ?thesis using that by (simp add: resume_time_safely_def on_clock_def)
qed

lemma resume_running:
  assumes "tokio_laws tk frozen ct" "\<not> frozen (tw_clocks w r)"
  shows "resume_time_safely tk r w = w"
proof -
  from assms obtain m where "tk_resume tk (tw_clocks w r) = (Some m, tw_clocks w r)"
    unfolding tokio_laws_def by metis
  then show ?thesis by (simp add: resume_time_safely_def on_clock_def)
qed

text \<open>From a runtime with one thread an inactive control can always be enabled, and the clock then stands.\<close>

lemma enable_pauses:
  assumes laws: "tokio_laws tk frozen ct" and ct: "ct (tw_clocks w r)" and "\<not> tw_active w"
  obtains c where "time_control_enable tk r w = (Inr (Inr ()), w\<lparr>tw_active := True, tw_clocks := (tw_clocks w)(r := c)\<rparr>)"
    "frozen c" "ct c"
proof (cases "frozen (tw_clocks w r)")
  case True
  have "time_control_enable tk r w = (Inr (Inr ()), w\<lparr>tw_active := True, tw_clocks := (tw_clocks w)(r := tw_clocks w r)\<rparr>)"
    using assms(3) by (simp add: time_control_enable_def probe_frozen [OF laws True])
  with True ct that show ?thesis by blast
next
  case False
  obtain c where c: "is_time_paused_internal tk r w = (Inr False, w\<lparr>tw_clocks := (tw_clocks w)(r := c)\<rparr>)"
    "ct c" "\<not> frozen c" by (rule probe_running [OF laws ct False])
  obtain c' where c': "tk_pause tk c = (None, c')" "frozen c'" "ct c'"
    using laws c unfolding tokio_laws_def by metis
  have "time_control_enable tk r w = (Inr (Inr ()), w\<lparr>tw_active := True, tw_clocks := (tw_clocks w)(r := c')\<rparr>)"
    using assms(3) c c' by (simp add: time_control_enable_def on_clock_def)
  with c' that show ?thesis by blast
qed

lemma enable_threads:
  assumes laws: "tokio_laws tk frozen ct" and ct: "\<not> ct (tw_clocks w r)" and "\<not> tw_active w"
  shows "time_control_enable tk r w =
    (Inr (Inl (InvalidConfiguration ''Time control requires current_thread Tokio runtime'')), w)"
proof -
  from assms obtain m where "tk_pause tk (tw_clocks w r) = (Some m, tw_clocks w r)" "str_contains m ''current_thread''"
    unfolding tokio_laws_def by metis
  then show ?thesis using assms(3) by (simp add: time_control_enable_def probe_threads [OF laws ct] on_clock_def)
qed

section \<open>One runtime\<close>

datatype time_call = TcEnable | TcDisable | TcReset | TcGuardNew | TcGuardDrop | TcProbe

definition time_call_step :: "'c tokio_time \<Rightarrow> 'r \<times> time_call \<Rightarrow> ('r, 'c) time_world \<Rightarrow> ('r, 'c) time_world" where
  "time_call_step tk rc w = (case rc of (r, k) \<Rightarrow> (case k of
     TcEnable \<Rightarrow> snd (time_control_enable tk r w)
   | TcDisable \<Rightarrow> time_control_disable tk r w
   | TcReset \<Rightarrow> time_control_reset tk r w
   | TcGuardNew \<Rightarrow> snd (time_guard_new tk r w)
   | TcGuardDrop \<Rightarrow> time_guard_drop tk r w
   | TcProbe \<Rightarrow> snd (is_time_paused_internal tk r w)))"

lemmas time_call_defs =
  time_call_step_def time_control_reset_def time_guard_new_def time_guard_drop_def time_control_disable_def

definition flag_is_clock :: "('c \<Rightarrow> bool) \<Rightarrow> ('c \<Rightarrow> bool) \<Rightarrow> 'r \<Rightarrow> ('r, 'c) time_world \<Rightarrow> bool" where
  "flag_is_clock frozen ct r w = (ct (tw_clocks w r) \<and> tw_active w = frozen (tw_clocks w r))"

lemma flag_is_clock_step:
  assumes laws: "tokio_laws tk frozen ct" and inv: "flag_is_clock frozen ct r w"
  shows "flag_is_clock frozen ct r (time_call_step tk (r, k) w)"
proof -
  have ct: "ct (tw_clocks w r)" using inv by (simp add: flag_is_clock_def)
  have enable: "flag_is_clock frozen ct r (snd (time_control_enable tk r w))"
  proof (cases "tw_active w")
    case False
    show ?thesis by (rule enable_pauses [OF laws ct False]) (simp add: flag_is_clock_def)
  qed (use inv in \<open>simp add: time_control_enable_def\<close>)
  have disable: "flag_is_clock frozen ct r (time_control_disable tk r w)"
  proof (cases "tw_active w")
    case True
    then have "frozen (tw_clocks w r)" using inv by (simp add: flag_is_clock_def)
    then show ?thesis by (rule resume_frozen [OF laws]) (simp add: True time_control_disable_def flag_is_clock_def)
  qed (use inv in \<open>simp add: time_control_disable_def\<close>)
  have probe: "flag_is_clock frozen ct r (snd (is_time_paused_internal tk r w))"
    by (rule probe_correct [OF laws, of r w]) (use inv in \<open>simp add: flag_is_clock_def\<close>)
  show ?thesis using enable disable probe by (cases k) (simp_all add: time_call_defs)
qed

text \<open>While one runtime with a single thread is the only user of the time control, the flag of the process says
  exactly whether its clock is paused, whatever calls and guards come in whatever order; so the probe of the clock
  and the flag agree, and a test that ends with the control disabled leaves the clock running.\<close>

lemma time_flag_is_clock:
  assumes "tokio_laws tk frozen ct" "flag_is_clock frozen ct r w"
  shows "flag_is_clock frozen ct r (fold (\<lambda>k. time_call_step tk (r, k)) ks w) \<and>
     fst (is_time_paused_internal tk r (fold (\<lambda>k. time_call_step tk (r, k)) ks w)) =
       Inr (time_control_is_enabled (fold (\<lambda>k. time_call_step tk (r, k)) ks w))"
proof -
  have inv: "flag_is_clock frozen ct r (fold (\<lambda>k. time_call_step tk (r, k)) ks w)"
    using assms(2) by (induction ks arbitrary: w) (auto intro: flag_is_clock_step [OF assms(1)])
  show ?thesis
    by (rule probe_correct [OF assms(1), of r "fold (\<lambda>k. time_call_step tk (r, k)) ks w"])
      (use inv in \<open>simp add: flag_is_clock_def time_control_is_enabled_def\<close>)
qed

text \<open>A clock that is frozen or not, in a runtime of one thread or several.\<close>

definition example_tokio :: "(bool \<times> bool) tokio_time" where
  "example_tokio =
     \<lparr>tk_pause = (\<lambda>(ct, fr). if \<not> ct then (Some ''requires current_thread'', (ct, fr))
        else if fr then (Some ''already frozen'', (ct, fr)) else (None, (ct, True))),
      tk_resume = (\<lambda>(ct, fr). if ct \<and> fr then (None, (ct, False)) else (Some ''not frozen'', (ct, fr))),
      tk_advance = (\<lambda>n (ct, fr). if ct \<and> fr then (None, (ct, fr)) else (Some ''not frozen'', (ct, fr)))\<rparr>"

lemma example_tokio_laws: "tokio_laws example_tokio (\<lambda>(ct, fr). ct \<and> fr) fst"
proof -
  have "str_contains ''requires current_thread'' ''current_thread''" "\<not> str_contains ''already frozen'' ''current_thread''"
    by code_simp+
  then show ?thesis by (auto simp: tokio_laws_def example_tokio_def)
qed

lemma time_flag_is_clock_witness:
  "flag_is_clock (\<lambda>(ct, fr). ct \<and> fr) fst 0
     (fold (\<lambda>k. time_call_step example_tokio (0, k)) [TcGuardNew, TcProbe, TcEnable, TcGuardDrop]
        \<lparr>tw_active = False, tw_clocks = (\<lambda>_ :: nat. (True, False))\<rparr>) \<and>
   fst (is_time_paused_internal example_tokio 0
     (fold (\<lambda>k. time_call_step example_tokio (0, k)) [TcGuardNew, TcProbe, TcEnable, TcGuardDrop]
        \<lparr>tw_active = False, tw_clocks = (\<lambda>_ :: nat. (True, False))\<rparr>)) =
     Inr (time_control_is_enabled
       (fold (\<lambda>k. time_call_step example_tokio (0, k)) [TcGuardNew, TcProbe, TcEnable, TcGuardDrop]
        \<lparr>tw_active = False, tw_clocks = (\<lambda>_ :: nat. (True, False))\<rparr>))"
  by (rule time_flag_is_clock [OF example_tokio_laws]) (simp add: flag_is_clock_def)

section \<open>Guards within guards, and two runtimes\<close>

text \<open>An inner guard that ends resumes the clock while the outer guard still lives.\<close>

lemma inner_guard_resumes:
  assumes laws: "tokio_laws tk frozen ct" and ct: "ct (tw_clocks w r)" and "\<not> tw_active w"
  shows "\<not> frozen (tw_clocks (time_guard_drop tk r (snd (time_guard_new tk r (snd (time_guard_new tk r w))))) r)"
proof (rule enable_pauses [OF assms])
  fix c assume c: "time_control_enable tk r w = (Inr (Inr ()), w\<lparr>tw_active := True, tw_clocks := (tw_clocks w)(r := c)\<rparr>)"
    "frozen c" "ct c"
  let ?w = "w\<lparr>tw_active := True, tw_clocks := (tw_clocks w)(r := c)\<rparr>"
  have new: "snd (time_guard_new tk r w) = ?w" "snd (time_guard_new tk r ?w) = ?w"
    by (simp_all only: time_guard_new_def c snd_conv) (simp add: time_control_enable_def)
  have "frozen (tw_clocks ?w r)" using c by simp
  then show ?thesis unfolding new
    by (rule resume_frozen [OF laws]) (simp add: time_guard_drop_def)
qed

text \<open>The flag belongs to the process: once one runtime has enabled the control, enabling it from another succeeds and
  does not pause that one's clock.\<close>

lemma second_runtime_not_paused:
  "tw_active w \<Longrightarrow> time_control_enable tk r w = (Inr (Inr ()), w)"
  by (simp add: time_control_enable_def)

text \<open>And when the other runtime disables it, the first one's clock stays frozen: its own guard then does nothing.\<close>

lemma foreign_disable_leaves_frozen:
  assumes laws: "tokio_laws tk frozen ct" and "tw_active w" "frozen (tw_clocks w r)" "r' \<noteq> r"
  shows "frozen (tw_clocks (time_guard_drop tk r (time_control_disable tk r' w)) r)"
proof -
  have "tw_clocks (resume_time_safely tk r' w) r = tw_clocks w r"
    using assms(4) by (simp add: resume_time_safely_def on_clock_def split: prod.split)
  then show ?thesis using assms(2,3) by (simp add: time_control_disable_def time_guard_drop_def)
qed

section \<open>The future of a run\<close>

text \<open>A run is a spawned task or a future polled in place. Polling a task that ended gives the result of the run or
  the error of the join.\<close>

datatype 'a poll = Ready 'a | Pending

datatype ('h, 'u) run_future = Spawned 'h | Inline 'u

definition run_future_new :: "'h \<Rightarrow> ('h, 'u) run_future" where
  "run_future_new h = Spawned h"

definition run_future_from_future :: "'u \<Rightarrow> ('h, 'u) run_future" where
  "run_future_from_future u = Inline u"

definition run_future_poll ::
  "('h \<Rightarrow> (string + test_error + 'a) poll \<times> 'h) \<Rightarrow> ('u \<Rightarrow> (test_error + 'a) poll \<times> 'u) \<Rightarrow>
   ('h, 'u) run_future \<Rightarrow> (test_error + 'a) poll \<times> ('h, 'u) run_future" where
  "run_future_poll poll_handle poll_inline rf = (case rf of
     Spawned h \<Rightarrow> (case poll_handle h of
        (Ready (Inr result), h1) \<Rightarrow> (Ready result, Spawned h1)
      | (Ready (Inl join_error), h1) \<Rightarrow>
          (Ready (Inl (CheckpointServerError (''Task failed: '' @ join_error))), Spawned h1)
      | (Pending, h1) \<Rightarrow> (Pending, Spawned h1))
   | Inline u \<Rightarrow> (case poll_inline u of (p, u1) \<Rightarrow> (p, Inline u1)))"

text \<open>A task that panicked is an error of the run, not a panic of the test.\<close>

lemma run_future_panicked:
  "poll_handle h = (Ready (Inl m), h1) \<Longrightarrow>
   fst (run_future_poll poll_handle poll_inline (run_future_new h)) = Ready (Inl (CheckpointServerError (''Task failed: '' @ m)))"
  by (simp add: run_future_poll_def run_future_new_def)

lemma run_future_pending:
  "fst (run_future_poll ph pu (Spawned h)) = Pending \<longleftrightarrow> fst (ph h) = Pending"
  by (auto simp: run_future_poll_def split: prod.split poll.split sum.split)

end
