(* ===== verification/Checkpoint_Sender.thy ===== *)
theory Checkpoint_Sender
  imports Batcher_Run
begin

text \<open>
  The callers' side of the checkpoint queue (\<open>CheckpointSender\<close> of \<open>sdk/src/state/batcher.rs\<close>): a bounded channel of
  requests, and the synchronous and asynchronous checkpoint over it. Together with the loop of the batcher: what a
  caller that waits gets in the end. The queue holds each request with the time it was sent; a completion channel is
  its number.
\<close>

section \<open>The queue\<close>

record checkpoint_channel =
  ch_queue :: "(nat \<times> checkpoint_request) list"
  ch_capacity :: nat
  ch_open :: bool
  ch_next :: nat

definition create_checkpoint_queue :: "nat \<Rightarrow> checkpoint_channel" where
  "create_checkpoint_queue buffer_size = \<lparr>ch_queue = [], ch_capacity = buffer_size, ch_open = True, ch_next = 0\<rparr>"

definition queue_closed :: durable_error where
  "queue_closed = Checkpoint ''Checkpoint queue closed'' False None"

definition completion_closed :: durable_error where
  "completion_closed = Checkpoint ''Checkpoint completion channel closed'' False None"

text \<open>A send fails once the receiver is gone and waits (\<open>None\<close>) while the channel is full.\<close>

definition sender_send ::
  "nat \<Rightarrow> checkpoint_request \<Rightarrow> checkpoint_channel \<Rightarrow> ((durable_error + unit) \<times> checkpoint_channel) option" where
  "sender_send now rq ch =
     (if \<not> ch_open ch then Some (Inl queue_closed, ch)
      else if length (ch_queue ch) < ch_capacity ch
      then Some (Inr (), ch\<lparr>ch_queue := ch_queue ch @ [(now, rq)]\<rparr>)
      else None)"

text \<open>The first half of a synchronous checkpoint sends the request with a fresh completion channel, the second
  awaits that channel: \<open>None\<close> is a sender that was dropped without an answer.\<close>

definition queue_checkpoint_sync ::
  "nat \<Rightarrow> operation_update \<Rightarrow> checkpoint_channel \<Rightarrow> ((durable_error + nat) \<times> checkpoint_channel) option" where
  "queue_checkpoint_sync now u ch =
     (let k = ch_next ch in
      map_option (\<lambda>(r, ch1). (map_sum id (\<lambda>_. k) r, ch1\<lparr>ch_next := Suc k\<rparr>))
        (sender_send now (request_sync k u) ch))"

definition await_completion :: "(durable_error + unit) option \<Rightarrow> durable_error + unit" where
  "await_completion answer = (case answer of Some r \<Rightarrow> r | None \<Rightarrow> Inl completion_closed)"

definition queue_checkpoint_async ::
  "nat \<Rightarrow> operation_update \<Rightarrow> checkpoint_channel \<Rightarrow> ((durable_error + unit) \<times> checkpoint_channel) option" where
  "queue_checkpoint_async now u ch = sender_send now (request_async u) ch"

text \<open>\<open>checkpoint\<close>: the number to wait for, or none.\<close>

definition queue_checkpoint ::
  "nat \<Rightarrow> operation_update \<Rightarrow> bool \<Rightarrow> checkpoint_channel \<Rightarrow> ((durable_error + nat option) \<times> checkpoint_channel) option" where
  "queue_checkpoint now u is_sync ch =
     (if is_sync
      then map_option (\<lambda>(r, ch1). (map_sum id Some r, ch1)) (queue_checkpoint_sync now u ch)
      else map_option (\<lambda>(r, ch1). (map_sum id (\<lambda>_. None) r, ch1)) (queue_checkpoint_async now u ch))"

section \<open>Callers and batcher\<close>

text \<open>Calls in the order of their sends, each with its time; the numbers to wait for, and the channel after them.
  \<open>None\<close>: a call that waits for room.\<close>

fun send_all ::
  "(nat \<times> operation_update \<times> bool) list \<Rightarrow> checkpoint_channel \<Rightarrow>
   ((durable_error + nat option) list \<times> checkpoint_channel) option" where
  "send_all [] ch = Some ([], ch)"
| "send_all ((now, u, sync) # calls) ch =
     Option.bind (queue_checkpoint now u sync ch) (\<lambda>(r, ch1).
       map_option (\<lambda>(rs, ch2). (r # rs, ch2)) (send_all calls ch1))"

definition tickets_of :: "(durable_error + nat option) list \<Rightarrow> nat list" where
  "tickets_of rs = List.map_filter (\<lambda>r. case r of Inr (Some k) \<Rightarrow> Some k | _ \<Rightarrow> None) rs"

definition channel_fresh :: "checkpoint_channel \<Rightarrow> bool" where
  "channel_fresh ch = (ch_open ch \<and> distinct (completions_of (map snd (ch_queue ch))) \<and>
     (\<forall>k \<in> set (completions_of (map snd (ch_queue ch))). k < ch_next ch))"

lemma channel_fresh_new: "channel_fresh (create_checkpoint_queue n)"
  by (simp add: channel_fresh_def create_checkpoint_queue_def completions_of_def map_filter_simps)

lemma queue_checkpoint_open:
  assumes "channel_fresh ch" "length (ch_queue ch) < ch_capacity ch"
  obtains r ch1 rq where "queue_checkpoint now u sync ch = Some (Inr r, ch1)" "channel_fresh ch1"
    "ch_queue ch1 = ch_queue ch @ [(now, rq)]" "rq_operation rq = u" "ch_capacity ch1 = ch_capacity ch"
    "completions_of [rq] = (case r of Some k \<Rightarrow> [k] | None \<Rightarrow> [])"
proof (cases sync)
  case True
  let ?k = "ch_next ch"
  let ?ch = "ch\<lparr>ch_queue := ch_queue ch @ [(now, request_sync ?k u)], ch_next := Suc ?k\<rparr>"
  have "queue_checkpoint now u sync ch = Some (Inr (Some ?k), ?ch)"
    using assms True by (simp add: queue_checkpoint_def queue_checkpoint_sync_def sender_send_def channel_fresh_def Let_def)
  moreover have "channel_fresh ?ch" using assms(1) by (auto simp: channel_fresh_def request_sync_def)
  moreover have "rq_operation (request_sync ?k u) = u" "completions_of [request_sync ?k u] = [?k]"
    by (simp_all add: request_sync_def completions_of_def map_filter_simps)
  ultimately show ?thesis by (intro that [of "Some ?k" ?ch "request_sync ?k u"]) simp_all
next
  case False
  let ?ch = "ch\<lparr>ch_queue := ch_queue ch @ [(now, request_async u)]\<rparr>"
  have "queue_checkpoint now u sync ch = Some (Inr None, ?ch)"
    using assms False by (simp add: queue_checkpoint_def queue_checkpoint_async_def sender_send_def channel_fresh_def)
  moreover have "channel_fresh ?ch" using assms(1) by (simp add: channel_fresh_def request_async_def)
  moreover have "rq_operation (request_async u) = u" "completions_of [request_async u] = []"
    by (simp_all add: request_async_def completions_of_def map_filter_simps)
  ultimately show ?thesis by (intro that [of None ?ch "request_async u"]) simp_all
qed

lemma send_all_open:
  assumes "channel_fresh ch" "length (ch_queue ch) + length calls \<le> ch_capacity ch"
  shows "\<exists>rs ch'. send_all calls ch = Some (rs, ch') \<and> channel_fresh ch' \<and> (\<forall>r \<in> set rs. \<exists>k. r = Inr k) \<and>
     map (rq_operation \<circ> snd) (ch_queue ch') = map (rq_operation \<circ> snd) (ch_queue ch) @ map (fst \<circ> snd) calls \<and>
     completions_of (map snd (ch_queue ch')) = completions_of (map snd (ch_queue ch)) @ tickets_of rs"
  using assms
proof (induction calls arbitrary: ch)
  case Nil
  then show ?case by (simp add: tickets_of_def map_filter_simps)
next
  case (Cons c calls)
  obtain now u sync where c: "c = (now, u, sync)" by (cases c)
  have room: "length (ch_queue ch) < ch_capacity ch" using Cons.prems(2) by simp
  obtain r ch1 rq where s: "queue_checkpoint now u sync ch = Some (Inr r, ch1)" "channel_fresh ch1"
    "ch_queue ch1 = ch_queue ch @ [(now, rq)]" "rq_operation rq = u" "ch_capacity ch1 = ch_capacity ch"
    "completions_of [rq] = (case r of Some k \<Rightarrow> [k] | None \<Rightarrow> [])"
    by (rule queue_checkpoint_open [OF Cons.prems(1) room])
  have len: "length (ch_queue ch1) + length calls \<le> ch_capacity ch1" using Cons.prems(2) s(3,5) by simp
  obtain rs ch' where IH: "send_all calls ch1 = Some (rs, ch')" "channel_fresh ch'" "\<forall>r \<in> set rs. \<exists>k. r = Inr k"
    "map (rq_operation \<circ> snd) (ch_queue ch') = map (rq_operation \<circ> snd) (ch_queue ch1) @ map (fst \<circ> snd) calls"
    "completions_of (map snd (ch_queue ch')) = completions_of (map snd (ch_queue ch1)) @ tickets_of rs"
    using Cons.IH [OF s(2) len] by blast
  have "completions_of (map snd (ch_queue ch1)) = completions_of (map snd (ch_queue ch)) @ (case r of Some k \<Rightarrow> [k] | None \<Rightarrow> [])"
    using s(3,6) completions_of_append [of "map snd (ch_queue ch)" "[rq]"] by simp
  moreover have "tickets_of (Inr r # rs) = (case r of Some k \<Rightarrow> [k] | None \<Rightarrow> []) @ tickets_of rs"
    by (simp add: tickets_of_def map_filter_simps split: option.split)
  ultimately show ?case using IH s(1,3,4)
    by (intro exI [of _ "Inr r # rs"] exI [of _ ch']) (simp add: c comp_def)
qed

text \<open>When every call finds room, the queue closes after them and the batcher has run, each caller that waits gets the
  answer of the batch that carried its update; none finds its completion channel closed. The condition on the order
  of parents is the one under which the sort of a batch returns.\<close>

lemma sync_callers_answered:
  assumes "length calls \<le> n" "send_all calls (create_checkpoint_queue n) = Some (rs, ch)"
    "ranked rank (map snd (ch_queue ch))"
  shows "\<exists>b w'. run_batcher cfg sv clock (ch_queue ch) (batcher_new arn token, w) = Some (b, w') \<and>
     (\<forall>k \<in> set (tickets_of rs). \<exists>r. map_of (bt_outcomes b) k = Some r \<and>
        await_completion (map_of (bt_outcomes b) k) = r) \<and> distinct (map fst (bt_outcomes b))"
proof -
  have sent: "channel_fresh ch" "completions_of (map snd (ch_queue ch)) = tickets_of rs"
    using send_all_open [OF channel_fresh_new, of n calls] assms(1,2)
    by (auto simp: create_checkpoint_queue_def completions_of_def map_filter_simps)
  obtain b w' where r: "run_batcher cfg sv clock (ch_queue ch) (batcher_new arn token, w) = Some (b, w')"
    "mset (map fst (bt_outcomes b)) = mset (completions_of (map snd (ch_queue ch)))"
    using run_batcher_outcomes [OF assms(3), of cfg sv clock "batcher_new arn token" w] by (auto simp: batcher_new_def)
  have "distinct (map fst (bt_outcomes b))"
    using sent(1) mset_eq_imp_distinct_iff [OF r(2)] by (simp add: channel_fresh_def)
  moreover have "\<exists>r. map_of (bt_outcomes b) k = Some r \<and> await_completion (map_of (bt_outcomes b) k) = r"
    if "k \<in> set (tickets_of rs)" for k
  proof -
    have "k \<in> fst ` set (bt_outcomes b)" using that mset_eq_setD [OF r(2)] sent(2) by simp
    then have "map_of (bt_outcomes b) k \<noteq> None" by (simp add: map_of_eq_None_iff)
    then show ?thesis by (auto simp: await_completion_def)
  qed
  ultimately show ?thesis using r(1) by blast
qed

text \<open>A closed queue refuses both kinds of checkpoint with an error that is not retriable, and keeps nothing of it.\<close>

lemma closed_queue_refuses:
  assumes "\<not> ch_open ch"
  shows "\<exists>ch'. queue_checkpoint now u sync ch = Some (Inl queue_closed, ch') \<and> ch_queue ch' = ch_queue ch"
    and "\<not> is_retriable queue_closed"
  using assms
  by (auto simp: queue_checkpoint_def queue_checkpoint_sync_def queue_checkpoint_async_def sender_send_def queue_closed_def Let_def)

end
