(* ===== verification/Public_Surface.thy ===== *)
theory Public_Surface
  imports Timestamps Context_Operations Promise Wait_Condition
    Config_Builders Http_Client
begin

text \<open>
  Constructors, conversions and views that users of the SDK see and the handlers themselves do not call: the errors made
  from other errors, the context of a step, the state of an execution and its modes, the named callback, the client
  made from an AWS configuration, the items of a batch and the outcomes of a combinator, and the calls a mock records.
\<close>

section \<open>Errors\<close>

definition err_serdes :: "string \<Rightarrow> durable_error" where
  "err_serdes m = SerDes m"

definition err_size_limit :: "string \<Rightarrow> durable_error" where
  "err_size_limit m = SizeLimit m None None"

definition err_throttling :: "string \<Rightarrow> durable_error" where
  "err_throttling m = Throttling m None"

definition err_resource_not_found :: "string \<Rightarrow> durable_error" where
  "err_resource_not_found m = ResourceNotFound m None"

definition err_resource_not_found_with_id :: "string \<Rightarrow> string \<Rightarrow> durable_error" where
  "err_resource_not_found_with_id m i = ResourceNotFound m (Some i)"

text \<open>The conversions of errors of the standard library and of \<open>serde_json\<close>, by their texts.\<close>

definition durable_from_json_error :: "string \<Rightarrow> durable_error" where
  "durable_from_json_error m = SerDes m"

definition durable_from_io_error :: "string \<Rightarrow> durable_error" where
  "durable_from_io_error m = Execution m UnhandledError"

definition durable_from_boxed_error :: "string \<Rightarrow> durable_error" where
  "durable_from_boxed_error m = UserCode m ''UserCodeError'' None"

datatype json_error_category = JsonIo | JsonSyntax | JsonData | JsonEof

definition serdes_from_json_error :: "json_error_category \<Rightarrow> string \<Rightarrow> serdes_error" where
  "serdes_from_json_error cat m =
     (if cat \<in> {JsonIo, JsonSyntax, JsonData} then serdes_error_deserialization m else serdes_error_serialization m)"

text \<open>A text that ends too early cannot be read, yet its error says that a value could not be written.\<close>

lemma truncated_text_is_serialization: "se_kind (serdes_from_json_error JsonEof m) = Serialization_Kind"
  by (simp add: serdes_from_json_error_def serdes_error_serialization_def)

lemma conversions_not_retriable:
  "\<not> is_retriable (durable_from_json_error m)" "\<not> is_retriable (durable_from_io_error m)"
  "\<not> is_retriable (durable_from_boxed_error m)"
  by (simp_all add: durable_from_json_error_def durable_from_io_error_def durable_from_boxed_error_def)

section \<open>The context of a step\<close>

definition step_context_new :: "string \<Rightarrow> string \<Rightarrow> step_context" where
  "step_context_new i arn =
     \<lparr>sc_operation_id = i, sc_parent_id = None, sc_name = None, sc_durable_execution_arn = arn,
      sc_attempt = 0, sc_retry_payload = None\<rparr>"

definition step_context_with_parent_id :: "string \<Rightarrow> step_context \<Rightarrow> step_context" where
  "step_context_with_parent_id p c = c\<lparr>sc_parent_id := Some p\<rparr>"

definition step_context_with_name :: "string \<Rightarrow> step_context \<Rightarrow> step_context" where
  "step_context_with_name n c = c\<lparr>sc_name := Some n\<rparr>"

definition step_context_with_attempt :: "u32 \<Rightarrow> step_context \<Rightarrow> step_context" where
  "step_context_with_attempt n c = c\<lparr>sc_attempt := n\<rparr>"

definition step_context_with_retry_payload :: "string \<Rightarrow> step_context \<Rightarrow> step_context" where
  "step_context_with_retry_payload p c = c\<lparr>sc_retry_payload := Some p\<rparr>"

definition step_serdes_context :: "step_context \<Rightarrow> ser_des_context" where
  "step_serdes_context c = ser_des_context_new (sc_operation_id c) (sc_durable_execution_arn c)"

definition step_retry_payload :: "'a codec \<Rightarrow> step_context \<Rightarrow> string + 'a option" where
  "step_retry_payload k c = (case sc_retry_payload c of
     Some p \<Rightarrow> map_sum id Some (from_json k p) | None \<Rightarrow> Inr None)"

text \<open>The context the handler makes is the one the builder makes from the identifier and the checkpoint; and a payload
  that was written by a codec that reads back what it writes is the value again.\<close>

lemma step_context_for_builder:
  assumes "oi_parent_id oi = Some p" "oi_name oi = Some n" "cr_attempt r = Some a" "cr_retry_payload r = Some y"
  shows "step_context_for s oi r = step_context_with_retry_payload y (step_context_with_attempt a
     (step_context_with_name n (step_context_with_parent_id p (step_context_new (oi_operation_id oi) (es_arn s)))))"
  using assms
  by (simp add: step_context_for_def step_context_new_def step_context_with_parent_id_def step_context_with_name_def
      step_context_with_attempt_def step_context_with_retry_payload_def)

lemma retry_payload_roundtrip:
  assumes "codec_roundtrip k" "to_json k x = Inr p"
  shows "step_retry_payload k (step_context_with_retry_payload p c) = Inr (Some x)"
  using assms by (simp add: step_retry_payload_def step_context_with_retry_payload_def codec_roundtrip_def)

section \<open>The state of an execution\<close>

definition with_batcher :: "string \<Rightarrow> string \<Rightarrow> initial_execution_state \<Rightarrow> exec_state" where
  "with_batcher arn token init = with_batcher_and_mode arn token init checkpointing_mode_default"

definition is_eager_checkpointing :: "exec_state \<Rightarrow> bool" where
  "is_eager_checkpointing s = is_eager (es_checkpointing_mode s)"

definition is_batched_checkpointing :: "exec_state \<Rightarrow> bool" where
  "is_batched_checkpointing s = is_batched (es_checkpointing_mode s)"

definition is_optimistic_checkpointing :: "exec_state \<Rightarrow> bool" where
  "is_optimistic_checkpointing s = is_optimistic (es_checkpointing_mode s)"

definition prioritizes_performance :: "exec_state \<Rightarrow> bool" where
  "prioritizes_performance s = is_optimistic (es_checkpointing_mode s)"

definition prioritizes_durability :: "exec_state \<Rightarrow> bool" where
  "prioritizes_durability s = is_eager (es_checkpointing_mode s)"

definition has_checkpoint_sender :: "exec_state \<Rightarrow> bool" where
  "has_checkpoint_sender s = es_has_sender s"

text \<open>Despite its name this loads nothing: it is the filter of the cache that \<open>get_child_operations\<close> is, in a
  \<open>Result\<close>.\<close>

definition load_child_operations :: "exec_state \<Rightarrow> string \<Rightarrow> durable_error + operation list" where
  "load_child_operations s p = Inr (filter (\<lambda>op. op_parent_id op = Some p) (map snd (es_operations s)))"

lemma load_child_is_get_child: "load_child_operations s p = Inr (get_child_operations s p)"
  by (simp add: load_child_operations_def get_child_operations_def)

lemma one_mode:
  "is_eager_checkpointing s \<or> is_batched_checkpointing s \<or> is_optimistic_checkpointing s"
  "\<not> (prioritizes_performance s \<and> prioritizes_durability s)"
  by (cases "es_checkpointing_mode s"; simp add: is_eager_checkpointing_def is_batched_checkpointing_def
      is_optimistic_checkpointing_def prioritizes_performance_def prioritizes_durability_def
      is_eager_def is_batched_def is_optimistic_def)+

lemma with_batcher_batched:
  "is_batched_checkpointing (with_batcher arn token init)" "has_checkpoint_sender (with_batcher arn token init)"
  by (simp_all add: with_batcher_def with_batcher_and_mode_def with_checkpointing_mode_def Let_def
      checkpointing_mode_default_def is_batched_checkpointing_def is_batched_def has_checkpoint_sender_def)

section \<open>The context\<close>

definition ctx_create_callback_named ::
  "(u8 list \<Rightarrow> u8 list) \<Rightarrow> 'w services \<Rightarrow> string \<Rightarrow> callback_config option \<Rightarrow>
   ('w scope, durable_error, callback_handle) cmd"
where
  "ctx_create_callback_named blake2b sv name config =
     bindE (take_identifier blake2b (Some name)) (\<lambda>oi.
       in_env (track_result (oi_operation_id oi)
         (callback_handler sv oi (case config of Some cfg \<Rightarrow> cfg | None \<Rightarrow> callback_config_default))))"

lemma create_callback_named_eq:
  "ctx_create_callback_named blake2b sv name config = ctx_create_callback blake2b sv (Some name) config"
  by (simp add: ctx_create_callback_named_def ctx_create_callback_def durable_operation_def)

section \<open>The outcomes of combinators\<close>

datatype promise_completion_reason =
    PromisesAllSucceeded | PromisesAllSettled | FirstSettled | FirstSucceeded | PromisesAllFailed | OneFailed

record 'a single_outcome =
  po_index :: nat
  po_succeeded :: bool
  po_result :: "'a option"
  po_error :: "error_object option"

record 'a combinator_result =
  pcr_results :: "'a single_outcome list"
  pcr_winner_index :: "nat option"
  pcr_completion_reason :: promise_completion_reason

definition single_success :: "nat \<Rightarrow> 'a \<Rightarrow> 'a single_outcome" where
  "single_success i x = \<lparr>po_index = i, po_succeeded = True, po_result = Some x, po_error = None\<rparr>"

definition single_failure :: "nat \<Rightarrow> error_object \<Rightarrow> 'a single_outcome" where
  "single_failure i e = \<lparr>po_index = i, po_succeeded = False, po_result = None, po_error = Some e\<rparr>"

section \<open>Items of a batch\<close>

definition bi_is_succeeded :: "'a batch_item \<Rightarrow> bool" where
  "bi_is_succeeded b = item_status_is_success (bi_status b)"

definition bi_is_failed :: "'a batch_item \<Rightarrow> bool" where
  "bi_is_failed b = (bi_status b = ItemFailed)"

definition bi_get_result :: "'a batch_item \<Rightarrow> 'a option" where
  "bi_get_result b = bi_result b"

definition bi_get_error :: "'a batch_item \<Rightarrow> error_object option" where
  "bi_get_error b = bi_error b"

lemma item_views:
  "bi_is_succeeded (item_succeeded i x) \<and> bi_get_result (item_succeeded i x) = Some x"
  "bi_is_failed (item_failed i e) \<and> bi_get_error (item_failed i e) = Some e"
  "\<not> bi_is_failed (item_suspended i) \<and> \<not> bi_is_succeeded (item_suspended i)"
  by (simp_all add: bi_is_succeeded_def bi_is_failed_def bi_get_result_def bi_get_error_def item_defs
      item_status_is_success_def)

section \<open>Operations and updates\<close>

definition display_operation_type :: "operation_type \<Rightarrow> string" where
  "display_operation_type t = (case t of
     ExecutionOp \<Rightarrow> ''Execution'' | StepOp \<Rightarrow> ''Step'' | WaitOp \<Rightarrow> ''Wait'' | CallbackOp \<Rightarrow> ''Callback''
   | InvokeOp \<Rightarrow> ''Invoke'' | ContextOp \<Rightarrow> ''Context'')"

lemma display_operation_type_inject: "display_operation_type s = display_operation_type t \<longleftrightarrow> s = t"
  by (cases s; cases t) (simp_all add: display_operation_type_def)

section \<open>The client from an AWS configuration\<close>

text \<open>What the client takes from the configuration; the HTTP client with its header is of another library, and the
  text of the header is only set if it can be one.\<close>

record 'p aws_config =
  ac_credentials_provider :: "'p option"
  ac_region :: "string option"

record ('p, 'h) service_client =
  lc_http_client :: 'h
  lc_credentials_provider :: 'p
  lc_config :: lambda_client_config

definition client_from_aws_config :: "'h \<Rightarrow> 'p aws_config \<Rightarrow> durable_error + ('p, 'h) service_client" where
  "client_from_aws_config http cfg = (case ac_credentials_provider cfg of
     None \<Rightarrow> Inl (Configuration ''No credentials provider configured in AWS SDK config'')
   | Some p \<Rightarrow> Inr \<lparr>lc_http_client = http, lc_credentials_provider = p,
       lc_config = config_from_aws_config (ac_region cfg)\<rparr>)"

definition client_from_aws_config_with_user_agent ::
  "(string \<Rightarrow> bool) \<Rightarrow> ((string \<times> string) list \<Rightarrow> string + 'h) \<Rightarrow> 'p aws_config \<Rightarrow> string \<Rightarrow> string \<Rightarrow>
   durable_error + ('p, 'h) service_client" where
  "client_from_aws_config_with_user_agent header_ok build cfg sdk_name sdk_version =
     (case ac_credentials_provider cfg of
        None \<Rightarrow> Inl (Configuration ''No credentials provider configured in AWS SDK config'')
      | Some p \<Rightarrow>
          (let user_agent = sdk_name @ ''/'' @ sdk_version;
               headers = (if header_ok user_agent then [(''user-agent'', user_agent)] else [])
           in case build headers of
                Inl e \<Rightarrow> Inl (Configuration (''Failed to build HTTP client: '' @ e))
              | Inr http \<Rightarrow> Inr \<lparr>lc_http_client = http, lc_credentials_provider = p,
                  lc_config = config_from_aws_config (ac_region cfg)\<rparr>))"

definition client_with_config :: "'h \<Rightarrow> 'p \<Rightarrow> lambda_client_config \<Rightarrow> ('p, 'h) service_client" where
  "client_with_config http p cfg = \<lparr>lc_http_client = http, lc_credentials_provider = p, lc_config = cfg\<rparr>"

text \<open>Both constructors talk to the same endpoint, of the region of the configuration or \<open>us-east-1\<close>.\<close>

lemma client_endpoint:
  assumes "client_from_aws_config http cfg = Inr c"
    "client_from_aws_config_with_user_agent ok build cfg n v = Inr c'"
  shows "endpoint_url (lc_config c) = endpoint_url (lc_config c')"
    and "ac_region cfg = Some r \<Longrightarrow> endpoint_url (lc_config c) = ''https://lambda.'' @ r @ ''.amazonaws.com''"
  using assms
  by (auto simp: client_from_aws_config_def client_from_aws_config_with_user_agent_def Let_def endpoint_url_def
      config_from_aws_config_def split: option.splits sum.splits)

section \<open>The mock client\<close>

definition checkpoint_call_new :: "string \<Rightarrow> string \<Rightarrow> operation_update list \<Rightarrow> checkpoint_call" where
  "checkpoint_call_new arn token us = \<lparr>cc_arn = arn, cc_token = token, cc_operations = us\<rparr>"

definition get_operations_call_new :: "string \<Rightarrow> string \<Rightarrow> get_operations_call" where
  "get_operations_call_new arn marker = \<lparr>gc_arn = arn, gc_next_marker = marker\<rparr>"

definition with_checkpoint_response_with_operations ::
  "string \<Rightarrow> operation list \<Rightarrow> mock_client \<Rightarrow> mock_client" where
  "with_checkpoint_response_with_operations token ops m =
     with_checkpoint_response
       (Inr \<lparr>rsp_checkpoint_token = token,
             rsp_new_execution_state = Some \<lparr>nes_operations = ops, nes_next_marker = None\<rparr>\<rparr>) m"

definition clear_checkpoint_calls :: "mock_client \<Rightarrow> mock_client" where
  "clear_checkpoint_calls m = m\<lparr>mc_checkpoint_calls := []\<rparr>"

definition clear_get_operations_calls :: "mock_client \<Rightarrow> mock_client" where
  "clear_get_operations_calls m = m\<lparr>mc_get_operations_calls := []\<rparr>"

definition clear_all_calls :: "mock_client \<Rightarrow> mock_client" where
  "clear_all_calls m = clear_get_operations_calls (clear_checkpoint_calls m)"

definition checkpoint_call_count :: "mock_client \<Rightarrow> nat" where
  "checkpoint_call_count m = length (mc_checkpoint_calls m)"

definition get_operations_call_count :: "mock_client \<Rightarrow> nat" where
  "get_operations_call_count m = length (mc_get_operations_calls m)"

lemma mock_records_call:
  "snd (mock_checkpoint arn token us m) = m' \<Longrightarrow>
     mc_checkpoint_calls m' = mc_checkpoint_calls m @ [checkpoint_call_new arn token us] \<and>
     checkpoint_call_count m' = Suc (checkpoint_call_count m)"
  by (auto simp: mock_checkpoint_def checkpoint_call_new_def checkpoint_call_count_def Let_def split: list.splits)

lemma clear_keeps_responses:
  "mc_checkpoint_responses (clear_all_calls m) = mc_checkpoint_responses m"
  "checkpoint_call_count (clear_all_calls m) = 0" "get_operations_call_count (clear_all_calls m) = 0"
  by (simp_all add: clear_all_calls_def clear_checkpoint_calls_def clear_get_operations_calls_def
      checkpoint_call_count_def get_operations_call_count_def)

end
